(* ===== verification/Base.thy ===== *)
theory Base
  imports Main "HOL-Library.Word"
begin

unbundle bit_operations_syntax

text \<open>
  Shared vocabulary of the development: machine words, byte buffers with the C accesses
  the emulator makes on them (\<open>put32\<close>, unaligned little-endian loads, \<open>memcpy\<close>), C strings,
  and the linear scans over fixed tables that every name or id lookup of
  \<open>src/emulator/heros_rtos.c\<close> is made of.  The generic lemmas about them are collected in
  \<open>table_simps\<close> and \<open>byte_simps\<close>.
\<close>

named_theorems table_simps \<open>scans and updates of the fixed tables\<close>
named_theorems byte_simps \<open>loads and stores on byte buffers\<close>

section \<open>Machine integers\<close>

type_synonym u8 = "8 word"
type_synonym u16 = "16 word"
type_synonym u32 = "32 word"
type_synonym i32 = "32 word"   \<comment> \<open>C \<open>int32_t\<close>: read with \<open>sint\<close>\<close>

text \<open>C integer division and remainder truncate towards zero.\<close>

definition cdiv :: "int \<Rightarrow> int \<Rightarrow> int" where
  "cdiv a b = sgn a * sgn b * (\<bar>a\<bar> div \<bar>b\<bar>)"

definition cmod :: "int \<Rightarrow> int \<Rightarrow> int" where
  "cmod a b = a - cdiv a b * b"

lemma unat_lt32: "unat (x :: u32) < 2 ^ 32"
  using unsigned_less [of x, where ?'a = nat] by simp

definition has_bits :: "u32 \<Rightarrow> u32 \<Rightarrow> bool" where
  "has_bits x m \<longleftrightarrow> x AND m \<noteq> 0"

lemma cdiv_nonneg: "0 \<le> a \<Longrightarrow> 0 < b \<Longrightarrow> cdiv a b = a div b"
  by (cases "a = 0") (simp_all add: cdiv_def)

lemma cmod_nonneg: "0 \<le> a \<Longrightarrow> 0 < b \<Longrightarrow> cmod a b = a mod b"
  by (simp add: cmod_def cdiv_nonneg minus_div_mult_eq_mod)

text \<open>Signed readings of words.\<close>

lemma sign_bit: "(v AND 0x80000000 = 0) = (0 \<le> sint v)" for v :: u32
proof -
  have "(0x80000000 :: u32) = 2 ^ 31" by simp
  then have "(v AND 0x80000000 = 0) = (\<not> bit v 31)" by (simp only: and_exp_eq_0_iff_not_bit)
  also have "\<dots> = (0 \<le> sint v)" using bit_last_iff [of v] by (simp add: not_less)
  finally show ?thesis .
qed

lemma sint_uint_nonneg: "0 \<le> sint v \<Longrightarrow> uint v = sint v" for v :: u32
  using sint_lt [of v] by (simp add: uint_sint take_bit_int_eq_self)

lemma sint_of_small: "- (2 ^ 31) \<le> x \<Longrightarrow> x < 2 ^ 31 \<Longrightarrow> sint (word_of_int x :: u32) = x"
  by (simp add: sint_sbintrunc' signed_take_bit_int_eq_self)

lemma sint_neg: "- (2 ^ 31) < sint v \<Longrightarrow> sint (- v) = - sint v" for v :: u32
proof -
  assume h: "- (2 ^ 31) < sint v"
  have "- v = word_of_int (- sint v)" by simp
  then show ?thesis using sint_of_small [of "- sint v"] h sint_lt [of v] by simp
qed

lemma sint_unat_small: "unat v < 2 ^ 31 \<Longrightarrow> sint v = int (unat v)" for v :: u32
proof -
  assume "unat v < 2 ^ 31"
  then have "int (unat v) < int (2 ^ 31)" by (simp only: of_nat_less_iff)
  then have "uint v < 2 ^ 31" by simp
  moreover have "- (2 ^ 31) \<le> uint v" by (rule order.trans [OF _ uint_ge_0]) simp
  ultimately have "signed_take_bit 31 (uint v) = uint v" by (rule signed_take_bit_int_eq_self [rotated])
  then show ?thesis using sint_sbintrunc' [of "uint v", where 'a = 32] by simp
qed

section \<open>Fixed tables\<close>

text \<open>
  The emulator's tables are C arrays searched from index 0; the first hit wins.
\<close>

fun find_index :: "('a \<Rightarrow> bool) \<Rightarrow> 'a list \<Rightarrow> nat option" where
  "find_index P [] = None"
| "find_index P (x # xs) = (if P x then Some 0 else map_option Suc (find_index P xs))"

lemma find_index_None [table_simps]: "find_index P xs = None \<longleftrightarrow> (\<forall>x\<in>set xs. \<not> P x)"
  by (induction xs) auto

lemma find_index_SomeD:
  assumes "find_index P xs = Some i"
  shows find_index_less: "i < length xs" and find_index_holds: "P (xs ! i)"
    and find_index_first: "\<And>j. j < i \<Longrightarrow> \<not> P (xs ! j)"
proof -
  have "i < length xs \<and> P (xs ! i) \<and> (\<forall>j<i. \<not> P (xs ! j))"
    using assms
  proof (induction xs arbitrary: i)
    case Nil
    then show ?case by simp
  next
    case (Cons x xs)
    then show ?case by (auto split: if_splits simp: nth_Cons split: nat.splits)
  qed
  then show "i < length xs" "P (xs ! i)" "\<And>j. j < i \<Longrightarrow> \<not> P (xs ! j)" by auto
qed

lemma find_index_SomeI:
  "i < length xs \<Longrightarrow> P (xs ! i) \<Longrightarrow> (\<And>j. j < i \<Longrightarrow> \<not> P (xs ! j)) \<Longrightarrow> find_index P xs = Some i"
proof (induction xs arbitrary: i)
  case Nil
  then show ?case by simp
next
  case (Cons x xs)
  show ?case
  proof (cases i)
    case 0
    with Cons.prems show ?thesis by simp
  next
    case (Suc k)
    have "\<not> P x" using Cons.prems(3) [of 0] Suc by simp
    moreover have "find_index P xs = Some k"
    proof (rule Cons.IH)
      show "k < length xs" and "P (xs ! k)" using Cons.prems Suc by auto
      show "\<not> P (xs ! j)" if "j < k" for j using Cons.prems(3) [of "Suc j"] that Suc by simp
    qed
    ultimately show ?thesis using Suc by simp
  qed
qed

lemma find_index_ex: "x \<in> set xs \<Longrightarrow> P x \<Longrightarrow> \<exists>i. find_index P xs = Some i"
  using find_index_None [of P xs] by (cases "find_index P xs") auto

lemma find_index_cong:
  "length xs = length ys \<Longrightarrow> (\<And>i. i < length xs \<Longrightarrow> P (xs ! i) = Q (ys ! i))
    \<Longrightarrow> find_index P xs = find_index Q ys"
proof (induction xs ys rule: list_induct2)
  case (Cons x xs y ys)
  have "P x = Q y" using Cons.prems [of 0] by simp
  moreover have "find_index P xs = find_index Q ys"
    by (rule Cons.IH) (use Cons.prems [of "Suc i" for i] in auto)
  ultimately show ?case by simp
qed simp

text \<open>A scan by a key that no two live entries share finds exactly the live entry.\<close>

lemma find_index_unique:
  assumes "i < length xs" and "P (xs ! i)"
    and "\<And>j. j < length xs \<Longrightarrow> P (xs ! j) \<Longrightarrow> j = i"
  shows "find_index P xs = Some i"
proof (rule find_index_SomeI)
  show "i < length xs" and "P (xs ! i)" by (fact assms)+
  show "\<not> P (xs ! j)" if "j < i" for j
    using assms(1) assms(3) [of j] that by auto
qed

lemma find_index_None_update:
  assumes "\<not> P e" and "\<And>j. j < length xs \<Longrightarrow> j \<noteq> k \<Longrightarrow> \<not> P (xs ! j)"
  shows "find_index P (xs[k := e]) = None"
proof -
  have "\<not> P (xs[k := e] ! i)" if "i < length xs" for i
    using assms that by (cases "i = k") simp_all
  then show ?thesis unfolding find_index_None by (simp add: all_set_conv_all_nth)
qed

lemma find_index_fresh:
  assumes "find_index P xs = None" and "k < length xs" and "P e"
  shows "find_index P (xs[k := e]) = Some k"
proof (rule find_index_unique)
  show "j = k" if "j < length (xs[k := e])" "P (xs[k := e] ! j)" for j
    using that assms by (cases "j = k") (auto simp: find_index_None)
qed (use assms in simp_all)

section \<open>Byte buffers\<close>

text \<open>
  A buffer is the list of the bytes written so far; the C arrays live in a zero-filled shared
  mapping, so a byte that was never written reads as 0.
\<close>

definition byte_at :: "u8 list \<Rightarrow> nat \<Rightarrow> u8" where
  "byte_at bs i = (if i < length bs then bs ! i else 0)"

definition get32 :: "u8 list \<Rightarrow> nat \<Rightarrow> u32" where
  "get32 bs i = ucast (byte_at bs i) OR push_bit 8 (ucast (byte_at bs (i + 1)))
     OR push_bit 16 (ucast (byte_at bs (i + 2))) OR push_bit 24 (ucast (byte_at bs (i + 3)))"

definition le32 :: "u32 \<Rightarrow> u8 list" where
  "le32 v = [ucast v, ucast (drop_bit 8 v), ucast (drop_bit 16 v), ucast (drop_bit 24 v)]"

text \<open>\<open>memcpy(buf + i, new, length new)\<close>.\<close>

definition overlay :: "nat \<Rightarrow> u8 list \<Rightarrow> u8 list \<Rightarrow> u8 list" where
  "overlay i new old = take i (old @ replicate i 0) @ new @ drop (i + length new) old"

definition put32 :: "u8 list \<Rightarrow> nat \<Rightarrow> u32 \<Rightarrow> u8 list" where
  "put32 bs i v = overlay i (le32 v) bs"

text \<open>The first \<open>n\<close> bytes of a buffer.\<close>

definition bytes_upto :: "nat \<Rightarrow> u8 list \<Rightarrow> u8 list" where
  "bytes_upto n bs = take n (bs @ replicate n 0)"

lemma length_le32 [simp, byte_simps]: "length (le32 v) = 4"
  by (simp add: le32_def)

lemma length_bytes_upto [simp, byte_simps]: "length (bytes_upto n bs) = n"
  by (simp add: bytes_upto_def)

lemma bytes_upto_self [byte_simps]: "n = length bs \<Longrightarrow> bytes_upto n bs = bs"
  by (simp add: bytes_upto_def)

lemma bytes_upto_append [byte_simps]: "n = length bs \<Longrightarrow> bytes_upto n (bs @ cs) = bs"
  by (simp add: bytes_upto_def)

lemma byte_at_append [byte_simps]:
  "byte_at (xs @ ys) i = (if i < length xs then xs ! i else byte_at ys (i - length xs))"
  by (auto simp: byte_at_def nth_append)

lemma get32_append_right [byte_simps]:
  "i = length xs \<Longrightarrow> get32 (xs @ ys) i = get32 ys 0"
  by (simp add: get32_def byte_at_append eval_nat_numeral)

lemma get32_append_left [byte_simps]:
  "i + 4 \<le> length xs \<Longrightarrow> get32 (xs @ ys) i = get32 xs i"
  by (simp add: get32_def byte_at_append) (simp add: byte_at_def)

lemma word32_bytes:
  fixes v :: u32
  shows "ucast (ucast v :: u8) OR push_bit 8 (ucast (ucast (drop_bit 8 v) :: u8))
      OR push_bit 16 (ucast (ucast (drop_bit 16 v) :: u8))
      OR push_bit 24 (ucast (ucast (drop_bit 24 v) :: u8)) = v"
proof (rule bit_word_eqI)
  fix n :: nat
  assume n: "n < LENGTH(32)"
  consider "n < 8" | "8 \<le> n \<and> n < 16" | "16 \<le> n \<and> n < 24" | "24 \<le> n \<and> n < 32"
    using n by force
  then show "bit ((ucast (ucast v :: u8) :: u32) OR push_bit 8 (ucast (ucast (drop_bit 8 v) :: u8))
      OR push_bit 16 (ucast (ucast (drop_bit 16 v) :: u8))
      OR push_bit 24 (ucast (ucast (drop_bit 24 v) :: u8))) n = bit v n"
    by cases (auto simp: bit_simps)
qed

lemma get32_le32 [simp, byte_simps]: "get32 (le32 v) 0 = v"
  unfolding get32_def le32_def byte_at_def using word32_bytes [of v] by simp

lemma get32_le32_append [simp, byte_simps]: "get32 (le32 v @ ys) 0 = v"
  by (simp add: get32_append_left)

lemma length_overlay:
  "length (overlay i new old) = max (i + length new) (length old)"
  by (simp add: overlay_def)

lemma byte_at_overlay:
  "byte_at (overlay i new old) k =
     (if i \<le> k \<and> k < i + length new then new ! (k - i) else byte_at old k)"
  by (auto simp: overlay_def byte_at_append byte_at_def nth_append min_def not_less)

lemma get32_put32_same [simp, byte_simps]: "get32 (put32 bs i v) i = v"
proof -
  have "get32 (put32 bs i v) i = get32 (le32 v) 0"
    by (simp add: get32_def put32_def byte_at_overlay) (simp add: byte_at_def le32_def)
  then show ?thesis by simp
qed

lemma get32_put32_other [byte_simps]:
  "i + 4 \<le> j \<or> j + 4 \<le> i \<Longrightarrow> get32 (put32 bs i v) j = get32 bs j"
  by (auto simp: get32_def put32_def byte_at_overlay)

lemma get32_overlay_other [byte_simps]:
  "i + length new \<le> j \<or> j + 4 \<le> i \<Longrightarrow> get32 (overlay i new bs) j = get32 bs j"
  by (auto simp: get32_def byte_at_overlay)

lemma get32_zeros [byte_simps]: "get32 (replicate n 0) j = 0"
  by (simp add: get32_def byte_at_def)

lemma length_put32 [byte_simps]: "length (put32 bs i v) = max (i + 4) (length bs)"
  by (simp add: put32_def length_overlay)

lemma get32_take [byte_simps]: "i + 4 \<le> n \<Longrightarrow> get32 (take n bs) i = get32 bs i"
  by (simp add: get32_def byte_at_def)

section \<open>C strings\<close>

text \<open>
  A C string is modelled by the characters before its terminating NUL.  \<open>NAMELEN\<close> is 32: names
  are stored with \<open>strncpy(.., NAMELEN-1)\<close> and compared with \<open>strncmp(.., NAMELEN-1)\<close>.
\<close>

definition NAMELEN :: nat where "NAMELEN = 32"

definition name_store :: "string \<Rightarrow> string" where
  "name_store s = take (NAMELEN - 1) s"

definition name_eq :: "string \<Rightarrow> string \<Rightarrow> bool" where
  "name_eq a b \<longleftrightarrow> take (NAMELEN - 1) a = take (NAMELEN - 1) b"

definition cstr_of :: "u8 list \<Rightarrow> string" where
  "cstr_of bs = map (\<lambda>b. char_of (unat b)) (takeWhile (\<lambda>b. b \<noteq> 0) bs)"

definition bytes_of :: "string \<Rightarrow> u8 list" where
  "bytes_of s = map (\<lambda>c. of_nat (of_char c)) s"

text \<open>\<open>strstr(s, pat) != NULL\<close>, \<open>strncmp(s, pat, strlen(pat)) == 0\<close>.\<close>

definition has_prefix :: "string \<Rightarrow> string \<Rightarrow> bool" where
  "has_prefix pat s \<longleftrightarrow> take (length pat) s = pat"

fun has_sub :: "string \<Rightarrow> string \<Rightarrow> bool" where
  "has_sub pat [] = (pat = [])"
| "has_sub pat (c # cs) = (has_prefix pat (c # cs) \<or> has_sub pat cs)"

declare has_sub.simps [simp del]

definition has_char :: "char \<Rightarrow> string \<Rightarrow> bool" where
  "has_char c s = list_ex (\<lambda>x. x = c) s"

text \<open>What stands before and after the last \<open>c\<close> (\<open>strrchr\<close>) or the first one (\<open>strchr\<close>).\<close>

definition before_last :: "char \<Rightarrow> string \<Rightarrow> string" where
  "before_last c s = (if has_char c s then rev (tl (dropWhile (\<lambda>x. x \<noteq> c) (rev s))) else s)"

definition after_last :: "char \<Rightarrow> string \<Rightarrow> string" where
  "after_last c s = rev (takeWhile (\<lambda>x. x \<noteq> c) (rev s))"

definition after_first :: "char \<Rightarrow> string \<Rightarrow> string" where
  "after_first c s = (if has_char c s then tl (dropWhile (\<lambda>x. x \<noteq> c) s) else s)"

lemma name_eq_refl [simp]: "name_eq a a"
  by (simp add: name_eq_def)

lemma name_eq_sym: "name_eq a b \<longleftrightarrow> name_eq b a"
  by (auto simp: name_eq_def)

lemma name_eq_trans: "name_eq a b \<Longrightarrow> name_eq b c \<Longrightarrow> name_eq a c"
  by (simp add: name_eq_def)

lemma name_eq_store [simp]: "name_eq (name_store a) b = name_eq a b" "name_eq a (name_store b) = name_eq a b"
  by (simp_all add: name_eq_def name_store_def)

lemma length_name_store [simp]: "length (name_store s) < NAMELEN"
  by (simp add: name_store_def NAMELEN_def)

lemma name_eq_short:
  "length a < NAMELEN \<Longrightarrow> length b < NAMELEN \<Longrightarrow> name_eq a b \<longleftrightarrow> a = b"
  by (auto simp: name_eq_def NAMELEN_def)

lemma length_bytes_of [simp]: "length (bytes_of s) = length s"
  by (simp add: bytes_of_def)

lemma unat_of_char: "unat (of_nat (of_char c) :: u8) = of_char c"
proof -
  have "of_char c < (256 :: nat)" by (cases c) (simp add: of_char_def horner_sum_simps)
  then show ?thesis by (simp add: unat_of_nat take_bit_eq_mod)
qed

lemma cstr_of_bytes_of: "CHR 0x00 \<notin> set s \<Longrightarrow> cstr_of (bytes_of s @ 0 # bs) = s"
proof (induction s)
  case Nil
  then show ?case by (simp add: cstr_of_def bytes_of_def)
next
  case (Cons c s)
  have "(of_nat (of_char c) :: u8) \<noteq> 0"
  proof
    assume "(of_nat (of_char c) :: u8) = 0"
    then have "unat (of_nat (of_char c) :: u8) = 0" by simp
    then have "of_char c = (0 :: nat)" by (simp only: unat_of_char)
    then have "of_char c = (of_char (CHR 0x00) :: nat)" by simp
    then have "c = CHR 0x00" by (rule of_char_eqI)
    with Cons.prems show False by simp
  qed
  with Cons show ?case by (simp add: cstr_of_def bytes_of_def unat_of_char)
qed

text \<open>Hexadecimal rendering, as \<open>snprintf("%05X")\<close> prints it.\<close>

definition hex_digit :: "nat \<Rightarrow> char" where
  "hex_digit n = (if n < 10 then char_of (48 + n) else char_of (55 + n))"

fun hex_digits :: "nat \<Rightarrow> u32 \<Rightarrow> string" where
  "hex_digits 0 v = []"
| "hex_digits (Suc k) v = hex_digits k (drop_bit 4 v) @ [hex_digit (unat (v AND 15))]"

text \<open>\<open>%05X\<close>: at least five digits, more when the value needs them.\<close>

definition hex_width :: "u32 \<Rightarrow> nat" where
  "hex_width v = (if v < 0x100000 then 5 else if v < 0x1000000 then 6
                  else if v < 0x10000000 then 7 else 8)"

definition hex05 :: "u32 \<Rightarrow> string" where
  "hex05 v = hex_digits (hex_width v) v"

end
