(* ===== verification/Registry.thy ===== *)
theory Registry
  imports Base
begin

text \<open>
  The four object tables of the control segment (tasks, semaphores, queues, regions) follow one
  discipline: an entry is live when its \<open>used\<close> field is set, ids come from a counter that only
  grows, and an id is resolved by a linear scan.  The locale states that discipline once; each
  component interprets it on its own record.
\<close>

section \<open>Scans by id\<close>

definition slot_of :: "('e \<Rightarrow> bool) \<Rightarrow> ('e \<Rightarrow> u32) \<Rightarrow> 'e list \<Rightarrow> u32 \<Rightarrow> nat option" where
  "slot_of used ident tab i = find_index (\<lambda>e. used e \<and> ident e = i) tab"

definition free_slot :: "('e \<Rightarrow> bool) \<Rightarrow> 'e list \<Rightarrow> nat option" where
  "free_slot used tab = find_index (\<lambda>e. \<not> used e) tab"

text \<open>Every live entry has a nonzero id below the counter, and no two live entries share one.\<close>

definition ids_ok :: "('e \<Rightarrow> bool) \<Rightarrow> ('e \<Rightarrow> u32) \<Rightarrow> u32 \<Rightarrow> 'e list \<Rightarrow> bool" where
  "ids_ok used ident nxt tab \<longleftrightarrow>
     (\<forall>i<length tab. used (tab ! i) \<longrightarrow> ident (tab ! i) \<noteq> 0 \<and> ident (tab ! i) < nxt) \<and>
     (\<forall>i<length tab. \<forall>j<length tab.
        used (tab ! i) \<longrightarrow> used (tab ! j) \<longrightarrow> ident (tab ! i) = ident (tab ! j) \<longrightarrow> i = j)"

lemma slot_of_SomeD:
  "slot_of used ident tab i = Some k \<Longrightarrow> k < length tab \<and> used (tab ! k) \<and> ident (tab ! k) = i"
  unfolding slot_of_def by (auto dest: find_index_less find_index_holds)

lemma slot_of_live:
  "ids_ok used ident nxt tab \<Longrightarrow> k < length tab \<Longrightarrow> used (tab ! k)
    \<Longrightarrow> slot_of used ident tab (ident (tab ! k)) = Some k"
  unfolding slot_of_def by (rule find_index_unique) (auto simp: ids_ok_def)

lemma free_slot_SomeD:
  "free_slot used tab = Some k \<Longrightarrow> k < length tab \<and> \<not> used (tab ! k)"
  unfolding free_slot_def by (auto dest: find_index_less find_index_holds)

lemma free_slot_None: "free_slot used tab = None \<longleftrightarrow> (\<forall>e\<in>set tab. used e)"
  by (simp add: free_slot_def table_simps)

lemma find_index_replicate [table_simps]:
  "find_index P (replicate n x) = (if 0 < n \<and> P x then Some 0 else None)"
  by (induction n) auto

lemma free_slot_replicate [table_simps]:
  "free_slot used (replicate n x) = (if 0 < n \<and> \<not> used x then Some 0 else None)"
  by (simp add: free_slot_def find_index_replicate)

lemma slot_of_replicate [table_simps]:
  "\<not> used x \<Longrightarrow> slot_of used ident (replicate n x) i = None"
  by (simp add: slot_of_def find_index_replicate)

lemma ids_ok_zero: "(\<forall>e\<in>set tab. \<not> used e) \<Longrightarrow> ids_ok used ident nxt tab"
  by (simp add: ids_ok_def)

lemma ids_ok_mono: "ids_ok used ident nxt tab \<Longrightarrow> nxt \<le> nxt' \<Longrightarrow> ids_ok used ident nxt' tab"
  unfolding ids_ok_def by (meson order_less_le_trans)

text \<open>Freeing an entry, or changing fields other than \<open>used\<close> and the id.\<close>

lemma ids_ok_update:
  assumes "ids_ok used ident nxt tab"
    and "used e \<Longrightarrow> used (tab ! k) \<and> ident e = ident (tab ! k)"
  shows "ids_ok used ident nxt (tab[k := e])"
proof (cases "k < length tab")
  case True
  then show ?thesis
    using assms by (auto simp: ids_ok_def nth_list_update)
next
  case False
  then show ?thesis using assms(1) by (simp add: list_update_beyond)
qed

lemma slot_of_update:
  assumes "k < length tab" and "used e = used (tab ! k)" and "ident e = ident (tab ! k)"
  shows "slot_of used ident (tab[k := e]) i = slot_of used ident tab i"
  unfolding slot_of_def by (rule find_index_cong) (use assms in \<open>auto simp: nth_list_update\<close>)

section \<open>The registry discipline\<close>

locale id_registry =
  fixes used :: "'e \<Rightarrow> bool" and ident :: "'e \<Rightarrow> u32" and mk :: "u32 \<Rightarrow> 'e \<Rightarrow> 'e"
  assumes mk_used: "used (mk i e)" and mk_ident: "ident (mk i e) = i"
begin

text \<open>Allocating the next id in a free slot keeps the discipline and makes the id resolvable.\<close>

lemma alloc_ids_ok:
  assumes ok: "ids_ok used ident nxt tab" and "nxt \<noteq> 0" and "nxt + 1 \<noteq> 0"
    and free: "free_slot used tab = Some k"
  shows "ids_ok used ident (nxt + 1) (tab[k := mk nxt (tab ! k)])"
proof -
  have k: "k < length tab" using free_slot_SomeD [OF free] by simp
  have lt: "x < nxt + 1" if "x < nxt" for x :: u32
    using that assms(3) by unat_arith
  have top: "nxt < nxt + 1" using assms(3) by unat_arith
  show ?thesis
    using ok k top assms(2) lt
    by (auto simp: ids_ok_def nth_list_update mk_used mk_ident)
qed

lemma alloc_resolves:
  assumes ok: "ids_ok used ident nxt tab" and free: "free_slot used tab = Some k"
  shows "slot_of used ident (tab[k := mk nxt (tab ! k)]) nxt = Some k"
  unfolding slot_of_def
proof (rule find_index_unique)
  have k: "k < length tab" using free_slot_SomeD [OF free] by simp
  then show "k < length (tab[k := mk nxt (tab ! k)])" by simp
  show "used (tab[k := mk nxt (tab ! k)] ! k) \<and> ident (tab[k := mk nxt (tab ! k)] ! k) = nxt"
    using k by (simp add: mk_used mk_ident)
  show "j = k" if "j < length (tab[k := mk nxt (tab ! k)])"
    and "used (tab[k := mk nxt (tab ! k)] ! j) \<and> ident (tab[k := mk nxt (tab ! k)] ! j) = nxt" for j
    using that ok by (cases "j = k") (auto simp: ids_ok_def)
qed

lemma alloc_keeps:
  assumes free: "free_slot used tab = Some k" and "i \<noteq> nxt"
  shows "slot_of used ident (tab[k := mk nxt (tab ! k)]) i = slot_of used ident tab i"
  unfolding slot_of_def
  by (rule find_index_cong)
    (use assms(2) free_slot_SomeD [OF free] in \<open>auto simp: nth_list_update mk_ident\<close>)

end

end
