(* ===== verification/Segment.thy ===== *)
theory Segment
  imports Registry
begin

text \<open>
  The state of the emulator: the shared control segment \<open>struct ctl\<close> of
  \<open>src/emulator/heros_rtos.c\<close>, the static variables of one process, the environment switches
  (read once with \<open>getenv\<close> and cached in statics, hence constants of the model), and the state
  \<open>st\<close> in which one thread executes one heroscall.  The segment is passed and returned
  explicitly; every section that the C code runs under \<open>C->lock\<close> is one function here.
\<close>

section \<open>Capacities\<close>

definition MAXTASK :: nat where "MAXTASK = 512"
definition MAXSEM :: nat where "MAXSEM = 512"
definition MAXQ :: nat where "MAXQ = 3072"
definition MAXREG :: nat where "MAXREG = 256"
definition QSLOTS :: nat where "QSLOTS = 12"
definition QMSGCAP :: nat where "QMSGCAP = 20480"
definition EVTRING :: nat where "EVTRING = 32"
definition EVTMSGCAP :: nat where "EVTMSGCAP = 16384"

section \<open>The control segment\<close>

record task =
  t_used :: bool
  t_id :: u32
  t_tgid :: i32
  t_tid :: i32
  t_name :: string
  t_pname :: string
  t_events :: u32
  t_started :: u32
  t_ctx_dst :: u32
  t_arg_dst :: u32
  t_msgsize :: u32
  t_as_pending :: u32
  t_as_mask :: u32
  t_last_ev_want :: u32
  t_nowait_miss :: u32
  t_autofire_n :: u32
  t_last_req_family :: u32

record sem =
  s_used :: bool
  s_id :: u32
  s_name :: string
  s_count :: i32

record qmsg =
  m_len :: u32
  m_hdr :: "u32 \<times> u32 \<times> u32"
  m_data :: "u8 list"

record queue =
  q_used :: bool
  q_id :: u32
  q_name :: string
  q_drop_warned :: bool
  q_synth :: bool
  q_depth :: u32
  q_flags :: u32
  q_owner :: u32
  q_notify :: u32
  q_head :: u32
  q_tail :: u32
  q_wm_off :: u32
  q_wm_last :: u32
  q_msg :: "qmsg list"

record region =
  r_used :: bool
  r_id :: u32
  r_name :: string
  r_size :: u32

record ctl =
  c_magic :: nat
  c_next_task :: u32
  c_next_sem :: u32
  c_next_q :: u32
  c_next_reg :: u32
  c_orphan_tc :: u32
  c_tasks :: "task list"
  c_sems :: "sem list"
  c_queues :: "queue list"
  c_regs :: "region list"
  c_evt_ring_n :: u32
  c_evt_ring :: "(u32 \<times> u8 list) list"
  c_sk_flow_posted :: u32
  c_wm_activate_posted :: u32
  c_hwserver_alive :: bool

text \<open>A freshly truncated segment file is zero.\<close>

definition zero_task :: task where
  "zero_task = \<lparr>t_used = False, t_id = 0, t_tgid = 0, t_tid = 0, t_name = [], t_pname = [],
     t_events = 0, t_started = 0, t_ctx_dst = 0, t_arg_dst = 0, t_msgsize = 0, t_as_pending = 0,
     t_as_mask = 0, t_last_ev_want = 0, t_nowait_miss = 0, t_autofire_n = 0,
     t_last_req_family = 0\<rparr>"

definition zero_sem :: sem where
  "zero_sem = \<lparr>s_used = False, s_id = 0, s_name = [], s_count = 0\<rparr>"

definition zero_qmsg :: qmsg where
  "zero_qmsg = \<lparr>m_len = 0, m_hdr = (0, 0, 0), m_data = []\<rparr>"

definition zero_queue :: queue where
  "zero_queue = \<lparr>q_used = False, q_id = 0, q_name = [], q_drop_warned = False, q_synth = False,
     q_depth = 0, q_flags = 0, q_owner = 0, q_notify = 0, q_head = 0, q_tail = 0, q_wm_off = 0,
     q_wm_last = 0, q_msg = replicate QSLOTS zero_qmsg\<rparr>"

definition zero_region :: region where
  "zero_region = \<lparr>r_used = False, r_id = 0, r_name = [], r_size = 0\<rparr>"

definition zero_ctl :: ctl where
  "zero_ctl = \<lparr>c_magic = 0, c_next_task = 0, c_next_sem = 0, c_next_q = 0, c_next_reg = 0,
     c_orphan_tc = 0, c_tasks = replicate MAXTASK zero_task, c_sems = replicate MAXSEM zero_sem,
     c_queues = replicate MAXQ zero_queue, c_regs = replicate MAXREG zero_region,
     c_evt_ring_n = 0, c_evt_ring = replicate EVTRING (0, []), c_sk_flow_posted = 0,
     c_wm_activate_posted = 0, c_hwserver_alive = False\<rparr>"

text \<open>
  \<open>ctl_init\<close>: the process that finds \<open>magic = 0\<close> initialises the id counters, the others wait
  until \<open>magic = 2\<close> (\<open>None\<close>: still spinning).
\<close>

definition ctl_init :: "ctl \<Rightarrow> ctl option" where
  "ctl_init c =
     (if c_magic c = 0 then
        Some (c\<lparr>c_next_task := 0x100, c_next_sem := 0x200, c_next_q := 0x300,
                c_next_reg := 0x4000, c_magic := 2\<rparr>)
      else if c_magic c = 2 then Some c else None)"

section \<open>Environment switches\<close>

record ev_cfg =
  e_unblock_ms :: int             \<comment> \<open>\<open>HEROSCALL_EV_UNBLOCK_MS\<close>, -1 when unset\<close>
  e_inject_want :: u32
  e_inject_bit :: u32
  e_force_task :: u32
  e_force_bit :: u32
  e_timeout_cap :: int
  e_nowait_yield :: int
  e_nowait_yield_n :: int
  e_sysfire :: bool               \<comment> \<open>\<open>HEROSCALL_SYSEVENT_AUTOFIRE\<close>\<close>
  e_firemask :: u32
  e_firelimit :: int
  e_qnotify_level :: bool
  e_events_bridge :: bool         \<comment> \<open>\<open>HEROS_EVENTS_PIPE\<close>\<close>
  e_evdev_sibling :: bool
  e_sigwake :: bool
  e_as_deliver :: bool
  e_timers_fire :: bool
  e_sem_force_ms :: int
  e_sem_autocount :: i32
  e_tm_periodic :: bool           \<comment> \<open>\<open>HEROS_TM_PERIODIC\<close>\<close>
  e_wkafter_cap :: int            \<comment> \<open>\<open>HEROSCALL_TM_WKAFTER_CAP_MS\<close>, 3000 when unset\<close>

record q_cfg =
  k_autocreate :: bool            \<comment> \<open>\<open>HEROSCALL_AUTO_QUEUE\<close>\<close>
  k_qident_notify :: bool
  k_qident_dotlead :: bool
  k_qread_maxwait :: u32
  k_sync_timeout :: u32
  k_evt_relay :: "string option"
  k_cfg_reply_route :: bool
  k_sk_reply_route :: bool
  k_sk_reply_force :: bool
  k_rts_family_route :: bool
  k_wm_serial_fix :: bool
  k_area_rect_force :: bool
  k_bar_rect :: "u32 \<times> u32 \<times> u32 \<times> u32"
  k_wmq_break :: bool
  k_wmq_break_n :: nat
  k_wm_timer :: bool              \<comment> \<open>\<open>HEROSCALL_INJECT_WMGR_TIMER\<close>\<close>
  k_wm_settle_ms :: int
  k_pname_reg :: bool
  k_pident_self :: bool
  k_grf_stub :: bool

record inj_cfg =
  j_winmgr :: bool
  j_winmgr_name :: string
  j_fmload :: bool
  j_fmload_present :: bool
  j_fmload_img :: "string option"
  j_fmload_proc :: "string option"
  j_subsys :: bool
  j_subsys_reg :: bool
  j_fmload_set :: "string list option"  \<comment> \<open>the lines \<open>fgets\<close> yields from the set file\<close>
  j_fmload_max :: int
  j_wmgr_ack :: bool
  j_wmgr_root :: u32
  j_wmgr_screen :: bool
  j_area_ack :: bool
  j_sk_activate :: bool
  j_sk_act_thresh :: int
  j_sk_act_settle :: int
  j_sk_act_screen :: "u32 option"
  j_sk_act_handle :: u32
  j_sk_act_group :: u32
  j_sk_act_queue :: string
  j_sk_act_bool :: bool
  j_hws_stub :: bool
  j_replay :: bool
  j_upd :: bool
  j_ack :: bool
  j_evt_ack :: bool
  j_peer_ack :: bool
  j_cm_grant :: bool
  j_evterr_defer :: bool
  j_active_hw :: bool
  j_active_hw_file :: "u8 list"         \<comment> \<open>the bytes \<open>fread\<close> got, empty without a file\<close>
  j_reread :: bool

section \<open>Process state\<close>

record timespec =
  tv_sec :: int
  tv_nsec :: int

record evdev =
  d_task :: u32
  d_rd :: int
  d_wr :: int
  d_sysmask :: u32
  d_signaled :: bool

record wmtmr =
  w_replyq :: u32
  w_timerid :: u32
  w_period :: u32

text \<open>Static variables of the injection code, one copy per process.\<close>

record inj =
  i_winmgr_injected :: bool
  i_in_winmgr :: bool
  i_fmload_injected :: bool
  i_in_fmload :: bool
  i_in_evt_relay :: bool
  i_sk_fired :: bool
  i_sk_screen :: u32
  i_sk_count :: int
  i_sk_login_seen :: bool
  i_sk_login_settle :: int
  i_runup_done :: bool
  i_reread_done :: bool
  i_replayed :: bool
  i_cfgq_n :: nat
  i_cfgq_rec :: "u8 list list"
  i_acked :: "u32 list"
  i_evt_acked :: "u32 list"
  i_peer_acked :: "u32 list"
  i_evterr_replied :: nat
  i_deferred :: u32
  i_bcast_replied :: nat
  i_active_hw_done :: bool

text \<open>Static variables of the window-manager timer code.\<close>

record wmst =
  w_in_tick :: bool
  w_timers :: "wmtmr list"
  w_rq :: u32
  w_last_serial :: u32
  w_hs_done :: bool
  w_last_hs :: timespec
  w_last_tick :: timespec

record proc =
  p_tcache :: "(i32 \<times> u32) list"
  p_self_pname :: string
  p_evdevs :: "evdev list"
  p_sibling :: int
  p_inj_t0 :: "timespec option"
  p_wmq_streak :: "nat \<Rightarrow> nat"
  p_attach :: "(u32 \<times> u32) list"
  p_ptimers :: nat                 \<comment> \<open>running periodic timer threads\<close>
  p_inj :: inj
  p_wm :: wmst

text \<open>Futex words of the segment, by table slot, and the calls that leave the process.\<close>

datatype futex_word = FwEvents nat | FwStarted nat | FwSem nat | FwTail nat

datatype effect =
    FxWake futex_word              \<comment> \<open>\<open>FUTEX_WAKE\<close> of every waiter\<close>
  | FxKill i32 i32 nat             \<comment> \<open>\<open>tgkill(tgid, tid, sig)\<close>\<close>
  | FxPipeWrite int                \<comment> \<open>one byte into the \<open>/dev/events\<close> pipe\<close>
  | FxPipeDrain int
  | FxSleepMs nat
  | FxTimerThread u32 u32 u32      \<comment> \<open>a thread re-firing bits to a task every so many us\<close>

record st =
  sh :: ctl
  lo :: proc
  ecf :: ev_cfg
  qcf :: q_cfg
  icf :: inj_cfg
  me_tgid :: i32
  me_tid :: i32
  now :: timespec
  errno :: int
  mem :: "u32 \<Rightarrow> u8"
  fx :: "effect list"
  starved :: bool                  \<comment> \<open>ghost: a nested send met the recursion bound\<close>

text \<open>One pass of a blocking primitive either returns or goes to sleep on a futex word.\<close>

datatype 'r poll = Ret 'r | Sleep futex_word "int option"

section \<open>Updates\<close>

definition emit :: "effect \<Rightarrow> st \<Rightarrow> st" where
  "emit e s = s\<lparr>fx := fx s @ [e]\<rparr>"

definition upd_task :: "nat \<Rightarrow> (task \<Rightarrow> task) \<Rightarrow> st \<Rightarrow> st" where
  "upd_task i f s = s\<lparr>sh := (sh s)\<lparr>c_tasks := (c_tasks (sh s))[i := f (c_tasks (sh s) ! i)]\<rparr>\<rparr>"

definition upd_sem :: "nat \<Rightarrow> (sem \<Rightarrow> sem) \<Rightarrow> st \<Rightarrow> st" where
  "upd_sem i f s = s\<lparr>sh := (sh s)\<lparr>c_sems := (c_sems (sh s))[i := f (c_sems (sh s) ! i)]\<rparr>\<rparr>"

definition upd_queue :: "nat \<Rightarrow> (queue \<Rightarrow> queue) \<Rightarrow> st \<Rightarrow> st" where
  "upd_queue i f s = s\<lparr>sh := (sh s)\<lparr>c_queues := (c_queues (sh s))[i := f (c_queues (sh s) ! i)]\<rparr>\<rparr>"

definition upd_inj :: "(inj \<Rightarrow> inj) \<Rightarrow> st \<Rightarrow> st" where
  "upd_inj f s = s\<lparr>lo := (lo s)\<lparr>p_inj := f (p_inj (lo s))\<rparr>\<rparr>"

definition upd_wm :: "(wmst \<Rightarrow> wmst) \<Rightarrow> st \<Rightarrow> st" where
  "upd_wm f s = s\<lparr>lo := (lo s)\<lparr>p_wm := f (p_wm (lo s))\<rparr>\<rparr>"

abbreviation tasks :: "st \<Rightarrow> task list" where "tasks s \<equiv> c_tasks (sh s)"
abbreviation sems :: "st \<Rightarrow> sem list" where "sems s \<equiv> c_sems (sh s)"
abbreviation queues :: "st \<Rightarrow> queue list" where "queues s \<equiv> c_queues (sh s)"
abbreviation regs :: "st \<Rightarrow> region list" where "regs s \<equiv> c_regs (sh s)"
abbreviation injs :: "st \<Rightarrow> inj" where "injs s \<equiv> p_inj (lo s)"
abbreviation wms :: "st \<Rightarrow> wmst" where "wms s \<equiv> p_wm (lo s)"

lemmas upd_defs = emit_def upd_task_def upd_sem_def upd_queue_def upd_inj_def upd_wm_def

text \<open>Milliseconds between two clock readings, in 32-bit \<open>long\<close> arithmetic.\<close>

definition long32 :: "int \<Rightarrow> int" where
  "long32 x = sint (word_of_int x :: i32)"

definition ms_between :: "timespec \<Rightarrow> timespec \<Rightarrow> int" where
  "ms_between a b = long32 (long32 ((tv_sec b - tv_sec a) * 1000)
                            + cdiv (tv_nsec b - tv_nsec a) 1000000)"

section \<open>A process that has just attached\<close>

text \<open>
  The static variables of a fresh process, every switch of the environment off (some are on when
  they are unset), and the control segment as \<open>ctl_init\<close> leaves it: the state the examples of the development start from.
\<close>

definition inj_init :: inj where
  "inj_init = \<lparr>i_winmgr_injected = False, i_in_winmgr = False, i_fmload_injected = False,
     i_in_fmload = False, i_in_evt_relay = False, i_sk_fired = False, i_sk_screen = 0xffffffff,
     i_sk_count = 0, i_sk_login_seen = False, i_sk_login_settle = 0, i_runup_done = False,
     i_reread_done = False, i_replayed = False, i_cfgq_n = 0, i_cfgq_rec = [], i_acked = [],
     i_evt_acked = [], i_peer_acked = [], i_evterr_replied = 0, i_deferred = 0,
     i_bcast_replied = 0, i_active_hw_done = False\<rparr>"

definition time0 :: timespec where "time0 = \<lparr>tv_sec = 0, tv_nsec = 0\<rparr>"

definition wm_init :: wmst where
  "wm_init = \<lparr>w_in_tick = False, w_timers = [], w_rq = 0, w_last_serial = 0, w_hs_done = False,
     w_last_hs = time0, w_last_tick = time0\<rparr>"

definition proc_init :: proc where
  "proc_init = \<lparr>p_tcache = replicate 128 (0, 0), p_self_pname = [], p_evdevs = [], p_sibling = -1,
     p_inj_t0 = None, p_wmq_streak = (\<lambda>_. 0), p_attach = [], p_ptimers = 0, p_inj = inj_init, p_wm = wm_init\<rparr>"

definition ev_off :: ev_cfg where
  "ev_off = \<lparr>e_unblock_ms = -1, e_inject_want = 0, e_inject_bit = 0, e_force_task = 0,
     e_force_bit = 0, e_timeout_cap = 0, e_nowait_yield = 0, e_nowait_yield_n = 0,
     e_sysfire = False, e_firemask = 0, e_firelimit = 0, e_qnotify_level = False,
     e_events_bridge = False, e_evdev_sibling = False,
     e_sigwake = False, e_as_deliver = False, e_timers_fire = False,
     e_sem_force_ms = 0, e_sem_autocount = 0,
     e_tm_periodic = False, e_wkafter_cap = 3000\<rparr>"

definition q_off :: q_cfg where
  "q_off = \<lparr>k_autocreate = False, k_qident_notify = False, k_qident_dotlead = False,
     k_qread_maxwait = 0, k_sync_timeout = 0, k_evt_relay = None, k_cfg_reply_route = False,
     k_sk_reply_route = False, k_sk_reply_force = False, k_rts_family_route = False,
     k_wm_serial_fix = False, k_area_rect_force = False, k_bar_rect = (0, 0, 0, 0),
     k_wmq_break = False, k_wmq_break_n = 0, k_wm_timer = False, k_wm_settle_ms = 0,
     k_pname_reg = False, k_pident_self = False, k_grf_stub = False\<rparr>"

definition inj_off :: inj_cfg where
  "inj_off = \<lparr>j_winmgr = False, j_winmgr_name = [], j_fmload = False, j_fmload_present = False,
     j_fmload_img = None, j_fmload_proc = None, j_subsys = False, j_subsys_reg = False,
     j_fmload_set = None, j_fmload_max = 0, j_wmgr_ack = False, j_wmgr_root = 0,
     j_wmgr_screen = False, j_area_ack = False, j_sk_activate = False, j_sk_act_thresh = 0,
     j_sk_act_settle = 0, j_sk_act_screen = None, j_sk_act_handle = 0, j_sk_act_group = 0, j_sk_act_queue = [],
     j_sk_act_bool = False, j_hws_stub = False, j_replay = False, j_upd = False, j_ack = False,
     j_evt_ack = False, j_peer_ack = False, j_cm_grant = False, j_evterr_defer = False,
     j_active_hw = False, j_active_hw_file = [], j_reread = False\<rparr>"

definition boot :: "i32 \<Rightarrow> i32 \<Rightarrow> st" where
  "boot tgid tid = \<lparr>sh = the (ctl_init zero_ctl), lo = proc_init, ecf = ev_off, qcf = q_off,
     icf = inj_off, me_tgid = tgid, me_tid = tid, now = time0, errno = 0, mem = (\<lambda>_. 0), fx = [],
     starved = False\<rparr>"

lemmas off_defs = inj_init_def time0_def wm_init_def proc_init_def ev_off_def q_off_def inj_off_def

lemma boot_simps [simp]:
  "tasks (boot g t) = replicate MAXTASK zero_task" "sems (boot g t) = replicate MAXSEM zero_sem"
  "queues (boot g t) = replicate MAXQ zero_queue" "regs (boot g t) = replicate MAXREG zero_region"
  "c_next_task (sh (boot g t)) = 0x100" "c_next_sem (sh (boot g t)) = 0x200"
  "c_next_q (sh (boot g t)) = 0x300" "c_next_reg (sh (boot g t)) = 0x4000"
  "c_orphan_tc (sh (boot g t)) = 0" "lo (boot g t) = proc_init" "ecf (boot g t) = ev_off"
  "qcf (boot g t) = q_off" "icf (boot g t) = inj_off" "me_tgid (boot g t) = g"
  "me_tid (boot g t) = t" "now (boot g t) = time0" "errno (boot g t) = 0"
  "mem (boot g t) = (\<lambda>_. 0)" "fx (boot g t) = []" "\<not> starved (boot g t)"
  by (simp_all add: boot_def ctl_init_def zero_ctl_def)

end
