(* ===== verification/Tasks.thy ===== *)
theory Tasks
  imports Segment
begin

text \<open>
  The task table: \<open>task_slot\<close>, \<open>task_self\<close> with its per-process cache, and the process-name
  registry (\<open>canon_pname\<close>, \<open>proc_by_name\<close>, \<open>parse_self_pname\<close>).
\<close>

section \<open>Operations\<close>

definition task_slot :: "ctl \<Rightarrow> u32 \<Rightarrow> nat option" where
  "task_slot c i = slot_of t_used t_id (c_tasks c) i"

definition tcache_ix :: "i32 \<Rightarrow> nat" where
  "tcache_ix tid = unat (tid AND 127)"

definition tcache_put :: "u32 \<Rightarrow> st \<Rightarrow> st" where
  "tcache_put i s = s\<lparr>lo := (lo s)\<lparr>p_tcache := (p_tcache (lo s))[tcache_ix (me_tid s) := (me_tid s, i)]\<rparr>\<rparr>"

text \<open>
  \<open>new_task\<close> are the stores \<open>task_self\<close> makes into a free entry; the fields it does not touch keep
  what they held.
\<close>

definition new_task :: "st \<Rightarrow> u32 \<Rightarrow> task \<Rightarrow> task" where
  "new_task s i t = t\<lparr>t_used := True, t_id := i, t_tgid := me_tgid s, t_tid := me_tid s,
     t_events := 0, t_name := [], t_as_pending := 0, t_as_mask := 0,
     t_pname := (if k_pname_reg (qcf s) \<and> me_tid s = me_tgid s \<and> p_self_pname (lo s) \<noteq> []
                 then name_store (p_self_pname (lo s)) else [])\<rparr>"

definition own_entry :: "st \<Rightarrow> task \<Rightarrow> bool" where
  "own_entry s t \<longleftrightarrow> t_used t \<and> t_tgid t = me_tgid s \<and> t_tid t = me_tid s"

definition task_self :: "st \<Rightarrow> u32 \<times> st" where
  "task_self s =
     (let (tid, i) = p_tcache (lo s) ! tcache_ix (me_tid s) in
      if i \<noteq> 0 \<and> tid = me_tid s then (i, s)
      else case find_index (own_entry s) (tasks s) of
        Some k \<Rightarrow> (t_id (tasks s ! k), tcache_put (t_id (tasks s ! k)) s)
      | None \<Rightarrow>
          (case free_slot t_used (tasks s) of
             None \<Rightarrow> (0x101, s)
           | Some k \<Rightarrow>
               let i = c_next_task (sh s);
                   s1 = s\<lparr>sh := (sh s)\<lparr>c_next_task := i + 1\<rparr>\<rparr>;
                   s2 = upd_task k (new_task s i) s1
               in (i, tcache_put i s2)))"

definition task_by_name :: "ctl \<Rightarrow> string \<Rightarrow> u32" where
  "task_by_name c nm =
     (case find_index (\<lambda>t. t_used t \<and> name_eq (t_name t) nm) (c_tasks c) of
        Some k \<Rightarrow> t_id (c_tasks c ! k) | None \<Rightarrow> 0)"

text \<open>\<open>canon_pname\<close>: drop an optional \<open><subsystem>:\<close> prefix, keep what fits the name field.\<close>

definition canon_pname :: "string option \<Rightarrow> string" where
  "canon_pname src = (case src of None \<Rightarrow> [] | Some s \<Rightarrow> name_store (after_first (CHR '':'') s))"

definition proc_by_name :: "ctl \<Rightarrow> string option \<Rightarrow> u32" where
  "proc_by_name c nm =
     (case nm of None \<Rightarrow> 0 | Some s \<Rightarrow>
        if s = [] then 0
        else case find_index (\<lambda>t. t_used t \<and> t_pname t \<noteq> [] \<and> name_eq (t_pname t) (canon_pname nm))
                    (c_tasks c) of
               Some k \<Rightarrow> t_id (c_tasks c ! k) | None \<Rightarrow> 0)"

text \<open>
  \<open>parse_self_pname\<close>: \<open>$HEROS_PROC_NAME\<close>, else the first \<open>-p=\<close> argument among the NUL-separated
  arguments that fit the 4095 bytes read from \<open>/proc/self/cmdline\<close> (\<open>None\<close>: no such file).
\<close>

function scan_args :: "string \<Rightarrow> string option" where
  "scan_args [] = None"
| "scan_args (c # cs) =
     (let arg = takeWhile (\<lambda>x. x \<noteq> CHR 0x00) (c # cs) in
      if has_prefix ''-p='' arg \<and> 3 < length arg then Some (drop 3 arg)
      else scan_args (drop 1 (dropWhile (\<lambda>x. x \<noteq> CHR 0x00) (c # cs))))"
  by pat_completeness auto
termination
  by (relation "measure length") (auto intro!: le_imp_less_Suc le_trans [OF diff_le_self length_dropWhile_le])

definition parse_self_pname :: "string option \<Rightarrow> string option \<Rightarrow> string" where
  "parse_self_pname env cmdline =
     canon_pname (Some (case env of
        Some (c # cs) \<Rightarrow> name_store (c # cs)
      | _ \<Rightarrow> (case cmdline of
               None \<Rightarrow> []
             | Some buf \<Rightarrow> (case scan_args (take 4095 buf) of
                               Some nm \<Rightarrow> name_store nm | None \<Rightarrow> []))))"

section \<open>The registry discipline on tasks\<close>

interpretation task_reg: id_registry t_used t_id "new_task s" for s
  by unfold_locales (simp_all add: new_task_def)

definition tasks_ok :: "ctl \<Rightarrow> bool" where
  "tasks_ok c \<longleftrightarrow> length (c_tasks c) = MAXTASK \<and> c_next_task c \<noteq> 0 \<and>
     ids_ok t_used t_id (c_next_task c) (c_tasks c)"

text \<open>The cache only holds ids of live entries of this process under the thread they belong to.\<close>

definition tcache_ok :: "st \<Rightarrow> bool" where
  "tcache_ok s \<longleftrightarrow> length (p_tcache (lo s)) = 128 \<and>
     (\<forall>(tid, i)\<in>set (p_tcache (lo s)). i \<noteq> 0 \<longrightarrow>
        (\<exists>k. task_slot (sh s) i = Some k \<and> t_tgid (tasks s ! k) = me_tgid s \<and> t_tid (tasks s ! k) = tid))"

lemma tcache_ix_less: "tcache_ix tid < 128"
proof -
  have "tid AND 127 \<le> (127 :: i32)" by (rule word_and_le1)
  then show ?thesis unfolding tcache_ix_def by (simp add: word_le_nat_alt)
qed

lemma task_slot_SomeD:
  "task_slot c i = Some k \<Longrightarrow> k < length (c_tasks c) \<and> t_used (c_tasks c ! k) \<and> t_id (c_tasks c ! k) = i"
  unfolding task_slot_def by (rule slot_of_SomeD)

lemma task_self_cases:
  obtains (cached) "task_self s = (snd (p_tcache (lo s) ! tcache_ix (me_tid s)), s)"
      "snd (p_tcache (lo s) ! tcache_ix (me_tid s)) \<noteq> 0"
      "fst (p_tcache (lo s) ! tcache_ix (me_tid s)) = me_tid s"
  | (found) k where "find_index (own_entry s) (tasks s) = Some k"
      "task_self s = (t_id (tasks s ! k), tcache_put (t_id (tasks s ! k)) s)"
  | (full) "find_index (own_entry s) (tasks s) = None" "free_slot t_used (tasks s) = None"
      "task_self s = (0x101, s)"
  | (new) k where "find_index (own_entry s) (tasks s) = None" "free_slot t_used (tasks s) = Some k"
      "task_self s = (c_next_task (sh s), tcache_put (c_next_task (sh s))
         (upd_task k (new_task s (c_next_task (sh s)))
            (s\<lparr>sh := (sh s)\<lparr>c_next_task := c_next_task (sh s) + 1\<rparr>\<rparr>)))"
  by (cases "p_tcache (lo s) ! tcache_ix (me_tid s)")
    (fastforce simp: task_self_def Let_def split: option.splits if_splits)

section \<open>Correctness of \<open>task_self\<close>\<close>

text \<open>The calling thread has a live entry under id \<open>i\<close>.\<close>

definition is_self :: "st \<Rightarrow> u32 \<Rightarrow> bool" where
  "is_self s i \<longleftrightarrow> i \<noteq> 0 \<and>
     (case task_slot (sh s) i of None \<Rightarrow> False | Some k \<Rightarrow> own_entry s (tasks s ! k))"

definition room_for_self :: "st \<Rightarrow> bool" where
  "room_for_self s \<longleftrightarrow> list_ex (\<lambda>t. own_entry s t \<or> \<not> t_used t) (tasks s)"

lemma tcache_put_sel [simp]:
  "sh (tcache_put i s) = sh s" "me_tid (tcache_put i s) = me_tid s"
  "me_tgid (tcache_put i s) = me_tgid s"
  "p_tcache (lo (tcache_put i s)) = (p_tcache (lo s))[tcache_ix (me_tid s) := (me_tid s, i)]"
  by (simp_all add: tcache_put_def)

lemma is_self_put [simp]: "is_self (tcache_put i s) j = is_self s j"
  by (simp add: is_self_def own_entry_def split: option.splits)

lemma tcache_ok_put:
  assumes "tcache_ok s" and "is_self s i"
  shows "tcache_ok (tcache_put i s)"
  using assms set_update_subset_insert [of "p_tcache (lo s)" "tcache_ix (me_tid s)" "(me_tid s, i)"]
  by (fastforce simp: tcache_ok_def is_self_def own_entry_def split: option.splits)

lemma task_self_put:
  "length (p_tcache (lo s)) = 128 \<Longrightarrow> i \<noteq> 0 \<Longrightarrow> task_self (tcache_put i s) = (i, tcache_put i s)"
  using tcache_ix_less [of "me_tid s"] by (simp add: task_self_def)

lemma is_self_found:
  assumes ok: "tasks_ok (sh s)" and f: "find_index (own_entry s) (tasks s) = Some k"
  shows "is_self s (t_id (tasks s ! k))"
proof -
  have "own_entry s (tasks s ! k)" using f by (rule find_index_holds)
  moreover have "k < length (tasks s)" using f by (rule find_index_less)
  ultimately have "task_slot (sh s) (t_id (tasks s ! k)) = Some k" "t_id (tasks s ! k) \<noteq> 0"
    using ok unfolding tasks_ok_def task_slot_def
    by (auto intro!: slot_of_live simp: own_entry_def) (auto simp: ids_ok_def)
  then show ?thesis using \<open>own_entry s (tasks s ! k)\<close> by (simp add: is_self_def)
qed

lemma new_task_state:
  assumes ok: "tasks_ok (sh s)" and nowrap: "c_next_task (sh s) + 1 \<noteq> 0"
    and free: "free_slot t_used (tasks s) = Some k" and tc: "tcache_ok s"
  defines "s2 \<equiv> upd_task k (new_task s (c_next_task (sh s)))
                   (s\<lparr>sh := (sh s)\<lparr>c_next_task := c_next_task (sh s) + 1\<rparr>\<rparr>)"
  shows "tasks_ok (sh s2)" and "tcache_ok s2" and "is_self s2 (c_next_task (sh s))"
proof -
  let ?n = "c_next_task (sh s)"
  have ids: "ids_ok t_used t_id ?n (tasks s)" and n0: "?n \<noteq> 0" using ok by (auto simp: tasks_ok_def)
  have k: "k < length (tasks s)" "\<not> t_used (tasks s ! k)" using free_slot_SomeD [OF free] by auto
  show "tasks_ok (sh s2)"
    using ok nowrap task_reg.alloc_ids_ok [OF ids n0 nowrap free]
    by (simp add: s2_def upd_task_def tasks_ok_def)
  have slot: "task_slot (sh s2) ?n = Some k"
    using task_reg.alloc_resolves [OF ids free]
    by (simp add: s2_def upd_task_def task_slot_def)
  then show "is_self s2 ?n"
    using k n0 by (simp add: s2_def upd_task_def is_self_def own_entry_def new_task_def)
  show "tcache_ok s2"
    unfolding tcache_ok_def
  proof (intro conjI ballI, goal_cases)
    case 1
    then show ?case using tc by (simp add: s2_def upd_task_def tcache_ok_def)
  next
    case (2 e)
    obtain tid i where e: "e = (tid, i)" by (cases e)
    have mem: "(tid, i) \<in> set (p_tcache (lo s))" using 2 e by (simp add: s2_def upd_task_def)
    show ?case unfolding e
    proof (clarify)
      assume "i \<noteq> 0"
      then obtain j where j: "task_slot (sh s) i = Some j" "t_tgid (tasks s ! j) = me_tgid s"
          "t_tid (tasks s ! j) = tid"
        using tc mem by (fastforce simp: tcache_ok_def)
      have jd: "j < length (tasks s)" "t_used (tasks s ! j)" "t_id (tasks s ! j) = i"
        using task_slot_SomeD [OF j(1)] by auto
      then have "i \<noteq> ?n" using ids by (auto simp: ids_ok_def)
      then have "task_slot (sh s2) i = Some j"
        using task_reg.alloc_keeps [OF free] j(1)
        by (simp add: s2_def upd_task_def task_slot_def)
      moreover have "j \<noteq> k" using jd k by auto
      ultimately show "\<exists>k. task_slot (sh s2) i = Some k \<and> t_tgid (tasks s2 ! k) = me_tgid s2
          \<and> t_tid (tasks s2 ! k) = tid"
        using j by (simp add: s2_def upd_task_def)
    qed
  qed
qed

lemma task_self_step:
  assumes ok: "tasks_ok (sh s)" "tcache_ok s" and nowrap: "c_next_task (sh s) + 1 \<noteq> 0"
    and room: "room_for_self s"
  shows "tasks_ok (sh (snd (task_self s))) \<and> tcache_ok (snd (task_self s)) \<and>
         is_self (snd (task_self s)) (fst (task_self s)) \<and>
         task_self (snd (task_self s)) = task_self s"
proof (cases s rule: task_self_cases)
  case cached
  have len: "length (p_tcache (lo s)) = 128" using ok(2) by (simp add: tcache_ok_def)
  obtain i where e: "p_tcache (lo s) ! tcache_ix (me_tid s) = (me_tid s, i)"
    using cached(3) by (cases "p_tcache (lo s) ! tcache_ix (me_tid s)") simp
  then have "(me_tid s, i) \<in> set (p_tcache (lo s))"
    using len tcache_ix_less [of "me_tid s"] by (metis nth_mem)
  then have "is_self s i"
    using ok(2) cached(2) e by (fastforce simp: tcache_ok_def is_self_def own_entry_def dest: task_slot_SomeD)
  then show ?thesis using ok cached e by simp
next
  case (found k)
  have self: "is_self s (t_id (tasks s ! k))" using ok(1) found(1) by (rule is_self_found)
  then have "t_id (tasks s ! k) \<noteq> 0" by (simp add: is_self_def)
  with self show ?thesis
    using ok found tcache_ok_put [OF ok(2) self] by (simp add: task_self_put tcache_ok_def)
next
  case full
  then show ?thesis
    using room find_index_None free_slot_None [of t_used "tasks s"]
    by (auto simp: room_for_self_def list_ex_iff find_index_None)
next
  case (new k)
  note st = new_task_state [OF ok(1) nowrap new(2) ok(2)]
  have "c_next_task (sh s) \<noteq> 0" using ok(1) by (simp add: tasks_ok_def)
  then show ?thesis
    using new(3) st tcache_ok_put [OF st(2,3)]
    by (simp add: task_self_put tcache_ok_def)
qed

text \<open>
  C4. \<open>task_self\<close> keeps the task table and the per-process cache well formed, returns the id of
  the one live entry that belongs to the calling thread (registering the thread when it has none),
  and is idempotent: a second call answers the same id and changes nothing.  The id counter must
  not be at its last value and the table must hold the thread or have a free entry.
\<close>

theorem task_self_correct:
  assumes "tasks_ok (sh s)" and "tcache_ok s" and "c_next_task (sh s) + 1 \<noteq> 0"
    and "room_for_self s" and "task_self s = (i, s')"
  shows "tasks_ok (sh s') \<and> tcache_ok s' \<and> is_self s' i \<and> task_self s' = (i, s')"
  using task_self_step [OF assms(1-4)] assms(5) by simp

lemma boot_tasks_ok: "tasks_ok (sh (boot g t))"
  by (simp add: tasks_ok_def ids_ok_zero zero_task_def)

lemma boot_tcache_ok: "tcache_ok (boot g t)"
  by (simp add: tcache_ok_def proc_init_def)

lemma boot_own: "find_index (own_entry (boot g t)) (tasks (boot g t)) = None"
  by (simp add: table_simps own_entry_def zero_task_def)

lemma boot_free: "free_slot t_used (tasks (boot g t)) = Some 0"
  by (simp add: table_simps zero_task_def MAXTASK_def)

lemma task_self_correct_witness:
  "is_self (snd (task_self (boot 7 7))) 0x100"
proof -
  have room: "room_for_self (boot 7 7)"
    by (simp add: room_for_self_def list_ex_iff zero_task_def MAXTASK_def)
  have res: "fst (task_self (boot 7 7)) = 0x100"
    using boot_own [of 7 7] boot_free [of 7 7]
    by (cases "boot 7 7" rule: task_self_cases) (simp_all add: proc_init_def tcache_ix_def)
  show ?thesis
    using task_self_correct [OF boot_tasks_ok boot_tcache_ok _ room prod.collapse [symmetric]] res
    by simp
qed

text \<open>
  When the table is full the call does not fail: it answers the constant 0x101, the id the
  second task of the constellation was given, and leaves the state alone, so two unregistered
  threads share that task's events and signals.
\<close>

theorem task_self_full:
  assumes "free_slot t_used (tasks s) = None" and "find_index (own_entry s) (tasks s) = None"
    and "fst (p_tcache (lo s) ! tcache_ix (me_tid s)) \<noteq> me_tid s"
  shows "task_self s = (0x101, s)"
  using assms by (cases s rule: task_self_cases) auto

lemma task_self_full_witness:
  "task_self (boot 7 7\<lparr>sh := zero_ctl\<lparr>c_tasks := replicate MAXTASK (zero_task\<lparr>t_used := True\<rparr>)\<rparr>\<rparr>)
   = (0x101, boot 7 7\<lparr>sh := zero_ctl\<lparr>c_tasks := replicate MAXTASK (zero_task\<lparr>t_used := True\<rparr>)\<rparr>\<rparr>)"
  by (rule task_self_full) (simp_all add: table_simps own_entry_def zero_task_def proc_init_def
      tcache_ix_def)

section \<open>The name registry\<close>

text \<open>
  The process registry answers the same for a bare name and for the name under any
  \<open><subsystem>:\<close> prefix, as peers use both forms.
\<close>

theorem proc_by_name_prefix:
  assumes "CHR '':'' \<notin> set sub" and "CHR '':'' \<notin> set nm" and "nm \<noteq> []"
  shows "proc_by_name c (Some (sub @ CHR '':'' # nm)) = proc_by_name c (Some nm)"
proof -
  have "dropWhile (\<lambda>x. x \<noteq> CHR '':'') (sub @ CHR '':'' # nm) = CHR '':'' # nm"
    using assms(1) by (induction sub) auto
  then have "after_first (CHR '':'') (sub @ CHR '':'' # nm) = nm"
    by (simp add: after_first_def has_char_def)
  moreover have "after_first (CHR '':'') nm = nm"
    using assms(2) by (auto simp: after_first_def has_char_def list_ex_iff)
  ultimately show ?thesis using assms(3) by (simp add: proc_by_name_def canon_pname_def)
qed

lemma proc_by_name_prefix_witness:
  "proc_by_name (zero_ctl\<lparr>c_tasks := [zero_task\<lparr>t_used := True, t_id := 5, t_pname := ''wm/wm''\<rparr>]\<rparr>)
     (Some ''wm:wm/wm'') = 5"
  using proc_by_name_prefix [of "''wm''" "''wm/wm''"
      "zero_ctl\<lparr>c_tasks := [zero_task\<lparr>t_used := True, t_id := 5, t_pname := ''wm/wm''\<rparr>]\<rparr>"]
  by (simp add: proc_by_name_def canon_pname_def after_first_def has_char_def name_eq_def
      name_store_def NAMELEN_def)

text \<open>
  Registration and lookup agree: when the main thread of a process that parsed its name from
  the environment gets its task entry, \<open>P_ident\<close> of that name (at most 31 characters) answers the
  new id, provided no earlier entry holds the name.
\<close>

theorem proc_name_registered:
  assumes main: "me_tid s = me_tgid s" "k_pname_reg (qcf s)"
    and nm: "p_self_pname (lo s) = parse_self_pname (Some nm) cl" "length nm < NAMELEN"
      "canon_pname (Some nm) \<noteq> []"
    and miss: "fst (p_tcache (lo s) ! tcache_ix (me_tid s)) \<noteq> me_tid s"
      "find_index (own_entry s) (tasks s) = None" "free_slot t_used (tasks s) = Some k"
    and fresh: "\<forall>t\<in>set (tasks s). t_used t \<longrightarrow> \<not> name_eq (t_pname t) (canon_pname (Some nm))"
    and self: "task_self s = (i, s')"
  shows "proc_by_name (sh s') (Some nm) = i"
proof -
  have k: "k < length (tasks s)" "\<not> t_used (tasks s ! k)"
    using free_slot_SomeD [OF miss(3)] by auto
  have nm0: "nm \<noteq> []" using nm(3) by (auto simp: canon_pname_def after_first_def has_char_def name_store_def)
  have keep: "name_store (canon_pname (Some nm)) = canon_pname (Some nm)"
    by (simp add: canon_pname_def name_store_def)
  have "name_store nm = nm" using nm(2) by (simp add: name_store_def NAMELEN_def)
  then have pn: "p_self_pname (lo s) = canon_pname (Some nm)"
    using nm(1) nm0 by (cases nm) (simp_all add: parse_self_pname_def)
  let ?t = "new_task s i (tasks s ! k)"
  have res: "i = c_next_task (sh s)" "tasks s' = (tasks s)[k := ?t]"
    using self miss by (cases s rule: task_self_cases; simp add: upd_task_def)+
  have "find_index (\<lambda>t. t_used t \<and> t_pname t \<noteq> [] \<and> name_eq (t_pname t) (canon_pname (Some nm)))
      (tasks s') = Some k"
  proof (rule find_index_unique)
    show "k < length (tasks s')" using k res by simp
    show "t_used (tasks s' ! k) \<and> t_pname (tasks s' ! k) \<noteq> []
        \<and> name_eq (t_pname (tasks s' ! k)) (canon_pname (Some nm))"
      using k res main pn nm(3) keep by (simp add: new_task_def)
    show "j = k" if "j < length (tasks s')" and "t_used (tasks s' ! j) \<and> t_pname (tasks s' ! j) \<noteq> []
        \<and> name_eq (t_pname (tasks s' ! j)) (canon_pname (Some nm))" for j
      using that fresh res by (cases "j = k") auto
  qed
  then show ?thesis using nm0 k res by (simp add: proc_by_name_def new_task_def)
qed

definition named_boot :: st where
  "named_boot = boot 7 7\<lparr>qcf := q_off\<lparr>k_pname_reg := True\<rparr>,
     lo := proc_init\<lparr>p_self_pname := parse_self_pname (Some ''wm:wm/wm'') None\<rparr>\<rparr>"

lemma proc_name_registered_witness:
  "proc_by_name (sh (snd (task_self named_boot))) (Some ''wm:wm/wm'') = fst (task_self named_boot)"
proof (rule proc_name_registered [where cl = None and k = 0])
  show "find_index (own_entry named_boot) (tasks named_boot) = None"
    by (simp add: table_simps own_entry_def zero_task_def named_boot_def)
  show "free_slot t_used (tasks named_boot) = Some 0"
    using boot_free [of 7 7] by (simp add: named_boot_def)
  show "canon_pname (Some ''wm:wm/wm'') \<noteq> []"
    by (simp add: canon_pname_def after_first_def has_char_def name_store_def NAMELEN_def)
qed (simp_all add: named_boot_def NAMELEN_def proc_init_def tcache_ix_def zero_task_def)

end
