(* ===== verification/Events.thy ===== *)
theory Events
  imports Tasks
begin

text \<open>
  Sysevents: the event word of a task, \<open>ev_send\<close>, the delivery condition of \<open>ev_receive\<close>, and the
  bridge to the \<open>/dev/events\<close> pipe of threads that block in \<open>select\<close> (\<open>evdev_reconcile\<close>, the
  watcher pass, registration and mask).  The blocking loop of \<open>ev_receive\<close> is in \<open>EvReceive\<close>.
\<close>

section \<open>The \<open>/dev/events\<close> bridge\<close>

definition MAXEVDEV :: nat where "MAXEVDEV = 64"

definition upd_evdev :: "nat \<Rightarrow> (evdev \<Rightarrow> evdev) \<Rightarrow> st \<Rightarrow> st" where
  "upd_evdev i f s = s\<lparr>lo := (lo s)\<lparr>p_evdevs := (p_evdevs (lo s))[i := f (p_evdevs (lo s) ! i)]\<rparr>\<rparr>"

definition evdev_mask :: "evdev \<Rightarrow> u32" where
  "evdev_mask e = d_sysmask e OR 0xff000000"

text \<open>Should the pipe be readable?  \<open>k\<close> is the slot of the pipe's task.\<close>

definition evdev_want :: "st \<Rightarrow> evdev \<Rightarrow> nat \<Rightarrow> bool" where
  "evdev_want s e k \<longleftrightarrow>
     has_bits (t_events (tasks s ! k)) (evdev_mask e) \<or>
     (p_sibling (lo s) \<noteq> 0 \<and> t_tgid (tasks s ! k) \<noteq> 0 \<and>
      list_ex (\<lambda>t. t_used t \<and> t_tgid t = t_tgid (tasks s ! k) \<and> has_bits (t_events t) (evdev_mask e))
        (tasks s))"

definition evdev_reconcile_locked :: "nat \<Rightarrow> st \<Rightarrow> st" where
  "evdev_reconcile_locked i s =
     (let e = p_evdevs (lo s) ! i in
      case task_slot (sh s) (d_task e) of
        None \<Rightarrow> s
      | Some k \<Rightarrow>
          if evdev_want s e k then
            (if \<not> d_signaled e
             then upd_evdev i (\<lambda>e. e\<lparr>d_signaled := True\<rparr>) (emit (FxPipeWrite (d_wr e)) s)
             else s)
          else if d_signaled e
          then upd_evdev i (\<lambda>e. e\<lparr>d_signaled := False\<rparr>) (emit (FxPipeDrain (d_rd e)) s)
          else s)"

definition evdev_reconcile :: "u32 \<Rightarrow> st \<Rightarrow> st" where
  "evdev_reconcile task s =
     (if \<not> e_events_bridge (ecf s) \<or> p_evdevs (lo s) = [] then s
      else case find_index (\<lambda>e. d_task e = task) (p_evdevs (lo s)) of
             None \<Rightarrow> s | Some i \<Rightarrow> evdev_reconcile_locked i s)"

text \<open>
  One pass of the watcher thread of pipe \<open>i\<close>: resolve the sibling switch, reconcile, and sleep on
  the event word that was read before (15 ms at most when siblings are watched too).
\<close>

definition evdev_watcher_pass :: "nat \<Rightarrow> st \<Rightarrow> unit poll \<times> st" where
  "evdev_watcher_pass i s =
     (case task_slot (sh s) (d_task (p_evdevs (lo s) ! i)) of
        None \<Rightarrow> (Ret (), s)
      | Some k \<Rightarrow>
          let s1 = (if p_sibling (lo s) < 0
                    then s\<lparr>lo := (lo s)\<lparr>p_sibling := (if e_evdev_sibling (ecf s) then 1 else 0)\<rparr>\<rparr>
                    else s)
          in (Sleep (FwEvents k) (if p_sibling (lo s1) \<noteq> 0 then Some 15 else None),
              evdev_reconcile_locked i s1))"

definition heros_evdev_register :: "int \<Rightarrow> int \<Rightarrow> st \<Rightarrow> st" where
  "heros_evdev_register rd wr s =
     (if \<not> e_events_bridge (ecf s) then s
      else
        let (t, s1) = task_self s;
            es = p_evdevs (lo s1);
            e = \<lparr>d_task = t, d_rd = rd, d_wr = wr, d_sysmask = 0, d_signaled = False\<rparr>
        in case find_index (\<lambda>e. d_rd e = rd \<or> d_task e = t) es of
             Some i \<Rightarrow> s1\<lparr>lo := (lo s1)\<lparr>p_evdevs := es[i := e]\<rparr>\<rparr>
           | None \<Rightarrow> if length es \<ge> MAXEVDEV then s1
                     else s1\<lparr>lo := (lo s1)\<lparr>p_evdevs := es @ [e]\<rparr>\<rparr>)"

definition heros_evdev_setmask :: "int \<Rightarrow> u32 \<Rightarrow> st \<Rightarrow> st" where
  "heros_evdev_setmask rd m s =
     (if \<not> e_events_bridge (ecf s) then s
      else case find_index (\<lambda>e. d_rd e = rd) (p_evdevs (lo s)) of
             None \<Rightarrow> s
           | Some i \<Rightarrow> evdev_reconcile_locked i (upd_evdev i (\<lambda>e. e\<lparr>d_sysmask := m\<rparr>) s))"

section \<open>Event words\<close>

definition ev_send :: "u32 \<Rightarrow> u32 \<Rightarrow> st \<Rightarrow> int \<times> st" where
  "ev_send task bits s =
     (case task_slot (sh s) task of
        None \<Rightarrow> (-7, s)
      | Some k \<Rightarrow>
          (0, evdev_reconcile task
                (emit (FxWake (FwEvents k))
                  (upd_task k (\<lambda>t. t\<lparr>t_events := t_events t OR bits\<rparr>) s))))"

text \<open>\<open>cond = 1\<close>: all wanted bits; otherwise any.\<close>

definition ev_ok :: "u32 \<Rightarrow> u32 \<Rightarrow> u32 \<Rightarrow> bool" where
  "ev_ok cond cur want \<longleftrightarrow> (if cond = 1 then cur AND want = want else cur AND want \<noteq> 0)"

definition ev_clear :: "nat \<Rightarrow> u32 \<Rightarrow> st \<Rightarrow> st" where
  "ev_clear k bits s = upd_task k (\<lambda>t. t\<lparr>t_events := t_events t AND NOT bits\<rparr>) s"

section \<open>Laws\<close>

lemma upd_evdev_sel [simp]:
  "sh (upd_evdev i f s) = sh s" "ecf (upd_evdev i f s) = ecf s" "fx (upd_evdev i f s) = fx s"
  "p_evdevs (lo (upd_evdev i f s)) = (p_evdevs (lo s))[i := f (p_evdevs (lo s) ! i)]"
  "p_sibling (lo (upd_evdev i f s)) = p_sibling (lo s)"
  by (simp_all add: upd_evdev_def)

lemma emit_sel [simp]:
  "sh (emit e s) = sh s" "lo (emit e s) = lo s" "ecf (emit e s) = ecf s" "qcf (emit e s) = qcf s"
  "icf (emit e s) = icf s" "me_tid (emit e s) = me_tid s" "me_tgid (emit e s) = me_tgid s"
  "now (emit e s) = now s" "errno (emit e s) = errno s" "mem (emit e s) = mem s"
  "fx (emit e s) = fx s @ [e]" "starved (emit e s) = starved s"
  by (simp_all add: emit_def)

lemma upd_task_sel [simp]:
  "lo (upd_task i f s) = lo s" "ecf (upd_task i f s) = ecf s" "qcf (upd_task i f s) = qcf s"
  "icf (upd_task i f s) = icf s" "me_tid (upd_task i f s) = me_tid s"
  "me_tgid (upd_task i f s) = me_tgid s" "now (upd_task i f s) = now s"
  "errno (upd_task i f s) = errno s" "mem (upd_task i f s) = mem s" "fx (upd_task i f s) = fx s"
  "starved (upd_task i f s) = starved s" "tasks (upd_task i f s) = (tasks s)[i := f (tasks s ! i)]"
  "queues (upd_task i f s) = queues s" "sems (upd_task i f s) = sems s" "regs (upd_task i f s) = regs s"
  "c_orphan_tc (sh (upd_task i f s)) = c_orphan_tc (sh s)"
  "c_next_task (sh (upd_task i f s)) = c_next_task (sh s)"
  by (simp_all add: upd_task_def)

lemma task_slot_upd_task:
  assumes "task_slot (sh s) x = Some k" and "t_used (f (tasks s ! k)) = t_used (tasks s ! k)"
    and "t_id (f (tasks s ! k)) = t_id (tasks s ! k)"
  shows "task_slot (sh (upd_task k f s)) i = task_slot (sh s) i"
  using task_slot_SomeD [OF assms(1)] assms(2,3)
  by (simp add: upd_task_def task_slot_def slot_of_update)

lemma reconcile_frame [simp]:
  "sh (evdev_reconcile_locked i s) = sh s" "sh (evdev_reconcile t s) = sh s"
  "length (p_evdevs (lo (evdev_reconcile_locked i s))) = length (p_evdevs (lo s))"
  by (auto simp: evdev_reconcile_locked_def evdev_reconcile_def Let_def split: option.splits)

lemma reconcile_locked_signaled:
  assumes "task_slot (sh s) (d_task (p_evdevs (lo s) ! i)) = Some k" and "i < length (p_evdevs (lo s))"
  shows "d_signaled (p_evdevs (lo (evdev_reconcile_locked i s)) ! i)
         = evdev_want s (p_evdevs (lo s) ! i) k"
  using assms by (simp add: evdev_reconcile_locked_def Let_def)

lemma reconcile_signaled:
  assumes "e_events_bridge (ecf s)" and "find_index (\<lambda>e. d_task e = t) (p_evdevs (lo s)) = Some i"
    and "task_slot (sh s) t = Some k"
  shows "d_signaled (p_evdevs (lo (evdev_reconcile t s)) ! i)
         = evdev_want s (p_evdevs (lo s) ! i) k"
proof -
  have i: "i < length (p_evdevs (lo s))" "d_task (p_evdevs (lo s) ! i) = t"
    using find_index_less [OF assms(2)] find_index_holds [OF assms(2)] by auto
  then have "p_evdevs (lo s) \<noteq> []" by auto
  then show ?thesis
    using assms i reconcile_locked_signaled [of s i k] by (simp add: evdev_reconcile_def)
qed

lemma reconcile_writes_byte:
  assumes "e_events_bridge (ecf s)" and "find_index (\<lambda>e. d_task e = t) (p_evdevs (lo s)) = Some i"
    and "task_slot (sh s) t = Some k" and "evdev_want s (p_evdevs (lo s) ! i) k"
  shows "fx (evdev_reconcile t s) =
    fx s @ (if d_signaled (p_evdevs (lo s) ! i) then [] else [FxPipeWrite (d_wr (p_evdevs (lo s) ! i))])"
proof -
  have i: "i < length (p_evdevs (lo s))" "d_task (p_evdevs (lo s) ! i) = t"
    using find_index_less [OF assms(2)] find_index_holds [OF assms(2)] by auto
  then have "p_evdevs (lo s) \<noteq> []" by auto
  then show ?thesis using assms i by (simp add: evdev_reconcile_def evdev_reconcile_locked_def)
qed

lemma has_bits_or: "has_bits b m \<Longrightarrow> has_bits (a OR b) m"
proof -
  assume "has_bits b m"
  then obtain n where "bit (b AND m) n" using bit_eq_iff [of "b AND m" 0] by (auto simp: has_bits_def)
  then have "bit ((a OR b) AND m) n" by (simp add: bit_simps)
  then show ?thesis unfolding has_bits_def by (metis bit_0_eq bot_apply bot_bool_def)
qed

lemma ev_send_state:
  assumes "task_slot (sh s) task = Some k"
  shows "fst (ev_send task bits s) = 0"
    and "tasks (snd (ev_send task bits s))
         = (tasks s)[k := (tasks s ! k)\<lparr>t_events := t_events (tasks s ! k) OR bits\<rparr>]"
    and "sh (snd (ev_send task bits s))
         = sh (upd_task k (\<lambda>t. t\<lparr>t_events := t_events t OR bits\<rparr>) s)"
  using assms by (simp_all add: ev_send_def)

lemma reconcile_fx: "e \<in> set (fx s) \<Longrightarrow> e \<in> set (fx (evdev_reconcile t s))"
  by (auto simp: evdev_reconcile_def evdev_reconcile_locked_def Let_def split: option.splits)

text \<open>
  C7. \<open>ev_send\<close> to a live task raises exactly the given bits in that task's word and in no other,
  wakes the futex waiters, and makes the \<open>/dev/events\<close> pipe of the task readable when one is
  registered here and a raised bit is in its mask (queue-notify bits always are): unless it is marked
  readable already, one byte is written to its write end and it is marked, so a thread that blocks in
  \<open>select\<close> is woken too; nothing else is asked of the kernel.
\<close>

theorem ev_send_delivers:
  assumes slot: "task_slot (sh s) task = Some k" and res: "ev_send task bits s = (r, s')"
  shows "r = 0 \<and> t_events (tasks s' ! k) = t_events (tasks s ! k) OR bits \<and>
    (\<forall>j. j \<noteq> k \<longrightarrow> tasks s' ! j = tasks s ! j) \<and> FxWake (FwEvents k) \<in> set (fx s') \<and>
    (\<forall>i. e_events_bridge (ecf s) \<longrightarrow> find_index (\<lambda>e. d_task e = task) (p_evdevs (lo s)) = Some i \<longrightarrow>
         has_bits bits (d_sysmask (p_evdevs (lo s) ! i) OR 0xff000000) \<longrightarrow>
         d_signaled (p_evdevs (lo s') ! i) \<and>
         fx s' = fx s @ FxWake (FwEvents k) #
           (if d_signaled (p_evdevs (lo s) ! i) then [] else [FxPipeWrite (d_wr (p_evdevs (lo s) ! i))]))"
proof -
  note st = ev_send_state [OF slot, of bits, unfolded res, simplified]
  have k: "k < length (tasks s)" using task_slot_SomeD [OF slot] by simp
  let ?s1 = "emit (FxWake (FwEvents k)) (upd_task k (\<lambda>t. t\<lparr>t_events := t_events t OR bits\<rparr>) s)"
  have s': "s' = evdev_reconcile task ?s1" using res slot by (simp add: ev_send_def)
  have "FxWake (FwEvents k) \<in> set (fx s')" unfolding s' by (rule reconcile_fx) simp
  moreover have "d_signaled (p_evdevs (lo s') ! i) \<and> fx s' = fx s @ FxWake (FwEvents k) #
      (if d_signaled (p_evdevs (lo s) ! i) then [] else [FxPipeWrite (d_wr (p_evdevs (lo s) ! i))])"
    if "e_events_bridge (ecf s)" "find_index (\<lambda>e. d_task e = task) (p_evdevs (lo s)) = Some i"
      "has_bits bits (d_sysmask (p_evdevs (lo s) ! i) OR 0xff000000)" for i
  proof -
    have "task_slot (sh ?s1) task = Some k"
      using slot by (simp add: task_slot_upd_task [OF slot])
    moreover have "evdev_want ?s1 (p_evdevs (lo s) ! i) k"
      using that(3) k by (simp add: evdev_want_def evdev_mask_def has_bits_or)
    ultimately show ?thesis
      unfolding s' using reconcile_signaled [of ?s1 task i k] reconcile_writes_byte [of ?s1 task i k] that by simp
  qed
  ultimately show ?thesis using st k by simp
qed

definition one_task :: "u32 \<Rightarrow> st" where
  "one_task i = boot 7 7\<lparr>sh := zero_ctl\<lparr>c_tasks := [zero_task\<lparr>t_used := True, t_id := i\<rparr>]\<rparr>\<rparr>"

definition piped_task :: "u32 \<Rightarrow> st" where
  "piped_task i = one_task i\<lparr>ecf := ev_off\<lparr>e_events_bridge := True\<rparr>, lo := proc_init\<lparr>p_evdevs :=
     [\<lparr>d_task = i, d_rd = 3, d_wr = 4, d_sysmask = 0, d_signaled = False\<rparr>]\<rparr>\<rparr>"

lemma ev_send_delivers_witness:
  "t_events (tasks (snd (ev_send 0x106 0x02000000 (piped_task 0x106))) ! 0) = 0x02000000 \<and>
   fx (snd (ev_send 0x106 0x02000000 (piped_task 0x106))) = [FxWake (FwEvents 0), FxPipeWrite 4]"
  using ev_send_delivers [where s = "piped_task 0x106" and task = "0x106" and k = 0 and bits = "0x02000000",
      OF _ prod.collapse [symmetric]]
  by (simp add: piped_task_def one_task_def task_slot_def slot_of_def zero_task_def has_bits_def)

text \<open>
  Every pass of the pipe's watcher thread leaves the pipe readable exactly when an event of its
  mask is pending for its task (or, while the sibling switch is on, for any task of the same
  process), and sleeps on the task's event word, so an event raised by another process is noticed.
\<close>

theorem evdev_watcher_level:
  assumes "task_slot (sh s) (d_task (p_evdevs (lo s) ! i)) = Some k" and "i < length (p_evdevs (lo s))"
    and "evdev_watcher_pass i s = (r, s')"
  shows "r = Sleep (FwEvents k) (if p_sibling (lo s') \<noteq> 0 then Some 15 else None) \<and>
    p_sibling (lo s') \<ge> 0 \<and>
    (d_signaled (p_evdevs (lo s') ! i) \<longleftrightarrow> evdev_want s' (p_evdevs (lo s) ! i) k)"
proof -
  define s1 where "s1 = (if p_sibling (lo s) < 0
    then s\<lparr>lo := (lo s)\<lparr>p_sibling := (if e_evdev_sibling (ecf s) then 1 else 0)\<rparr>\<rparr> else s)"
  have s': "s' = evdev_reconcile_locked i s1"
    and r: "r = Sleep (FwEvents k) (if p_sibling (lo s1) \<noteq> 0 then Some 15 else None)"
    using assms(1,3) by (simp_all add: evdev_watcher_pass_def s1_def Let_def)
  have s1: "sh s1 = sh s" "p_evdevs (lo s1) = p_evdevs (lo s)" "0 \<le> p_sibling (lo s1)"
    by (auto simp: s1_def)
  have sib: "p_sibling (lo s') = p_sibling (lo s1)" "sh s' = sh s1"
    unfolding s' by (auto simp: evdev_reconcile_locked_def Let_def split: option.splits)
  have "d_signaled (p_evdevs (lo s') ! i) = evdev_want s1 (p_evdevs (lo s) ! i) k"
    unfolding s' using reconcile_locked_signaled [of s1 i k] assms(1,2) s1 by simp
  also have "evdev_want s1 = evdev_want s'" by (intro ext) (simp add: evdev_want_def sib)
  finally show ?thesis using r sib s1 by simp
qed

lemma evdev_watcher_level_witness:
  "fst (evdev_watcher_pass 0 (one_task 0x106\<lparr>lo := proc_init\<lparr>p_evdevs :=
     [\<lparr>d_task = 0x106, d_rd = 3, d_wr = 4, d_sysmask = 0, d_signaled = False\<rparr>]\<rparr>\<rparr>))
   = Sleep (FwEvents 0) None"
  using evdev_watcher_level [where s = "one_task 0x106\<lparr>lo := proc_init\<lparr>p_evdevs :=
     [\<lparr>d_task = 0x106, d_rd = 3, d_wr = 4, d_sysmask = 0, d_signaled = False\<rparr>]\<rparr>\<rparr>"
     and i = 0 and k = 0, OF _ _ prod.collapse [symmetric]]
  by (simp add: one_task_def task_slot_def slot_of_def zero_task_def evdev_watcher_pass_def
      off_defs evdev_reconcile_locked_def)

end
