(* ===== verification/Fifo.thy ===== *)
theory Fifo
  imports Main
begin

text \<open>
  The contract of a bounded message queue that drops its oldest entry when it is full: what the
  senders and readers of the emulator rely on.  \<open>cnt n q\<close> says that \<open>n\<close> more entries can be
  numbered.
\<close>

definition keep_last :: "nat \<Rightarrow> 'm list \<Rightarrow> 'm list" where
  "keep_last n xs = drop (length xs - n) xs"

lemma keep_last_short: "length xs \<le> n \<Longrightarrow> keep_last n xs = xs"
  by (simp add: keep_last_def)

lemma length_keep_last: "length (keep_last n xs) = min n (length xs)"
  by (simp add: keep_last_def)

lemma keep_last_snoc:
  "0 < n \<Longrightarrow> keep_last n (keep_last n xs @ [x]) = keep_last n (xs @ [x])"
  by (cases "length xs \<le> n") (simp_all add: keep_last_def Suc_diff_le)

lemma keep_last_append:
  "keep_last n (keep_last n xs @ ys) = keep_last n (xs @ ys)"
  by (cases "length xs \<le> n") (simp_all add: keep_last_def add.commute)

locale bounded_fifo =
  fixes ok :: "'q \<Rightarrow> bool" and cnt :: "nat \<Rightarrow> 'q \<Rightarrow> bool" and content :: "'q \<Rightarrow> 'm list"
    and fits :: "'m \<Rightarrow> bool" and put :: "'m \<Rightarrow> 'q \<Rightarrow> 'q" and front :: "'q \<Rightarrow> 'm" and pop :: "'q \<Rightarrow> 'q" and cap :: nat
  assumes cap_pos: "0 < cap"
    and put_ok: "ok q \<Longrightarrow> cnt (Suc n) q \<Longrightarrow> fits m \<Longrightarrow> ok (put m q)"
    and put_cnt: "ok q \<Longrightarrow> cnt (Suc n) q \<Longrightarrow> fits m \<Longrightarrow> cnt n (put m q)"
    and put_content: "ok q \<Longrightarrow> cnt (Suc n) q \<Longrightarrow> fits m \<Longrightarrow> content (put m q) = keep_last cap (content q @ [m])"
    and front_hd: "ok q \<Longrightarrow> content q \<noteq> [] \<Longrightarrow> front q = hd (content q)"
    and pop_ok: "ok q \<Longrightarrow> content q \<noteq> [] \<Longrightarrow> ok (pop q)"
    and pop_content: "ok q \<Longrightarrow> content q \<noteq> [] \<Longrightarrow> content (pop q) = tl (content q)"
begin

text \<open>A burst of sends leaves exactly the last \<open>cap\<close> messages, in order.\<close>

lemma burst:
  assumes "ok q" and "cnt (length ms) q" and "list_all fits ms" and "length (content q) \<le> cap"
  shows "ok (fold put ms q) \<and> content (fold put ms q) = keep_last cap (content q @ ms)"
  using assms
proof (induction ms arbitrary: q)
  case Nil
  then show ?case by (simp add: keep_last_short)
next
  case (Cons m ms)
  have c: "content (put m q) = keep_last cap (content q @ [m])"
    using Cons.prems put_content by simp
  then have "length (content (put m q)) \<le> cap" by (simp add: length_keep_last)
  with Cons.IH [of "put m q"] Cons.prems
  have "ok (fold put ms (put m q)) \<and>
      content (fold put ms (put m q)) = keep_last cap (keep_last cap (content q @ [m]) @ ms)"
    by (simp add: put_ok put_cnt c)
  then show ?case by (simp add: keep_last_append)
qed

text \<open>Reading a queue to its end yields its content in order and leaves it empty.\<close>

fun drain :: "nat \<Rightarrow> 'q \<Rightarrow> 'm list \<times> 'q" where
  "drain 0 q = ([], q)"
| "drain (Suc n) q = (case drain n (pop q) of (ms, q') \<Rightarrow> (front q # ms, q'))"

lemma drain_content:
  assumes "ok q"
  shows "fst (drain (length (content q)) q) = content q
    \<and> content (snd (drain (length (content q)) q)) = []"
  using assms
proof (induction "length (content q)" arbitrary: q)
  case 0
  then show ?case by simp
next
  case (Suc n)
  then have ne: "content q \<noteq> []" by auto
  then have "length (content (pop q)) = n" using Suc.hyps(2) Suc.prems by (simp add: pop_content)
  then have "fst (drain n (pop q)) = content (pop q) \<and> content (snd (drain n (pop q))) = []"
    using Suc.hyps(1) [of "pop q"] Suc.prems ne by (simp add: pop_ok)
  then show ?case
    using Suc.prems ne Suc.hyps(2) [symmetric]
    by (cases "drain n (pop q)") (simp add: front_hd pop_content)
qed

text \<open>A message is lost only by a burst longer than the capacity.\<close>

lemma burst_complete:
  assumes "ok q" and "cnt (length ms) q" and "list_all fits ms" and "length (content q) + length ms \<le> cap"
  shows "fst (drain (length (content q @ ms)) (fold put ms q)) = content q @ ms"
proof -
  have "ok (fold put ms q)" and c: "content (fold put ms q) = content q @ ms"
    using burst [OF assms(1-3)] assms(4) by (auto simp: keep_last_short)
  with drain_content [of "fold put ms q"] show ?thesis by simp
qed

end

end
