(* ===== verification/QueueTable.thy ===== *)
theory QueueTable
  imports Tasks Events Fifo
begin

text \<open>
  The queue table and the message ring of one queue: \<open>q_slot\<close>, \<open>q_basename\<close>, \<open>q_find_slot\<close>,
  \<open>q_delete\<close>, and the enqueue and dequeue steps that \<open>q_send\<close> and \<open>q_read\<close> make under the lock.
\<close>

section \<open>Names and slots\<close>

definition q_slot :: "ctl \<Rightarrow> u32 \<Rightarrow> nat option" where
  "q_slot c i = slot_of q_used q_id (c_queues c) i"

text \<open>The first 31 characters, cut at the last dot.\<close>

definition q_basename :: "string \<Rightarrow> string" where
  "q_basename nm = before_last (CHR ''.'') (name_store nm)"

definition q_named :: "string \<Rightarrow> queue \<Rightarrow> bool" where
  "q_named base q \<longleftrightarrow> q_used q \<and> name_eq (q_name q) base"

definition q_find_slot :: "ctl \<Rightarrow> string \<Rightarrow> nat option" where
  "q_find_slot c base = find_index (q_named base) (c_queues c)"

definition q_delete :: "u32 \<Rightarrow> st \<Rightarrow> int \<times> st" where
  "q_delete i s =
     (case q_slot (sh s) i of
        None \<Rightarrow> (-9, s)
      | Some k \<Rightarrow>
          (0, emit (FxWake (FwTail k))
                (upd_queue k (\<lambda>q. q\<lparr>q_used := False, q_name := [], q_head := 0, q_tail := 0,
                                   q_notify := 0, q_owner := 0\<rparr>) s)))"

section \<open>The message ring\<close>

definition ring_used :: "queue \<Rightarrow> u32" where
  "ring_used q = q_tail q - q_head q"

definition ring_ix :: "u32 \<Rightarrow> nat" where
  "ring_ix n = unat n mod QSLOTS"

text \<open>
  \<open>q_send\<close> first makes room (a full ring drops its oldest message), then writes the slot of \<open>tail\<close>
  (the data bytes over what the slot held before), and at last publishes it by \<open>tail++\<close>.
\<close>

definition ring_room :: "queue \<Rightarrow> queue" where
  "ring_room q = (if ring_used q \<ge> of_nat QSLOTS then q\<lparr>q_drop_warned := True, q_head := q_head q + 1\<rparr>
                  else q)"

definition upd_slot :: "(qmsg \<Rightarrow> qmsg) \<Rightarrow> queue \<Rightarrow> queue" where
  "upd_slot f q = q\<lparr>q_msg := (q_msg q)[ring_ix (q_tail q) := f (q_msg q ! ring_ix (q_tail q))]\<rparr>"

definition ring_store :: "u32 \<times> u32 \<times> u32 \<Rightarrow> u32 \<Rightarrow> u8 list \<Rightarrow> queue \<Rightarrow> queue" where
  "ring_store hdr sz d q =
     upd_slot (\<lambda>m. m\<lparr>m_len := sz, m_hdr := hdr, m_data := overlay 0 d (m_data m)\<rparr>) (ring_room q)"

definition ring_publish :: "queue \<Rightarrow> queue" where
  "ring_publish q = q\<lparr>q_tail := q_tail q + 1\<rparr>"

definition ring_front :: "queue \<Rightarrow> qmsg" where
  "ring_front q = q_msg q ! ring_ix (q_head q)"

definition ring_pop :: "queue \<Rightarrow> queue" where
  "ring_pop q = q\<lparr>q_head := q_head q + 1\<rparr>"

text \<open>What a reader sees of a stored message: its header and its first \<open>len\<close> bytes.\<close>

type_synonym view = "(u32 \<times> u32 \<times> u32) \<times> u8 list"

definition msg_view :: "qmsg \<Rightarrow> view" where
  "msg_view m = (m_hdr m, bytes_upto (unat (m_len m)) (m_data m))"

text \<open>The abstract content of a ring whose counters have not wrapped.\<close>

definition ring_ok :: "queue \<Rightarrow> bool" where
  "ring_ok q \<longleftrightarrow> length (q_msg q) = QSLOTS \<and> unat (q_head q) \<le> unat (q_tail q) \<and>
     unat (q_tail q) \<le> unat (q_head q) + QSLOTS"

definition ring_cnt :: "nat \<Rightarrow> queue \<Rightarrow> bool" where
  "ring_cnt n q \<longleftrightarrow> unat (q_tail q) + n < 2 ^ 32"

definition q_content :: "queue \<Rightarrow> view list" where
  "q_content q = map (\<lambda>i. msg_view (q_msg q ! (i mod QSLOTS))) [unat (q_head q)..<unat (q_tail q)]"

definition ring_put :: "view \<Rightarrow> queue \<Rightarrow> queue" where
  "ring_put v q = ring_publish (ring_store (fst v) (of_nat (length (snd v))) (snd v) q)"

section \<open>The ring implements the bounded queue\<close>

lemma mod_neighbours:
  assumes "i < t" and "t < i + QSLOTS"
  shows "i mod QSLOTS \<noteq> t mod QSLOTS"
proof
  assume "i mod QSLOTS = t mod QSLOTS"
  then have "t mod QSLOTS = i mod QSLOTS" by simp
  then have "QSLOTS dvd t - i" using assms(1) mod_eq_dvd_iff_nat [of i t QSLOTS] by simp
  moreover have "0 < t - i" "t - i < QSLOTS" using assms by (auto simp: QSLOTS_def)
  ultimately show False by (simp add: nat_dvd_not_less)
qed

lemma unat_succ: "unat (x :: u32) + 1 < 2 ^ 32 \<Longrightarrow> unat (x + 1) = unat x + 1"
  by (simp add: unat_word_ariths)

lemma ring_used_unat: "ring_ok q \<Longrightarrow> unat (ring_used q) = unat (q_tail q) - unat (q_head q)"
  unfolding ring_used_def ring_ok_def by (simp add: unat_sub word_le_nat_alt)

lemma ring_full:
  "ring_ok q \<Longrightarrow> ring_used q \<ge> of_nat QSLOTS \<longleftrightarrow> unat (q_tail q) - unat (q_head q) = QSLOTS"
  using ring_used_unat [of q] by (auto simp: word_le_nat_alt ring_ok_def QSLOTS_def)

lemma length_q_content: "length (q_content q) = unat (q_tail q) - unat (q_head q)"
  by (simp add: q_content_def)

lemma ring_room_ok:
  assumes "ring_ok q"
  shows "ring_ok (ring_room q)" and "unat (q_tail q) < unat (q_head (ring_room q)) + QSLOTS"
    and "q_content (ring_room q) = keep_last (QSLOTS - 1) (q_content q)"
proof -
  have full: "ring_used q \<ge> of_nat QSLOTS \<longleftrightarrow> unat (q_tail q) - unat (q_head q) = QSLOTS"
    by (rule ring_full [OF assms])
  have up: "unat (q_head q + 1) = unat (q_head q) + 1"
    if "unat (q_tail q) - unat (q_head q) = QSLOTS"
    using that unat_lt32 [of "q_tail q"] by (intro unat_succ) (auto simp: QSLOTS_def)
  show "ring_ok (ring_room q)"
    using assms full up by (auto simp: ring_room_def ring_ok_def QSLOTS_def)
  show "unat (q_tail q) < unat (q_head (ring_room q)) + QSLOTS"
    using assms full up by (auto simp: ring_room_def ring_ok_def QSLOTS_def)
  have "unat (q_tail q) - 11 = Suc (unat (q_head q))"
    if "unat (q_tail q) - unat (q_head q) = QSLOTS"
    using that by (simp add: QSLOTS_def)
  then show "q_content (ring_room q) = keep_last (QSLOTS - 1) (q_content q)"
    using assms full up
    by (auto simp: ring_room_def q_content_def keep_last_def ring_ok_def QSLOTS_def drop_map)
qed

lemma upd_slot_content:
  assumes "ring_ok q" and "unat (q_tail q) < unat (q_head q) + QSLOTS"
  shows "q_content (upd_slot f q) = q_content q" and "ring_ok (upd_slot f q)"
proof -
  have "i mod QSLOTS \<noteq> unat (q_tail q) mod QSLOTS" if "unat (q_head q) \<le> i" "i < unat (q_tail q)" for i
    using that assms(2) by (intro mod_neighbours) simp_all
  then show "q_content (upd_slot f q) = q_content q"
    by (auto simp: q_content_def upd_slot_def ring_ix_def nth_list_update_neq [OF not_sym])
  show "ring_ok (upd_slot f q)" using assms(1) by (simp add: upd_slot_def ring_ok_def)
qed

lemma publish_content:
  assumes "ring_ok q" and "unat (q_tail q) < unat (q_head q) + QSLOTS" and "ring_cnt 1 q"
  shows "q_content (ring_publish q) = q_content q @ [msg_view (q_msg q ! ring_ix (q_tail q))]"
    and "ring_ok (ring_publish q)"
  using assms unat_succ [of "q_tail q"]
  by (auto simp: q_content_def ring_publish_def ring_ix_def ring_ok_def ring_cnt_def)

lemma overlay_0: "overlay 0 d old = d @ drop (length d) old"
  by (simp add: overlay_def)

lemma keep_last_put:
  "0 < n \<Longrightarrow> keep_last (n - 1) xs @ [x] = keep_last n (xs @ [x])"
  by (cases n) (auto simp: keep_last_def)

lemma ring_put_correct:
  assumes "ring_ok q" and "ring_cnt (Suc n) q" and "length (snd v) < 2 ^ 32"
  shows "ring_ok (ring_put v q)" and "ring_cnt n (ring_put v q)"
    and "q_content (ring_put v q) = keep_last QSLOTS (q_content q @ [v])"
proof -
  let ?q = "ring_room q"
  note room = ring_room_ok [OF assms(1)]
  have t: "q_tail ?q = q_tail q" "length (q_msg ?q) = QSLOTS"
    using assms(1) by (auto simp: ring_room_def ring_ok_def)
  define w where "w = ring_store (fst v) (of_nat (length (snd v))) (snd v) q"
  have w: "ring_ok w" "q_content w = q_content ?q"
    unfolding w_def ring_store_def using upd_slot_content [OF room(1)] room(2) t by simp_all
  have tw: "q_tail w = q_tail q" "q_head w = q_head ?q"
    by (simp_all add: w_def ring_store_def upd_slot_def t)
  have slot: "msg_view (q_msg w ! ring_ix (q_tail w)) = v"
    using assms(3) t
    by (simp add: w_def ring_store_def upd_slot_def msg_view_def ring_ix_def QSLOTS_def overlay_0
        unat_of_nat take_bit_eq_mod bytes_upto_append)
  have c1: "ring_cnt 1 w" using assms(2) by (simp add: ring_cnt_def tw)
  have pub: "q_content (ring_publish w) = q_content ?q @ [v]" "ring_ok (ring_publish w)"
    using publish_content [OF w(1) _ c1] room(2) slot w(2) tw by simp_all
  then show "ring_ok (ring_put v q)" by (simp add: ring_put_def w_def)
  show "ring_cnt n (ring_put v q)"
    using assms(2) unat_succ [of "q_tail q"] tw
    by (simp add: ring_put_def ring_publish_def ring_cnt_def flip: w_def)
  show "q_content (ring_put v q) = keep_last QSLOTS (q_content q @ [v])"
    using pub(1) room(3) keep_last_put [of QSLOTS "q_content q" v]
    by (simp add: ring_put_def QSLOTS_def flip: w_def)
qed

lemma ring_front_hd:
  assumes "ring_ok q" and "q_content q \<noteq> []"
  shows "msg_view (ring_front q) = hd (q_content q)"
proof -
  have "unat (q_head q) < unat (q_tail q)" using assms(2) by (auto simp: q_content_def)
  then show ?thesis by (simp add: q_content_def ring_front_def ring_ix_def hd_map)
qed

lemma ring_pop_content:
  assumes "ring_ok q" and "q_content q \<noteq> []"
  shows "ring_ok (ring_pop q)" and "q_content (ring_pop q) = tl (q_content q)"
proof -
  have lt: "unat (q_head q) < unat (q_tail q)" using assms(2) by (auto simp: q_content_def)
  then have "unat (q_head q + 1) = unat (q_head q) + 1"
    using unat_lt32 [of "q_tail q"] by (intro unat_succ) simp
  then show "ring_ok (ring_pop q)" and "q_content (ring_pop q) = tl (q_content q)"
    using assms(1) lt by (auto simp: ring_pop_def ring_ok_def q_content_def upt_conv_Cons)
qed

lemma QSLOTS_pos: "0 < QSLOTS"
  by (simp add: QSLOTS_def)

definition view_fits :: "view \<Rightarrow> bool" where
  "view_fits v \<longleftrightarrow> length (snd v) \<le> QMSGCAP"

interpretation ring: bounded_fifo ring_ok ring_cnt q_content view_fits ring_put
    "\<lambda>q. msg_view (ring_front q)" ring_pop QSLOTS
  by unfold_locales
    (auto simp: QSLOTS_pos view_fits_def QMSGCAP_def intro: ring_put_correct ring_front_hd ring_pop_content)

text \<open>
  C2. The ring of a queue is a first-in first-out buffer of 12 messages: whatever burst of messages
  is sent to it, reading it to the end returns exactly the last 12 of what it held and was sent, in
  the order of sending, bytes and headers unchanged; so nothing is lost while 12 or fewer are
  pending.  The queue's counters must not reach \<open>2^32\<close>.
\<close>

theorem ring_is_fifo:
  assumes "ring_ok q" and "ring_cnt (length ms) q" and "list_all view_fits ms"
  shows "ring_ok (fold ring_put ms q) \<and>
    fst (ring.drain (length (q_content (fold ring_put ms q))) (fold ring_put ms q))
      = keep_last QSLOTS (q_content q @ ms)"
proof -
  have "length (q_content q) \<le> QSLOTS" using assms(1) by (auto simp: length_q_content ring_ok_def)
  then have "ring_ok (fold ring_put ms q)"
    and "q_content (fold ring_put ms q) = keep_last QSLOTS (q_content q @ ms)"
    using ring.burst [OF assms] by simp_all
  then show ?thesis using ring.drain_content [of "fold ring_put ms q"] by simp
qed

lemma zero_queue_ring: "ring_ok zero_queue" "q_content zero_queue = []" "ring_cnt (Suc (Suc 0)) zero_queue"
  by (simp_all add: zero_queue_def ring_ok_def q_content_def ring_cnt_def)

lemma ring_is_fifo_witness:
  "fst (ring.drain 2 (fold ring_put [((1, 2, 3), [10, 20]), ((4, 5, 6), [])] zero_queue))
   = [((1, 2, 3), [10, 20]), ((4, 5, 6), [])]"
  using ring_is_fifo [where q = zero_queue and ms = "[((1, 2, 3), [10, 20]), ((4, 5, 6), [])]"]
    ring.burst [OF zero_queue_ring(1), where ms = "[((1, 2, 3), [10, 20]), ((4, 5, 6), [])]"]
  by (simp add: zero_queue_ring keep_last_short QSLOTS_def view_fits_def QMSGCAP_def numeral_2_eq_2)

definition wrap_queue :: queue where
  "wrap_queue = zero_queue\<lparr>q_head := 0xfffffff7, q_tail := 0xffffffff,
     q_msg := map (\<lambda>i. \<lparr>m_len = 1, m_hdr = (0, 0, 0), m_data = [of_nat i]\<rparr>) [0..<QSLOTS]\<rparr>"

text \<open>
  Past \<open>2^32\<close> messages the ring is no longer a queue: the counters wrap, \<open>2^32\<close> is not a multiple
  of 12, and the slot of message number 0 is the slot of a message still pending.  Here a queue
  with 8 pending messages takes two more; the second one overwrites the sixth pending message, so
  both read as the new message.
\<close>

theorem ring_wrap_clobbers:
  "let q = ring_put ((1, 1, 1), [0xbb]) (ring_put ((1, 1, 1), [0xaa]) wrap_queue) in
   ring_used q = 10 \<and> q_head q = 0xfffffff7 \<and>
   msg_view (q_msg q ! ring_ix (0xfffffffc)) = ((1, 1, 1), [0xbb]) \<and>
   msg_view (q_msg wrap_queue ! ring_ix (0xfffffffc)) = ((0, 0, 0), [0])"
  by (simp add: Let_def ring_put_def ring_publish_def ring_store_def ring_room_def ring_used_def
      upd_slot_def wrap_queue_def zero_queue_def ring_ix_def QSLOTS_def msg_view_def bytes_upto_def
      overlay_def upt_rec)

end
