(* ===== verification/Wire.thy ===== *)
theory Wire
  imports QueueTable
begin

text \<open>
  The GMessage wire format as the emulator writes it (\<open>gm_str\<close>, \<open>gm_absent\<close>, \<open>gm_int\<close>,
  \<open>gm_list_empty\<close>, \<open>gm_scalar\<close> and the three \<open>gm_build_*\<close> messages), a reader of that format as the
  comments of the source describe it, and the parts of a message the emulator itself reads: the type
  word and the leading string that names the reply queue.  A builder takes the bytes written so far
  (the buffer up to position \<open>p\<close>) and returns them extended.
\<close>

section \<open>Builders\<close>

definition GMC_STRING :: u32 where "GMC_STRING = 0xe7"
definition GMC_INT :: u32 where "GMC_INT = 0x63"
definition GMC_LIST :: u32 where "GMC_LIST = 0x18c"
definition GMC_ENUM_SUBSYS_TYPE :: u32 where "GMC_ENUM_SUBSYS_TYPE = 0xc8014b"
definition GMC_ENUM_SUBSYS_ACTION :: u32 where "GMC_ENUM_SUBSYS_ACTION = 0xca004b"

definition gm_str :: "u8 list \<Rightarrow> string \<Rightarrow> u8 list" where
  "gm_str b s = b @ le32 GMC_STRING @ le32 (of_nat (length s)) @ bytes_of s"

definition gm_absent :: "u8 list \<Rightarrow> u32 \<Rightarrow> u8 list" where
  "gm_absent b code = b @ le32 (0x80000000 OR code)"

definition gm_int :: "u8 list \<Rightarrow> u32 \<Rightarrow> u8 list" where
  "gm_int b v = b @ le32 GMC_INT @ le32 v"

definition gm_list_empty :: "u8 list \<Rightarrow> u32 \<Rightarrow> u8 list" where
  "gm_list_empty b code = b @ le32 code @ le32 0"

definition gm_scalar :: "u8 list \<Rightarrow> u32 \<Rightarrow> u32 \<Rightarrow> u8 list" where
  "gm_scalar b code v = b @ le32 code @ le32 v"

text \<open>A string attribute whose C argument may be NULL.\<close>

definition gm_opt_str :: "u8 list \<Rightarrow> string option \<Rightarrow> u8 list" where
  "gm_opt_str b s = (case s of Some x \<Rightarrow> gm_str b x | None \<Rightarrow> gm_absent b GMC_STRING)"

definition gm_build_fmloadprocess ::
    "bool \<Rightarrow> string option \<Rightarrow> string option \<Rightarrow> string option \<Rightarrow> u8 list" where
  "gm_build_fmloadprocess present procName cmdOpts imagePath =
     (let b0 = le32 0x00c80161;
          b1 = gm_opt_str b0 procName;
          b2 = gm_opt_str b1 cmdOpts;
          b3 = gm_list_empty b2 GMC_LIST;
          b4 = gm_absent b3 GMC_STRING;
          b5 = gm_opt_str b4 imagePath
      in if present then gm_int (gm_scalar b5 GMC_ENUM_SUBSYS_TYPE 0) 0
         else gm_absent (gm_absent b5 GMC_ENUM_SUBSYS_TYPE) GMC_INT)"

definition gm_build_fmsubsystemaction :: "u32 \<Rightarrow> string option \<Rightarrow> string option \<Rightarrow> u8 list" where
  "gm_build_fmsubsystemaction action name procedure =
     (let b0 = gm_scalar (le32 0x00ca0060) GMC_ENUM_SUBSYS_ACTION action
      in gm_opt_str (gm_opt_str b0 name) (if procedure = Some [] then None else procedure))"

definition gm_build_fmloadsubsystem ::
    "bool \<Rightarrow> string \<Rightarrow> string \<Rightarrow> string option \<Rightarrow> string option \<Rightarrow> string option \<Rightarrow> u8 list" where
  "gm_build_fmloadsubsystem present name localNS procName cmdOpts imagePath =
     (let b0 = gm_str (gm_str (le32 0x00c80181) name) localNS;
          b1 = gm_absent (gm_absent b0 GMC_STRING) GMC_ENUM_SUBSYS_TYPE;
          b2 = b1 @ le32 GMC_LIST @ le32 1 @ gm_build_fmloadprocess present procName cmdOpts imagePath
      in gm_absent b2 GMC_INT)"

section \<open>A reader of the format\<close>

definition chars_of :: "u8 list \<Rightarrow> string" where
  "chars_of bs = map (\<lambda>b. char_of (unat b)) bs"

text \<open>Each reader consumes one attribute of the expected code: present, absent or an error.\<close>

definition rd_word :: "u32 \<Rightarrow> u8 list \<Rightarrow> (u32 option \<times> u8 list) option" where
  "rd_word code bs =
     (if length bs < 4 then None
      else if get32 bs 0 = 0x80000000 OR code then Some (None, drop 4 bs)
      else if get32 bs 0 = code \<and> length bs \<ge> 8 then Some (Some (get32 bs 4), drop 8 bs)
      else None)"

definition rd_str :: "u8 list \<Rightarrow> (string option \<times> u8 list) option" where
  "rd_str bs =
     (case rd_word GMC_STRING bs of
        None \<Rightarrow> None
      | Some (None, r) \<Rightarrow> Some (None, r)
      | Some (Some n, r) \<Rightarrow>
          if unat n \<le> length r then Some (Some (chars_of (take (unat n) r)), drop (unat n) r) else None)"

definition rd_type :: "u32 \<Rightarrow> u8 list \<Rightarrow> u8 list option" where
  "rd_type t bs = (if length bs \<ge> 4 \<and> get32 bs 0 = t then Some (drop 4 bs) else None)"

record fmload =
  f_proc :: "string option"
  f_opts :: "string option"
  f_ifdef :: "u32 option"
  f_foreach :: "string option"
  f_image :: "string option"
  f_type :: "u32 option"
  f_int :: "u32 option"

definition read_fmload :: "u8 list \<Rightarrow> (fmload \<times> u8 list) option" where
  "read_fmload bs =
     Option.bind (rd_type 0x00c80161 bs) (\<lambda>r.
     Option.bind (rd_str r) (\<lambda>(a, r).
     Option.bind (rd_str r) (\<lambda>(b, r).
     Option.bind (rd_word GMC_LIST r) (\<lambda>(c, r).
     Option.bind (rd_str r) (\<lambda>(d, r).
     Option.bind (rd_str r) (\<lambda>(e, r).
     Option.bind (rd_word GMC_ENUM_SUBSYS_TYPE r) (\<lambda>(f, r).
     Option.bind (rd_word GMC_INT r) (\<lambda>(g, r).
       Some (\<lparr>f_proc = a, f_opts = b, f_ifdef = c, f_foreach = d, f_image = e, f_type = f,
              f_int = g\<rparr>, r)))))))))"

record fmsubsys =
  g_name :: "string option"
  g_ns :: "string option"
  g_procedure :: "string option"
  g_type :: "u32 option"
  g_process :: fmload
  g_int :: "u32 option"

text \<open>The process list of the message is read as the one element the emulator writes.\<close>

definition read_fmloadsubsystem :: "u8 list \<Rightarrow> fmsubsys option" where
  "read_fmloadsubsystem bs =
     Option.bind (rd_type 0x00c80181 bs) (\<lambda>r.
     Option.bind (rd_str r) (\<lambda>(a, r).
     Option.bind (rd_str r) (\<lambda>(b, r).
     Option.bind (rd_str r) (\<lambda>(c, r).
     Option.bind (rd_word GMC_ENUM_SUBSYS_TYPE r) (\<lambda>(d, r).
     Option.bind (rd_word GMC_LIST r) (\<lambda>(n, r).
     if n \<noteq> Some 1 then None else
     Option.bind (read_fmload r) (\<lambda>(e, r).
     Option.bind (rd_word GMC_INT r) (\<lambda>(f, r).
       if r \<noteq> [] then None
       else Some \<lparr>g_name = a, g_ns = b, g_procedure = c, g_type = d, g_process = e,
                  g_int = f\<rparr>))))))))"

section \<open>Round trip\<close>

lemma chars_of_bytes_of [simp]: "chars_of (bytes_of s) = s"
  by (induction s) (simp_all add: chars_of_def bytes_of_def unat_of_char)

lemma get32_second: "get32 (le32 a @ le32 b @ r) 4 = b"
  by (simp add: get32_append_right)

lemma rd_word_present:
  "code AND 0x80000000 = 0 \<Longrightarrow> rd_word code (le32 code @ le32 v @ r) = Some (Some v, r)"
proof -
  assume c: "code AND 0x80000000 = 0"
  have "code \<noteq> 0x80000000 OR code"
  proof
    assume "code = 0x80000000 OR code"
    then have "code AND 0x80000000 = (0x80000000 OR code) AND 0x80000000" by simp
    also have "\<dots> = 0x80000000" by (rule bit_word_eqI) (auto simp: bit_simps)
    finally show False using c by simp
  qed
  then show ?thesis by (simp add: rd_word_def get32_second)
qed

lemma rd_word_absent: "rd_word code (le32 (0x80000000 OR code) @ r) = Some (None, r)"
  by (simp add: rd_word_def)

lemma rd_str_present:
  "length s < 2 ^ 32 \<Longrightarrow>
     rd_str (le32 GMC_STRING @ le32 (of_nat (length s)) @ bytes_of s @ r) = Some (Some s, r)"
  by (simp add: rd_str_def rd_word_present GMC_STRING_def unat_of_nat take_bit_eq_mod)

lemma rd_str_absent: "rd_str (le32 (0x80000000 OR GMC_STRING) @ r) = Some (None, r)"
  by (simp add: rd_str_def rd_word_absent)

lemma rd_type_same: "rd_type t (le32 t @ r) = Some r"
  by (simp add: rd_type_def)

lemmas wire_reads = rd_word_present rd_word_absent rd_str_present rd_str_absent rd_type_same
lemmas wire_builds = gm_str_def gm_absent_def gm_int_def gm_list_empty_def gm_scalar_def gm_opt_str_def

definition str_fits :: "string option \<Rightarrow> bool" where
  "str_fits s \<longleftrightarrow> (case s of None \<Rightarrow> True | Some x \<Rightarrow> length x < 2 ^ 32)"

lemma rd_gm_opt_str: "str_fits s \<Longrightarrow> rd_str (gm_opt_str [] s @ r) = Some (s, r)"
  by (cases s) (simp_all add: str_fits_def wire_builds wire_reads)

lemma codes_high: "GMC_STRING AND 0x80000000 = 0" "GMC_INT AND 0x80000000 = 0"
  "GMC_LIST AND 0x80000000 = 0" "GMC_ENUM_SUBSYS_TYPE AND 0x80000000 = 0"
  by (simp_all add: GMC_STRING_def GMC_INT_def GMC_LIST_def GMC_ENUM_SUBSYS_TYPE_def)

lemma fmload_bytes:
  "gm_build_fmloadprocess present a b c = le32 0x00c80161 @ gm_opt_str [] a @ gm_opt_str [] b
     @ le32 GMC_LIST @ le32 0 @ le32 (0x80000000 OR GMC_STRING) @ gm_opt_str [] c
     @ (if present then le32 GMC_ENUM_SUBSYS_TYPE @ le32 0 @ le32 GMC_INT @ le32 0
        else le32 (0x80000000 OR GMC_ENUM_SUBSYS_TYPE) @ le32 (0x80000000 OR GMC_INT))"
  unfolding gm_build_fmloadprocess_def Let_def wire_builds
  by (cases a; cases b; cases c; cases present) (simp_all only: append_assoc append_Nil option.case if_True if_False)

lemma read_fmload_build:
  assumes "str_fits a" and "str_fits b" and "str_fits c"
  shows "read_fmload (gm_build_fmloadprocess present a b c @ r) =
    Some (\<lparr>f_proc = a, f_opts = b, f_ifdef = Some 0, f_foreach = None, f_image = c,
           f_type = (if present then Some 0 else None), f_int = (if present then Some 0 else None)\<rparr>, r)"
  using assms
  by (simp add: read_fmload_def fmload_bytes wire_reads rd_gm_opt_str codes_high)

text \<open>
  C10. Round trip of the injected process-start message: reading \<open>FmLoadProcess\<close> back from the bytes
  \<open>gm_build_fmloadprocess\<close> writes gives exactly the attributes it was built from, a NULL argument as
  an absent one, and consumes every byte.
\<close>

theorem fmloadprocess_roundtrip:
  assumes "str_fits procName" and "str_fits cmdOpts" and "str_fits imagePath"
  shows "read_fmload (gm_build_fmloadprocess present procName cmdOpts imagePath) =
    Some (\<lparr>f_proc = procName, f_opts = cmdOpts, f_ifdef = Some 0, f_foreach = None,
           f_image = imagePath, f_type = (if present then Some 0 else None),
           f_int = (if present then Some 0 else None)\<rparr>, [])"
  using read_fmload_build [OF assms, of present "[]"] by simp

lemma fmloadprocess_roundtrip_witness:
  "map_option (f_image \<circ> fst)
     (read_fmload (gm_build_fmloadprocess False (Some ''winmgr/winmgr'') None (Some ''/tmp/b/winmgr.elf'')))
   = Some (Some ''/tmp/b/winmgr.elf'')"
  by (subst fmloadprocess_roundtrip) (simp_all add: str_fits_def)

lemma fmloadsubsystem_bytes:
  "gm_build_fmloadsubsystem present name ns a b c = le32 0x00c80181 @ le32 GMC_STRING
     @ le32 (of_nat (length name)) @ bytes_of name @ le32 GMC_STRING @ le32 (of_nat (length ns))
     @ bytes_of ns @ le32 (0x80000000 OR GMC_STRING) @ le32 (0x80000000 OR GMC_ENUM_SUBSYS_TYPE)
     @ le32 GMC_LIST @ le32 1 @ gm_build_fmloadprocess present a b c @ le32 (0x80000000 OR GMC_INT)"
  unfolding gm_build_fmloadsubsystem_def Let_def gm_str_def gm_absent_def by simp

text \<open>
  Round trip of the subsystem message: \<open>FmLoadSubsystem\<close> as \<open>gm_build_fmloadsubsystem\<close> writes it
  reads back as the subsystem name, its namespace, and one process with the given attributes.
\<close>

theorem fmloadsubsystem_roundtrip:
  assumes "length name < 2 ^ 32" and "length ns < 2 ^ 32"
    and "str_fits procName" and "str_fits cmdOpts" and "str_fits imagePath"
  shows "read_fmloadsubsystem (gm_build_fmloadsubsystem present name ns procName cmdOpts imagePath) =
    Some \<lparr>g_name = Some name, g_ns = Some ns, g_procedure = None, g_type = None,
          g_process = \<lparr>f_proc = procName, f_opts = cmdOpts, f_ifdef = Some 0, f_foreach = None,
                       f_image = imagePath, f_type = (if present then Some 0 else None),
                       f_int = (if present then Some 0 else None)\<rparr>,
          g_int = None\<rparr>"
  unfolding read_fmloadsubsystem_def fmloadsubsystem_bytes
  using assms rd_word_absent [of GMC_INT "[]"]
  by (simp add: wire_reads codes_high read_fmload_build)

lemma fmloadsubsystem_roundtrip_witness:
  "map_option (f_proc \<circ> g_process)
     (read_fmloadsubsystem (gm_build_fmloadsubsystem True ''winmgr'' ''winmgr''
        (Some ''~/winmgr'') None (Some ''/tmp/b/winmgr.elf'')))
   = Some (Some ''~/winmgr'')"
  by (subst fmloadsubsystem_roundtrip) (simp_all add: str_fits_def)

section \<open>What the emulator reads of a message\<close>

text \<open>
  \<open>mtype\<close> is the type word; \<open>lead_str\<close> the leading string attribute when it has the present tag and
  1 to 64 characters inside the message (cut at a NUL, as the C string it is copied into).
\<close>

definition mtype :: "u8 list \<Rightarrow> u32" where
  "mtype m = get32 m 0"

definition mtype31 :: "u8 list \<Rightarrow> u32" where
  "mtype31 m = get32 m 0 AND 0x7fffffff"

definition lead_str :: "u8 list \<Rightarrow> string option" where
  "lead_str m =
     (let n = unat (get32 m 8) in
      if get32 m 4 = GMC_STRING \<and> 1 \<le> n \<and> n \<le> 64 \<and> 12 + n \<le> length m
      then Some (cstr_of (take n (drop 12 m))) else None)"

text \<open>
  The scan for a queue whose name is embedded in a text: the longest name wins, the first of equal
  ones; \<open>longest_from\<close> is the loop with its running best.
\<close>

fun longest_from :: "(queue \<Rightarrow> bool) \<Rightarrow> nat \<Rightarrow> nat option \<Rightarrow> nat \<Rightarrow> queue list \<Rightarrow> nat option" where
  "longest_from P i best len [] = best"
| "longest_from P i best len (q # qs) =
     (if P q \<and> length (q_name q) > len then longest_from P (Suc i) (Some i) (length (q_name q)) qs
      else longest_from P (Suc i) best len qs)"

definition embedded_in :: "string \<Rightarrow> queue \<Rightarrow> bool" where
  "embedded_in text q \<longleftrightarrow> q_used q \<and> q_name q \<noteq> [] \<and> length (q_name q) \<ge> 4 \<and> has_sub (q_name q) text"

text \<open>A queue with notify bits is preferred to a longer one without.\<close>

definition embedded_queue :: "ctl \<Rightarrow> string \<Rightarrow> nat option" where
  "embedded_queue c text =
     (case longest_from (\<lambda>q. embedded_in text q \<and> q_notify q \<noteq> 0) 0 None 0 (c_queues c) of
        Some k \<Rightarrow> Some k
      | None \<Rightarrow> longest_from (embedded_in text) 0 None 0 (c_queues c))"

definition reply_slot :: "ctl \<Rightarrow> string \<Rightarrow> nat option" where
  "reply_slot c name =
     (case q_find_slot c name of Some k \<Rightarrow> Some k | None \<Rightarrow> embedded_queue c name)"

lemma longest_from_cases:
  "(longest_from P i best len qs = best \<and> (\<forall>q\<in>set qs. P q \<longrightarrow> length (q_name q) \<le> len)) \<or>
   (\<exists>k<length qs. longest_from P i best len qs = Some (i + k) \<and> P (qs ! k) \<and> len < length (q_name (qs ! k)) \<and>
      (\<forall>q\<in>set qs. P q \<longrightarrow> length (q_name q) \<le> length (q_name (qs ! k))))"
proof (induction qs arbitrary: i best len)
  case Nil
  then show ?case by simp
next
  case (Cons q qs)
  show ?case
  proof (cases "P q \<and> len < length (q_name q)")
    case True
    from Cons.IH [of "Suc i" "Some i" "length (q_name q)"] show ?thesis
    proof
      assume "longest_from P (Suc i) (Some i) (length (q_name q)) qs = Some i \<and>
        (\<forall>q'\<in>set qs. P q' \<longrightarrow> length (q_name q') \<le> length (q_name q))"
      with True show ?thesis by (intro disjI2 exI [of _ 0]) auto
    next
      assume "\<exists>k<length qs. longest_from P (Suc i) (Some i) (length (q_name q)) qs = Some (Suc i + k)
        \<and> P (qs ! k) \<and> length (q_name q) < length (q_name (qs ! k))
        \<and> (\<forall>q\<in>set qs. P q \<longrightarrow> length (q_name q) \<le> length (q_name (qs ! k)))"
      then obtain k where "k < length qs" "longest_from P (Suc i) (Some i) (length (q_name q)) qs = Some (Suc i + k)"
        "P (qs ! k)" "length (q_name q) < length (q_name (qs ! k))"
        "\<forall>q\<in>set qs. P q \<longrightarrow> length (q_name q) \<le> length (q_name (qs ! k))" by blast
      with True show ?thesis by (intro disjI2 exI [of _ "Suc k"]) auto
    qed
  next
    case False
    from Cons.IH [of "Suc i" best len] show ?thesis
    proof
      assume "longest_from P (Suc i) best len qs = best \<and> (\<forall>q\<in>set qs. P q \<longrightarrow> length (q_name q) \<le> len)"
      with False show ?thesis by auto
    next
      assume "\<exists>k<length qs. longest_from P (Suc i) best len qs = Some (Suc i + k)
        \<and> P (qs ! k) \<and> len < length (q_name (qs ! k))
        \<and> (\<forall>q\<in>set qs. P q \<longrightarrow> length (q_name q) \<le> length (q_name (qs ! k)))"
      then obtain k where "k < length qs" "longest_from P (Suc i) best len qs = Some (Suc i + k)"
        "P (qs ! k)" "len < length (q_name (qs ! k))"
        "\<forall>q\<in>set qs. P q \<longrightarrow> length (q_name q) \<le> length (q_name (qs ! k))" by blast
      with False show ?thesis by (intro disjI2 exI [of _ "Suc k"]) auto
    qed
  qed
qed

lemma longest_from_SomeD:
  assumes "longest_from P 0 None 0 qs = Some j"
  shows "j < length qs" and "P (qs ! j)" and "\<forall>q\<in>set qs. P q \<longrightarrow> length (q_name q) \<le> length (q_name (qs ! j))"
  using longest_from_cases [of P 0 None 0 qs] unfolding assms by auto

lemma longest_from_None:
  "longest_from P i None 0 qs = None \<longleftrightarrow> (\<forall>q\<in>set qs. P q \<longrightarrow> q_name q = [])"
  using longest_from_cases [of P i None 0 qs]
  by (metis length_greater_0_conv less_nat_zero_code list.size(3) le_zero_eq nth_mem option.distinct(1))

text \<open>
  The reply queue of a connect message is chosen well: a queue named exactly as the text wins;
  otherwise the chosen queue is live, its name occurs in the text, a queue that notifies an owner is
  preferred to every one that does not, and among the preferred ones none has a longer name.
\<close>

theorem reply_slot_best:
  assumes "reply_slot c text = Some k" and "q_find_slot c text = None"
  shows "k < length (c_queues c) \<and> embedded_in text (c_queues c ! k) \<and>
    (\<forall>q\<in>set (c_queues c). embedded_in text q \<longrightarrow>
        (q_notify q \<noteq> 0 \<longrightarrow> q_notify (c_queues c ! k) \<noteq> 0 \<and>
           length (q_name q) \<le> length (q_name (c_queues c ! k))) \<and>
        (q_notify (c_queues c ! k) = 0 \<longrightarrow> length (q_name q) \<le> length (q_name (c_queues c ! k))))"
proof -
  let ?P = "\<lambda>q. embedded_in text q \<and> q_notify q \<noteq> 0" and ?qs = "c_queues c"
  show ?thesis
  proof (cases "longest_from ?P 0 None 0 ?qs")
    case (Some j)
    then have "k = j" using assms by (simp add: reply_slot_def embedded_queue_def)
    moreover note longest_from_SomeD [OF Some]
    ultimately show ?thesis by blast
  next
    case None
    then have no: "\<forall>q\<in>set ?qs. ?P q \<longrightarrow> q_name q = []" by (simp only: longest_from_None)
    have k: "longest_from (embedded_in text) 0 None 0 ?qs = Some k"
      using None assms by (simp add: reply_slot_def embedded_queue_def)
    have "q_notify q = 0" if "q \<in> set ?qs" "embedded_in text q" for q
      using no that by (auto simp: embedded_in_def)
    moreover note longest_from_SomeD [OF k]
    ultimately show ?thesis by blast
  qed
qed

definition reply_demo :: ctl where
  "reply_demo = zero_ctl\<lparr>c_queues :=
     [zero_queue\<lparr>q_used := True, q_id := 0x301, q_name := ''HrMmi logging''\<rparr>,
      zero_queue\<lparr>q_used := True, q_id := 0x30e, q_name := ''QueueHrMmi'', q_notify := 0x02000000\<rparr>]\<rparr>"

lemma reply_slot_best_witness:
  "reply_slot reply_demo '' New start of HrMmi logging with m.QueueHrMmi'' = Some 1 \<and>
   q_notify (c_queues reply_demo ! 1) \<noteq> 0"
proof -
  have r: "reply_slot reply_demo '' New start of HrMmi logging with m.QueueHrMmi'' = Some 1"
    and n: "q_find_slot reply_demo '' New start of HrMmi logging with m.QueueHrMmi'' = None"
    by code_simp+
  have "q_notify (c_queues reply_demo ! 1) \<noteq> 0"
    using reply_slot_best [OF r n] by (simp add: reply_demo_def embedded_in_def has_prefix_def)
  with r show ?thesis by simp
qed

text \<open>
  A text longer than a queue name shadows the search: when the first 31 characters of the text
  are the name of a live queue, that queue is taken as the exact match, and a watched reply queue
  embedded further on is never considered, even when the matched queue notifies nobody.
\<close>

theorem reply_slot_shadowed:
  assumes "k < length (c_queues c)" and "q_used (c_queues c ! k)"
    and "q_name (c_queues c ! k) = take 31 text"
    and "\<forall>j<length (c_queues c). q_named text (c_queues c ! j) \<longrightarrow> j = k"
  shows "reply_slot c text = Some k"
proof -
  have "q_find_slot c text = Some k"
    unfolding q_find_slot_def
  proof (rule find_index_unique)
    show "k < length (c_queues c)" by (rule assms(1))
    show "q_named text (c_queues c ! k)"
      unfolding q_named_def name_eq_def NAMELEN_def assms(3) using assms(2) by simp
    show "j = k" if "j < length (c_queues c)" "q_named text (c_queues c ! j)" for j
      using assms(4) that by blast
  qed
  then show ?thesis by (simp add: reply_slot_def)
qed

definition shadow_demo :: ctl where
  "shadow_demo = zero_ctl\<lparr>c_queues :=
     [zero_queue\<lparr>q_used := True, q_id := 0x301, q_name := '' New start of HrMmi logging wit''\<rparr>,
      zero_queue\<lparr>q_used := True, q_id := 0x30e, q_name := ''QueueHrMmi'', q_notify := 0x02000000\<rparr>]\<rparr>"

lemma reply_slot_shadowed_witness:
  "reply_slot shadow_demo '' New start of HrMmi logging with m.QueueHrMmi'' = Some 0"
proof (rule reply_slot_shadowed)
  have "length (c_queues shadow_demo) = 2" by code_simp
  moreover have "\<not> q_named '' New start of HrMmi logging with m.QueueHrMmi'' (c_queues shadow_demo ! 1)"
    by code_simp
  ultimately show "\<forall>j<length (c_queues shadow_demo).
      q_named '' New start of HrMmi logging with m.QueueHrMmi'' (c_queues shadow_demo ! j) \<longrightarrow> j = 0"
    by (auto dest: less_2_cases)
qed code_simp+

end
