(* ===== verification/Signals.thy ===== *)
theory Signals
  imports Tasks Events
begin

text \<open>
  Asynchronous signals: \<open>as_send\<close>, \<open>as_mask_op\<close>, \<open>as_read\<close> and the thread signal \<open>as_kick\<close>.  A
  pointer argument that may be NULL is an option; the values written back through it are results.
\<close>

definition AS_FORCED :: u32 where "AS_FORCED = 0x2c00000"
definition AS_FORCED_MASK :: u32 where "AS_FORCED_MASK = 0x00c00000"

definition as_kick :: "i32 \<Rightarrow> i32 \<Rightarrow> u32 \<Rightarrow> st \<Rightarrow> st" where
  "as_kick tgid tid trig s =
     (if \<not> e_as_deliver (ecf s) \<or> sint tid \<le> 0 then s
      else let s1 = emit (FxKill tgid tid 10) s
           in if has_bits trig 0x400000 then emit (FxKill tgid tid 18) s1 else s1)"

definition as_send :: "u32 \<Rightarrow> u32 \<Rightarrow> st \<Rightarrow> int \<times> st" where
  "as_send target bits s0 =
     (let (tgt, s) = (if target = - 1 then task_self s0 else (target, s0)) in
      case task_slot (sh s) tgt of
        None \<Rightarrow> (-9, s)
      | Some k \<Rightarrow>
          let t = tasks s ! k;
              newbits = NOT (t_as_pending t) AND bits;
              s1 = upd_task k (\<lambda>t. t\<lparr>t_as_pending := t_as_pending t OR bits\<rparr>) s;
              trig = (t_as_mask t OR AS_FORCED) AND newbits
          in (0, if trig \<noteq> 0 then as_kick (t_tgid t) (t_tid t) trig s1 else s1))"

text \<open>The result of \<open>as_mask_op\<close>: return code, value written back, state.\<close>

definition as_mask_op :: "u32 option \<Rightarrow> u32 \<Rightarrow> st \<Rightarrow> int \<times> u32 option \<times> st" where
  "as_mask_op val op s0 =
     (let (self, s) = task_self s0 in
      case task_slot (sh s) self of
        None \<Rightarrow> (-22, val, s)
      | Some k \<Rightarrow>
          let inn = (case val of Some v \<Rightarrow> v | None \<Rightarrow> 0);
              t = tasks s ! k; msk = t_as_mask t; pend = t_as_pending t;
              (out, trig, s1) =
                (if op = 1 then
                   (if NOT msk AND inn = 0 then (msk, 0, s)
                    else (msk OR inn, ((NOT msk AND inn) OR AS_FORCED_MASK) AND pend,
                          upd_task k (\<lambda>t. t\<lparr>t_as_mask := msk OR inn\<rparr>) s))
                 else if op = 2 then
                   (msk, (inn OR AS_FORCED_MASK) AND pend, upd_task k (\<lambda>t. t\<lparr>t_as_mask := inn\<rparr>) s)
                 else (NOT inn AND msk, 0, upd_task k (\<lambda>t. t\<lparr>t_as_mask := NOT inn AND msk\<rparr>) s))
          in (0, map_option (\<lambda>_. out) val,
              if trig \<noteq> 0 then as_kick (t_tgid t) (t_tid t) trig s1 else s1))"

text \<open>\<open>as_read\<close>: return code, the resolved request, the caught bits, state.\<close>

definition as_read :: "u32 option \<Rightarrow> st \<Rightarrow> int \<times> u32 \<times> u32 \<times> st" where
  "as_read reqp s0 =
     (let (self, s) = task_self s0 in
      case task_slot (sh s) self of
        None \<Rightarrow> (-22, 0, 0, s)
      | Some k \<Rightarrow>
          let t = tasks s ! k;
              req0 = (case reqp of Some v \<Rightarrow> v | None \<Rightarrow> 0);
              req = (if req0 = 0 then t_as_mask t else req0);
              caught = (req OR AS_FORCED) AND t_as_pending t
          in (0, req, caught,
              upd_task k (\<lambda>t. t\<lparr>t_as_pending := t_as_pending t AND NOT caught\<rparr>) s))"

section \<open>Delivery\<close>

text \<open>The pending signals whose handler may run now.\<close>

definition deliverable :: "task \<Rightarrow> u32" where
  "deliverable t = t_as_pending t AND (t_as_mask t OR AS_FORCED)"

lemma as_kick_fx:
  "e_as_deliver (ecf s) \<Longrightarrow> 0 < sint tid \<Longrightarrow> FxKill tgid tid 10 \<in> set (fx (as_kick tgid tid trig s))"
  by (simp add: as_kick_def Let_def)

lemma as_kick_sh [simp]: "sh (as_kick tgid tid trig s) = sh s"
  by (simp add: as_kick_def Let_def)

lemma newly_raised:
  "((p OR b) AND (m OR f)) AND NOT (p AND (m OR f)) = (m OR f) AND (NOT p AND (b :: u32))"
  by (rule bit_word_eqI) (auto simp: bit_simps)

lemma newly_enabled:
  "(p AND ((m OR i) OR f)) AND NOT (p AND (m OR f))
   = (((NOT m AND i) OR g) AND p) AND (i AND NOT (m OR (f :: u32)))"
  by (rule bit_word_eqI) (auto simp: bit_simps)

lemma newly_set:
  "(p AND (i OR f)) AND NOT (p AND (m OR f))
   = ((i OR g) AND p) AND (i AND NOT (m OR (f :: u32)))"
  by (rule bit_word_eqI) (auto simp: bit_simps)

text \<open>
  C9. No asynchronous signal becomes deliverable silently: whenever \<open>as_send\<close> leaves a bit of the
  target both pending and enabled that was not so before, the target's OS thread is sent signal 10.
\<close>

theorem as_send_kicks:
  assumes slot: "task_slot (sh s) target = Some k" and tgt: "target \<noteq> - 1"
    and deliver: "e_as_deliver (ecf s)" "0 < sint (t_tid (tasks s ! k))"
    and res: "as_send target bits s = (r, s')"
    and fresh: "deliverable (tasks s' ! k) AND NOT (deliverable (tasks s ! k)) \<noteq> 0"
  shows "r = 0 \<and> FxKill (t_tgid (tasks s ! k)) (t_tid (tasks s ! k)) 10 \<in> set (fx s')"
proof -
  let ?t = "tasks s ! k"
  let ?trig = "(t_as_mask ?t OR AS_FORCED) AND (NOT (t_as_pending ?t) AND bits)"
  have k: "k < length (tasks s)" using task_slot_SomeD [OF slot] by simp
  have "tasks s' ! k = ?t\<lparr>t_as_pending := t_as_pending ?t OR bits\<rparr>"
    using res slot tgt k by (auto simp: as_send_def Let_def split: if_splits)
  then have "?trig \<noteq> 0"
    using fresh newly_raised [of "t_as_pending ?t" bits "t_as_mask ?t" AS_FORCED]
    by (simp only: deliverable_def task.simps) simp
  then show ?thesis
    using res slot tgt deliver as_kick_fx by (auto simp: as_send_def Let_def)
qed

definition asig_demo :: st where
  "asig_demo = boot 7 7\<lparr>ecf := ev_off\<lparr>e_as_deliver := True\<rparr>,
     sh := zero_ctl\<lparr>c_tasks := [zero_task\<lparr>t_used := True, t_id := 0x100, t_tgid := 7, t_tid := 7,
                              t_as_mask := 4\<rparr>]\<rparr>\<rparr>"

lemma asig_demo_simps:
  "tasks asig_demo = [zero_task\<lparr>t_used := True, t_id := 0x100, t_tgid := 7, t_tid := 7, t_as_mask := 4\<rparr>]"
  "task_slot (sh asig_demo) 0x100 = Some 0" "e_as_deliver (ecf asig_demo)"
  by (simp_all add: asig_demo_def task_slot_def slot_of_def)

lemma as_send_kicks_witness:
  "FxKill 7 7 10 \<in> set (fx (snd (as_send 0x100 5 asig_demo)))"
  using as_send_kicks [where s = asig_demo and target = "0x100" and k = 0 and bits = 5,
      OF asig_demo_simps(2) _ asig_demo_simps(3) _ prod.collapse [symmetric]]
  by (simp add: asig_demo_simps as_send_def deliverable_def AS_FORCED_def zero_task_def)

text \<open>
  The same holds for \<open>as_mask\<close> on the calling task, in each of its three modes: enabling bits
  that are already pending signals the thread, disabling never makes one deliverable.
\<close>

theorem as_mask_kicks:
  assumes self: "task_self s = (i, s1)" and slot: "task_slot (sh s1) i = Some k"
    and deliver: "e_as_deliver (ecf s1)" "0 < sint (t_tid (tasks s1 ! k))"
    and res: "as_mask_op val op s = (r, out, s')"
    and fresh: "deliverable (tasks s' ! k) AND NOT (deliverable (tasks s1 ! k)) \<noteq> 0"
  shows "r = 0 \<and> op \<in> {1, 2} \<and>
         FxKill (t_tgid (tasks s1 ! k)) (t_tid (tasks s1 ! k)) 10 \<in> set (fx s')"
proof -
  let ?t = "tasks s1 ! k" and ?in = "case val of Some v \<Rightarrow> v | None \<Rightarrow> 0"
  have k: "k < length (tasks s1)" using task_slot_SomeD [OF slot] by simp
  consider "op = 1" "NOT (t_as_mask ?t) AND ?in = 0" | "op = 1" "NOT (t_as_mask ?t) AND ?in \<noteq> 0"
    | "op = 2" | "op \<notin> {1, 2}" by blast
  then show ?thesis
  proof cases
    case 1
    then have "tasks s' ! k = ?t" using res self slot by (auto simp: as_mask_op_def Let_def)
    with fresh show ?thesis by simp
  next
    case 2
    let ?trig = "((NOT (t_as_mask ?t) AND ?in) OR AS_FORCED_MASK) AND t_as_pending ?t"
    have "tasks s' ! k = ?t\<lparr>t_as_mask := t_as_mask ?t OR ?in\<rparr>"
      using 2 res self slot k by (auto simp: as_mask_op_def Let_def split: if_splits)
    then have "?trig \<noteq> 0"
      using fresh newly_enabled [of "t_as_pending ?t" "t_as_mask ?t" ?in AS_FORCED AS_FORCED_MASK]
      by (simp only: deliverable_def task.simps) auto
    then show ?thesis using 2 res self slot deliver as_kick_fx by (auto simp: as_mask_op_def Let_def)
  next
    case 3
    let ?trig = "(?in OR AS_FORCED_MASK) AND t_as_pending ?t"
    have "tasks s' ! k = ?t\<lparr>t_as_mask := ?in\<rparr>"
      using 3 res self slot k by (auto simp: as_mask_op_def Let_def split: if_splits)
    then have "?trig \<noteq> 0"
      using fresh newly_set [of "t_as_pending ?t" ?in AS_FORCED "t_as_mask ?t" AS_FORCED_MASK]
      by (simp only: deliverable_def task.simps) auto
    then show ?thesis using 3 res self slot deliver as_kick_fx by (auto simp: as_mask_op_def Let_def)
  next
    case 4
    then have "tasks s' ! k = ?t\<lparr>t_as_mask := NOT ?in AND t_as_mask ?t\<rparr>"
      using res self slot k by (auto simp: as_mask_op_def Let_def)
    then have "deliverable (tasks s' ! k) AND NOT (deliverable ?t) = 0"
      by (intro bit_eqI) (auto simp: deliverable_def bit_simps)
    with fresh show ?thesis by simp
  qed
qed

lemma asig_self: "task_self asig_demo = (0x100, tcache_put 0x100 asig_demo)"
  by (cases asig_demo rule: task_self_cases)
    (simp_all add: asig_demo_simps own_entry_def,
     simp_all add: asig_demo_def off_defs tcache_ix_def)

lemma as_mask_kicks_witness:
  "fst (as_mask_op (Some 4) 1 (asig_demo\<lparr>sh := zero_ctl\<lparr>c_tasks :=
     [zero_task\<lparr>t_used := True, t_id := 0x100, t_tgid := 7, t_tid := 7, t_as_pending := 4\<rparr>]\<rparr>\<rparr>)) = 0"
proof -
  define s where "s = asig_demo\<lparr>sh := zero_ctl\<lparr>c_tasks :=
     [zero_task\<lparr>t_used := True, t_id := 0x100, t_tgid := 7, t_tid := 7, t_as_pending := 4\<rparr>]\<rparr>\<rparr>"
  have self: "task_self s = (0x100, tcache_put 0x100 s)"
    by (cases s rule: task_self_cases)
      (simp_all add: s_def own_entry_def asig_demo_def off_defs tcache_ix_def)
  have slot: "task_slot (sh (tcache_put 0x100 s)) 0x100 = Some 0"
    by (simp add: s_def task_slot_def slot_of_def)
  obtain r out s' where res: "as_mask_op (Some 4) 1 s = (r, out, s')" by (cases "as_mask_op (Some 4) 1 s") auto
  have "deliverable (tasks s' ! 0) AND NOT (deliverable (tasks (tcache_put 0x100 s) ! 0)) \<noteq> 0"
    using res self slot
    by (simp add: as_mask_op_def Let_def, simp add: s_def zero_task_def)
      (auto simp: deliverable_def AS_FORCED_def upd_task_def s_def)
  then have "r = 0"
    using as_mask_kicks [OF self slot _ _ res]
    by (simp add: s_def asig_demo_def tcache_put_def zero_task_def)
  then show ?thesis using res by (simp add: s_def)
qed

text \<open>
  \<open>as_read\<close> drains: what it returns together with what stays pending is exactly what was
  pending, nothing is returned twice, and everything it was asked for (or the whole mask when asked
  for nothing) and every forced signal is out of the pending word afterwards.
\<close>

theorem as_read_drains:
  assumes self: "task_self s = (i, s1)" and slot: "task_slot (sh s1) i = Some k"
    and res: "as_read reqp s = (r, req, caught, s')"
  shows "r = 0 \<and> caught OR t_as_pending (tasks s' ! k) = t_as_pending (tasks s1 ! k) \<and>
         caught AND t_as_pending (tasks s' ! k) = 0 \<and>
         (req OR AS_FORCED) AND t_as_pending (tasks s' ! k) = 0"
proof -
  have k: "k < length (tasks s1)" using task_slot_SomeD [OF slot] by simp
  let ?p = "t_as_pending (tasks s1 ! k)"
  have c: "caught = (req OR AS_FORCED) AND ?p" and r: "r = 0"
    using res self slot by (auto simp: as_read_def Let_def)
  have p: "t_as_pending (tasks s' ! k) = ?p AND NOT caught"
    using res self slot k by (auto simp: as_read_def Let_def)
  have "caught OR (?p AND NOT caught) = ?p" "caught AND (?p AND NOT caught) = 0"
    "(req OR AS_FORCED) AND (?p AND NOT caught) = 0"
    unfolding c by (rule bit_word_eqI; auto simp: bit_simps)+
  then show ?thesis using r p by simp
qed

lemma as_read_drains_witness:
  "fst (as_read None asig_demo) = 0"
  using as_read_drains [OF asig_self] asig_demo_simps(2)
  by (cases "as_read None asig_demo") (auto simp: tcache_put_def)

end
