(* ===== verification/QSend.thy ===== *)
theory QSend
  imports Wire Signals
begin

text \<open>
  \<open>q_send\<close> of \<open>src/emulator/heros_rtos.c\<close>, in the order of the source: the two reply redirections,
  the softkey activation, truncation, the request-family note, the enqueue under the lock (with the
  rewrites of the stored bytes), the wakeups, and the injection hooks that post further messages.
  A hook takes the nested \<open>q_send\<close> as its argument \<open>send\<close>; \<open>q_send_f\<close> ties the knot with a bound on
  the nesting.  A message is NULL (\<open>None\<close>) or its \<open>size\<close> bytes.
\<close>

type_synonym sender = "u32 \<Rightarrow> u8 list \<Rightarrow> u32 \<Rightarrow> st \<Rightarrow> st"

definition msg_ge :: "u8 list option \<Rightarrow> nat \<Rightarrow> bool" where
  "msg_ge msg n = (case msg of None \<Rightarrow> False | Some m \<Rightarrow> n \<le> length m)"

definition dword :: "u8 list option \<Rightarrow> nat \<Rightarrow> u32" where
  "dword msg i = (case msg of None \<Rightarrow> 0 | Some m \<Rightarrow> get32 m i)"

definition qname :: "st \<Rightarrow> nat \<Rightarrow> string" where
  "qname s k = q_name (queues s ! k)"

section \<open>Redirections\<close>

text \<open>A reply to the empty-named queue goes to the queue its leading string names.\<close>

definition cfg_reply_route :: "st \<Rightarrow> nat \<Rightarrow> u8 list option \<Rightarrow> nat" where
  "cfg_reply_route s k msg =
     (if k_cfg_reply_route (qcf s) \<and> qname s k = [] \<and> msg_ge msg 12 \<and>
         \<not> (j_ack (icf s) \<and> mtype31 (the msg) = 0x170100)
      then case lead_str (the msg) of
             None \<Rightarrow> k
           | Some nm \<Rightarrow>
               (case q_find_slot (sh s) (if nm \<noteq> [] \<and> hd nm = CHR ''.'' then tl nm else nm) of
                  None \<Rightarrow> k
                | Some rs \<Rightarrow> if rs \<noteq> k \<and> qname s rs \<noteq> [] then rs else k)
      else k)"

text \<open>A softkey reply to \<open>Rts<X>\<close> goes to \<open>Client<X>\<close> when that queue notifies its owner.\<close>

definition sk_client :: "queue \<Rightarrow> bool" where
  "sk_client q \<longleftrightarrow> q_used q \<and> q_id q \<noteq> 0 \<and> has_prefix ''Client'' (q_name q) \<and> has_bits (q_notify q) 0x02000000"

definition sk_reply_route :: "st \<Rightarrow> nat \<Rightarrow> u8 list option \<Rightarrow> nat" where
  "sk_reply_route s k msg =
     (if k_sk_reply_route (qcf s) \<and> msg_ge msg 4 \<and> has_prefix ''Rts'' (qname s k) \<and>
         drop_bit 16 (dword msg 0) = 0x28a
      then
        let r0 = q_find_slot (sh s) (name_store (''Client'' @ drop 3 (qname s k)));
            r1 = (if k_sk_reply_force (qcf s) \<and>
                     (case r0 of None \<Rightarrow> True | Some r \<Rightarrow> q_notify (queues s ! r) = 0)
                  then case find_index sk_client (queues s) of Some b \<Rightarrow> Some b | None \<Rightarrow> r0
                  else r0)
        in case r1 of
             None \<Rightarrow> k
           | Some rs \<Rightarrow> if rs \<noteq> k \<and> qname s rs \<noteq> [] \<and> q_notify (queues s ! rs) \<noteq> 0 then rs else k
      else k)"

section \<open>The softkey activation\<close>

text \<open>The value after the first softkey-screen code at a dword offset from 4.\<close>

function scan_screen :: "u8 list \<Rightarrow> nat \<Rightarrow> u32 option" where
  "scan_screen m i =
     (if i + 8 \<le> length m
      then if get32 m i = 0x028a006b then Some (get32 m (i + 4)) else scan_screen m (i + 4)
      else None)"
  by pat_completeness auto
termination by (relation "measure (\<lambda>(m, i). length m - i)") auto

declare scan_screen.simps [simp del]

definition sk_act_msg :: "inj_cfg \<Rightarrow> u32 \<Rightarrow> u8 list" where
  "sk_act_msg c screen =
     le32 0x028A0200 @ le32 0x84 @ le32 1 @ le32 0x84 @ le32 (j_sk_act_handle c)
     @ le32 0x028A006B @ le32 screen @ le32 0x028A004B @ le32 (j_sk_act_group c)
     @ (if j_sk_act_bool c then le32 0xC6 @ le32 1 else le32 0x800000C6)"

text \<open>The counters the hook keeps: screen, content count, login seen and its settle count.\<close>

definition sk_track :: "inj_cfg \<Rightarrow> string \<Rightarrow> u8 list \<Rightarrow> inj \<Rightarrow> inj" where
  "sk_track c name m v =
     (let mt = get32 m 0;
          sc0 = (case j_sk_act_screen c of
                   Some x \<Rightarrow> if i_sk_screen v = 0xffffffff then x else i_sk_screen v
                 | None \<Rightarrow> i_sk_screen v);
          sc = (if mt = 0x028a02c0 then (case scan_screen m 4 of Some x \<Rightarrow> x | None \<Rightarrow> sc0) else sc0);
          cnt = (if mt = 0x028a0740 then i_sk_count v + 1 else i_sk_count v);
          login = (mt = 0x028a0120 \<and> name = ''Q_SkMgr'' \<and> \<not> i_sk_login_seen v);
          seen = (i_sk_login_seen v \<or> login);
          settle0 = (if login then 0 else i_sk_login_settle v);
          settle = (if seen \<and> \<not> i_sk_fired v then settle0 + 1 else settle0)
      in v\<lparr>i_sk_screen := sc, i_sk_count := cnt, i_sk_login_seen := seen, i_sk_login_settle := settle\<rparr>)"

definition sk_gate :: "inj_cfg \<Rightarrow> inj \<Rightarrow> bool" where
  "sk_gate c v \<longleftrightarrow> \<not> i_sk_fired v \<and> i_sk_screen v \<noteq> 0xffffffff \<and>
     (i_sk_count v \<ge> j_sk_act_thresh c \<or>
      (i_sk_login_seen v \<and> i_sk_login_settle v \<ge> j_sk_act_settle c))"

definition sk_activate_hook :: "sender \<Rightarrow> nat \<Rightarrow> u8 list option \<Rightarrow> st \<Rightarrow> st" where
  "sk_activate_hook send k msg s =
     (if msg_ge msg 8 \<and> j_sk_activate (icf s) then
        let s1 = upd_inj (sk_track (icf s) (qname s k) (the msg)) s;
            aq = (if j_sk_act_queue (icf s) = [] then ''Q_SkMgr'' else j_sk_act_queue (icf s))
        in if sk_gate (icf s) (injs s1) then
             (case (case q_find_slot (sh s1) aq of
                      Some q \<Rightarrow> Some q | None \<Rightarrow> q_find_slot (sh s1) ''Q_SkMgrCtrl'') of
                None \<Rightarrow> s1
              | Some q \<Rightarrow>
                  let s2 = upd_inj (\<lambda>v. v\<lparr>i_sk_fired := True\<rparr>) s1
                  in send (q_id (queues s2 ! q)) (sk_act_msg (icf s) (i_sk_screen (injs s1))) 0 s2)
           else s1
      else s)"

section \<open>Enqueue\<close>

definition server_queue :: "string \<Rightarrow> bool" where
  "server_queue nm \<longleftrightarrow> nm = ''CfgServerQueue'' \<or> nm = ''Q_SkMgr'' \<or> nm = ''Q_SkMgrCtrl''"

text \<open>Note the family of the request a task sends to a server queue.\<close>

definition note_family :: "nat \<Rightarrow> u32 \<Rightarrow> u8 list option \<Rightarrow> st \<Rightarrow> st" where
  "note_family k sender msg s =
     (if msg_ge msg 4 \<and> server_queue (qname s k) then
        case task_slot (sh s) sender of
          None \<Rightarrow> s
        | Some t \<Rightarrow> upd_task t (\<lambda>x. x\<lparr>t_last_req_family := drop_bit 16 (dword msg 0)\<rparr>) s
      else s)"

definition send_hdr :: "u32 \<Rightarrow> u32 \<Rightarrow> u32 \<Rightarrow> u32 \<Rightarrow> u32 \<times> u32 \<times> u32" where
  "send_hdr i sender mode sz = (i, sender, (mode AND 0xffff) OR push_bit 16 (sz AND 0xffff))"

definition is_wmq :: "queue \<Rightarrow> bool" where
  "is_wmq q \<longleftrightarrow> has_prefix ''WMQ'' (q_name q)"

text \<open>
  The serial rewrite of a message just stored in the ring of a window-manager event queue: a tick
  gets the next serial, a real event is shifted by the number of ticks so far.
\<close>

definition wm_serial :: "bool \<Rightarrow> u32 \<Rightarrow> queue \<Rightarrow> queue" where
  "wm_serial tick sz q =
     (if 8 \<le> unat sz \<and> is_wmq q then
        if tick then
          let ns = q_wm_last q + 1
          in (upd_slot (\<lambda>m. m\<lparr>m_data := put32 (m_data m) 4 ns\<rparr>) q)\<lparr>q_wm_last := ns, q_wm_off := q_wm_off q + 1\<rparr>
        else
          let ns = get32 (m_data (q_msg q ! ring_ix (q_tail q))) 4 + q_wm_off q
          in (if q_wm_off q \<noteq> 0 then upd_slot (\<lambda>m. m\<lparr>m_data := put32 (m_data m) 4 ns\<rparr>) q else q)
               \<lparr>q_wm_last := ns\<rparr>
      else q)"

text \<open>An area reply with a degenerate width gets the configured rectangle.\<close>

definition area_rect :: "u32 \<times> u32 \<times> u32 \<times> u32 \<Rightarrow> u32 \<Rightarrow> queue \<Rightarrow> queue" where
  "area_rect r sz q =
     (let d = m_data (q_msg q ! ring_ix (q_tail q)); (x, y, w, h) = r in
      if 36 \<le> unat sz \<and> get32 d 0 = 0x3003 \<and> q_name q \<noteq> ''Q_WMGR'' \<and> get32 d 28 \<le> 16
      then upd_slot (\<lambda>m. m\<lparr>m_data := put32 (put32 (put32 (put32 (put32 (m_data m) 16 0) 20 x) 24 y) 28 w) 32 h\<rparr>) q
      else q)"

text \<open>The section of \<open>q_send\<close> under the lock, on the queue and on the state.\<close>

definition enqueue_queue ::
    "q_cfg \<Rightarrow> bool \<Rightarrow> u32 \<Rightarrow> u32 \<Rightarrow> u8 list option \<Rightarrow> u32 \<Rightarrow> queue \<Rightarrow> queue" where
  "enqueue_queue c tick sender mode msg sz q =
     (let q1 = ring_store (send_hdr (q_id q) sender mode sz) sz
                 (case msg of None \<Rightarrow> [] | Some m \<Rightarrow> m) q;
          q2 = (if k_wm_serial_fix c then wm_serial tick sz q1 else q1);
          q3 = (if k_area_rect_force c then area_rect (k_bar_rect c) sz q2 else q2)
      in ring_publish q3)"

definition q_enqueue :: "nat \<Rightarrow> u32 \<Rightarrow> u32 \<Rightarrow> u8 list option \<Rightarrow> u32 \<Rightarrow> st \<Rightarrow> st" where
  "q_enqueue k sender mode msg sz s =
     upd_queue k (enqueue_queue (qcf s) (w_in_tick (wms s)) sender mode msg sz) s"

text \<open>The wakeups after the lock is released.\<close>

definition q_wake :: "nat \<Rightarrow> st \<Rightarrow> st" where
  "q_wake k s =
     (let q = queues s ! k; owner = q_owner q; nbits = q_notify q;
          s1 = emit (FxWake (FwTail k)) s;
          s2 = (if nbits \<noteq> 0 \<and> owner \<noteq> 0 then snd (ev_send owner nbits s1) else s1)
      in if e_sigwake (ecf s) \<and> owner \<noteq> 0 \<and> has_bits nbits 0xff000000 \<and> has_prefix ''Rts'' (q_name q)
         then case task_slot (sh s2) owner of
                None \<Rightarrow> s2
              | Some t \<Rightarrow>
                  let x = tasks s2 ! t in
                  if 0 < sint (t_tid x) \<and> t_tgid x \<noteq> 0 \<and> t_tgid x \<noteq> me_tgid s2
                  then as_kick (t_tgid x) (t_tid x) 0 s2 else s2
         else s2)"

section \<open>Injection hooks\<close>

definition is_procstate :: "st \<Rightarrow> nat \<Rightarrow> u8 list option \<Rightarrow> bool" where
  "is_procstate s k msg \<longleftrightarrow>
     msg_ge msg 8 \<and> dword msg 0 = 0x40c803e0 \<and> qname s k = ''AppStartMaster''"

definition winmgr_msg :: "string \<Rightarrow> u8 list" where
  "winmgr_msg nm =
     overlay 20 (bytes_of (take 30 (if nm = [] then ''winmgr:~/winmgr'' else nm)))
       (put32 (put32 (put32 (replicate 52 0) 0 0x40c803e0) 4 2) 16 0x00010000)"

definition winmgr_hook :: "sender \<Rightarrow> nat \<Rightarrow> u8 list option \<Rightarrow> st \<Rightarrow> st" where
  "winmgr_hook send k msg s =
     (if j_winmgr (icf s) \<and> \<not> i_winmgr_injected (injs s) \<and> \<not> i_in_winmgr (injs s) \<and> is_procstate s k msg
      then
        let s1 = upd_inj (\<lambda>v. v\<lparr>i_winmgr_injected := True, i_in_winmgr := True\<rparr>) s;
            s2 = send (q_id (queues s1 ! k)) (winmgr_msg (j_winmgr_name (icf s))) 0 s1
        in upd_inj (\<lambda>v. v\<lparr>i_in_winmgr := False\<rparr>) s2
      else s)"

text \<open>One line of the constellation file: \<open>procName|imagePath\<close>; empty and \<open>#\<close> lines are skipped.\<close>

definition set_entry :: "string \<Rightarrow> (string \<times> string) option" where
  "set_entry line =
     (let l = takeWhile (\<lambda>c. c \<noteq> CHR 0x0A) line in
      if l = [] \<or> hd l = CHR ''#'' \<or> \<not> has_char (CHR ''|'') l then None
      else Some (takeWhile (\<lambda>c. c \<noteq> CHR ''|'') l, after_first (CHR ''|'') l))"

fun fmload_lines :: "sender \<Rightarrow> u32 \<Rightarrow> int \<Rightarrow> string list \<Rightarrow> st \<Rightarrow> st" where
  "fmload_lines send qid left [] s = s"
| "fmload_lines send qid left (line # ls) s =
     (case set_entry line of
        None \<Rightarrow> fmload_lines send qid left ls s
      | Some (pn, ip) \<Rightarrow>
          if left \<le> 0 then s
          else fmload_lines send qid (left - 1) ls
                 (send qid (gm_build_fmloadprocess (j_fmload_present (icf s)) (Some pn) None (Some ip)) 0 s))"

definition inject_fmload_set :: "sender \<Rightarrow> u32 \<Rightarrow> st \<Rightarrow> st" where
  "inject_fmload_set send qid s =
     (let c = icf s; present = j_fmload_present c;
          img = (case j_fmload_img c of Some x \<Rightarrow> x | None \<Rightarrow> ''/tmp/b/winmgr.elf'') in
      if j_subsys c then
        let s1 = (if j_subsys_reg c
                  then send qid (gm_build_fmsubsystemaction 0 (Some ''winmgr'') None) 0 s else s)
        in send qid (gm_build_fmloadsubsystem present ''winmgr'' ''winmgr''
               (Some (case j_fmload_proc c of Some x \<Rightarrow> x | None \<Rightarrow> ''~/winmgr'')) None
               (Some img)) 0 s1
      else case j_fmload_set c of
        Some ls \<Rightarrow> fmload_lines send qid (j_fmload_max c) ls s
      | None \<Rightarrow>
          send qid (gm_build_fmloadprocess present
               (Some (case j_fmload_proc c of Some x \<Rightarrow> x | None \<Rightarrow> ''winmgr/winmgr'')) None
               (Some img)) 0 s)"

definition fmload_hook :: "sender \<Rightarrow> nat \<Rightarrow> u8 list option \<Rightarrow> st \<Rightarrow> st" where
  "fmload_hook send k msg s =
     (if j_fmload (icf s) \<and> \<not> i_fmload_injected (injs s) \<and> \<not> i_in_fmload (injs s) \<and> is_procstate s k msg
      then
        let s1 = upd_inj (\<lambda>v. v\<lparr>i_fmload_injected := True, i_in_fmload := True\<rparr>) s;
            s2 = inject_fmload_set send (q_id (queues s1 ! k)) s1
        in upd_inj (\<lambda>v. v\<lparr>i_in_fmload := False\<rparr>) s2
      else s)"

section \<open>Window-manager requests\<close>

text \<open>A request of the given type and least size on \<open>Q_WMGR\<close>.\<close>

definition wm_req :: "st \<Rightarrow> nat \<Rightarrow> u8 list option \<Rightarrow> u32 \<Rightarrow> nat \<Rightarrow> bool" where
  "wm_req s k msg t n \<longleftrightarrow> msg_ge msg n \<and> qname s k = ''Q_WMGR'' \<and> dword msg 0 = t"

definition wm_reply :: "sender \<Rightarrow> u32 \<Rightarrow> u8 list \<Rightarrow> st \<Rightarrow> st" where
  "wm_reply send rq rep s = (if rq \<noteq> 0 \<and> q_slot (sh s) rq \<noteq> None then send rq rep 0 s else s)"

text \<open>The envelope of every reply: type, next event serial, request sequence number.\<close>

definition wm_env :: "nat \<Rightarrow> u32 \<Rightarrow> u8 list option \<Rightarrow> u8 list" where
  "wm_env n t msg = put32 (put32 (put32 (replicate n 0) 0 t) 4 (dword msg 8 + 1)) 8 (dword msg 4)"

definition wm_connect_hook :: "sender \<Rightarrow> nat \<Rightarrow> u8 list option \<Rightarrow> st \<Rightarrow> st" where
  "wm_connect_hook send k msg s =
     (if j_wmgr_ack (icf s) \<and> wm_req s k msg 0x3001 24
      then wm_reply send (dword msg 20) (put32 (wm_env 16 0x3001 msg) 12 (j_wmgr_root (icf s))) s
      else s)"

definition wm_arm_hook :: "nat \<Rightarrow> u8 list option \<Rightarrow> st \<Rightarrow> st" where
  "wm_arm_hook k msg s =
     (if k_wm_timer (qcf s) \<and> wm_req s k msg 0x302c 36 then
        let rq = dword msg 24; tid = dword msg 28; per = dword msg 32; ts = w_timers (wms s) in
        if list_ex (\<lambda>w. w_timerid w = tid \<and> w_replyq w = rq) ts \<or> length ts \<ge> 8 then s
        else upd_wm (\<lambda>v. v\<lparr>w_timers := ts @ [\<lparr>w_replyq = rq, w_timerid = tid, w_period = per\<rparr>]\<rparr>) s
      else s)"

fun drop_timer :: "u32 \<Rightarrow> u32 \<Rightarrow> wmtmr list \<Rightarrow> wmtmr list" where
  "drop_timer tid rq [] = []"
| "drop_timer tid rq (w # ws) =
     (if w_timerid w = tid \<and> w_replyq w = rq then ws else w # drop_timer tid rq ws)"

definition wm_disarm_hook :: "nat \<Rightarrow> u8 list option \<Rightarrow> st \<Rightarrow> st" where
  "wm_disarm_hook k msg s =
     (if k_wm_timer (qcf s) \<and> wm_req s k msg 0x302d 32
      then upd_wm (\<lambda>v. v\<lparr>w_timers := drop_timer (dword msg 28) (dword msg 24) (w_timers v)\<rparr>) s
      else s)"

definition screens_rep :: "bool \<Rightarrow> u8 list option \<Rightarrow> u8 list" where
  "screens_rep scr msg =
     (let r = wm_env 208 0x3037 msg;
          r1 = (if scr then overlay 196 [0] (overlay 68 (bytes_of ''OEM'' @ [0])
                  (overlay 20 (bytes_of ''OEM'' @ [0]) (put32 (put32 r 12 0) 16 2)))
                else r)
      in put32 r1 204 1)"

definition wm_screens_hook :: "sender \<Rightarrow> nat \<Rightarrow> u8 list option \<Rightarrow> st \<Rightarrow> st" where
  "wm_screens_hook send k msg s =
     (if j_wmgr_ack (icf s) \<and> wm_req s k msg 0x3037 28
      then wm_reply send (dword msg 24) (screens_rep (j_wmgr_screen (icf s)) msg) s
      else s)"

text \<open>The synchronisation request names its reply queue by the task: \<open>WMQ%05X\<close>.\<close>

definition wm_sync_hook :: "sender \<Rightarrow> nat \<Rightarrow> u8 list option \<Rightarrow> st \<Rightarrow> st" where
  "wm_sync_hook send k msg s =
     (if j_wmgr_ack (icf s) \<and> wm_req s k msg 0x3042 24
      then wm_reply send
             (case q_find_slot (sh s) (name_store (''WMQ'' @ hex05 (dword msg 20))) of
                Some r \<Rightarrow> q_id (queues s ! r) | None \<Rightarrow> 0)
             (wm_env 208 10 msg) s
      else s)"

definition area_rep :: "u8 list option \<Rightarrow> u8 list" where
  "area_rep msg = put32 (put32 (put32 (put32 (wm_env 64 0x3003 msg) 20 0) 24 680) 28 1024) 32 88"

definition area_hook :: "sender \<Rightarrow> nat \<Rightarrow> u8 list option \<Rightarrow> st \<Rightarrow> st" where
  "area_hook send k msg s =
     (if j_area_ack (icf s) \<and> wm_req s k msg 0x3003 28
      then wm_reply send (dword msg 24) (area_rep msg) s else s)"

definition regwin_hook :: "sender \<Rightarrow> nat \<Rightarrow> u8 list option \<Rightarrow> st \<Rightarrow> st" where
  "regwin_hook send k msg s =
     (if j_area_ack (icf s) \<and> wm_req s k msg 0x3004 28
      then wm_reply send (dword msg 24) (put32 (wm_env 48 0x3004 msg) 12 0) s else s)"

section \<open>Recording and the event relay\<close>

definition CFGQ_CAP :: nat where "CFGQ_CAP = 128"
definition CFGQ_MSG :: nat where "CFGQ_MSG = 1024"

definition record_hook :: "nat \<Rightarrow> u8 list option \<Rightarrow> st \<Rightarrow> st" where
  "record_hook k msg s =
     (if j_replay (icf s) \<and> \<not> i_runup_done (injs s) \<and> msg_ge msg 1 \<and> length (the msg) \<le> CFGQ_MSG \<and>
         qname s k = ''CfgServerQueue''
      then upd_inj (\<lambda>v. if i_cfgq_n v < CFGQ_CAP
                        then v\<lparr>i_cfgq_n := i_cfgq_n v + 1, i_cfgq_rec := take (i_cfgq_n v) (i_cfgq_rec v) @ [the msg]\<rparr>
                        else v\<lparr>i_cfgq_n := CFGQ_CAP\<rparr>) s
      else s)"

definition evt_ring_add :: "u8 list \<Rightarrow> ctl \<Rightarrow> ctl" where
  "evt_ring_add m c =
     (let k = unat (c_evt_ring_n c) mod EVTRING in
      c\<lparr>c_evt_ring := (c_evt_ring c)[k := (of_nat (length m), overlay 0 m (snd (c_evt_ring c ! k)))],
         c_evt_ring_n := c_evt_ring_n c + 1\<rparr>)"

definition relay_hook :: "sender \<Rightarrow> nat \<Rightarrow> u8 list option \<Rightarrow> u32 \<Rightarrow> st \<Rightarrow> st" where
  "relay_hook send k msg mode s =
     (case k_evt_relay (qcf s) of
        None \<Rightarrow> s
      | Some target \<Rightarrow>
          if \<not> i_in_evt_relay (injs s) \<and> msg_ge msg 1 \<and> length (the msg) \<le> EVTMSGCAP \<and>
             qname s k = ''QEvtServer''
          then
            let s1 = s\<lparr>sh := evt_ring_add (the msg) (sh s)\<rparr> in
            (case q_find_slot (sh s1) target of
               None \<Rightarrow> s1
             | Some r \<Rightarrow>
                 if q_id (queues s1 ! r) = 0 then s1
                 else
                   let s2 = upd_inj (\<lambda>v. v\<lparr>i_in_evt_relay := True\<rparr>) s1
                   in upd_inj (\<lambda>v. v\<lparr>i_in_evt_relay := False\<rparr>)
                        (send (q_id (queues s2 ! r)) (the msg) mode s2))
          else s)"

section \<open>The whole of \<open>q_send\<close>\<close>

definition q_hooks :: "sender \<Rightarrow> nat \<Rightarrow> u8 list option \<Rightarrow> u32 \<Rightarrow> st \<Rightarrow> st" where
  "q_hooks send k msg mode s =
     relay_hook send k msg mode (record_hook k msg
       (regwin_hook send k msg (area_hook send k msg
         (wm_sync_hook send k msg (wm_screens_hook send k msg
           (wm_disarm_hook k msg (wm_arm_hook k msg (wm_connect_hook send k msg
             (fmload_hook send k msg (winmgr_hook send k msg s))))))))))"

definition clip_msg :: "u8 list option \<Rightarrow> u8 list option" where
  "clip_msg msg = map_option (take QMSGCAP) msg"

definition clip_size :: "u32 \<Rightarrow> u32" where
  "clip_size sz = (if sz > of_nat QMSGCAP then of_nat QMSGCAP else sz)"

definition q_send_step :: "sender \<Rightarrow> u32 \<Rightarrow> u8 list option \<Rightarrow> u32 \<Rightarrow> u32 \<Rightarrow> st \<Rightarrow> int \<times> st" where
  "q_send_step send i msg sz mode s =
     (case q_slot (sh s) i of
        None \<Rightarrow> (-9, s)
      | Some k0 \<Rightarrow>
          let k = sk_reply_route s (cfg_reply_route s k0 msg) msg;
              s1 = sk_activate_hook send k msg s;
              msg' = clip_msg msg; sz' = clip_size sz;
              (sender, s2) = task_self s1;
              s3 = note_family k sender msg' s2;
              s4 = q_wake k (q_enqueue k sender mode msg' sz' s3)
          in (0, q_hooks send k msg' mode s4))"

fun q_send_f :: "nat \<Rightarrow> u32 \<Rightarrow> u8 list option \<Rightarrow> u32 \<Rightarrow> u32 \<Rightarrow> st \<Rightarrow> int \<times> st" where
  "q_send_f 0 i msg sz mode s = (0, s\<lparr>starved := True\<rparr>)"
| "q_send_f (Suc n) i msg sz mode s =
     q_send_step (\<lambda>j m md s'. snd (q_send_f n j (Some m) (of_nat (length m)) md s')) i msg sz mode s"

text \<open>Thirteen levels are always enough (\<open>QSendDepth\<close>).\<close>

definition SEND_DEPTH :: nat where "SEND_DEPTH = 13"

definition q_send :: "u32 \<Rightarrow> u8 list option \<Rightarrow> u32 \<Rightarrow> u32 \<Rightarrow> st \<Rightarrow> int \<times> st" where
  "q_send i msg sz mode s = q_send_f SEND_DEPTH i msg sz mode s"

text \<open>The send that the hooks outside \<open>q_send\<close> use.\<close>

definition post :: sender where
  "post i m mode s = snd (q_send i (Some m) (of_nat (length m)) mode s)"

end
