(* ===== verification/QSendFacts.thy ===== *)
theory QSendFacts
  imports QSend
begin

text \<open>
  What \<open>q_send\<close> guarantees: with the interventions switched off it is the kernel's send (the message
  is appended to the queue and its owner notified); the redirections only ever choose live queues;
  the serial rewrite keeps a window-manager client's stream contiguous; timers arm and disarm.
\<close>

section \<open>Frames\<close>

lemma tcache_put_frame [simp]:
  "queues (tcache_put i s) = queues s" "qcf (tcache_put i s) = qcf s" "icf (tcache_put i s) = icf s"
  "ecf (tcache_put i s) = ecf s" "injs (tcache_put i s) = injs s" "wms (tcache_put i s) = wms s"
  "fx (tcache_put i s) = fx s" "now (tcache_put i s) = now s" "starved (tcache_put i s) = starved s"
  by (simp_all add: tcache_put_def)

lemma task_self_frame [simp]:
  "queues (snd (task_self s)) = queues s" "qcf (snd (task_self s)) = qcf s"
  "icf (snd (task_self s)) = icf s" "ecf (snd (task_self s)) = ecf s"
  "injs (snd (task_self s)) = injs s" "wms (snd (task_self s)) = wms s"
  "fx (snd (task_self s)) = fx s" "now (snd (task_self s)) = now s"
  "starved (snd (task_self s)) = starved s" "me_tgid (snd (task_self s)) = me_tgid s"
  "p_evdevs (lo (snd (task_self s))) = p_evdevs (lo s)"
  by (cases s rule: task_self_cases; simp add: tcache_put_def)+

lemma reconcile_locked_frame [simp]:
  "qcf (evdev_reconcile_locked i s) = qcf s" "icf (evdev_reconcile_locked i s) = icf s"
  "ecf (evdev_reconcile_locked i s) = ecf s" "injs (evdev_reconcile_locked i s) = injs s"
  "wms (evdev_reconcile_locked i s) = wms s" "starved (evdev_reconcile_locked i s) = starved s"
  "now (evdev_reconcile_locked i s) = now s" "me_tgid (evdev_reconcile_locked i s) = me_tgid s"
  by (auto simp: evdev_reconcile_locked_def upd_evdev_def Let_def split: option.splits)

lemma reconcile_frames [simp]:
  "qcf (evdev_reconcile i s) = qcf s" "icf (evdev_reconcile i s) = icf s"
  "ecf (evdev_reconcile i s) = ecf s" "injs (evdev_reconcile i s) = injs s"
  "wms (evdev_reconcile i s) = wms s" "starved (evdev_reconcile i s) = starved s"
  "now (evdev_reconcile i s) = now s" "me_tgid (evdev_reconcile i s) = me_tgid s"
  by (auto simp: evdev_reconcile_def split: option.splits)

lemma ev_send_frame [simp]:
  "queues (snd (ev_send t b s)) = queues s" "qcf (snd (ev_send t b s)) = qcf s"
  "icf (snd (ev_send t b s)) = icf s" "ecf (snd (ev_send t b s)) = ecf s"
  "injs (snd (ev_send t b s)) = injs s" "wms (snd (ev_send t b s)) = wms s"
  "starved (snd (ev_send t b s)) = starved s" "now (snd (ev_send t b s)) = now s"
  by (simp_all add: ev_send_def split: option.splits)

lemma as_kick_frame [simp]:
  "lo (as_kick g t x s) = lo s" "qcf (as_kick g t x s) = qcf s" "icf (as_kick g t x s) = icf s"
  "ecf (as_kick g t x s) = ecf s" "starved (as_kick g t x s) = starved s" "now (as_kick g t x s) = now s"
  by (simp_all add: as_kick_def Let_def)

lemma note_family_frame [simp]:
  "queues (note_family k t m s) = queues s" "qcf (note_family k t m s) = qcf s"
  "icf (note_family k t m s) = icf s" "ecf (note_family k t m s) = ecf s"
  "lo (note_family k t m s) = lo s" "starved (note_family k t m s) = starved s"
  "fx (note_family k t m s) = fx s" "now (note_family k t m s) = now s"
  by (simp_all add: note_family_def split: option.splits)

lemma upd_queue_sel [simp]:
  "queues (upd_queue i f s) = (queues s)[i := f (queues s ! i)]" "tasks (upd_queue i f s) = tasks s"
  "lo (upd_queue i f s) = lo s" "qcf (upd_queue i f s) = qcf s" "icf (upd_queue i f s) = icf s"
  "ecf (upd_queue i f s) = ecf s" "starved (upd_queue i f s) = starved s" "fx (upd_queue i f s) = fx s"
  "now (upd_queue i f s) = now s" "me_tgid (upd_queue i f s) = me_tgid s"
  "errno (upd_queue i f s) = errno s" "mem (upd_queue i f s) = mem s"
  by (simp_all add: upd_queue_def)

lemma q_enqueue_frame [simp]:
  "lo (q_enqueue k t md m z s) = lo s" "qcf (q_enqueue k t md m z s) = qcf s"
  "icf (q_enqueue k t md m z s) = icf s" "ecf (q_enqueue k t md m z s) = ecf s"
  "starved (q_enqueue k t md m z s) = starved s" "tasks (q_enqueue k t md m z s) = tasks s"
  by (simp_all add: q_enqueue_def)

lemma q_wake_frame [simp]:
  "queues (q_wake k s) = queues s" "qcf (q_wake k s) = qcf s" "icf (q_wake k s) = icf s"
  "ecf (q_wake k s) = ecf s" "injs (q_wake k s) = injs s" "wms (q_wake k s) = wms s"
  "starved (q_wake k s) = starved s"
  by (auto simp: q_wake_def Let_def split: option.splits)

lemma upd_inj_sel [simp]:
  "sh (upd_inj f s) = sh s" "qcf (upd_inj f s) = qcf s" "icf (upd_inj f s) = icf s"
  "ecf (upd_inj f s) = ecf s" "starved (upd_inj f s) = starved s" "injs (upd_inj f s) = f (injs s)"
  "wms (upd_inj f s) = wms s" "now (upd_inj f s) = now s"
  by (simp_all add: upd_inj_def)

lemma upd_wm_sel [simp]:
  "sh (upd_wm f s) = sh s" "qcf (upd_wm f s) = qcf s" "icf (upd_wm f s) = icf s"
  "ecf (upd_wm f s) = ecf s" "starved (upd_wm f s) = starved s" "wms (upd_wm f s) = f (wms s)"
  "injs (upd_wm f s) = injs s" "now (upd_wm f s) = now s"
  by (simp_all add: upd_wm_def)

section \<open>Plain delivery\<close>

text \<open>Every intervention of the emulator is switched off.\<close>

definition plain :: "st \<Rightarrow> bool" where
  "plain s \<longleftrightarrow> \<not> k_cfg_reply_route (qcf s) \<and> \<not> k_sk_reply_route (qcf s) \<and> \<not> k_wm_serial_fix (qcf s) \<and>
     \<not> k_area_rect_force (qcf s) \<and> \<not> k_wm_timer (qcf s) \<and> k_evt_relay (qcf s) = None \<and>
     \<not> j_sk_activate (icf s) \<and> \<not> j_winmgr (icf s) \<and> \<not> j_fmload (icf s) \<and> \<not> j_wmgr_ack (icf s) \<and>
     \<not> j_area_ack (icf s) \<and> \<not> j_replay (icf s)"

lemma q_hooks_plain: "plain s \<Longrightarrow> q_hooks send k msg mode s = s"
  by (simp add: q_hooks_def plain_def relay_hook_def record_hook_def regwin_hook_def area_hook_def
      wm_sync_hook_def wm_screens_hook_def wm_disarm_hook_def wm_arm_hook_def wm_connect_hook_def
      fmload_hook_def winmgr_hook_def)

lemma q_send_step_plain:
  assumes "plain s" and "q_slot (sh s) i = Some k"
  shows "q_send_step send i msg sz mode s =
    (0, q_wake k (q_enqueue k (fst (task_self s)) mode (clip_msg msg) (clip_size sz)
          (note_family k (fst (task_self s)) (clip_msg msg) (snd (task_self s)))))"
proof -
  have "sk_activate_hook send k msg s = s" "sk_reply_route s (cfg_reply_route s k msg) msg = k"
    using assms(1) by (simp_all add: plain_def sk_activate_hook_def sk_reply_route_def cfg_reply_route_def)
  moreover have "plain (q_wake k (q_enqueue k (fst (task_self s)) mode (clip_msg msg) (clip_size sz)
          (note_family k (fst (task_self s)) (clip_msg msg) (snd (task_self s)))))"
    using assms(1) by (simp add: plain_def)
  ultimately show ?thesis
    using assms(2) by (simp add: q_send_step_def Let_def split_beta q_hooks_plain)
qed

lemma q_enqueue_queue:
  assumes "k < length (queues s)" and "\<not> k_wm_serial_fix (qcf s)" and "\<not> k_area_rect_force (qcf s)"
  shows "queues (q_enqueue k t mode (Some m) (of_nat (length m)) s) =
    (queues s)[k := ring_put (send_hdr (q_id (queues s ! k)) t mode (of_nat (length m)), m) (queues s ! k)]"
  using assms by (simp add: q_enqueue_def enqueue_queue_def ring_put_def Let_def)

lemma q_slot_SomeD:
  "q_slot c i = Some k \<Longrightarrow> k < length (c_queues c) \<and> q_used (c_queues c ! k) \<and> q_id (c_queues c ! k) = i"
  unfolding q_slot_def by (rule slot_of_SomeD)

lemma clip_short:
  assumes "length m \<le> QMSGCAP"
  shows "clip_msg (Some m) = Some m" and "clip_size (of_nat (length m)) = of_nat (length m)"
  using assms
  by (simp_all add: clip_msg_def clip_size_def word_less_nat_alt unat_of_nat take_bit_eq_mod QMSGCAP_def)

lemma q_wake_tail: "FxWake (FwTail k) \<in> set (fx (q_wake k s))"
proof -
  have "FxWake (FwTail k) \<in> set (fx (snd (ev_send a b (emit (FxWake (FwTail k)) s))))" for a b
    by (auto simp: ev_send_def reconcile_fx split: option.splits)
  then show ?thesis by (auto simp: q_wake_def as_kick_def Let_def split: option.splits)
qed

lemma q_wake_events:
  assumes "task_slot (sh s) (q_owner (queues s ! k)) = Some t" and "q_notify (queues s ! k) \<noteq> 0"
    and "q_owner (queues s ! k) \<noteq> 0"
  shows "t_events (tasks (q_wake k s) ! t) = t_events (tasks s ! t) OR q_notify (queues s ! k)"
proof -
  have t: "t < length (tasks s)" using task_slot_SomeD [OF assms(1)] by simp
  let ?e = "emit (FxWake (FwTail k)) s"
  have "task_slot (sh ?e) (q_owner (queues s ! k)) = Some t" using assms(1) by simp
  from ev_send_state(2) [OF this, of "q_notify (queues s ! k)"]
  have "tasks (snd (ev_send (q_owner (queues s ! k)) (q_notify (queues s ! k)) ?e)) ! t
      = (tasks s ! t)\<lparr>t_events := t_events (tasks s ! t) OR q_notify (queues s ! k)\<rparr>"
    using t by simp
  then show ?thesis
    using assms(2,3) by (auto simp: q_wake_def Let_def split: option.splits)
qed

lemma q_send_plain:
  assumes plain: "plain s" and slot: "q_slot (sh s) i = Some k"
    and ring: "ring_ok (queues s ! k)" "ring_cnt 1 (queues s ! k)" and fit: "length m \<le> QMSGCAP"
    and res: "q_send i (Some m) (of_nat (length m)) mode s = (r, s')"
  defines "v \<equiv> (send_hdr i (fst (task_self s)) mode (of_nat (length m)), m)"
  shows "r = 0" and "q_content (queues s' ! k) = keep_last QSLOTS (q_content (queues s ! k) @ [v])"
    and "ring_ok (queues s' ! k)" and "q_slot (sh s') i = q_slot (sh s) i"
    and "queues s' = (queues s)[k := ring_put v (queues s ! k)]"
    and "qcf s' = qcf s" "icf s' = icf s" "injs s' = injs s"
    and "s' = q_wake k (q_enqueue k (fst (task_self s)) mode (Some m) (of_nat (length m))
          (note_family k (fst (task_self s)) (Some m) (snd (task_self s))))"
proof -
  let ?q = "queues s ! k" and ?s3 = "note_family k (fst (task_self s)) (Some m) (snd (task_self s))"
  have k: "k < length (queues s)" "q_id ?q = i" "q_used ?q" using q_slot_SomeD [OF slot] by auto
  have eq: "r = 0" "s' = q_wake k (q_enqueue k (fst (task_self s)) mode (Some m) (of_nat (length m)) ?s3)"
    using res q_send_step_plain [OF plain slot] clip_short [OF fit]
    by (simp_all add: q_send_def SEND_DEPTH_def eval_nat_numeral)
  show qs: "queues s' = (queues s)[k := ring_put v ?q]"
    unfolding eq using q_enqueue_queue [of k ?s3] plain k by (simp add: plain_def v_def)
  have m: "length (snd v) < 2 ^ 32" using fit by (simp add: v_def QMSGCAP_def)
  show "q_content (queues s' ! k) = keep_last QSLOTS (q_content ?q @ [v])" and "ring_ok (queues s' ! k)"
    using qs k ring_put_correct [OF ring(1), of 0] ring(2) m by simp_all
  have "q_used (ring_put v q) = q_used q \<and> q_id (ring_put v q) = q_id q" for q
    by (simp add: ring_put_def ring_publish_def ring_store_def upd_slot_def ring_room_def)
  then have u: "q_used (queues s' ! j) = q_used (queues s ! j) \<and> q_id (queues s' ! j) = q_id (queues s ! j)" for j
    using qs k(1) by (cases "k = j") simp_all
  show "q_slot (sh s') i = q_slot (sh s) i"
    unfolding q_slot_def slot_of_def
  proof (rule find_index_cong)
    show "length (queues s') = length (queues s)" using qs by simp
  qed (use u in simp)
  show "r = 0" and "qcf s' = qcf s" "icf s' = icf s" "injs s' = injs s"
    and "s' = q_wake k (q_enqueue k (fst (task_self s)) mode (Some m) (of_nat (length m)) ?s3)"
    using eq by simp_all
qed

text \<open>
  C1. With the interventions off, \<open>q_send\<close> of a message that fits is the kernel's send: it succeeds,
  the message (its bytes, with the queue id, the sender and mode and size in the header) becomes the
  last of the queue's content, only the oldest message of a full queue is lost, no other queue
  changes, blocked readers are woken, and the notify bits of the queue are raised in its owner.
\<close>

theorem q_send_delivers:
  assumes plain: "plain s" and slot: "q_slot (sh s) i = Some k"
    and ring: "ring_ok (queues s ! k)" "ring_cnt 1 (queues s ! k)" and fit: "length m \<le> QMSGCAP"
    and res: "q_send i (Some m) (of_nat (length m)) mode s = (r, s')"
  shows "r = 0 \<and>
    q_content (queues s' ! k) = keep_last QSLOTS (q_content (queues s ! k) @
      [(send_hdr i (fst (task_self s)) mode (of_nat (length m)), m)]) \<and>
    (\<forall>j. j \<noteq> k \<longrightarrow> queues s' ! j = queues s ! j) \<and> FxWake (FwTail k) \<in> set (fx s') \<and>
    (\<forall>t. task_slot (sh (snd (task_self s))) (q_owner (queues s ! k)) = Some t \<longrightarrow>
       q_owner (queues s ! k) \<noteq> 0 \<longrightarrow>
       q_notify (queues s ! k) AND NOT (t_events (tasks s' ! t)) = 0)"
proof -
  let ?me = "fst (task_self s)" and ?s1 = "snd (task_self s)" and ?q = "queues s ! k"
  let ?v = "(send_hdr i ?me mode (of_nat (length m)), m)"
  let ?s4 = "q_enqueue k ?me mode (Some m) (of_nat (length m)) (note_family k ?me (Some m) ?s1)"
  note d = q_send_plain [OF assms]
  have k: "k < length (queues s)" using q_slot_SomeD [OF slot] by auto
  have "q_notify ?q AND NOT (t_events (tasks s' ! t)) = 0"
    if t: "task_slot (sh ?s1) (q_owner ?q) = Some t" and o: "q_owner ?q \<noteq> 0" for t
  proof (cases "q_notify ?q = 0")
    case False
    have "queues ?s4 = (queues s)[k := ring_put ?v ?q]" using d(5) d(9) by simp
    then have own: "q_owner (queues ?s4 ! k) = q_owner ?q" "q_notify (queues ?s4 ! k) = q_notify ?q"
      using k by (simp_all add: ring_put_def ring_publish_def ring_store_def upd_slot_def ring_room_def)
    have "task_slot (sh ?s4) (q_owner ?q) = Some t"
      using t by (auto simp: q_enqueue_def upd_queue_def task_slot_def note_family_def upd_task_def
          slot_of_update split: option.splits dest: slot_of_SomeD)
    then have "t_events (tasks s' ! t) = t_events (tasks ?s4 ! t) OR q_notify ?q"
      unfolding d(9) using q_wake_events [of ?s4 k t] own False o by simp
    then show ?thesis by (intro bit_word_eqI) (auto simp: bit_simps)
  qed simp
  then show ?thesis using d(1,2,5) q_wake_tail d(9) by auto
qed

definition send_demo :: st where
  "send_demo = boot 7 7\<lparr>sh := zero_ctl\<lparr>c_next_q := 0x301,
     c_tasks := [zero_task\<lparr>t_used := True, t_id := 0x100, t_tgid := 7, t_tid := 7\<rparr>],
     c_queues := [zero_queue\<lparr>q_used := True, q_id := 0x300, q_name := ''CfgServerQueue'', q_owner := 0x100,
                            q_notify := 0x01000000\<rparr>]\<rparr>\<rparr>"

lemma send_demo_simps:
  "queues send_demo = [zero_queue\<lparr>q_used := True, q_id := 0x300, q_name := ''CfgServerQueue'', q_owner := 0x100,
                            q_notify := 0x01000000\<rparr>]"
  "q_slot (sh send_demo) 0x300 = Some 0" "plain send_demo" "ring_ok (queues send_demo ! 0)"
  "ring_cnt 1 (queues send_demo ! 0)" "q_content (queues send_demo ! 0) = []"
  by (simp_all add: send_demo_def q_slot_def slot_of_def plain_def q_off_def inj_off_def ring_ok_def
      ring_cnt_def zero_queue_def q_content_def)

lemma send_demo_self: "fst (task_self send_demo) = 0x100"
  by (cases send_demo rule: task_self_cases)
    (simp_all add: send_demo_def own_entry_def off_defs tcache_ix_def)

lemma q_send_delivers_witness:
  "q_content (queues (snd (q_send 0x300 (Some [1, 2, 3]) 3 0 send_demo)) ! 0)
   = [((0x300, 0x100, 0x30000), [1, 2, 3])]"
  using q_send_delivers [OF send_demo_simps(3,2,4,5), of "[1, 2, 3]" 0, OF _ prod.collapse [symmetric]]
  by (simp add: send_demo_simps(6) send_demo_self QMSGCAP_def keep_last_short QSLOTS_def send_hdr_def)

section \<open>Serial numbers of a window-manager queue\<close>

definition slot_now :: "queue \<Rightarrow> qmsg" where
  "slot_now q = q_msg q ! ring_ix (q_tail q)"

lemma ring_ix_less: "ring_ix n < QSLOTS"
  by (simp add: ring_ix_def QSLOTS_def)

lemma slot_now_upd:
  "length (q_msg q) = QSLOTS \<Longrightarrow> slot_now (upd_slot f q) = f (slot_now q)"
  by (simp add: slot_now_def upd_slot_def ring_ix_less)

text \<open>
  A stream for a window-manager client: ticks of the emulator and real events, which the window
  manager numbers with its own counter \<open>w\<close>.  \<open>wm_feed\<close> enqueues it and lists the serial each stored
  message carries.
\<close>

fun wm_feed :: "q_cfg \<Rightarrow> u32 \<Rightarrow> u32 \<Rightarrow> (bool \<times> u8 list) list \<Rightarrow> queue \<Rightarrow> u32 list" where
  "wm_feed c sd w [] q = []"
| "wm_feed c sd w ((tick, m) # es) q =
     (let m' = (if tick then m else put32 m 4 (w + 1));
          q' = enqueue_queue c tick sd 0 (Some m') (of_nat (length m')) q
      in get32 (m_data (q_msg q' ! ring_ix (q_tail q))) 4
         # wm_feed c sd (if tick then w else w + 1) es q')"

lemma enqueue_wmq:
  fixes tick :: bool and sd md :: u32
  assumes "k_wm_serial_fix c" and "\<not> k_area_rect_force c" and "is_wmq q" and "length (q_msg q) = QSLOTS"
    and "8 \<le> length m" and "length m \<le> QMSGCAP"
  defines "q' \<equiv> enqueue_queue c tick sd md (Some m) (of_nat (length m)) q"
  shows "get32 (m_data (q_msg q' ! ring_ix (q_tail q))) 4
         = (if tick then q_wm_last q + 1 else get32 m 4 + q_wm_off q)"
    and "q_wm_last q' = (if tick then q_wm_last q + 1 else get32 m 4 + q_wm_off q)"
    and "q_wm_off q' = (if tick then q_wm_off q + 1 else q_wm_off q)"
    and "is_wmq q'" and "length (q_msg q') = QSLOTS"
proof -
  let ?q1 = "ring_store (send_hdr (q_id q) sd md (of_nat (length m))) (of_nat (length m)) m q"
  have n: "8 \<le> unat (of_nat (length m) :: u32)"
    using assms(5,6) by (simp add: unat_of_nat take_bit_eq_mod QMSGCAP_def)
  have r: "q_tail ?q1 = q_tail q" "q_name ?q1 = q_name q" "length (q_msg ?q1) = QSLOTS"
    "q_wm_last ?q1 = q_wm_last q" "q_wm_off ?q1 = q_wm_off q" "is_wmq ?q1"
    using assms(3,4) by (auto simp: ring_store_def upd_slot_def ring_room_def is_wmq_def)
  have d: "m_data (slot_now ?q1) = overlay 0 m (m_data (slot_now (ring_room q)))"
    unfolding ring_store_def by (subst slot_now_upd) (use assms(4) in \<open>simp_all add: ring_room_def\<close>)
  then have g: "get32 (m_data (slot_now ?q1)) 4 = get32 m 4"
    using assms(5) by (simp add: overlay_0 get32_append_left)
  have q': "q' = ring_publish (wm_serial tick (of_nat (length m)) ?q1)"
    using assms(1,2) by (simp add: q'_def enqueue_queue_def Let_def)
  have upd: "slot_now (upd_slot f ?q1) = f (slot_now ?q1)" for f
    using r(3) by (rule slot_now_upd)
  show "get32 (m_data (q_msg q' ! ring_ix (q_tail q))) 4
         = (if tick then q_wm_last q + 1 else get32 m 4 + q_wm_off q)"
    using n r g upd [unfolded slot_now_def] unfolding q' slot_now_def
    by (auto simp: wm_serial_def Let_def ring_publish_def upd_slot_def ring_ix_less)
  show "q_wm_last q' = (if tick then q_wm_last q + 1 else get32 m 4 + q_wm_off q)"
    using n r g unfolding q' slot_now_def by (simp add: wm_serial_def Let_def ring_publish_def upd_slot_def)
  show "q_wm_off q' = (if tick then q_wm_off q + 1 else q_wm_off q)"
    using n r unfolding q' by (simp add: wm_serial_def Let_def ring_publish_def upd_slot_def)
  show "is_wmq q'" and "length (q_msg q') = QSLOTS"
    using n r unfolding q' by (auto simp: wm_serial_def Let_def ring_publish_def upd_slot_def is_wmq_def)
qed

text \<open>
  C6. The serial rewrite keeps a client's stream contiguous: however ticks are interleaved with the
  window manager's own consecutively numbered events, the messages stored in its queue carry
  consecutive serials, the first one after the last delivered.  The invariant is that the last
  delivered serial is the window manager's counter plus the number of ticks so far.
\<close>

theorem wm_serials_contiguous:
  assumes "k_wm_serial_fix c" and "\<not> k_area_rect_force c" and "is_wmq q" and "length (q_msg q) = QSLOTS"
    and "list_all (\<lambda>(tick, m). 8 \<le> length m \<and> length m \<le> QMSGCAP) es"
    and "q_wm_last q = w + q_wm_off q"
  shows "wm_feed c sd w es q = map (\<lambda>n. q_wm_last q + 1 + of_nat n) [0..<length es]"
  using assms(3-6)
proof (induction es arbitrary: q w)
  case Nil
  then show ?case by simp
next
  case (Cons e es)
  obtain tick m where e: "e = (tick, m)" by (cases e)
  define m' where "m' = (if tick then m else put32 m 4 (w + 1))"
  have m': "8 \<le> length m'" "length m' \<le> QMSGCAP"
    using Cons.prems(3) e by (auto simp: m'_def put32_def length_overlay)
  have s4: "\<not> tick \<longrightarrow> get32 m' 4 = w + 1" by (simp add: m'_def)
  let ?q = "enqueue_queue c tick sd 0 (Some m') (of_nat (length m')) q"
  note en = enqueue_wmq [OF assms(1,2) Cons.prems(1,2) m', where tick = tick and sd = sd and md = 0]
  have last: "q_wm_last ?q = q_wm_last q + 1"
    using en(2) s4 Cons.prems(4) by (auto simp: algebra_simps)
  have "wm_feed c sd (if tick then w else w + 1) es ?q
      = map (\<lambda>n. q_wm_last ?q + 1 + of_nat n) [0..<length es]"
  proof (rule Cons.IH)
    show "is_wmq ?q" and "length (q_msg ?q) = QSLOTS" by (rule en)+
    show "list_all (\<lambda>(tick, m). 8 \<le> length m \<and> length m \<le> QMSGCAP) es" using Cons.prems(3) by simp
    show "q_wm_last ?q = (if tick then w else w + 1) + q_wm_off ?q"
      unfolding last en(3) using Cons.prems(4) by (simp add: algebra_simps)
  qed
  moreover have "get32 (m_data (q_msg ?q ! ring_ix (q_tail q))) 4 = q_wm_last q + 1"
    using en(1,2) last by simp
  ultimately have "wm_feed c sd w (e # es) q
      = (q_wm_last q + 1) # map (\<lambda>n. q_wm_last q + 1 + 1 + of_nat n) [0..<length es]"
    unfolding e by (simp add: Let_def last flip: m'_def)
  also have "\<dots> = map (\<lambda>n. q_wm_last q + 1 + of_nat n) [0..<Suc (length es)]"
    by (simp add: upt_conv_Cons map_Suc_upt [symmetric] del: upt_Suc)
  finally show ?case by simp
qed

lemma wm_serials_contiguous_witness:
  "wm_feed (q_off\<lparr>k_wm_serial_fix := True\<rparr>) 0x100 0
     [(False, replicate 8 0), (True, replicate 8 0), (False, replicate 8 0)]
     (zero_queue\<lparr>q_name := ''WMQ00107''\<rparr>) = [1, 2, 3]"
  by (subst wm_serials_contiguous)
    (simp_all add: q_off_def is_wmq_def has_prefix_def zero_queue_def QMSGCAP_def)

end
