(* ===== verification/QSendDepth.thy ===== *)
theory QSendDepth
  imports QSendFacts
begin

text \<open>
  The nested sends of \<open>q_send\<close> end: every hook either spends a one-shot flag or answers a
  window-manager request with a message that is no such request, so thirteen levels are never
  exhausted.  The one hypothesis is that no queue has the id 680: the area reply carries the number
  680 where a request carries the id of its reply queue, and the ids start at 0x300.
\<close>

section \<open>The nesting measure\<close>

definition shots :: "st \<Rightarrow> nat" where
  "shots s = (if i_sk_fired (injs s) then 0 else 1) + (if i_winmgr_injected (injs s) then 0 else 1)
     + (if i_fmload_injected (injs s) then 0 else 1) + (if i_in_evt_relay (injs s) then 0 else 1)"

text \<open>A window-manager request that may be answered.\<close>

definition wm_asks :: "u8 list \<Rightarrow> bool" where
  "wm_asks m \<longleftrightarrow> (24 \<le> length m \<and> get32 m 0 \<in> {0x3001, 0x3042}) \<or>
     (28 \<le> length m \<and> get32 m 0 \<in> {0x3037, 0x3003, 0x3004} \<and> get32 m 24 \<notin> {0, 680})"

definition asks :: "u8 list option \<Rightarrow> nat" where
  "asks msg = (case msg of None \<Rightarrow> 0 | Some m \<Rightarrow> if wm_asks m then 1 else 0)"

definition no680 :: "st \<Rightarrow> bool" where
  "no680 s \<longleftrightarrow> q_slot (sh s) 680 = None"

text \<open>The identity of every queue slot, and the bookkeeping of the connect acknowledgements.\<close>

definition qtab :: "st \<Rightarrow> (bool \<times> u32 \<times> string \<times> u32 \<times> u32 \<times> bool) list" where
  "qtab s = map (\<lambda>q. (q_used q, q_id q, q_name q, q_notify q, q_owner q, q_synth q)) (queues s)"

text \<open>The single-poster guards of the injection threads.\<close>

definition guards :: "st \<Rightarrow> u32 \<times> u32" where
  "guards s = (c_sk_flow_posted (sh s), c_wm_activate_posted (sh s))"

definition ackst :: "inj \<Rightarrow> u32 list \<times> u32 list \<times> u32 list \<times> bool \<times> bool" where
  "ackst v = (i_acked v, i_evt_acked v, i_peer_acked v, i_reread_done v, i_runup_done v)"

text \<open>
  What a send leaves alone: the nested-send ghost, every queue's identity, the acknowledgement
  lists, the switches; the unused one-shot injections never grow.
\<close>

definition tame :: "st \<Rightarrow> st \<Rightarrow> bool" where
  "tame s s' \<longleftrightarrow> starved s' = starved s \<and> shots s' \<le> shots s \<and> qtab s' = qtab s \<and>
     i_in_evt_relay (injs s') = i_in_evt_relay (injs s) \<and> ackst (injs s') = ackst (injs s) \<and>
     icf s' = icf s \<and> qcf s' = qcf s \<and> guards s' = guards s"

definition tame_send :: "nat \<Rightarrow> sender \<Rightarrow> bool" where
  "tame_send n send \<longleftrightarrow>
     (\<forall>j m md s. no680 s \<longrightarrow> 2 * shots s + asks (Some m) < n \<longrightarrow> tame s (send j m md s))"

lemma qtab_nth:
  assumes "qtab s' = qtab s"
  shows "length (queues s') = length (queues s)"
    and "i < length (queues s) \<Longrightarrow> q_used (queues s' ! i) = q_used (queues s ! i) \<and> q_id (queues s' ! i) = q_id (queues s ! i)
      \<and> q_name (queues s' ! i) = q_name (queues s ! i) \<and> q_notify (queues s' ! i) = q_notify (queues s ! i)
      \<and> q_owner (queues s' ! i) = q_owner (queues s ! i) \<and> q_synth (queues s' ! i) = q_synth (queues s ! i)"
proof -
  let ?f = "\<lambda>q. (q_used q, q_id q, q_name q, q_notify q, q_owner q, q_synth q)"
  have eq: "map ?f (queues s') = map ?f (queues s)" using assms by (simp add: qtab_def)
  show len: "length (queues s') = length (queues s)" using map_eq_imp_length_eq [OF eq] .
  assume i: "i < length (queues s)"
  then have "?f (queues s' ! i) = ?f (queues s ! i)"
    using len nth_map [of i "queues s'" ?f] nth_map [of i "queues s" ?f] eq by simp
  then show "q_used (queues s' ! i) = q_used (queues s ! i) \<and> q_id (queues s' ! i) = q_id (queues s ! i)
      \<and> q_name (queues s' ! i) = q_name (queues s ! i) \<and> q_notify (queues s' ! i) = q_notify (queues s ! i)
      \<and> q_owner (queues s' ! i) = q_owner (queues s ! i) \<and> q_synth (queues s' ! i) = q_synth (queues s ! i)"
    by simp
qed

lemma qtab_slot:
  assumes "qtab s' = qtab s"
  shows "q_slot (sh s') i = q_slot (sh s) i"
  unfolding q_slot_def slot_of_def
proof (rule find_index_cong)
  note qt = qtab_nth [OF assms]
  show "length (queues s') = length (queues s)" by (rule qt(1))
  show "(q_used (queues s' ! k) \<and> q_id (queues s' ! k) = i) = (q_used (queues s ! k) \<and> q_id (queues s ! k) = i)"
    if "k < length (queues s')" for k using qt(2) [of k] qt(1) that by simp
qed

lemma qtab_find:
  assumes "qtab s' = qtab s"
  shows "q_find_slot (sh s') nm = q_find_slot (sh s) nm"
  unfolding q_find_slot_def
proof (rule find_index_cong)
  note qt = qtab_nth [OF assms]
  show "length (queues s') = length (queues s)" by (rule qt(1))
  show "q_named nm (queues s' ! k) = q_named nm (queues s ! k)"
    if "k < length (queues s')" for k using qt(2) [of k] qt(1) that by (simp add: q_named_def)
qed

lemma tame_no680: "tame s s' \<Longrightarrow> no680 s' = no680 s"
  using qtab_slot [of s' s 680] by (auto simp: tame_def no680_def)

lemma qtab_frame: "queues s' = queues s \<Longrightarrow> qtab s' = qtab s"
  by (simp add: qtab_def)

lemma qtab_upd_simps [simp]: "qtab (upd_inj f s) = qtab s" "qtab (upd_wm g s) = qtab s"
  by (simp_all add: qtab_def)

lemma guards_upd_simps [simp]:
  "guards (upd_inj f s) = guards s" "guards (upd_wm g s) = guards s" "guards (upd_queue k h s) = guards s"
  "guards (upd_task j t s) = guards s" "guards (emit e s) = guards s"
  by (simp_all add: guards_def upd_defs)

lemma tame_refl [simp]: "tame s s"
  by (simp add: tame_def)

lemma tame_trans: "tame s s1 \<Longrightarrow> tame s1 s2 \<Longrightarrow> tame s s2"
  by (auto simp: tame_def)

lemma asks_le: "asks msg \<le> 1"
  by (simp add: asks_def split: option.splits)

lemma tame_sendD:
  "tame_send n send \<Longrightarrow> no680 s \<Longrightarrow> 2 * shots s + asks (Some m) < n \<Longrightarrow> tame s (send j m md s)"
  by (simp add: tame_send_def)

lemma tame_send_any:
  "tame_send n send \<Longrightarrow> no680 s \<Longrightarrow> 2 * shots s + 1 < n \<Longrightarrow> tame s (send j m md s)"
  using tame_sendD [of n send s m j md] asks_le [of "Some m"] by simp

lemma shots_upd:
  "shots (upd_inj f s) = (if i_sk_fired (f (injs s)) then 0 else 1)
     + (if i_winmgr_injected (f (injs s)) then 0 else 1)
     + (if i_fmload_injected (f (injs s)) then 0 else 1) + (if i_in_evt_relay (f (injs s)) then 0 else 1)"
  by (simp add: shots_def)

lemma no680_upd_inj [simp]: "no680 (upd_inj f s) = no680 s"
  by (simp add: no680_def)

lemma no680_upd_wm [simp]: "no680 (upd_wm f s) = no680 s"
  by (simp add: no680_def)

lemmas q_send_measure = tame_def shots_upd shots_def ackst_def

section \<open>The hooks\<close>

lemma sk_track_flags [simp]:
  "i_sk_fired (sk_track c nm m v) = i_sk_fired v" "i_winmgr_injected (sk_track c nm m v) = i_winmgr_injected v"
  "i_fmload_injected (sk_track c nm m v) = i_fmload_injected v" "i_in_evt_relay (sk_track c nm m v) = i_in_evt_relay v"
  "i_acked (sk_track c nm m v) = i_acked v" "i_evt_acked (sk_track c nm m v) = i_evt_acked v"
  "i_peer_acked (sk_track c nm m v) = i_peer_acked v" "i_reread_done (sk_track c nm m v) = i_reread_done v"
  "i_runup_done (sk_track c nm m v) = i_runup_done v"
  by (simp_all add: sk_track_def Let_def)

lemma tame_sk_activate:
  assumes send: "tame_send n send" and s: "no680 s" and n: "2 * shots s \<le> n"
  shows "tame s (sk_activate_hook send k msg s)"
proof -
  let ?s1 = "upd_inj (sk_track (icf s) (qname s k) (the msg)) s"
  let ?s2 = "upd_inj (\<lambda>v. v\<lparr>i_sk_fired := True\<rparr>) ?s1"
  have s1: "tame s ?s1" using s by (simp add: q_send_measure)
  have "tame s (send j m 0 ?s2)" if "\<not> i_sk_fired (injs s)" for j m
  proof -
    have "Suc (shots ?s2) = shots s" using that by (simp add: shots_upd shots_def)
    then have "tame ?s2 (send j m 0 ?s2)" using send s n by (intro tame_send_any) auto
    moreover have "tame s ?s2" using s by (simp add: q_send_measure)
    ultimately show ?thesis by (rule tame_trans [rotated])
  qed
  then show ?thesis
    using s1 by (auto simp: sk_activate_hook_def sk_gate_def Let_def split: option.splits)
qed

lemma tame_winmgr:
  assumes send: "tame_send n send" and s: "no680 s" and n: "2 * shots s \<le> n"
  shows "tame s (winmgr_hook send k msg s)"
proof -
  let ?s1 = "upd_inj (\<lambda>v. v\<lparr>i_winmgr_injected := True, i_in_winmgr := True\<rparr>) s"
  let ?leave = "upd_inj (\<lambda>v. v\<lparr>i_in_winmgr := False\<rparr>)"
  have "tame s (?leave (send j m 0 ?s1))" if "\<not> i_winmgr_injected (injs s)" for j m
  proof -
    have "Suc (shots ?s1) = shots s" using that by (simp add: shots_upd shots_def)
    then have "tame ?s1 (send j m 0 ?s1)" using send s n by (intro tame_send_any) auto
    moreover have "tame s ?s1" using s by (simp add: q_send_measure)
    ultimately have "tame s (send j m 0 ?s1)" by (rule tame_trans [rotated])
    moreover have "tame (send j m 0 ?s1) (?leave (send j m 0 ?s1))" by (simp add: q_send_measure)
    ultimately show ?thesis by (rule tame_trans)
  qed
  then show ?thesis by (simp add: winmgr_hook_def Let_def)
qed

lemma tame_fmload_lines:
  assumes send: "tame_send n send" and "no680 s" and "2 * shots s + 1 < n"
  shows "tame s (fmload_lines send qid left ls s)"
  using assms(2,3)
proof (induction ls arbitrary: left s)
  case (Cons l ls)
  let ?s' = "\<lambda>m. send qid m 0 s"
  have t: "tame s (?s' m)" for m using send Cons.prems by (rule tame_send_any)
  have "tame s (fmload_lines send qid left' ls (?s' m))" for m left'
  proof (rule tame_trans [OF t])
    show "tame (?s' m) (fmload_lines send qid left' ls (?s' m))"
      using t [of m] Cons.prems tame_no680 [OF t] by (intro Cons.IH) (auto simp: tame_def)
  qed
  then show ?case using Cons.IH Cons.prems by (simp split: option.splits prod.splits)
qed simp

lemma tame_fmload_set:
  assumes send: "tame_send n send" and s: "no680 s" and n: "2 * shots s + 1 < n"
  shows "tame s (inject_fmload_set send qid s)"
proof -
  have t: "tame s (send qid m 0 s)" for m using send s n by (rule tame_send_any)
  have "tame s (send qid m' 0 (send qid m 0 s))" for m m'
  proof (rule tame_trans [OF t])
    show "tame (send qid m 0 s) (send qid m' 0 (send qid m 0 s))"
      using t [of m] s n tame_no680 [OF t] by (intro tame_send_any [OF send]) (auto simp: tame_def)
  qed
  then show ?thesis
    using t tame_fmload_lines [OF send s n] by (simp add: inject_fmload_set_def Let_def split: option.splits)
qed

lemma tame_fmload:
  assumes send: "tame_send n send" and s: "no680 s" and n: "2 * shots s \<le> n"
  shows "tame s (fmload_hook send k msg s)"
proof -
  let ?s1 = "upd_inj (\<lambda>v. v\<lparr>i_fmload_injected := True, i_in_fmload := True\<rparr>) s"
  let ?leave = "upd_inj (\<lambda>v. v\<lparr>i_in_fmload := False\<rparr>)"
  have "tame s (?leave (inject_fmload_set send j ?s1))" if "\<not> i_fmload_injected (injs s)" for j
  proof -
    have "Suc (shots ?s1) = shots s" using that by (simp add: shots_upd shots_def)
    then have "tame ?s1 (inject_fmload_set send j ?s1)" using send s n by (intro tame_fmload_set) auto
    moreover have "tame s ?s1" using s by (simp add: q_send_measure)
    ultimately have "tame s (inject_fmload_set send j ?s1)" by (rule tame_trans [rotated])
    moreover have "tame (inject_fmload_set send j ?s1) (?leave (inject_fmload_set send j ?s1))"
      by (simp add: q_send_measure)
    ultimately show ?thesis by (rule tame_trans)
  qed
  then show ?thesis by (simp add: fmload_hook_def Let_def)
qed

text \<open>The answers are no requests.\<close>

lemma length_wm_env: "12 \<le> n \<Longrightarrow> length (wm_env n t msg) = n"
  by (simp add: wm_env_def length_put32)

lemma wm_env_get32: "get32 (wm_env n t msg) 0 = t" "12 \<le> j \<Longrightarrow> get32 (wm_env n t msg) j = 0"
  by (simp_all add: wm_env_def byte_simps)

lemma asks_connect: "asks (Some (put32 (wm_env 16 0x3001 msg) 12 v)) = 0"
  by (simp add: asks_def wm_asks_def length_put32 length_wm_env)

lemma asks_screens: "asks (Some (screens_rep scr msg)) = 0"
proof -
  have o: "length (bytes_of ''OEM'' @ [0]) = 4" by simp
  have "get32 (screens_rep scr msg) 0 = 0x3037" and "get32 (screens_rep scr msg) 24 = 0"
    by (simp_all add: screens_rep_def Let_def get32_put32_other get32_overlay_other wm_env_get32)
  then show ?thesis by (simp add: asks_def wm_asks_def)
qed

lemma asks_sync: "asks (Some (wm_env 208 10 msg)) = 0"
  by (simp add: asks_def wm_asks_def wm_env_get32)

lemma asks_area: "asks (Some (area_rep msg)) = 0"
  by (simp add: asks_def wm_asks_def area_rep_def get32_put32_other wm_env_get32)

lemma asks_regwin: "asks (Some (put32 (wm_env 48 0x3004 msg) 12 0)) = 0"
  by (simp add: asks_def wm_asks_def get32_put32_other wm_env_get32)

lemma tame_wm_reply:
  assumes send: "tame_send n send" and s: "no680 s" and rep: "asks (Some rep) = 0"
    and n: "rq \<noteq> 0 \<Longrightarrow> rq \<noteq> 680 \<Longrightarrow> 2 * shots s < n"
  shows "tame s (wm_reply send rq rep s)"
proof (cases "rq \<noteq> 0 \<and> q_slot (sh s) rq \<noteq> None")
  case True
  then have "rq \<noteq> 680" using s by (auto simp: no680_def)
  then have "2 * shots s + asks (Some rep) < n" using n True rep by simp
  with send s have "tame s (send rq rep 0 s)" by (rule tame_sendD)
  then show ?thesis using True by (simp add: wm_reply_def)
next
  case False
  then show ?thesis by (auto simp: wm_reply_def)
qed

lemma msg_ge_asks:
  "msg_ge msg 24 \<Longrightarrow> dword msg 0 \<in> {0x3001, 0x3042} \<Longrightarrow> asks msg = 1"
  "msg_ge msg 28 \<Longrightarrow> dword msg 0 \<in> {0x3037, 0x3003, 0x3004} \<Longrightarrow> dword msg 24 \<notin> {0, 680} \<Longrightarrow> asks msg = 1"
  by (auto simp: msg_ge_def dword_def asks_def wm_asks_def split: option.splits)

lemma tame_wm_hooks:
  assumes send: "tame_send n send" and s: "no680 s" and n: "2 * shots s + asks msg \<le> n"
  shows "tame s (wm_connect_hook send k msg s)" and "tame s (wm_screens_hook send k msg s)"
    and "tame s (wm_sync_hook send k msg s)" and "tame s (area_hook send k msg s)"
    and "tame s (regwin_hook send k msg s)"
  using send s n msg_ge_asks [of msg]
  by (auto simp: wm_connect_hook_def wm_screens_hook_def wm_sync_hook_def area_hook_def regwin_hook_def
      wm_req_def asks_connect asks_screens asks_sync asks_area asks_regwin
      intro!: tame_wm_reply [OF send s])

lemma tame_wm_timers: "tame s (wm_arm_hook k msg s)" "tame s (wm_disarm_hook k msg s)"
  by (auto simp: wm_arm_hook_def wm_disarm_hook_def Let_def q_send_measure)

lemma tame_record: "tame s (record_hook k msg s)"
  by (auto simp: record_hook_def q_send_measure Let_def)

lemma tame_relay:
  assumes send: "tame_send n send" and s: "no680 s" and n: "2 * shots s \<le> n"
  shows "tame s (relay_hook send k msg mode s)"
proof -
  let ?s1 = "s\<lparr>sh := evt_ring_add (the msg) (sh s)\<rparr>"
  let ?s2 = "upd_inj (\<lambda>v. v\<lparr>i_in_evt_relay := True\<rparr>) ?s1"
  let ?leave = "upd_inj (\<lambda>v. v\<lparr>i_in_evt_relay := False\<rparr>)"
  have qt: "qtab ?s1 = qtab s" by (simp add: qtab_def evt_ring_add_def Let_def)
  have q: "no680 ?s1 = no680 s" using qtab_slot [OF qt] by (simp add: no680_def)
  have s1: "tame s ?s1" using qt by (simp add: tame_def shots_def guards_def evt_ring_add_def Let_def)
  have "tame s (?leave (send j (the msg) mode ?s2))" if "\<not> i_in_evt_relay (injs s)" for j
  proof -
    have sh: "Suc (shots ?s2) = shots s" using that by (simp add: shots_upd shots_def)
    then have "tame ?s2 (send j (the msg) mode ?s2)" using send s n q by (intro tame_send_any) auto
    then show ?thesis using sh that qt s1 by (auto simp: tame_def shots_def ackst_def)
  qed
  then show ?thesis using s1 by (auto simp: relay_hook_def Let_def split: option.splits)
qed

lemma tame_hooks:
  assumes send: "tame_send n send" and s: "no680 s" and n: "2 * shots s + asks msg \<le> n"
  shows "tame s (q_hooks send k msg mode s)"
proof -
  have step: "tame s y"
    if "tame s x" and "no680 x \<Longrightarrow> 2 * shots x + asks msg \<le> n \<Longrightarrow> tame x y" for x y
    by (rule tame_trans [OF that(1) that(2)]) (use that(1) s n tame_no680 [OF that(1)] in \<open>auto simp: tame_def\<close>)
  let ?a = "winmgr_hook send k msg s"
  let ?b = "fmload_hook send k msg ?a"
  let ?c = "wm_connect_hook send k msg ?b"
  let ?d = "wm_disarm_hook k msg (wm_arm_hook k msg ?c)"
  let ?e = "wm_screens_hook send k msg ?d"
  let ?f = "wm_sync_hook send k msg ?e"
  let ?g = "area_hook send k msg ?f"
  let ?h = "regwin_hook send k msg ?g"
  have "tame s ?a" using send s n by (intro tame_winmgr) auto
  then have "tame s ?b" by (rule step) (rule tame_fmload [OF send], auto)
  then have "tame s ?c" by (rule step) (rule tame_wm_hooks [OF send])
  then have "tame s ?d" by (blast intro: tame_trans tame_wm_timers)
  then have "tame s ?e" by (rule step) (rule tame_wm_hooks [OF send])
  then have "tame s ?f" by (rule step) (rule tame_wm_hooks [OF send])
  then have "tame s ?g" by (rule step) (rule tame_wm_hooks [OF send])
  then have "tame s ?h" by (rule step) (rule tame_wm_hooks [OF send])
  then have "tame s (record_hook k msg ?h)" by (rule tame_trans [OF _ tame_record])
  then show ?thesis unfolding q_hooks_def by (rule step) (rule tame_relay [OF send], auto)
qed

section \<open>The bound\<close>

definition qident :: "queue \<Rightarrow> bool \<times> u32 \<times> string \<times> u32 \<times> u32 \<times> bool" where
  "qident q = (q_used q, q_id q, q_name q, q_notify q, q_owner q, q_synth q)"

lemma ring_ids [simp]:
  "qident (ring_publish q) = qident q" "qident (upd_slot f q) = qident q" "qident (ring_store h z d q) = qident q"
  by (simp_all add: ring_publish_def upd_slot_def ring_store_def ring_room_def qident_def)

lemma qident_wm [simp]: "qident (q\<lparr>q_wm_last := x\<rparr>) = qident q" "qident (q\<lparr>q_wm_off := y\<rparr>) = qident q"
  by (simp_all add: qident_def)

lemma rewrite_ids [simp]: "qident (wm_serial t z q) = qident q" "qident (area_rect r z q) = qident q"
  by (simp_all add: wm_serial_def area_rect_def Let_def split_beta)

lemma enqueue_queue_ids [simp]: "qident (enqueue_queue c t sd md msg z q) = qident q"
  by (simp add: enqueue_queue_def Let_def)

lemma qtab_enqueue: "qtab (q_enqueue k t md m z s) = qtab s"
proof -
  have "map qident (queues (q_enqueue k t md m z s)) = map qident (queues s)"
  proof (rule nth_equalityI)
    fix i
    assume "i < length (map qident (queues (q_enqueue k t md m z s)))"
    then show "map qident (queues (q_enqueue k t md m z s)) ! i = map qident (queues s) ! i"
      by (cases "k = i") (simp_all add: q_enqueue_def)
  qed (simp add: q_enqueue_def)
  then show ?thesis by (simp add: qtab_def qident_def [abs_def])
qed

lemma qtab_frames [simp]: "qtab (q_wake k s) = qtab s" "qtab (note_family k t m s) = qtab s"
  "qtab (snd (task_self s)) = qtab s"
  by (rule qtab_frame, simp)+

lemma guards_task_self [simp]: "guards (snd (task_self s)) = guards s"
  by (cases s rule: task_self_cases) (simp_all add: guards_def tcache_put_def upd_defs)

lemma guards_ev_send [simp]: "guards (snd (ev_send t b s)) = guards s"
proof -
  have l: "guards (evdev_reconcile_locked i u) = guards u" for i u
    by (auto simp: evdev_reconcile_locked_def upd_evdev_def guards_def emit_def Let_def split: option.splits)
  have "guards (evdev_reconcile j u) = guards u" for j u
    by (simp add: evdev_reconcile_def l split: option.splits)
  then show ?thesis by (simp add: ev_send_def split: option.splits)
qed

lemma guards_frames [simp]:
  "guards (q_wake k s) = guards s" "guards (note_family k t m s) = guards s"
  "guards (q_enqueue k t md m z s) = guards s"
  by (auto simp: q_wake_def note_family_def q_enqueue_def as_kick_def Let_def split: option.splits)

lemma tame_enqueue: "tame s (q_wake k (q_enqueue k t md m z (note_family k t m (snd (task_self s)))))"
  by (simp add: tame_def shots_def qtab_enqueue)

lemma asks_clip: "asks (clip_msg msg) \<le> asks msg"
  by (auto simp: asks_def wm_asks_def clip_msg_def get32_take QMSGCAP_def split: option.splits)

lemma tame_step:
  assumes send: "tame_send n send" and s: "no680 s" and n: "2 * shots s + asks msg \<le> n"
  shows "tame s (snd (q_send_step send i msg z mode s))"
proof (cases "q_slot (sh s) i")
  case None
  then show ?thesis by (simp add: q_send_step_def)
next
  case (Some k0)
  define k where "k = sk_reply_route s (cfg_reply_route s k0 msg) msg"
  define s1 where "s1 = sk_activate_hook send k msg s"
  define t where "t = fst (task_self s1)"
  define s4 where "s4 = q_wake k (q_enqueue k t mode (clip_msg msg) (clip_size z)
      (note_family k t (clip_msg msg) (snd (task_self s1))))"
  have "tame s s1" unfolding s1_def by (rule tame_sk_activate [OF send s]) (use n in simp)
  then have 4: "tame s s4" unfolding s4_def by (rule tame_trans [OF _ tame_enqueue])
  have "tame s4 (q_hooks send k (clip_msg msg) mode s4)"
    by (rule tame_hooks [OF send]) (use 4 s n asks_clip [of msg] tame_no680 [OF 4] in \<open>auto simp: tame_def\<close>)
  with 4 have "tame s (q_hooks send k (clip_msg msg) mode s4)" by (rule tame_trans)
  then show ?thesis
    using Some by (simp add: q_send_step_def Let_def split_beta k_def s1_def t_def s4_def)
qed

lemma tame_q_send_f:
  "no680 s \<Longrightarrow> 2 * shots s + asks msg < n \<Longrightarrow> tame s (snd (q_send_f n i msg z mode s))"
proof (induction n arbitrary: i msg z mode s)
  case (Suc n)
  have "tame_send n (\<lambda>j m md s'. snd (q_send_f n j (Some m) (of_nat (length m)) md s'))"
    unfolding tame_send_def using Suc.IH by blast
  then show ?case using Suc.prems by (simp add: tame_step)
qed simp

lemma shots_le: "shots s \<le> 4"
  by (simp add: shots_def)

lemma tame_q_send: "no680 s \<Longrightarrow> tame s (snd (q_send i msg z mode s))"
  using tame_q_send_f [of s msg SEND_DEPTH i z mode] shots_le [of s] asks_le [of msg]
  by (simp add: q_send_def SEND_DEPTH_def)

lemma tame_post: "no680 s \<Longrightarrow> tame s (post i m mode s)"
  by (simp add: post_def tame_q_send)

text \<open>
  C11. \<open>q_send\<close> always returns: whatever switches are on and whatever is sent, the sends its hooks
  nest never exceed the bound, so no message is ever dropped for want of it; no queue changes its id,
  name, owner or notify bits, and the count of unused one-shot injections never grows.
\<close>

theorem q_send_returns:
  assumes "q_slot (sh s) 680 = None" and "q_send i msg z mode s = (r, s')"
  shows "starved s' = starved s \<and> shots s' \<le> shots s \<and> qtab s' = qtab s"
  using tame_q_send [of s i msg z mode] assms by (simp add: no680_def tame_def)

lemma q_send_returns_witness:
  "\<not> starved (snd (q_send 0x300 (Some [1, 2, 3]) 3 0 send_demo))"
proof -
  have "q_slot (sh send_demo) 680 = None" "\<not> starved send_demo"
    by (simp_all add: send_demo_def q_slot_def slot_of_def)
  then show ?thesis using q_send_returns [OF _ prod.collapse [symmetric]] by metis
qed

end
