(* ===== verification/Posters.thy ===== *)
theory Posters
  imports QSendDepth
begin

text \<open>
  Threads that race to post: every process starts one, a word of the segment decides which of them
  posts.  A thread is a step function on its program counter and the state its process sees; the steps
  of several processes interleave with whatever else changes the segment.
\<close>

record 'pc world =
  w_sh :: ctl
  w_st :: "nat \<Rightarrow> st"
  w_pc :: "nat \<Rightarrow> 'pc"

text \<open>
  A step of a process on the shared segment, or a change of the segment by any other code: that code
  never writes the deciding word, and queue ids start at 0x300.
\<close>

inductive world_step :: "('pc \<Rightarrow> st \<Rightarrow> 'pc \<times> st) \<Rightarrow> (ctl \<Rightarrow> u32) \<Rightarrow> 'pc world \<Rightarrow> 'pc world \<Rightarrow> bool"
  for turn :: "'pc \<Rightarrow> st \<Rightarrow> 'pc \<times> st" and word :: "ctl \<Rightarrow> u32"
  where
    run: "turn (w_pc w i) ((w_st w i)\<lparr>sh := w_sh w\<rparr>) = (pc', s') \<Longrightarrow>
      world_step turn word w (w\<lparr>w_sh := sh s', w_st := (w_st w)(i := s'), w_pc := (w_pc w)(i := pc')\<rparr>)"
  | env: "word c = word (w_sh w) \<Longrightarrow> q_slot c 680 = None \<Longrightarrow> world_step turn word w (w\<lparr>w_sh := c\<rparr>)"

inductive_cases world_stepE: "world_step turn word w w'"

definition world_reach :: "('pc \<Rightarrow> st \<Rightarrow> 'pc \<times> st) \<Rightarrow> (ctl \<Rightarrow> u32) \<Rightarrow> 'pc world \<Rightarrow> 'pc world \<Rightarrow> bool" where
  "world_reach turn word = (world_step turn word)\<^sup>*\<^sup>*"

text \<open>The contract of such a thread: what it does to the deciding word.\<close>

locale single_poster =
  fixes turn :: "'pc \<Rightarrow> st \<Rightarrow> 'pc \<times> st" and word :: "ctl \<Rightarrow> u32" and won :: "'pc \<Rightarrow> bool"
  assumes wins: "turn pc s = (pc', s') \<Longrightarrow> no680 s \<Longrightarrow> \<not> won pc \<Longrightarrow> won pc' \<Longrightarrow>
      word (sh s) = 0 \<and> word (sh s') \<noteq> 0"
    and loses: "turn pc s = (pc', s') \<Longrightarrow> no680 s \<Longrightarrow> \<not> won pc \<Longrightarrow> \<not> won pc' \<Longrightarrow>
      (word (sh s') = 0) = (word (sh s) = 0)"
    and keeps: "turn pc s = (pc', s') \<Longrightarrow> no680 s \<Longrightarrow> won pc \<Longrightarrow> won pc' \<and> word (sh s') = word (sh s)"
    and slots: "turn pc s = (pc', s') \<Longrightarrow> no680 s \<Longrightarrow> no680 s'"
begin

text \<open>At most one has won, and somebody has won exactly when the word is set.\<close>

definition ok :: "(nat \<Rightarrow> bool) \<Rightarrow> ctl \<Rightarrow> bool" where
  "ok P c \<longleftrightarrow> q_slot c 680 = None \<and> (\<forall>i j. P i \<longrightarrow> P j \<longrightarrow> i = j) \<and> (word c \<noteq> 0 \<longleftrightarrow> (\<exists>i. P i))"

definition inv :: "'pc world \<Rightarrow> bool" where
  "inv w \<longleftrightarrow> ok (won \<circ> w_pc w) (w_sh w)"

lemma ok_same: "ok P c \<Longrightarrow> q_slot c' 680 = None \<Longrightarrow> (word c' = 0) = (word c = 0) \<Longrightarrow> ok P c'"
  by (simp add: ok_def)

lemma ok_first: "ok P c \<Longrightarrow> q_slot c' 680 = None \<Longrightarrow> word c = 0 \<Longrightarrow> word c' \<noteq> 0 \<Longrightarrow> ok (P(i := True)) c'"
  by (auto simp: ok_def)

lemma inv_step: "world_step turn word w w' \<Longrightarrow> inv w \<Longrightarrow> inv w'"
proof (induction rule: world_step.induct)
  case (run w i pc' s')
  let ?s = "(w_st w i)\<lparr>sh := w_sh w\<rparr>"
  have n: "no680 ?s" using run.prems by (simp add: inv_def ok_def no680_def)
  note r = run.hyps n
  have n': "q_slot (sh s') 680 = None" using slots [OF r] by (simp add: no680_def)
  have upd: "won \<circ> (w_pc w)(i := pc') = (won \<circ> w_pc w)(i := won pc')" by (simp add: fun_eq_iff)
  have "ok ((won \<circ> w_pc w)(i := won pc')) (sh s')"
  proof (cases "won pc'")
    case True
    show ?thesis
    proof (cases "won (w_pc w i)")
      case W: True
      then have "(won \<circ> w_pc w)(i := won pc') = won \<circ> w_pc w" using True by (simp add: fun_eq_iff)
      then show ?thesis using ok_same [of "won \<circ> w_pc w"] run.prems n' keeps [OF r W] by (simp add: inv_def)
    next
      case False
      then show ?thesis using ok_first [of "won \<circ> w_pc w"] run.prems n' wins [OF r False True] True by (simp add: inv_def)
    qed
  next
    case False
    then have L: "\<not> won (w_pc w i)" using keeps [OF r] by blast
    then have "(won \<circ> w_pc w)(i := won pc') = won \<circ> w_pc w" using False by (simp add: fun_eq_iff)
    then show ?thesis using ok_same [of "won \<circ> w_pc w"] run.prems n' loses [OF r L False] by (simp add: inv_def)
  qed
  then show ?case by (simp add: inv_def upd)
qed (simp add: inv_def ok_def)

lemma inv_reach:
  assumes "world_reach turn word w w'" and "\<And>i. \<not> won (w_pc w i)" and "word (w_sh w) = 0" and "q_slot (w_sh w) 680 = None"
  shows "inv w'"
proof -
  have "(world_step turn word)\<^sup>*\<^sup>* w w' \<Longrightarrow> inv w \<Longrightarrow> inv w'"
    by (induction rule: rtranclp_induct) (auto intro: inv_step)
  then show ?thesis using assms by (simp add: world_reach_def inv_def ok_def)
qed

lemma at_most_one:
  assumes "inv w"
  shows "won (w_pc w i) \<Longrightarrow> won (w_pc w j) \<Longrightarrow> i = j" and "(word (w_sh w) \<noteq> 0) = (\<exists>i. won (w_pc w i))"
  using assms by (auto simp: inv_def ok_def)

end

end
