(* ===== verification/QueueIdent.thy ===== *)
theory QueueIdent
  imports QSendDepth
begin

text \<open>
  Creating and resolving queues: \<open>q_create\<close> with the flush of buffered event broadcasts to a late
  subscriber, the presence probes that are never auto-created, and \<open>q_ident\<close> with its leading-dot
  and compound-name rules and the automatic black-hole sinks.
\<close>

section \<open>Create\<close>

definition notify_bits :: "u32 \<Rightarrow> u32" where
  "notify_bits flags = (if has_bits flags 2 then flags AND 0xff000000 else 0)"

definition new_queue :: "string \<Rightarrow> u32 \<Rightarrow> u32 \<Rightarrow> u32 \<Rightarrow> u32 \<Rightarrow> queue \<Rightarrow> queue" where
  "new_queue base depth flags owner i q = q\<lparr>q_used := True, q_id := i, q_head := 0, q_tail := 0,
     q_synth := False, q_drop_warned := False, q_wm_off := 0, q_wm_last := 0, q_depth := depth,
     q_flags := flags, q_owner := owner, q_notify := notify_bits flags, q_name := name_store base\<rparr>"

text \<open>A create of an existing name: a placeholder without notify bits is taken over, a synthetic sink adopted.\<close>

definition adopt_queue :: "u32 \<Rightarrow> u32 \<Rightarrow> queue \<Rightarrow> queue" where
  "adopt_queue owner nbits q =
     (let q1 = (if nbits \<noteq> 0 \<and> q_notify q = 0 then q\<lparr>q_owner := owner, q_notify := nbits\<rparr> else q)
      in q1\<lparr>q_synth := False\<rparr>)"

text \<open>The buffered broadcasts, oldest first.\<close>

definition flush_evt :: "sender \<Rightarrow> u32 \<Rightarrow> st \<Rightarrow> st" where
  "flush_evt send i s =
     (let n = unat (c_evt_ring_n (sh s)); start = (if n > EVTRING then n - EVTRING else 0) in
      if n = 0 then s
      else upd_inj (\<lambda>v. v\<lparr>i_in_evt_relay := False\<rparr>)
             (fold (\<lambda>j s'. let (len, d) = c_evt_ring (sh s') ! (j mod EVTRING) in
                           if len \<noteq> 0 then send i (bytes_upto (unat len) d) 0 s' else s')
                [start..<n] (upd_inj (\<lambda>v. v\<lparr>i_in_evt_relay := True\<rparr>) s)))"

definition q_create :: "string \<Rightarrow> u32 \<Rightarrow> u32 \<Rightarrow> st \<Rightarrow> u32 \<times> st" where
  "q_create nm depth flags s0 =
     (let base = q_basename nm; (owner, s) = task_self s0 in
      case q_find_slot (sh s) base of
        Some k \<Rightarrow> (q_id (queues s ! k), upd_queue k (adopt_queue owner (notify_bits flags)) s)
      | None \<Rightarrow>
          (case free_slot q_used (queues s) of
             None \<Rightarrow> (0, s)
           | Some k \<Rightarrow>
               let i = c_next_q (sh s);
                   s1 = upd_queue k (new_queue base depth flags owner i)
                          (s\<lparr>sh := (sh s)\<lparr>c_next_q := i + 1\<rparr>\<rparr>)
               in (i, if k_evt_relay (qcf s1) = Some base \<and> \<not> i_in_evt_relay (injs s1)
                      then flush_evt post i s1 else s1)))"

section \<open>Identify\<close>

definition hr_ishex :: "char \<Rightarrow> bool" where
  "hr_ishex c \<longleftrightarrow> c \<in> set ''0123456789abcdefABCDEF''"

definition q_is_probe_name :: "string \<Rightarrow> bool" where
  "q_is_probe_name base \<longleftrightarrow>
     base = ''QueueHeLogger'' \<or> has_prefix ''HwsM'' base \<or>
     (has_prefix ''PLC'' base \<and>
      (let r = drop 3 base; seq = dropWhile hr_ishex r in
       takeWhile hr_ishex r \<noteq> [] \<and> seq \<noteq> [] \<and> hd seq = CHR ''N'' \<and>
       takeWhile hr_ishex (tl seq) \<noteq> [] \<and> dropWhile hr_ishex (tl seq) = []))"

definition slot_id :: "ctl \<Rightarrow> string \<Rightarrow> u32" where
  "slot_id c nm = (case q_find_slot c nm of None \<Rightarrow> 0 | Some k \<Rightarrow> q_id (c_queues c ! k))"

definition slot_synth :: "ctl \<Rightarrow> string \<Rightarrow> bool" where
  "slot_synth c nm = (case q_find_slot c nm of None \<Rightarrow> False | Some k \<Rightarrow> q_synth (c_queues c ! k))"

text \<open>\<open>.X\<close> with no further dot names the queue \<open>X\<close> itself.\<close>

definition dotlead :: "string \<Rightarrow> bool" where
  "dotlead nm \<longleftrightarrow> nm \<noteq> [] \<and> hd nm = CHR ''.'' \<and> tl nm \<noteq> [] \<and> \<not> has_char (CHR ''.'') (tl nm)"

text \<open>\<open><mailslot>.<queue>\<close>: something on both sides of the last dot.\<close>

definition compound :: "string \<Rightarrow> bool" where
  "compound nm \<longleftrightarrow> has_char (CHR ''.'') nm \<and> before_last (CHR ''.'') nm \<noteq> [] \<and> after_last (CHR ''.'') nm \<noteq> []"

definition mark_synth :: "u32 \<Rightarrow> st \<Rightarrow> st" where
  "mark_synth i s = (case q_slot (sh s) i of
     None \<Rightarrow> s | Some k \<Rightarrow> upd_queue k (\<lambda>q. q\<lparr>q_synth := True\<rparr>) s)"

definition q_ident :: "string \<Rightarrow> st \<Rightarrow> u32 \<times> st" where
  "q_ident nm s =
     (let base = q_basename nm; c = sh s; i = slot_id c base; after = after_last (CHR ''.'') nm in
      if k_qident_dotlead (qcf s) \<and> dotlead nm \<and> slot_id c (tl nm) \<noteq> 0 then (slot_id c (tl nm), s)
      else if i = 0 \<and> has_sub ''mmi.qHF'' nm then (0, s)
      else if (i = 0 \<or> slot_synth c base) \<and> k_qident_notify (qcf s) \<and> base \<noteq> [] \<and> compound nm \<and>
              slot_id c after \<noteq> 0 \<and> \<not> slot_synth c after
      then (slot_id c after, s)
      else if i = 0 \<and> k_autocreate (qcf s) \<and> \<not> q_is_probe_name base
      then let (j, s1) = q_create base 2 0 s in (j, mark_synth j s1)
      else (i, s))"

section \<open>The table invariant\<close>

definition queues_ok :: "ctl \<Rightarrow> bool" where
  "queues_ok c \<longleftrightarrow> c_next_q c \<noteq> 0 \<and> ids_ok q_used q_id (c_next_q c) (c_queues c) \<and>
     (\<forall>i<length (c_queues c). \<forall>j<length (c_queues c).
        q_used (c_queues c ! i) \<longrightarrow> q_used (c_queues c ! j) \<longrightarrow>
        name_eq (q_name (c_queues c ! i)) (q_name (c_queues c ! j)) \<longrightarrow> i = j) \<and>
     (\<forall>q\<in>set (c_queues c). length (q_msg q) = QSLOTS \<and> (q_used q \<longrightarrow> ring_ok q))"

interpretation queue_reg: id_registry q_used q_id "new_queue base depth flags owner"
  for base depth flags owner
  by unfold_locales (simp_all add: new_queue_def)

lemma task_self_queue_ctl [simp]:
  "c_next_q (sh (snd (task_self s))) = c_next_q (sh s)"
  by (cases s rule: task_self_cases; simp add: upd_task_def)

lemma q_find_slot_cong: "c_queues c = c_queues c' \<Longrightarrow> q_find_slot c nm = q_find_slot c' nm"
  by (simp add: q_find_slot_def)

lemma q_find_slot_SomeD:
  "q_find_slot c nm = Some k \<Longrightarrow> k < length (c_queues c) \<and> q_used (c_queues c ! k) \<and> name_eq (q_name (c_queues c ! k)) nm"
  unfolding q_find_slot_def by (auto dest: find_index_less find_index_holds simp: q_named_def)

lemma q_find_slot_live:
  assumes "queues_ok c" and "k < length (c_queues c)" and "q_used (c_queues c ! k)"
    and "name_eq (q_name (c_queues c ! k)) nm"
  shows "q_find_slot c nm = Some k"
  unfolding q_find_slot_def
proof (rule find_index_unique)
  show "j = k" if "j < length (c_queues c)" "q_named nm (c_queues c ! j)" for j
    using assms that name_eq_trans [of "q_name (c_queues c ! j)" nm "q_name (c_queues c ! k)"]
    by (auto simp: queues_ok_def q_named_def name_eq_sym)
qed (use assms in \<open>simp_all add: q_named_def\<close>)

lemma queues_ok_alloc:
  fixes depth flags owner :: u32
  assumes ok: "queues_ok c" and nowrap: "c_next_q c + 1 \<noteq> 0" and free: "free_slot q_used (c_queues c) = Some k"
    and none: "q_find_slot c base = None"
  defines "c' \<equiv> c\<lparr>c_next_q := c_next_q c + 1,
             c_queues := (c_queues c)[k := new_queue base depth flags owner (c_next_q c) (c_queues c ! k)]\<rparr>"
  shows "queues_ok c'"
proof -
  have k: "k < length (c_queues c)" using free_slot_SomeD [OF free] by simp
  let ?n = "new_queue base depth flags owner (c_next_q c) (c_queues c ! k)"
  have "ids_ok q_used q_id (c_next_q c + 1) ((c_queues c)[k := ?n])"
    using ok nowrap by (intro queue_reg.alloc_ids_ok free) (auto simp: queues_ok_def)
  moreover have new: "name_eq (q_name ?n) base" "q_used ?n" by (simp_all add: new_queue_def)
  have "\<not> name_eq (q_name (c_queues c ! j)) base" if "j < length (c_queues c)" "q_used (c_queues c ! j)" for j
    using none that by (auto simp: q_find_slot_def find_index_None q_named_def)
  then have "\<not> name_eq (q_name (c_queues c ! j)) (q_name ?n)" "\<not> name_eq (q_name ?n) (q_name (c_queues c ! j))"
    if "j < length (c_queues c)" "q_used (c_queues c ! j)" for j
    using that new(1) name_eq_trans name_eq_sym by blast+
  then have "\<forall>i<length (c_queues c'). \<forall>j<length (c_queues c').
        q_used (c_queues c' ! i) \<longrightarrow> q_used (c_queues c' ! j) \<longrightarrow>
        name_eq (q_name (c_queues c' ! i)) (q_name (c_queues c' ! j)) \<longrightarrow> i = j"
    using ok k by (auto simp: c'_def queues_ok_def nth_list_update)
  moreover have "length (q_msg (c_queues c ! k)) = QSLOTS" using ok k by (simp add: queues_ok_def)
  then have "ring_ok ?n" "length (q_msg ?n) = QSLOTS" by (simp_all add: new_queue_def ring_ok_def)
  then have "\<forall>q\<in>set (c_queues c'). length (q_msg q) = QSLOTS \<and> (q_used q \<longrightarrow> ring_ok q)"
    using ok set_update_subset_insert [of "c_queues c" k ?n] by (fastforce simp: c'_def queues_ok_def)
  ultimately show ?thesis using nowrap by (simp add: queues_ok_def c'_def)
qed

lemma queues_ok_update:
  assumes "queues_ok c" and "k < length (c_queues c)" and "q_used e \<Longrightarrow> q_used (c_queues c ! k) \<and>
     q_id e = q_id (c_queues c ! k) \<and> q_name e = q_name (c_queues c ! k) \<and> ring_ok e"
    and "length (q_msg e) = QSLOTS"
  shows "queues_ok (c\<lparr>c_queues := (c_queues c)[k := e]\<rparr>)"
proof -
  have "ids_ok q_used q_id (c_next_q c) ((c_queues c)[k := e])"
    using assms by (intro ids_ok_update) (auto simp: queues_ok_def)
  moreover have "\<forall>q\<in>set ((c_queues c)[k := e]). length (q_msg q) = QSLOTS \<and> (q_used q \<longrightarrow> ring_ok q)"
    using assms set_update_subset_insert [of "c_queues c" k e] by (fastforce simp: queues_ok_def)
  ultimately show ?thesis
    using assms by (auto simp: queues_ok_def nth_list_update)
qed

section \<open>Create and delete\<close>

lemma queues_ok_cong:
  "c_queues c = c_queues c' \<Longrightarrow> c_next_q c = c_next_q c' \<Longrightarrow> queues_ok c = queues_ok c'"
  by (simp add: queues_ok_def)

lemma queues_ok_self: "queues_ok (sh (snd (task_self s))) = queues_ok (sh s)"
  by (rule queues_ok_cong) simp_all

lemma slot_id_live:
  assumes "queues_ok c" and "q_find_slot c nm = Some k"
  shows "slot_id c nm = q_id (c_queues c ! k)" and "slot_id c nm \<noteq> 0"
proof -
  show eq: "slot_id c nm = q_id (c_queues c ! k)" using assms(2) by (simp add: slot_id_def)
  show "slot_id c nm \<noteq> 0"
    unfolding eq using assms(1) q_find_slot_SomeD [OF assms(2)] by (auto simp: queues_ok_def ids_ok_def)
qed

lemma ring_ok_adopt [simp]: "ring_ok (adopt_queue owner nb q) = ring_ok q"
  by (simp add: adopt_queue_def ring_ok_def Let_def)

lemma adopt_sel [simp]:
  "q_used (adopt_queue owner nb q) = q_used q" "q_id (adopt_queue owner nb q) = q_id q"
  "q_name (adopt_queue owner nb q) = q_name q" "q_msg (adopt_queue owner nb q) = q_msg q"
  by (simp_all add: adopt_queue_def Let_def)

lemma q_create_adopts:
  assumes ok: "queues_ok (sh s)" and found: "q_find_slot (sh s) (q_basename nm) = Some k"
    and res: "q_create nm depth flags s = (i, s')"
  shows "queues_ok (sh s')" and "q_find_slot (sh s') (q_basename nm) = Some k" and "i = q_id (queues s ! k)"
    and "queues s' = (queues s)[k := adopt_queue (fst (task_self s)) (notify_bits flags) (queues s ! k)]"
proof -
  let ?s = "snd (task_self s)" and ?e = "adopt_queue (fst (task_self s)) (notify_bits flags) (queues s ! k)"
  note kd = q_find_slot_SomeD [OF found]
  have fs: "q_find_slot (sh ?s) (q_basename nm) = Some k" using found q_find_slot_cong [of "sh ?s" "sh s"] by simp
  have s': "sh s' = (sh ?s)\<lparr>c_queues := (queues s)[k := ?e]\<rparr>" and i: "i = q_id (queues s ! k)"
    using res fs by (auto simp: q_create_def split_beta upd_queue_def)
  have "ring_ok (queues s ! k)" "length (q_msg (queues s ! k)) = QSLOTS"
    using ok kd by (auto simp: queues_ok_def)
  then show good: "queues_ok (sh s')"
    using queues_ok_update [of "sh ?s" k ?e] ok kd by (simp add: s' queues_ok_self)
  show "q_find_slot (sh s') (q_basename nm) = Some k"
    using kd by (intro q_find_slot_live [OF good]) (simp_all add: s')
  show "i = q_id (queues s ! k)" and "queues s' = (queues s)[k := ?e]" using i by (simp_all add: s')
qed

lemma q_create_allocs:
  assumes ok: "queues_ok (sh s)" "c_next_q (sh s) + 1 \<noteq> 0" and free: "free_slot q_used (queues s) = Some k"
    and norelay: "k_evt_relay (qcf s) = None" and none: "q_find_slot (sh s) (q_basename nm) = None"
    and res: "q_create nm depth flags s = (i, s')"
  shows "queues_ok (sh s')" and "q_find_slot (sh s') (q_basename nm) = Some k" and "i = c_next_q (sh s)"
    and "queues s' = (queues s)[k := new_queue (q_basename nm) depth flags (fst (task_self s)) i (queues s ! k)]"
proof -
  let ?s = "snd (task_self s)" and ?n = "new_queue (q_basename nm) depth flags (fst (task_self s)) (c_next_q (sh s)) (queues s ! k)"
  have k: "k < length (queues s)" using free_slot_SomeD [OF free] by simp
  have fs: "q_find_slot (sh ?s) (q_basename nm) = None" using none q_find_slot_cong [of "sh ?s" "sh s"] by simp
  have s': "sh s' = (sh ?s)\<lparr>c_next_q := c_next_q (sh s) + 1, c_queues := (queues s)[k := ?n]\<rparr>"
    and i: "i = c_next_q (sh s)"
    using res fs free norelay by (auto simp: q_create_def split_beta upd_queue_def Let_def)
  show good: "queues_ok (sh s')"
    using queues_ok_alloc [of "sh ?s" k "q_basename nm" depth flags "fst (task_self s)"] ok free fs
    by (simp add: s' queues_ok_self)
  show "q_find_slot (sh s') (q_basename nm) = Some k"
    using k by (intro q_find_slot_live [OF good]) (simp_all add: s' new_queue_def)
  show "i = c_next_q (sh s)"
    and "queues s' = (queues s)[k := new_queue (q_basename nm) depth flags (fst (task_self s)) i (queues s ! k)]"
    using i by (simp_all add: s')
qed

text \<open>
  C12. \<open>q_create\<close> keeps the queue table well formed (unique ids, unique names, sound rings), makes the
  name resolve to the id it answers and changes no other queue.  A new name takes an unused entry: a fresh
  id, an empty ring, the given depth and flags, the caller as owner and the notify bits of the flags.  An
  existing name keeps its id, its pending messages and everything else but the synthetic mark, with one
  exception: a placeholder without notify bits takes over the creator and the creator's notify bits, when
  the creator asks for some.
\<close>

theorem q_create_correct:
  assumes ok: "queues_ok (sh s)" "c_next_q (sh s) + 1 \<noteq> 0" and room: "free_slot q_used (queues s) \<noteq> None"
    and norelay: "k_evt_relay (qcf s) = None" and res: "q_create nm depth flags s = (i, s')"
  shows "queues_ok (sh s') \<and> i \<noteq> 0 \<and>
    (\<exists>k. q_find_slot (sh s') (q_basename nm) = Some k \<and> q_id (queues s' ! k) = i \<and>
      (\<forall>j. j \<noteq> k \<longrightarrow> queues s' ! j = queues s ! j) \<and>
      (case q_find_slot (sh s) (q_basename nm) of
         None \<Rightarrow> \<not> q_used (queues s ! k) \<and> i = c_next_q (sh s) \<and> q_content (queues s' ! k) = [] \<and>
           q_depth (queues s' ! k) = depth \<and> q_flags (queues s' ! k) = flags \<and> \<not> q_synth (queues s' ! k) \<and>
           q_owner (queues s' ! k) = fst (task_self s) \<and>
           q_notify (queues s' ! k) = (if has_bits flags 2 then flags AND 0xff000000 else 0)
       | Some k0 \<Rightarrow> k = k0 \<and>
           (let q = queues s ! k; takes = (has_bits flags 2 \<and> has_bits flags 0xff000000 \<and> q_notify q = 0) in
            queues s' ! k = q\<lparr>q_synth := False, q_owner := if takes then fst (task_self s) else q_owner q,
                               q_notify := if takes then flags AND 0xff000000 else q_notify q\<rparr>)))"
proof (cases "q_find_slot (sh s) (q_basename nm)")
  case (Some k)
  note st = q_create_adopts [OF ok(1) Some res]
  have k: "k < length (queues s)" using q_find_slot_SomeD [OF Some] by simp
  have "i \<noteq> 0" using slot_id_live [OF st(1,2)] st(3,4) k by simp
  then show ?thesis
    using st Some k by (simp add: adopt_queue_def notify_bits_def has_bits_def Let_def)
next
  case None
  obtain k where free: "free_slot q_used (queues s) = Some k" using room by auto
  have k: "k < length (queues s)" "\<not> q_used (queues s ! k)" using free_slot_SomeD [OF free] by auto
  note st = q_create_allocs [OF ok free norelay None res]
  have "i \<noteq> 0" using st(3) ok(1) by (simp add: queues_ok_def)
  then show ?thesis
    using st None k by (simp add: new_queue_def notify_bits_def q_content_def)
qed

lemma boot_queues_ok: "queues_ok (sh (boot g t))"
proof -
  have "\<not> q_used zero_queue" "length (q_msg zero_queue) = QSLOTS" by (simp_all add: zero_queue_def)
  then show ?thesis by (simp add: queues_ok_def ids_ok_zero)
qed

lemma boot_free_queue: "free_slot q_used (queues (boot g t)) = Some 0"
  by (simp add: table_simps zero_queue_def MAXQ_def)

lemma boot_find_queue: "q_find_slot (sh (boot g t)) nm = None"
  by (simp add: q_find_slot_def table_simps q_named_def zero_queue_def)

lemma q_create_correct_witness:
  "fst (q_create ''Q_SQL'' 4 0x01000002 (boot 7 7)) = 0x300"
proof -
  have "k_evt_relay (qcf (boot 7 7)) = None" by (simp add: q_off_def)
  from q_create_correct [OF boot_queues_ok _ _ this prod.collapse [symmetric], of "''Q_SQL''" 4 "0x01000002"]
  show ?thesis using boot_free_queue [of 7 7] boot_find_queue [of 7 7] by auto
qed

text \<open>
  \<open>q_delete\<close> frees the name and the id: neither resolves afterwards, every other queue is as
  before, blocked readers are woken, the table stays well formed, and creating the name again gives
  an empty queue under an id that was never used.
\<close>

theorem q_delete_frees:
  assumes ok: "queues_ok (sh s)" and slot: "q_slot (sh s) i = Some k" and res: "q_delete i s = (r, s')"
  shows "r = 0 \<and> queues_ok (sh s') \<and> q_slot (sh s') i = None \<and>
    q_find_slot (sh s') (q_name (queues s ! k)) = None \<and>
    (\<forall>j. j \<noteq> k \<longrightarrow> queues s' ! j = queues s ! j) \<and> FxWake (FwTail k) \<in> set (fx s') \<and>
    (\<forall>depth flags j s''. c_next_q (sh s') + 1 \<noteq> 0 \<longrightarrow> k_evt_relay (qcf s') = None \<longrightarrow>
       q_basename (q_name (queues s ! k)) = q_name (queues s ! k) \<longrightarrow>
       q_create (q_name (queues s ! k)) depth flags s' = (j, s'') \<longrightarrow>
       (\<forall>q\<in>set (queues s). q_used q \<longrightarrow> q_id q \<noteq> j))"
proof -
  note kd = q_slot_SomeD [OF slot]
  let ?e = "(queues s ! k)\<lparr>q_used := False, q_name := [], q_head := 0, q_tail := 0, q_notify := 0, q_owner := 0\<rparr>"
  have s': "s' = emit (FxWake (FwTail k)) (upd_queue k (\<lambda>q. q\<lparr>q_used := False, q_name := [], q_head := 0,
      q_tail := 0, q_notify := 0, q_owner := 0\<rparr>) s)" and r: "r = 0"
    using res slot by (auto simp: q_delete_def)
  have sh': "sh s' = (sh s)\<lparr>c_queues := (queues s)[k := ?e]\<rparr>" by (simp add: s' upd_queue_def)
  have good: "queues_ok (sh s')"
    unfolding sh' using ok kd by (intro queues_ok_update) (auto simp: queues_ok_def)
  have qs: "queues s' = (queues s)[k := ?e]" by (simp add: sh')
  have noid: "q_slot (sh s') i = None"
    unfolding q_slot_def slot_of_def qs
    by (rule find_index_None_update) (use ok kd in \<open>auto simp: queues_ok_def ids_ok_def\<close>)
  have noname: "q_find_slot (sh s') (q_name (queues s ! k)) = None"
    unfolding q_find_slot_def qs
    by (rule find_index_None_update) (use ok kd in \<open>auto simp: queues_ok_def q_named_def\<close>)
  have "free_slot q_used (queues s') \<noteq> None"
    unfolding free_slot_None using kd by (auto simp: sh' intro!: bexI [of _ ?e] set_update_memI)
  then have fresh: "q_id q \<noteq> j" if "c_next_q (sh s') + 1 \<noteq> 0" "k_evt_relay (qcf s') = None"
    "q_basename (q_name (queues s ! k)) = q_name (queues s ! k)"
    "q_create (q_name (queues s ! k)) depth flags s' = (j, s'')" "q \<in> set (queues s)" "q_used q"
    for depth flags j s'' q
  proof -
    have "j = c_next_q (sh s')"
      using q_create_allocs(3) [OF good that(1) _ that(2) _ that(4)] that(3) noname
        \<open>free_slot q_used (queues s') \<noteq> None\<close> by auto
    moreover have "q_id q < c_next_q (sh s)"
      using ok that(5,6) by (auto simp: queues_ok_def ids_ok_def in_set_conv_nth)
    ultimately show ?thesis by (simp add: sh')
  qed
  show ?thesis using r good noid noname fresh by (simp add: sh') (simp add: s')
qed

lemma q_delete_frees_witness:
  "q_slot (sh (snd (q_delete 0x300 send_demo))) 0x300 = None"
proof -
  have "queues_ok (sh send_demo)"
    using send_demo_simps(4)
    by (simp add: queues_ok_def send_demo_def ids_ok_def zero_queue_def)
  from q_delete_frees [OF this send_demo_simps(2) prod.collapse [symmetric]] show ?thesis by simp
qed

section \<open>Resolving names\<close>

text \<open>
  A compound address \<open><mailslot>.<queue>\<close> whose mailslot does not exist, or exists only as a
  synthetic sink, resolves to the queue after the dot whenever the guest really created that queue;
  the lookup changes nothing.
\<close>

theorem q_ident_compound:
  assumes sw: "k_qident_notify (qcf s)" and cp: "compound nm" "q_basename nm \<noteq> []" "hd nm \<noteq> CHR ''.''"
    and base: "slot_id (sh s) (q_basename nm) = 0 \<or> slot_synth (sh s) (q_basename nm)"
    and real: "q_find_slot (sh s) (after_last (CHR ''.'') nm) = Some k" "\<not> q_synth (queues s ! k)"
      "queues_ok (sh s)" and nohf: "\<not> has_sub ''mmi.qHF'' nm"
  shows "q_ident nm s = (q_id (queues s ! k), s)"
  using assms slot_id_live [OF real(3,1)]
  by (auto simp: q_ident_def Let_def dotlead_def slot_synth_def)

text \<open>
  A presence probe (the logger queue, the \<open>HwsM\<close> mailslots, the \<open>PLC<hex>N<hex>\<close> queues) is never
  auto-created: identifying such a name that nobody created answers 0 and changes nothing.
\<close>

theorem q_ident_probe:
  assumes "q_is_probe_name (q_basename nm)" and "q_find_slot (sh s) (q_basename nm) = None"
    and "\<not> has_char (CHR ''.'') nm"
  shows "q_ident nm s = (0, s)"
proof -
  have "\<not> dotlead nm" using assms(3) by (cases nm) (auto simp: dotlead_def has_char_def)
  then show ?thesis
    using assms by (auto simp: q_ident_def Let_def slot_id_def compound_def)
qed

lemma q_ident_probe_witness:
  "q_ident ''PLC00000106N3dc'' (boot 7 7) = (0, boot 7 7)"
proof (rule q_ident_probe)
  show "q_is_probe_name (q_basename ''PLC00000106N3dc'')" by code_simp
  show "\<not> has_char (CHR ''.'') ''PLC00000106N3dc''" by code_simp
qed (rule boot_find_queue)

definition ident_demo :: st where
  "ident_demo = boot 7 7\<lparr>qcf := q_off\<lparr>k_qident_notify := True, k_autocreate := True\<rparr>,
     sh := zero_ctl\<lparr>c_next_q := 0x302,
       c_tasks := [zero_task\<lparr>t_used := True, t_id := 0x100, t_tgid := 7, t_tid := 7\<rparr>],
       c_queues := [zero_queue\<lparr>q_used := True, q_id := 0x300, q_name := ''Nc/startup'', q_synth := True\<rparr>,
                    zero_queue\<lparr>q_used := True, q_id := 0x301, q_name := ''QStartUp'', q_notify := 0x08000000\<rparr>]\<rparr>\<rparr>"

lemma ident_demo_simps:
  "queues ident_demo = [zero_queue\<lparr>q_used := True, q_id := 0x300, q_name := ''Nc/startup'', q_synth := True\<rparr>,
                    zero_queue\<lparr>q_used := True, q_id := 0x301, q_name := ''QStartUp'', q_notify := 0x08000000\<rparr>]"
  "qcf ident_demo = q_off\<lparr>k_qident_notify := True, k_autocreate := True\<rparr>"
  by (simp_all add: ident_demo_def)

lemma zero_queue_simps [simp]: "\<not> q_used zero_queue" "length (q_msg zero_queue) = QSLOTS"
  "q_head zero_queue = 0" "q_tail zero_queue = 0" "\<not> q_synth zero_queue" "q_name zero_queue = []"
  by (simp_all add: zero_queue_def)

lemma ident_demo_ok: "queues_ok (sh ident_demo)"
proof -
  have "ring_ok q" if "q \<in> set (queues ident_demo)" for q
    using that by (auto simp: ident_demo_simps ring_ok_def)
  then show ?thesis
    by (simp add: queues_ok_def ident_demo_def ids_ok_def less_Suc_eq all_simps name_eq_def NAMELEN_def)
qed

lemma q_ident_compound_witness:
  "q_ident ''Nc/startup.QStartUp'' ident_demo = (0x301, ident_demo)"
proof -
  have find: "q_find_slot (sh ident_demo) ''QStartUp'' = Some 1"
    "q_find_slot (sh ident_demo) ''Nc/startup'' = Some 0"
    by (simp_all add: q_find_slot_def ident_demo_simps q_named_def name_eq_def NAMELEN_def)
  have parts: "q_basename ''Nc/startup.QStartUp'' = ''Nc/startup''"
    "after_last (CHR ''.'') ''Nc/startup.QStartUp'' = ''QStartUp''"
    "compound ''Nc/startup.QStartUp''" "\<not> has_sub ''mmi.qHF'' ''Nc/startup.QStartUp''"
    by code_simp+
  have "q_ident ''Nc/startup.QStartUp'' ident_demo = (q_id (queues ident_demo ! 1), ident_demo)"
    by (rule q_ident_compound)
      (simp_all add: parts find ident_demo_ok slot_synth_def, simp_all add: ident_demo_simps)
  then show ?thesis by (simp add: ident_demo_simps)
qed

text \<open>
  A name with two dots can turn a real queue into a sink: when neither \<open>A.B\<close> nor \<open>C\<close> of
  \<open>A.B.C\<close> exists, the automatic create strips a second suffix, finds the existing queue \<open>A\<close>, answers
  its id, and marks that queue, which the guest created, as synthetic.
\<close>

theorem q_ident_marks_real:
  assumes sw: "k_autocreate (qcf s)" "\<not> q_is_probe_name (q_basename nm)" "\<not> has_sub ''mmi.qHF'' nm"
    and absent: "q_find_slot (sh s) (q_basename nm) = None" "q_find_slot (sh s) (after_last (CHR ''.'') nm) = None"
      "\<not> dotlead nm"
    and other: "q_find_slot (sh s) (q_basename (q_basename nm)) = Some k" "queues_ok (sh s)"
    and res: "q_ident nm s = (i, s')"
  shows "i = q_id (queues s ! k) \<and> q_synth (queues s' ! k)"
proof -
  note kd = q_find_slot_SomeD [OF other(1)]
  let ?s = "snd (task_self s)"
  let ?s1 = "upd_queue k (adopt_queue (fst (task_self s)) (notify_bits 0)) ?s"
  have fs: "q_find_slot (sh ?s) (q_basename (q_basename nm)) = Some k"
    using other(1) by (simp add: q_find_slot_def)
  have cr: "q_create (q_basename nm) 2 0 s = (q_id (queues s ! k), ?s1)"
    using fs by (simp add: q_create_def split_beta)
  have eq: "q_ident nm s = (q_id (queues s ! k), mark_synth (q_id (queues s ! k)) ?s1)"
    using assms(1-6) cr by (simp add: q_ident_def Let_def slot_id_def slot_synth_def)
  have "q_slot (sh ?s) (q_id (queues s ! k)) = Some k"
    using other(2) kd slot_of_live [of q_used q_id "c_next_q (sh s)" "queues s" k]
    by (simp add: q_slot_def queues_ok_def)
  then have "q_slot (sh ?s1) (q_id (queues s ! k)) = Some k"
    using kd by (simp add: q_slot_def slot_of_update)
  then have "q_synth (queues (mark_synth (q_id (queues s ! k)) ?s1) ! k)"
    using kd by (simp add: mark_synth_def)
  then show ?thesis using res unfolding eq by auto
qed

lemma q_ident_marks_real_witness:
  "q_synth (queues (snd (q_ident ''QStartUp.B.C'' ident_demo)) ! 1)"
proof -
  have parts: "q_basename ''QStartUp.B.C'' = ''QStartUp.B''" "q_basename ''QStartUp.B'' = ''QStartUp''"
    "after_last (CHR ''.'') ''QStartUp.B.C'' = ''C''" "\<not> dotlead ''QStartUp.B.C''"
    "\<not> has_sub ''mmi.qHF'' ''QStartUp.B.C''" "\<not> q_is_probe_name ''QStartUp.B''"
    by code_simp+
  have find: "q_find_slot (sh ident_demo) ''QStartUp'' = Some 1"
    "q_find_slot (sh ident_demo) ''QStartUp.B'' = None" "q_find_slot (sh ident_demo) ''C'' = None"
    by (simp_all add: q_find_slot_def ident_demo_simps q_named_def name_eq_def NAMELEN_def)
  show ?thesis
    using q_ident_marks_real [of ident_demo "''QStartUp.B.C''" 1, OF _ _ _ _ _ _ _ ident_demo_ok prod.collapse [symmetric]]
    by (simp add: parts find ident_demo_simps)
qed

end
