(* ===== verification/WmTimer.thy ===== *)
theory WmTimer
  imports QueueIdent
begin

text \<open>
  The periodic timer of a window-manager client: \<open>wm_timer_maybe_tick\<close>, called whenever the client
  reads or waits, posts one event per armed timer when a tick is due.
\<close>

text \<open>The period of the first timer, within 55 and 200 ms.\<close>

definition wm_timer_period_ms :: "wmtmr list \<Rightarrow> int" where
  "wm_timer_period_ms ts =
     (let p = (case ts of [] \<Rightarrow> 0 | w # _ \<Rightarrow> unat (w_period w)) in
      if p < 55 then 55 else if 200 < p then 200 else int p)"

definition tick_msg :: "u32 \<Rightarrow> u32 \<Rightarrow> u8 list" where
  "tick_msg ser tid = put32 (put32 (put32 (replicate 0x41C 0) 0 0x3061) 4 ser) 12 tid"

fun post_ticks :: "u32 \<Rightarrow> u32 \<Rightarrow> wmtmr list \<Rightarrow> st \<Rightarrow> st" where
  "post_ticks rq ser [] s = s"
| "post_ticks rq ser (w # ws) s = post_ticks rq (ser + 1) ws (post rq (tick_msg ser (w_timerid w)) 0 s)"

text \<open>The guards of a tick: handshake over and settled, a period since the last tick, queue drained.\<close>

definition tick_due :: "st \<Rightarrow> bool" where
  "tick_due s \<longleftrightarrow>
     (let w = wms s in
      k_wm_timer (qcf s) \<and> w_rq w \<noteq> 0 \<and> w_hs_done w \<and> w_timers w \<noteq> [] \<and>
      k_wm_settle_ms (qcf s) \<le> ms_between (w_last_hs w) (now s) \<and>
      wm_timer_period_ms (w_timers w) \<le> ms_between (w_last_tick w) (now s) \<and>
      (case q_slot (sh s) (w_rq w) of
         None \<Rightarrow> False
       | Some k \<Rightarrow> q_tail (queues s ! k) = q_head (queues s ! k)))"

definition wm_timer_maybe_tick :: "st \<Rightarrow> st" where
  "wm_timer_maybe_tick s =
     (if tick_due s then
        let s1 = upd_wm (\<lambda>v. v\<lparr>w_last_tick := now s, w_in_tick := True\<rparr>) s
        in upd_wm (\<lambda>v. v\<lparr>w_in_tick := False\<rparr>)
             (post_ticks (w_rq (wms s)) (w_last_serial (wms s) + 1) (take 8 (w_timers (wms s))) s1)
      else s)"

text \<open>The older poster thread: every tick interval, whether or not the last tick has been read.\<close>

definition wm_timer_thread_turn :: "nat \<Rightarrow> st \<Rightarrow> st" where
  "wm_timer_thread_turn tick_ms s =
     (let rq = w_rq (wms s);
          s1 = (if rq \<noteq> 0 \<and> q_slot (sh s) rq \<noteq> None
                then upd_wm (\<lambda>v. v\<lparr>w_in_tick := False\<rparr>)
                       (post_ticks rq (w_last_serial (wms s) + 1) (take 8 (w_timers (wms s)))
                         (upd_wm (\<lambda>v. v\<lparr>w_in_tick := True\<rparr>) s))
                else s)
      in emit (FxSleepMs tick_ms) s1)"

lemma tick_off [simp]: "\<not> k_wm_timer (qcf s) \<Longrightarrow> wm_timer_maybe_tick s = s"
  by (simp add: wm_timer_maybe_tick_def tick_due_def Let_def)

end
