(* ===== verification/Inject.thy ===== *)
theory Inject
  imports QueueIdent
begin

text \<open>
  The handlers that answer for absent peers, run by the dispatcher after a \<open>q_send\<close>: the hardware
  server stub, the synthetic configuration trigger, and the connect acknowledgements of the
  configuration server, the event server and the operational peers, with their deduplication.
\<close>

section \<open>Common parts\<close>

definition target_is :: "st \<Rightarrow> u32 \<Rightarrow> string \<Rightarrow> bool" where
  "target_is s qid nm \<longleftrightarrow> (case q_slot (sh s) qid of None \<Rightarrow> False | Some k \<Rightarrow> qname s k = nm)"

text \<open>The raw bytes of the leading string attribute.\<close>

definition lead_raw :: "u8 list \<Rightarrow> u8 list option" where
  "lead_raw m =
     (let n = unat (get32 m 8) in
      if get32 m 4 = GMC_STRING \<and> 1 \<le> n \<and> n \<le> 64 \<and> 12 + n \<le> length m then Some (take n (drop 12 m)) else None)"

lemma lead_str_raw: "lead_str m = map_option cstr_of (lead_raw m)"
  by (simp add: lead_str_def lead_raw_def Let_def)

section \<open>The configuration trigger and the hardware server stub\<close>

definition upd_new_state :: "u8 list" where
  "upd_new_state = le32 0x001f0320 @ le32 0xe7 @ le32 2 @ [0x4e, 0x63] @ le32 0x80000063 @ le32 0x800000e7
     @ le32 0x801f030b @ le32 0x800000c6 @ le32 0x800000c6 @ le32 0x800000c6 @ le32 0x800000c6
     @ le32 0x800000c6 @ le32 0x800000e7 @ le32 0x800000c6 @ le32 0x800000e7"

definition post_inject_reread :: "st \<Rightarrow> st" where
  "post_inject_reread s =
     (if \<not> j_reread (icf s) \<or> i_reread_done (injs s) then s
      else case q_find_slot (sh s) ''CfgServerQueue'' of
             None \<Rightarrow> s
           | Some k \<Rightarrow> post (q_id (queues s ! k)) upd_new_state 0 (upd_inj (\<lambda>v. v\<lparr>i_reread_done := True\<rparr>) s))"

text \<open>The first place of \<open>HwsM\<close> with 16 bytes of message from there.\<close>

definition find_hwsm :: "u8 list \<Rightarrow> nat option" where
  "find_hwsm m = find_index (\<lambda>i. i + 16 \<le> length m \<and> take 4 (drop i m) = bytes_of ''HwsM'') [0..<length m]"

definition hws_autoreply :: "u32 \<Rightarrow> u8 list option \<Rightarrow> st \<Rightarrow> st" where
  "hws_autoreply qid msg s =
     (if \<not> j_hws_stub (icf s) \<or> \<not> msg_ge msg 20 \<or> c_hwserver_alive (sh s) \<or> \<not> target_is s qid ''QHWServer'' then s
      else case find_hwsm (the msg) of
             None \<Rightarrow> s
           | Some i \<Rightarrow>
               (case q_find_slot (sh s) (cstr_of (take 16 (drop i (the msg)))) of
                  None \<Rightarrow> s
                | Some k \<Rightarrow>
                    post_inject_reread (upd_inj (\<lambda>v. v\<lparr>i_runup_done := True\<rparr>)
                      (post (q_id (queues s ! k)) (the msg) 0 s))))"

section \<open>Connect acknowledgements\<close>

definition cfg_ack_msg :: "u8 list \<Rightarrow> u8 list" where
  "cfg_ack_msg cid = le32 0x00170100 @ le32 0xe7 @ le32 (of_nat (length cid)) @ cid
     @ le32 0x80000063 @ le32 0x001700eb @ le32 0"

definition inject_connect_ack :: "u32 \<Rightarrow> u8 list option \<Rightarrow> st \<Rightarrow> st" where
  "inject_connect_ack qid msg s =
     (if \<not> j_ack (icf s) \<or> \<not> msg_ge msg 16 \<or> \<not> target_is s qid ''CfgServerQueue'' \<or>
         mtype31 (the msg) \<noteq> 0x1700c0 then s
      else case lead_raw (the msg) of
        None \<Rightarrow> s
      | Some raw \<Rightarrow>
          (let nm = cstr_of raw in
           case reply_slot (sh s) nm of
             None \<Rightarrow> s
           | Some k \<Rightarrow>
               let rq = q_id (queues s ! k);
                   cid = (if q_find_slot (sh s) nm = None then bytes_of (qname s k) else raw)
               in if rq \<in> set (i_acked (injs s)) then s
                  else post rq (cfg_ack_msg cid) 0
                         (upd_inj (\<lambda>v. if length (i_acked v) < 32 then v\<lparr>i_acked := i_acked v @ [rq]\<rparr> else v) s)))"

text \<open>\<open>acked_qids[i] = acked_qids[--n_acked]\<close>.\<close>

definition swap_remove :: "nat \<Rightarrow> 'a list \<Rightarrow> 'a list" where
  "swap_remove i xs = butlast (xs[i := last xs])"

definition inject_forget_ack :: "u32 \<Rightarrow> u8 list option \<Rightarrow> st \<Rightarrow> st" where
  "inject_forget_ack qid msg s =
     (if \<not> j_ack (icf s) \<or> \<not> msg_ge msg 12 \<or> \<not> target_is s qid ''CfgServerQueue'' \<or>
         mtype31 (the msg) \<noteq> 0x170120 then s
      else case lead_str (the msg) of
        None \<Rightarrow> s
      | Some nm \<Rightarrow>
          (case q_find_slot (sh s) nm of
             None \<Rightarrow> s
           | Some k \<Rightarrow>
               (case find_index (\<lambda>x. x = q_id (queues s ! k)) (i_acked (injs s)) of
                  None \<Rightarrow> s
                | Some i \<Rightarrow> upd_inj (\<lambda>v. v\<lparr>i_acked := swap_remove i (i_acked v)\<rparr>) s)))"

definition evt_ack_msg :: "u8 list" where
  "evt_ack_msg = le32 0x003200a0 @ le32 0x63 @ le32 0 @ le32 0x63 @ le32 0 @ le32 0x63 @ le32 0"

definition inject_evt_connect_ack :: "u32 \<Rightarrow> u8 list option \<Rightarrow> st \<Rightarrow> st" where
  "inject_evt_connect_ack qid msg s =
     (if \<not> j_evt_ack (icf s) \<or> \<not> msg_ge msg 16 \<or> \<not> target_is s qid ''QEvtServer'' \<or>
         mtype31 (the msg) \<noteq> 0x320081 then s
      else case Option.bind (lead_str (the msg)) (reply_slot (sh s)) of
        None \<Rightarrow> s
      | Some k \<Rightarrow>
          let rq = q_id (queues s ! k) in
          if rq \<in> set (i_evt_acked (injs s)) then s
          else post rq evt_ack_msg 0
                 (upd_inj (\<lambda>v. if length (i_evt_acked v) < 32 then v\<lparr>i_evt_acked := i_evt_acked v @ [rq]\<rparr> else v) s))"

text \<open>The peer table: request type, reply type, peer letter, and the reply's fields with the present ones.\<close>

record peer =
  pr_req :: u32
  pr_reply :: u32
  pr_peer :: u32
  pr_fields :: "(u32 \<times> u32 option) list"

definition peer_table :: "bool \<Rightarrow> peer list" where
  "peer_table grant =
     [\<lparr>pr_req = 0x01a90040, pr_reply = 0x41a90080, pr_peer = 0x49,
       pr_fields = [(0x01a9006b, None), (0x63, None), (0xe7, None), (0x63, None)]\<rparr>,
      \<lparr>pr_req = 0x012f0160, pr_reply = 0x012f0180, pr_peer = 0x50,
       pr_fields = [(0x012f0024, None), (0x012f006b, None), (0x84, None)]\<rparr>,
      \<lparr>pr_req = 0x03340040, pr_reply = 0x41cc05e1, pr_peer = 0x43,
       pr_fields = [(0x01c20503, None), (0x01c20503, None), (0x01cc058b, if grant then Some 1 else None),
                    (0x01cc058b, None), (0x01ad, if grant then Some 1 else None), (0xc6, None)]\<rparr>]"

definition field_bytes :: "u32 \<times> u32 option \<Rightarrow> u8 list" where
  "field_bytes f = (case f of (code, Some v) \<Rightarrow> le32 code @ le32 v | (code, None) \<Rightarrow> le32 (0x80000000 OR code))"

definition peer_ack_msg :: "peer \<Rightarrow> u8 list" where
  "peer_ack_msg p = le32 (pr_reply p) @ concat (map field_bytes (pr_fields p))"

definition inject_peer_connect_ack :: "u32 \<Rightarrow> u8 list option \<Rightarrow> st \<Rightarrow> st" where
  "inject_peer_connect_ack qid msg s =
     (if \<not> j_peer_ack (icf s) \<or> \<not> msg_ge msg 16 then s
      else let tab = peer_table (j_cm_grant (icf s)) in
        case find_index (\<lambda>p. pr_req p = mtype31 (the msg)) tab of
          None \<Rightarrow> s
        | Some i \<Rightarrow>
            (case Option.bind (lead_str (the msg)) (reply_slot (sh s)) of
               None \<Rightarrow> s
             | Some k \<Rightarrow>
                 let rq = q_id (queues s ! k); key = push_bit 8 rq OR pr_peer (tab ! i) in
                 if key \<in> set (i_peer_acked (injs s)) then s
                 else post rq (peer_ack_msg (tab ! i)) 0
                        (upd_inj (\<lambda>v. if length (i_peer_acked v) < 64
                                      then v\<lparr>i_peer_acked := i_peer_acked v @ [key]\<rparr> else v) s)))"

section \<open>Acknowledge once\<close>

text \<open>
  The three connect acknowledgements share one contract: a request that names a reply queue is
  answered and its key noted, unless the key is noted already; a full table of keys notes nothing.
  Which queue a request names depends on the identities of the queues only, which no send changes.
\<close>

locale ack_once =
  fixes handle :: "st \<Rightarrow> st"
    and request :: "st \<Rightarrow> (u32 \<times> u32 \<times> u8 list) option"
    and keys :: "inj \<Rightarrow> u32 list"
    and note_key :: "u32 \<Rightarrow> inj \<Rightarrow> inj"
    and cap :: nat
  assumes handle: "handle s = (case request s of None \<Rightarrow> s
      | Some (rq, key, m) \<Rightarrow> if key \<in> set (keys (injs s)) then s else post rq m 0 (upd_inj (note_key key) s))"
    and request_cong: "qtab s' = qtab s \<Longrightarrow> icf s' = icf s \<Longrightarrow> request s' = request s"
    and keys_cong: "ackst v' = ackst v \<Longrightarrow> keys v' = keys v"
    and keys_note: "keys (note_key key v) = (if length (keys v) < cap then keys v @ [key] else keys v)"
begin

lemma after:
  assumes "no680 s" and "request s = Some (rq, key, m)" and "key \<notin> set (keys (injs s))"
  shows "request (handle s) = Some (rq, key, m)"
    and "keys (injs (handle s)) = (if length (keys (injs s)) < cap then keys (injs s) @ [key] else keys (injs s))"
    and "qtab (handle s) = qtab s" and "starved (handle s) = starved s"
proof -
  let ?s = "upd_inj (note_key key) s"
  have h: "handle s = post rq m 0 ?s" using assms by (simp add: handle)
  have t: "tame ?s (post rq m 0 ?s)" using assms(1) by (intro tame_post) simp
  then have q: "qtab (post rq m 0 ?s) = qtab s" "icf (post rq m 0 ?s) = icf s"
    and a: "ackst (injs (post rq m 0 ?s)) = ackst (injs ?s)" by (auto simp: tame_def)
  show "request (handle s) = Some (rq, key, m)" using request_cong [OF q] assms(2) h by simp
  show "keys (injs (handle s)) = (if length (keys (injs s)) < cap then keys (injs s) @ [key] else keys (injs s))"
    using keys_cong [OF a] keys_note h by simp
  show "qtab (handle s) = qtab s" using q h by simp
  show "starved (handle s) = starved s" using t h by (simp add: tame_def)
qed

text \<open>Repeating an answered request changes nothing, as long as the table has room.\<close>

lemma once:
  assumes "no680 s" and "length (keys (injs s)) < cap"
  shows "handle (handle s) = handle s"
proof (cases "request s")
  case None
  then show ?thesis by (simp add: handle)
next
  case (Some p)
  obtain rq key m where p: "p = (rq, key, m)" by (cases p)
  show ?thesis
  proof (cases "key \<in> set (keys (injs s))")
    case True
    then show ?thesis using Some p by (simp add: handle)
  next
    case False
    note f = after [OF assms(1) Some [unfolded p] False]
    show ?thesis using f(1,2) assms(2) by (simp add: handle [of "handle s"])
  qed
qed

text \<open>No key is noted twice, and the table never exceeds its capacity.\<close>

lemma keys_ok:
  assumes "no680 s" and "distinct (keys (injs s))" and "length (keys (injs s)) \<le> cap"
  shows "distinct (keys (injs (handle s))) \<and> length (keys (injs (handle s))) \<le> cap"
proof (cases "request s")
  case None
  then show ?thesis using assms by (simp add: handle)
next
  case (Some p)
  obtain rq key m where p: "p = (rq, key, m)" by (cases p)
  show ?thesis
  proof (cases "key \<in> set (keys (injs s))")
    case True
    then show ?thesis using assms Some p by (simp add: handle)
  next
    case False
    then show ?thesis using after(2) [OF assms(1) Some [unfolded p] False] assms by auto
  qed
qed

text \<open>A full table remembers nothing, so the same request is answered again and again.\<close>

lemma full_again:
  assumes "no680 s" and "request s = Some (rq, key, m)" and "key \<notin> set (keys (injs s))"
    and "cap \<le> length (keys (injs s))"
  shows "request (handle s) = Some (rq, key, m) \<and> key \<notin> set (keys (injs (handle s)))"
  using after [OF assms(1-3)] assms(3,4) by simp

end

lemma qname_cong: "qtab s' = qtab s \<Longrightarrow> k < length (queues s) \<Longrightarrow> qname s' k = qname s k"
  using qtab_nth(2) [of s' s k] by (simp add: qname_def)

lemma target_is_cong:
  assumes "qtab s' = qtab s"
  shows "target_is s' q nm = target_is s q nm"
  using qtab_slot [OF assms, of q] qname_cong [OF assms]
  by (auto simp: target_is_def q_slot_def slot_of_def split: option.splits dest: find_index_less)

lemma longest_from_cong:
  "list_all2 (\<lambda>q' q. q_name q' = q_name q \<and> P q' = Q q) qs' qs \<Longrightarrow>
     longest_from P i best len qs' = longest_from Q i best len qs"
  by (induction qs' qs arbitrary: i best len rule: list_all2_induct) auto

lemma reply_slot_cong:
  assumes "qtab s' = qtab s"
  shows "reply_slot (sh s') nm = reply_slot (sh s) nm"
proof -
  note qt = qtab_nth [OF assms]
  let ?n = "\<lambda>q. embedded_in nm q \<and> q_notify q \<noteq> 0" and ?e = "embedded_in nm"
  have "list_all2 (\<lambda>q' q. q_name q' = q_name q \<and> ?n q' = ?n q) (queues s') (queues s)"
    and "list_all2 (\<lambda>q' q. q_name q' = q_name q \<and> ?e q' = ?e q) (queues s') (queues s)"
    unfolding list_all2_conv_all_nth embedded_in_def using qt by auto
  note this [THEN longest_from_cong, of 0 None 0]
  then have "embedded_queue (sh s') nm = embedded_queue (sh s) nm"
    unfolding embedded_queue_def by (simp only: conj_commute)
  then show ?thesis using qtab_find [OF assms, of nm] by (simp add: reply_slot_def split: option.split)
qed

lemma reply_slot_less: "reply_slot c nm = Some k \<Longrightarrow> k < length (c_queues c)"
  by (auto simp: reply_slot_def embedded_queue_def q_find_slot_def split: option.splits
      dest: find_index_less longest_from_SomeD)

lemma reply_id_cong:
  assumes "qtab s' = qtab s" and "reply_slot (sh s) nm = Some k"
  shows "q_id (queues s' ! k) = q_id (queues s ! k)" and "qname s' k = qname s k"
  using qtab_nth(2) [OF assms(1), of k] reply_slot_less [OF assms(2)] by (simp_all add: qname_def)

definition cfg_request :: "u32 \<Rightarrow> u8 list option \<Rightarrow> st \<Rightarrow> (u32 \<times> u32 \<times> u8 list) option" where
  "cfg_request qid msg s =
     (if \<not> j_ack (icf s) \<or> \<not> msg_ge msg 16 \<or> \<not> target_is s qid ''CfgServerQueue'' \<or>
         mtype31 (the msg) \<noteq> 0x1700c0 then None
      else case lead_raw (the msg) of
        None \<Rightarrow> None
      | Some raw \<Rightarrow>
          map_option (\<lambda>k. (q_id (queues s ! k), q_id (queues s ! k),
              cfg_ack_msg (if q_find_slot (sh s) (cstr_of raw) = None then bytes_of (qname s k) else raw)))
            (reply_slot (sh s) (cstr_of raw)))"

definition evt_request :: "u32 \<Rightarrow> u8 list option \<Rightarrow> st \<Rightarrow> (u32 \<times> u32 \<times> u8 list) option" where
  "evt_request qid msg s =
     (if \<not> j_evt_ack (icf s) \<or> \<not> msg_ge msg 16 \<or> \<not> target_is s qid ''QEvtServer'' \<or>
         mtype31 (the msg) \<noteq> 0x320081 then None
      else map_option (\<lambda>k. (q_id (queues s ! k), q_id (queues s ! k), evt_ack_msg))
             (Option.bind (lead_str (the msg)) (reply_slot (sh s))))"

definition peer_request :: "u32 \<Rightarrow> u8 list option \<Rightarrow> st \<Rightarrow> (u32 \<times> u32 \<times> u8 list) option" where
  "peer_request qid msg s =
     (if \<not> j_peer_ack (icf s) \<or> \<not> msg_ge msg 16 then None
      else let tab = peer_table (j_cm_grant (icf s)) in
        case find_index (\<lambda>p. pr_req p = mtype31 (the msg)) tab of
          None \<Rightarrow> None
        | Some i \<Rightarrow> map_option (\<lambda>k. (q_id (queues s ! k), push_bit 8 (q_id (queues s ! k)) OR pr_peer (tab ! i),
                                         peer_ack_msg (tab ! i)))
                     (Option.bind (lead_str (the msg)) (reply_slot (sh s))))"

interpretation cfg_once: ack_once "inject_connect_ack qid msg" "cfg_request qid msg" i_acked
  "\<lambda>key v. if length (i_acked v) < 32 then v\<lparr>i_acked := i_acked v @ [key]\<rparr> else v" 32 for qid msg
proof
  show "inject_connect_ack qid msg s = (case cfg_request qid msg s of None \<Rightarrow> s
      | Some (rq, key, m) \<Rightarrow> if key \<in> set (i_acked (injs s)) then s else post rq m 0
          (upd_inj (\<lambda>v. if length (i_acked v) < 32 then v\<lparr>i_acked := i_acked v @ [key]\<rparr> else v) s))" for s
    by (cases "lead_raw (the msg)"; cases "reply_slot (sh s) (cstr_of (the (lead_raw (the msg))))")
      (simp_all add: inject_connect_ack_def cfg_request_def Let_def)
  show "cfg_request qid msg s' = cfg_request qid msg s" if "qtab s' = qtab s" "icf s' = icf s" for s s'
    using that target_is_cong [OF that(1)] reply_slot_cong [OF that(1)] qtab_find [OF that(1)]
      reply_id_cong [OF that(1)]
    by (cases "lead_raw (the msg)"; cases "reply_slot (sh s) (cstr_of (the (lead_raw (the msg))))")
      (auto simp: cfg_request_def)
qed (simp_all add: ackst_def)

interpretation evt_once: ack_once "inject_evt_connect_ack qid msg" "evt_request qid msg" i_evt_acked
  "\<lambda>key v. if length (i_evt_acked v) < 32 then v\<lparr>i_evt_acked := i_evt_acked v @ [key]\<rparr> else v" 32 for qid msg
proof
  show "inject_evt_connect_ack qid msg s = (case evt_request qid msg s of None \<Rightarrow> s
      | Some (rq, key, m) \<Rightarrow> if key \<in> set (i_evt_acked (injs s)) then s else post rq m 0
          (upd_inj (\<lambda>v. if length (i_evt_acked v) < 32 then v\<lparr>i_evt_acked := i_evt_acked v @ [key]\<rparr> else v) s))" for s
    by (simp add: inject_evt_connect_ack_def evt_request_def Let_def split: option.splits)
  show "evt_request qid msg s' = evt_request qid msg s" if "qtab s' = qtab s" "icf s' = icf s" for s s'
    using that target_is_cong [OF that(1)] reply_slot_cong [OF that(1)] reply_id_cong [OF that(1)]
    by (cases "lead_str (the msg)"; cases "Option.bind (lead_str (the msg)) (reply_slot (sh s))")
      (auto simp: evt_request_def)
qed (simp_all add: ackst_def)

interpretation peer_once: ack_once "inject_peer_connect_ack qid msg" "peer_request qid msg" i_peer_acked
  "\<lambda>key v. if length (i_peer_acked v) < 64 then v\<lparr>i_peer_acked := i_peer_acked v @ [key]\<rparr> else v" 64 for qid msg
proof
  show "inject_peer_connect_ack qid msg s = (case peer_request qid msg s of None \<Rightarrow> s
      | Some (rq, key, m) \<Rightarrow> if key \<in> set (i_peer_acked (injs s)) then s else post rq m 0
          (upd_inj (\<lambda>v. if length (i_peer_acked v) < 64 then v\<lparr>i_peer_acked := i_peer_acked v @ [key]\<rparr> else v) s))" for s
    by (cases "find_index (\<lambda>p. pr_req p = mtype31 (the msg)) (peer_table (j_cm_grant (icf s)))";
        cases "Option.bind (lead_str (the msg)) (reply_slot (sh s))")
      (simp_all add: inject_peer_connect_ack_def peer_request_def Let_def)
  show "peer_request qid msg s' = peer_request qid msg s" if "qtab s' = qtab s" "icf s' = icf s" for s s'
    using that reply_slot_cong [OF that(1)] reply_id_cong [OF that(1)]
    by (cases "lead_str (the msg)"; cases "Option.bind (lead_str (the msg)) (reply_slot (sh s))")
      (auto simp: peer_request_def Let_def split: option.splits)
qed (simp_all add: ackst_def)

section \<open>The event error poll and the handwheel trigger\<close>

definition hw_codes :: "u32 list" where
  "hw_codes = [0xe7, 0xe7, 0x63, 0x63, 0x66008b, 0x66008b, 0x1ad, 0xe7, 0x1ad, 0x66008b, 0x1ad, 0x84,
               0x63, 0x63, 0x63, 0x63, 0x18c, 0xa5, 0x18c, 0xa5]"

definition hw_field :: "u32 \<Rightarrow> u8 list" where
  "hw_field c = (if c = 0x66008b \<or> c = 0x18c \<or> c = 0xa5 then le32 c @ le32 0 else le32 (0x80000000 OR c))"

definition hw_msg :: "u8 list" where
  "hw_msg = le32 0x00660801 @ concat (map hw_field hw_codes)"

definition inject_active_handwheel :: "u32 \<Rightarrow> st \<Rightarrow> st" where
  "inject_active_handwheel rq s =
     (if \<not> j_active_hw (icf s) \<or> i_active_hw_done (injs s) then s
      else let f = take 1024 (j_active_hw_file (icf s)) in
           upd_inj (\<lambda>v. v\<lparr>i_active_hw_done := True\<rparr>) (post rq (if f = [] then hw_msg else f) 0 s))"

definition evt_err_msg :: "u8 list" where
  "evt_err_msg = le32 0x00320601 @ le32 0x003205eb @ le32 1 @ le32 0x18c @ le32 0"

definition post_evt_ans_error :: "u32 \<Rightarrow> st \<Rightarrow> st" where
  "post_evt_ans_error rq s =
     (if i_evterr_replied (injs s) \<ge> 8 then s
      else inject_active_handwheel rq
             (upd_inj (\<lambda>v. v\<lparr>i_evterr_replied := i_evterr_replied v + 1\<rparr>) (post rq evt_err_msg 0 s)))"

definition inject_evt_error_reply :: "u32 \<Rightarrow> u8 list option \<Rightarrow> st \<Rightarrow> st" where
  "inject_evt_error_reply qid msg s =
     (if \<not> j_peer_ack (icf s) \<or> \<not> msg_ge msg 4 \<or> \<not> target_is s qid ''QEvtServer'' \<or>
         mtype31 (the msg) \<noteq> 0x3205c0 \<or> i_evt_acked (injs s) = [] then s
      else if j_evterr_defer (icf s) then upd_inj (\<lambda>v. v\<lparr>i_deferred := hd (i_evt_acked v)\<rparr>) s
      else post_evt_ans_error (hd (i_evt_acked (injs s))) s)"

definition bcast_msg :: "u8 list" where
  "bcast_msg = le32 0x43340280 @ le32 0x8334020b @ le32 0x80000063 @ le32 0x80000063"

text \<open>Here only notifying queues are searched for an embedded name, and \<open>QueueHrMmi\<close> is the fallback.\<close>

definition inject_broadcast_register_reply :: "u8 list option \<Rightarrow> st \<Rightarrow> st" where
  "inject_broadcast_register_reply msg s =
     (if \<not> j_peer_ack (icf s) \<or> \<not> msg_ge msg 8 \<or> mtype31 (the msg) \<noteq> 0x03340261 \<or>
         i_bcast_replied (injs s) \<ge> 8 then s
      else
        let r = (case lead_str (the msg) of
                   None \<Rightarrow> None
                 | Some nm \<Rightarrow> (case q_find_slot (sh s) nm of
                                Some k \<Rightarrow> Some k
                              | None \<Rightarrow> longest_from (\<lambda>q. embedded_in nm q \<and> q_notify q \<noteq> 0) 0 None 0 (queues s)))
        in case (case r of Some k \<Rightarrow> Some k | None \<Rightarrow> q_find_slot (sh s) ''QueueHrMmi'') of
             None \<Rightarrow> s
           | Some k \<Rightarrow> upd_inj (\<lambda>v. v\<lparr>i_bcast_replied := i_bcast_replied v + 1\<rparr>)
                         (post (q_id (queues s ! k)) bcast_msg 0 s))"

section \<open>Properties\<close>

text \<open>
  C13. A \<open>CfgConnectClient\<close> is acknowledged, and when it is sent again it is acknowledged once only: a connect
  whose queue is not noted posts the acknowledgement to exactly that queue and notes it, while the table of
  acknowledged queues has room; then handling the same connect a second time changes nothing at all; no queue is ever noted
  twice and the table stays within its 32 entries.
\<close>

theorem connect_ack_once:
  assumes "q_slot (sh s) 680 = None" and "distinct (i_acked (injs s))" and "length (i_acked (injs s)) \<le> 32"
    and "s' = inject_connect_ack qid msg s"
  shows "distinct (i_acked (injs s')) \<and> length (i_acked (injs s')) \<le> 32 \<and>
    (length (i_acked (injs s)) < 32 \<longrightarrow> inject_connect_ack qid msg s' = s') \<and>
    (\<forall>rq m. cfg_request qid msg s = Some (rq, rq, m) \<longrightarrow> rq \<notin> set (i_acked (injs s)) \<longrightarrow>
       s' = post rq m 0 (if length (i_acked (injs s)) < 32 then upd_inj (\<lambda>v. v\<lparr>i_acked := i_acked v @ [rq]\<rparr>) s else s))"
proof -
  have "upd_inj (\<lambda>v. if length (i_acked v) < 32 then v\<lparr>i_acked := i_acked v @ [rq]\<rparr> else v) s
      = (if length (i_acked (injs s)) < 32 then upd_inj (\<lambda>v. v\<lparr>i_acked := i_acked v @ [rq]\<rparr>) s else s)" for rq
    by (simp add: upd_inj_def)
  then show ?thesis
    using cfg_once.once [of s qid msg] cfg_once.keys_ok [of s qid msg] cfg_once.handle [of qid msg s] assms
    by (auto simp: no680_def)
qed

text \<open>
  The memory of acknowledged queues is bounded: once 32 others are noted, a connect of a further
  queue is acknowledged but not noted, so that every re-sent connect is acknowledged again.
\<close>

theorem connect_ack_full:
  assumes "q_slot (sh s) 680 = None" and "cfg_request qid msg s = Some (rq, rq, m)"
    and "rq \<notin> set (i_acked (injs s))" and "32 \<le> length (i_acked (injs s))"
    and "s' = inject_connect_ack qid msg s"
  shows "s' = post rq m 0 s \<and> i_acked (injs s') = i_acked (injs s) \<and>
    inject_connect_ack qid msg s' = post rq m 0 s'"
proof -
  have n: "no680 s" using assms(1) by (simp add: no680_def)
  have id: "upd_inj (\<lambda>v. if length (i_acked v) < 32 then v\<lparr>i_acked := i_acked v @ [rq]\<rparr> else v) u = u"
    if "32 \<le> length (i_acked (injs u))" for u
    using that by (simp add: upd_inj_def)
  note f = cfg_once.after [OF n assms(2,3), folded assms(5)]
  have k: "i_acked (injs s') = i_acked (injs s)" using f(2) assms(4) by simp
  show ?thesis
    using k f(1) assms(3,4,5) assms(2) cfg_once.handle [of qid msg s] cfg_once.handle [of qid msg s'] id [of s] id [of s']
    by simp
qed

text \<open>A configuration server queue, a client queue, and a client's connect request.\<close>

definition ack_demo :: st where
  "ack_demo = (boot 7 9)\<lparr>sh := (sh (boot 7 9))\<lparr>c_queues :=
     [zero_queue\<lparr>q_used := True, q_id := 0x300, q_name := ''CfgServerQueue''\<rparr>,
      zero_queue\<lparr>q_used := True, q_id := 0x301, q_name := ''0-0000106CfgM'', q_notify := 1\<rparr>]\<rparr>,
     icf := inj_off\<lparr>j_ack := True\<rparr>\<rparr>"

definition connect_demo :: "u8 list" where
  "connect_demo = le32 0x1700c0 @ le32 0xe7 @ le32 13 @ bytes_of ''0-0000106CfgM''"

lemma ack_demo_request:
  "cfg_request 0x300 (Some connect_demo) ack_demo = Some (0x301, 0x301, cfg_ack_msg (bytes_of ''0-0000106CfgM''))"
  by code_simp

lemma ack_demo_simps: "q_slot (sh ack_demo) 680 = None" "i_acked (injs ack_demo) = []"
  by (simp_all add: ack_demo_def q_slot_def slot_of_def off_defs)

lemma connect_ack_once_witness:
  "i_acked (injs (inject_connect_ack 0x300 (Some connect_demo) ack_demo)) = [0x301] \<and>
   inject_connect_ack 0x300 (Some connect_demo) (inject_connect_ack 0x300 (Some connect_demo) ack_demo)
     = inject_connect_ack 0x300 (Some connect_demo) ack_demo"
proof
  show "i_acked (injs (inject_connect_ack 0x300 (Some connect_demo) ack_demo)) = [0x301]"
    using cfg_once.after(2) [OF _ ack_demo_request] ack_demo_simps by (simp add: no680_def)
  show "inject_connect_ack 0x300 (Some connect_demo) (inject_connect_ack 0x300 (Some connect_demo) ack_demo)
     = inject_connect_ack 0x300 (Some connect_demo) ack_demo"
    using connect_ack_once [of ack_demo _ "0x300" "Some connect_demo", OF _ _ _ refl] ack_demo_simps by simp
qed

definition ack_full_demo :: st where
  "ack_full_demo = upd_inj (\<lambda>v. v\<lparr>i_acked := replicate 32 0\<rparr>) ack_demo"

lemma connect_ack_full_witness:
  "i_acked (injs (inject_connect_ack 0x300 (Some connect_demo) ack_full_demo)) = replicate 32 0"
proof -
  have r: "cfg_request 0x300 (Some connect_demo) ack_full_demo = Some (0x301, 0x301, cfg_ack_msg (bytes_of ''0-0000106CfgM''))"
    using cfg_once.request_cong [of ack_full_demo ack_demo] ack_demo_request
    by (simp add: ack_full_demo_def)
  show ?thesis
    using connect_ack_full [OF _ r _ _ refl, THEN conjunct2, THEN conjunct1] ack_demo_simps
    by (simp add: ack_full_demo_def)
qed

end
