(* ===== verification/QRead.thy ===== *)
theory QRead
  imports WmTimer Inject
begin

text \<open>
  \<open>q_read\<close> of \<open>src/emulator/heros_rtos.c\<close>.  The entry resolves the queue and caps the wait; each turn
  of its loop is one \<open>q_read_pass\<close>, which returns, goes to sleep on the tail of the queue, or (with
  the family route on, for a thread the task cache does not hold) takes the segment lock it already
  holds.  The caller's buffer is modelled by the bytes written to it.
\<close>

datatype read_outcome =
    RdRet int "u8 list option" "(u32 \<times> u32 \<times> u32) option"
  | RdSleep futex_word "u32 option"        \<comment> \<open>timeout in ms, \<open>None\<close> for ever\<close>
  | RdSelfLock

section \<open>Which message is read\<close>

definition msg_family :: "qmsg \<Rightarrow> u32" where
  "msg_family m = (if 4 \<le> unat (m_len m) then drop_bit 16 (get32 (m_data m) 0) else 0)"

fun scan_family :: "nat \<Rightarrow> u32 \<Rightarrow> u32 \<Rightarrow> queue \<Rightarrow> u32 option" where
  "scan_family 0 p fam q = None"
| "scan_family (Suc n) p fam q =
     (if msg_family (q_msg q ! ring_ix p) = fam then Some p else scan_family n (p + 1) fam q)"

text \<open>The caller's family is looked up with the lock held, so only a cached id can be found.\<close>

definition cached_self :: "st \<Rightarrow> u32 option" where
  "cached_self s =
     (let e = p_tcache (lo s) ! tcache_ix (me_tid s) in
      if snd e \<noteq> 0 \<and> fst e = me_tid s then Some (snd e) else None)"

definition read_pos :: "nat \<Rightarrow> st \<Rightarrow> u32 option option" where
  "read_pos k s =
     (let q = queues s ! k in
      if k_rts_family_route (qcf s) \<and> has_sub ''Rts'' (q_name q) then
        case cached_self s of
          None \<Rightarrow> None
        | Some me \<Rightarrow>
            let fam = (case task_slot (sh s) me of None \<Rightarrow> 0 | Some t \<Rightarrow> t_last_req_family (tasks s ! t))
            in Some (if fam = 0 then Some (q_head q)
                     else scan_family (unat (q_tail q - q_head q)) (q_head q) fam q)
      else Some (Some (q_head q)))"

section \<open>Taking it out\<close>

text \<open>\<open>for(i=pos; i+1!=tail; i++) msg[i%QSLOTS]=msg[(i+1)%QSLOTS]; tail--\<close>.\<close>

fun ring_shift :: "nat \<Rightarrow> u32 \<Rightarrow> qmsg list \<Rightarrow> qmsg list" where
  "ring_shift 0 p ms = ms"
| "ring_shift (Suc n) p ms = ring_shift n (p + 1) (ms[ring_ix p := ms ! ring_ix (p + 1)])"

definition ring_remove :: "u32 \<Rightarrow> queue \<Rightarrow> queue" where
  "ring_remove pos q =
     q\<lparr>q_msg := ring_shift (unat (q_tail q - pos - 1)) pos (q_msg q), q_tail := q_tail q - 1\<rparr>"

definition ring_take :: "u32 \<Rightarrow> queue \<Rightarrow> queue" where
  "ring_take pos q = (if pos = q_head q then ring_pop q else ring_remove pos q)"

section \<open>The side effects of a successful read\<close>

text \<open>A read of a window-manager reply finds the client's event queue and follows its serials.\<close>

definition wm_note :: "u32 \<Rightarrow> qmsg \<Rightarrow> st \<Rightarrow> st" where
  "wm_note i m s =
     (if k_wm_timer (qcf s) \<and> 8 \<le> unat (m_len m) then
        let ty = get32 (m_data m) 0; ser = get32 (m_data m) 4; hs = (ty = 0x3001 \<or> ty = 0x3037)
        in upd_wm (\<lambda>v.
             let v1 = (if hs \<and> w_rq v \<noteq> i then v\<lparr>w_rq := i\<rparr> else v) in
             if w_rq v1 = i then
               let v2 = (if 0 < sint (ser - w_last_serial v1) then v1\<lparr>w_last_serial := ser\<rparr> else v1)
               in if hs then v2\<lparr>w_last_hs := now s, w_hs_done := (w_hs_done v2 \<or> ty = 0x3037)\<rparr> else v2
             else v1) s
      else s)"

text \<open>The queue stays readable while it holds messages.\<close>

definition level_notify :: "nat \<Rightarrow> st \<Rightarrow> st" where
  "level_notify k s =
     (let q = queues s ! k in
      if q_tail q \<noteq> q_head q \<and> q_notify q \<noteq> 0 \<and> q_owner q \<noteq> 0
      then snd (ev_send (q_owner q) (q_notify q) s) else s)"

definition release_deferred :: "u8 list option \<Rightarrow> st \<Rightarrow> st" where
  "release_deferred w s =
     (let tag = (case w of None \<Rightarrow> 0 | Some d \<Rightarrow> if 4 \<le> length d then get32 d 0 else 0);
          rq = i_deferred (injs s)
      in if rq \<noteq> 0 \<and> tag AND 0x7fffffff = 0x290081
         then post_evt_ans_error rq (upd_inj (\<lambda>v. v\<lparr>i_deferred := 0\<rparr>) s) else s)"

fun post_all :: "u32 \<Rightarrow> u8 list list \<Rightarrow> st \<Rightarrow> st" where
  "post_all i [] s = s"
| "post_all i (m # ms) s = post_all i ms (post i m 0 s)"

definition replay_ready :: "nat \<Rightarrow> nat \<Rightarrow> st \<Rightarrow> bool" where
  "replay_ready k n s \<longleftrightarrow> i_runup_done (injs s) \<and> \<not> i_replayed (injs s) \<and> n = 69 \<and> qname s k = ''CfgServerQueue''"

definition replay_trigger :: "u32 \<Rightarrow> nat \<Rightarrow> nat \<Rightarrow> st \<Rightarrow> st" where
  "replay_trigger i k n s =
     (if j_replay (icf s) \<and> replay_ready k n s
      then post_all i (take CFGQ_CAP (i_cfgq_rec (injs s))) (upd_inj (\<lambda>v. v\<lparr>i_replayed := True\<rparr>) s)
      else s)"

definition inject_upd :: "u32 \<Rightarrow> nat \<Rightarrow> nat \<Rightarrow> st \<Rightarrow> st" where
  "inject_upd i k n s =
     (if j_upd (icf s) \<and> replay_ready k n s
      then post i upd_new_state 0 (upd_inj (\<lambda>v. v\<lparr>i_replayed := True\<rparr>) s) else s)"

section \<open>An empty queue\<close>

definition set_streak :: "nat \<Rightarrow> nat \<Rightarrow> st \<Rightarrow> st" where
  "set_streak k n s = s\<lparr>lo := (lo s)\<lparr>p_wmq_streak := (p_wmq_streak (lo s))(k := n)\<rparr>\<rparr>"

definition reset_streak :: "nat \<Rightarrow> st \<Rightarrow> st" where
  "reset_streak k s = (if k < 1024 then set_streak k 0 s else s)"

text \<open>An empty read without waiting; on a window-manager queue it may end the caller's polling loop.\<close>

definition wmq_break :: "nat \<Rightarrow> st \<Rightarrow> bool \<times> st" where
  "wmq_break k s =
     (if k_wmq_break (qcf s) \<and> k < 1024 \<and> has_prefix ''WMQ'' (qname s k) then
        let (me, s1) = task_self s;
            pend = (case task_slot (sh s1) me of
                      None \<Rightarrow> 0
                    | Some t \<Rightarrow> t_events (tasks s1 ! t) AND 0xff000000 AND NOT (q_notify (queues s1 ! k)))
        in if pend \<noteq> 0 then (True, set_streak k 0 s1)
           else let n = p_wmq_streak (lo s1) k + 1 in
                if k_wmq_break_n (qcf s) \<le> n then (True, set_streak k 0 s1) else (False, set_streak k n s1)
      else (False, s))"

definition read_empty :: "nat \<Rightarrow> st \<Rightarrow> read_outcome \<times> st" where
  "read_empty k s =
     (let (brk, s1) = wmq_break k s in
      if brk then (RdRet (-0x6e) None None, s1\<lparr>errno := 110\<rparr>)
      else (RdRet (-0x35) None None, s1\<lparr>errno := 11\<rparr>))"

section \<open>The read\<close>

text \<open>A message of position \<open>pos\<close> is read, \<open>saved\<close> being the caller's \<open>errno\<close>.\<close>

definition read_msg ::
    "nat \<Rightarrow> u32 \<Rightarrow> bool \<Rightarrow> u32 \<Rightarrow> bool \<Rightarrow> int \<Rightarrow> u32 \<Rightarrow> st \<Rightarrow> read_outcome \<times> st" where
  "read_msg k i buf maxsize hdr saved pos s =
     (let m = q_msg (queues s ! k) ! ring_ix pos; full = m_len m; n = unat full in
      if full > maxsize then (RdRet (-12) None None, s\<lparr>errno := 12\<rparr>)
      else
        let w = (if buf \<and> full \<noteq> 0 then Some (bytes_upto n (m_data m)) else None);
            s2 = upd_queue k (ring_take pos) (wm_note i m (reset_streak k s));
            s3 = release_deferred w (level_notify k s2);
            s4 = inject_upd i k n (replay_trigger i k n s3)
        in (RdRet (sint full) w (if hdr then Some (m_hdr m) else None), s4\<lparr>errno := saved\<rparr>))"

definition q_read_pass ::
    "nat \<Rightarrow> u32 \<Rightarrow> bool \<Rightarrow> u32 \<Rightarrow> u32 \<Rightarrow> bool \<Rightarrow> int \<Rightarrow> st \<Rightarrow> read_outcome \<times> st" where
  "q_read_pass k i buf maxsize timeout hdr saved s =
     (let q = queues s ! k;
          none = (if timeout = 0 then read_empty k s
                  else (RdSleep (FwTail k) (if timeout = 0xffffffff then None else Some timeout), s))
      in if q_tail q = q_head q then none
         else case read_pos k s of
                None \<Rightarrow> (RdSelfLock, s)
              | Some None \<Rightarrow> none
              | Some (Some pos) \<Rightarrow> read_msg k i buf maxsize hdr saved pos s)"

text \<open>After the sleep: a finite wait that still finds nothing gives up, otherwise the loop turns.\<close>

definition q_read_woken ::
    "nat \<Rightarrow> u32 \<Rightarrow> bool \<Rightarrow> u32 \<Rightarrow> u32 \<Rightarrow> bool \<Rightarrow> int \<Rightarrow> st \<Rightarrow> read_outcome \<times> st" where
  "q_read_woken k i buf maxsize timeout hdr saved s =
     (if timeout \<noteq> 0xffffffff \<and> q_tail (queues s ! k) = q_head (queues s ! k)
      then (RdRet (-0x35) None None, s\<lparr>errno := 11\<rparr>)
      else q_read_pass k i buf maxsize timeout hdr saved s)"

definition read_timeout :: "st \<Rightarrow> nat \<Rightarrow> u32 \<Rightarrow> u32" where
  "read_timeout s k t =
     (let t1 = (if t = 0xffffffff \<and> k_qread_maxwait (qcf s) \<noteq> 0 then k_qread_maxwait (qcf s) else t)
      in if t1 = 0xffffffff \<and> k_sync_timeout (qcf s) \<noteq> 0 \<and> has_sub ''Sync'' (qname s k)
         then k_sync_timeout (qcf s) else t1)"

definition q_read :: "u32 \<Rightarrow> bool \<Rightarrow> u32 \<Rightarrow> u32 \<Rightarrow> bool \<Rightarrow> st \<Rightarrow> read_outcome \<times> st" where
  "q_read i buf maxsize timeout hdr s =
     (let s1 = wm_timer_maybe_tick s in
      case q_slot (sh s1) i of
        None \<Rightarrow> (RdRet (-9) None None, s1\<lparr>errno := 22\<rparr>)
      | Some k \<Rightarrow> q_read_pass k i buf maxsize (read_timeout s1 k timeout) hdr (errno s1) s1)"

end
