(* ===== verification/QReadMore.thy ===== *)
theory QReadMore
  imports QReadFacts
begin

text \<open>
  Further properties of \<open>q_read\<close>: a message too long for the buffer, the family route, the end of
  empty polling, the self-deadlock of the family route, and what one task sends another reads.
\<close>

section \<open>Send, then read\<close>

lemma send_read:
  assumes pl: "plain s" "plain_read s" and slot: "q_slot (sh s) i = Some k"
    and ring: "ring_ok (queues s ! k)" "ring_cnt 1 (queues s ! k)" "q_content (queues s ! k) = []"
    and fit: "length m \<le> QMSGCAP" "length m \<le> unat maxsize" "m \<noteq> []"
    and res: "q_send i (Some m) (of_nat (length m)) mode s = (r, s')"
  defines "h \<equiv> send_hdr i (fst (task_self s)) mode (of_nat (length m))"
  shows "q_read i True maxsize timeout hdr s' =
      (RdRet (int (length m)) (Some m) (if hdr then Some h else None),
       (level_notify k (upd_queue k ring_pop (reset_streak k s')))\<lparr>errno := errno s'\<rparr>)"
    and "r = 0" and "q_content (ring_pop (queues s' ! k)) = []" and "k < length (queues s')"
proof -
  note d = q_send_plain [OF pl(1) slot ring(1,2) fit(1) res]
  have c: "q_content (queues s' ! k) = [(h, m)]"
    using d(2) ring(3) by (simp add: keep_last_short QSLOTS_def h_def)
  have "plain_read s'" using pl(2) d by (simp add: plain_read_def)
  moreover have "q_slot (sh s') i = Some k" using d(4) slot by simp
  moreover have "ring_ok (queues s' ! k)" by (rule d(3))
  ultimately show "q_read i True maxsize timeout hdr s' =
      (RdRet (int (length m)) (Some m) (if hdr then Some h else None),
       (level_notify k (upd_queue k ring_pop (reset_streak k s')))\<lparr>errno := errno s'\<rparr>)"
    using q_read_plain [of s' i k h m "[]" maxsize True timeout hdr] c fit by (simp add: QMSGCAP_def)
  show "r = 0" by (rule d(1))
  show "q_content (ring_pop (queues s' ! k)) = []" using q_content_Cons(6) [OF d(3) c] .
  show "k < length (queues s')" using q_slot_SomeD [OF slot] d(5) by simp
qed

text \<open>
  C14. What is sent is what is read: a message sent to an empty queue (interventions off, at most
  20480 bytes) and read with a large enough buffer comes back with exactly its length and bytes,
  under a header with the queue id, the sender's task id, the mode and the size, and the queue is
  empty again.
\<close>

theorem send_read_roundtrip:
  assumes pl: "plain s" "plain_read s" and slot: "q_slot (sh s) i = Some k"
    and ring: "ring_ok (queues s ! k)" "ring_cnt 1 (queues s ! k)" "q_content (queues s ! k) = []"
    and fit: "length m \<le> QMSGCAP" "length m \<le> unat maxsize" "m \<noteq> []"
    and res: "q_send i (Some m) (of_nat (length m)) mode s = (r, s')"
  shows "fst (q_read i True maxsize timeout True s') =
      RdRet (int (length m)) (Some m) (Some (send_hdr i (fst (task_self s)) mode (of_nat (length m)))) \<and>
    q_content (queues (snd (q_read i True maxsize timeout True s')) ! k) = []"
  using send_read(1) [OF assms, of timeout True] send_read(3,4) [OF assms] by simp

section \<open>A message too long for the buffer\<close>

text \<open>
  C16. A message longer than the caller's buffer stays where it is: \<open>q_read\<close> answers -12 with \<open>errno\<close>
  set to ENOMEM, writes nothing, and changes nothing else, so that the caller can grow its buffer and
  read again; a buffer of size 0 is no exception.
\<close>

theorem q_read_too_big:
  assumes "\<not> k_rts_family_route (qcf s)" and "\<not> k_wm_timer (qcf s)" and "q_slot (sh s) i = Some k"
    and "ring_ok (queues s ! k)" and "q_content (queues s ! k) = (h, m) # rest" and "unat maxsize < length m"
  shows "q_read i buf maxsize timeout hdr s = (RdRet (-12) None None, s\<lparr>errno := 12\<rparr>)"
proof -
  note c = q_content_Cons [OF assms(4,5)]
  have f: "q_msg (queues s ! k) ! ring_ix (q_head (queues s ! k)) = ring_front (queues s ! k)"
    by (simp add: ring_front_def)
  have "maxsize < m_len (ring_front (queues s ! k))" using c(4) assms(6) by (simp add: word_less_nat_alt)
  then show ?thesis
    using assms(1-3) c(1) by (simp add: q_read_def q_read_pass_def read_pos_def read_msg_def Let_def f)
qed

section \<open>The self-deadlock\<close>

text \<open>
  The family route deadlocks: a thread whose task id is not in the process's cache (a first call,
  or another thread with the same last seven bits of its thread id) that reads a non-empty \<open>Rts\<close> queue
  looks its id up with the segment lock held, and \<open>task_self\<close> takes that lock again.
\<close>

theorem q_read_self_lock:
  assumes "k_rts_family_route (qcf s)" and "\<not> k_wm_timer (qcf s)" and "q_slot (sh s) i = Some k"
    and "has_sub ''Rts'' (q_name (queues s ! k))" and "q_tail (queues s ! k) \<noteq> q_head (queues s ! k)"
    and "fst (p_tcache (lo s) ! tcache_ix (me_tid s)) \<noteq> me_tid s"
  shows "fst (q_read i buf maxsize timeout hdr s) = RdSelfLock"
  using assms by (simp add: q_read_def q_read_pass_def read_pos_def cached_self_def Let_def)

section \<open>Ending an empty poll\<close>

fun poll_empty :: "nat \<Rightarrow> nat \<Rightarrow> st \<Rightarrow> read_outcome list" where
  "poll_empty 0 k s = []"
| "poll_empty (Suc n) k s = (case read_empty k s of (r, s') \<Rightarrow> r # poll_empty n k s')"

text \<open>
  The break of a window-manager poll is exact: a task without other pending queue events that
  polls an empty \<open>WMQ\<close> queue without waiting gets EAGAIN for all polls but the last of a run of
  \<open>HEROSCALL_WMQ_BREAK_N\<close>, and ETIMEDOUT for the last, which ends the caller's loop.
\<close>

theorem wmq_break_exact:
  assumes "k_wmq_break (qcf s)" and "k < 1024" and "has_prefix ''WMQ'' (q_name (queues s ! k))"
    and "cached_self s = Some me" and "task_slot (sh s) me = Some t"
    and "t_events (tasks s ! t) AND 0xff000000 AND NOT (q_notify (queues s ! k)) = 0"
    and "p_wmq_streak (lo s) k < k_wmq_break_n (qcf s)"
  shows "poll_empty (k_wmq_break_n (qcf s) - p_wmq_streak (lo s) k) k s =
    replicate (k_wmq_break_n (qcf s) - p_wmq_streak (lo s) k - 1) (RdRet (-0x35) None None) @ [RdRet (-0x6e) None None]"
  using assms
proof (induction "k_wmq_break_n (qcf s) - p_wmq_streak (lo s) k" arbitrary: s)
  case (Suc n)
  let ?c = "p_wmq_streak (lo s) k" and ?N = "k_wmq_break_n (qcf s)"
  have self: "task_self s = (me, s)"
    using Suc.prems(4) by (auto simp: cached_self_def task_self_def Let_def split: if_splits prod.splits)
  have brk: "wmq_break k s = (if ?N \<le> Suc ?c then (True, set_streak k 0 s) else (False, set_streak k (Suc ?c) s))"
    using Suc.prems by (simp add: wmq_break_def self Let_def qname_def)
  show ?case
  proof (cases "?N \<le> Suc ?c")
    case True
    then have "?N - ?c = Suc 0" using Suc.prems(7) by simp
    then show ?thesis using True by (simp add: read_empty_def brk)
  next
    case False
    let ?s = "(set_streak k (Suc ?c) s)\<lparr>errno := 11\<rparr>"
    have "?N - ?c = Suc n" using Suc.hyps(2) by simp
    then have n: "n = ?N - Suc ?c" "?N - ?c = Suc (?N - Suc ?c)" "?N - Suc ?c = Suc (?N - Suc ?c - 1)" using False by simp_all
    have "poll_empty (k_wmq_break_n (qcf ?s) - p_wmq_streak (lo ?s) k) k ?s =
      replicate (k_wmq_break_n (qcf ?s) - p_wmq_streak (lo ?s) k - 1) (RdRet (-0x35) None None) @ [RdRet (-0x6e) None None]"
    proof (rule Suc.hyps(1))
      show "cached_self ?s = Some me" using Suc.prems(4) by (simp add: cached_self_def)
    qed (use Suc.prems n False in simp_all)
    then have "poll_empty (?N - Suc ?c) k ?s = replicate (?N - Suc ?c - 1) (RdRet (-0x35) None None) @ [RdRet (-0x6e) None None]"
      by simp
    then show ?thesis using False unfolding n(2) by (subst (2) n(3)) (simp add: read_empty_def brk)
  qed
qed simp

section \<open>Taking a message out of the middle\<close>

lemma mod_window:
  "p \<le> x \<Longrightarrow> x < p + QSLOTS \<Longrightarrow> p \<le> y \<Longrightarrow> y < p + QSLOTS \<Longrightarrow> x mod QSLOTS = y mod QSLOTS \<longleftrightarrow> x = y"
  using mod_neighbours [of x y] mod_neighbours [of y x] by (cases x y rule: linorder_cases) auto

lemma ring_shift_nth:
  assumes "length ms = QSLOTS" and "n < QSLOTS" and "unat p + n < 2 ^ 32" and "unat p \<le> y" and "y < unat p + QSLOTS"
  shows "ring_shift n p ms ! (y mod QSLOTS) = ms ! ((if y < unat p + n then y + 1 else y) mod QSLOTS)"
  using assms
proof (induction n arbitrary: p ms y)
  case (Suc n)
  let ?m = "ms[ring_ix p := ms ! ring_ix (p + 1)]"
  have p1: "unat (p + 1) = unat p + 1" using Suc.prems(3) by (intro unat_succ) simp
  have m: "?m ! (x mod QSLOTS) = (if x = unat p then ms ! ((unat p + 1) mod QSLOTS) else ms ! (x mod QSLOTS))"
    if "unat p \<le> x" "x < unat p + QSLOTS" for x
    using that mod_window [of "unat p" x "unat p"] Suc.prems(1) by (auto simp: ring_ix_def p1 QSLOTS_pos)
  have ih: "ring_shift n (p + 1) ?m ! (x mod QSLOTS) = ?m ! ((if x < unat p + 1 + n then x + 1 else x) mod QSLOTS)"
    if "unat p + 1 \<le> x" "x < unat p + 1 + QSLOTS" for x
    using Suc.IH [of ?m "p + 1" x] Suc.prems that by (simp add: p1)
  show ?case
  proof (cases "y = unat p")
    case True
    have "ring_shift n (p + 1) ?m ! ((unat p + QSLOTS) mod QSLOTS) = ?m ! ((unat p + QSLOTS) mod QSLOTS)"
      using ih [of "unat p + QSLOTS"] Suc.prems(2) by simp
    then show ?thesis using True m [of "unat p"] by (simp add: QSLOTS_pos)
  next
    case False
    let ?x = "if y < unat p + 1 + n then y + 1 else y"
    have "unat p + 1 \<le> y" "y < unat p + 1 + QSLOTS" using False Suc.prems(4,5) by simp_all
    note ih [OF this]
    moreover have "?m ! (?x mod QSLOTS) = ms ! (?x mod QSLOTS)"
      using m [of ?x] False Suc.prems(2,4,5) by auto
    ultimately show ?thesis by simp
  qed
qed simp

lemma q_content_nth:
  "j < length (q_content q) \<Longrightarrow> q_content q ! j = msg_view (q_msg q ! ((unat (q_head q) + j) mod QSLOTS))"
  by (simp add: q_content_def)

lemma length_ring_shift [simp]: "length (ring_shift n p ms) = length ms"
  by (induction n p ms rule: ring_shift.induct) simp_all

lemma ring_remove_content:
  assumes ok: "ring_ok q" and j: "j < length (q_content q)" and pos: "pos = q_head q + of_nat j"
  shows "unat pos = unat (q_head q) + j"
    and "q_content (ring_remove pos q) = take j (q_content q) @ drop (Suc j) (q_content q)"
    and "ring_ok (ring_remove pos q)"
proof -
  let ?h = "unat (q_head q)" and ?t = "unat (q_tail q)" and ?c = "q_content q"
  have l: "length ?c = ?t - ?h" "?h + j < ?t" using j by (simp_all add: length_q_content)
  have b: "?t < 2 ^ 32" by (rule unat_lt32)
  show p: "unat pos = ?h + j"
    using l(2) b unfolding pos by (simp add: unat_word_ariths unat_of_nat)
  have k: "length (q_msg q) = QSLOTS" "?t \<le> ?h + QSLOTS" "?h \<le> ?t" using ok by (auto simp: ring_ok_def)
  have n: "unat (q_tail q - pos - 1) = ?t - (?h + j) - 1"
  proof -
    have "pos \<le> q_tail q" using l(2) p by (simp add: word_le_nat_alt)
    then have d: "unat (q_tail q - pos) = ?t - (?h + j)" using p by (simp add: unat_sub)
    moreover have "1 \<le> q_tail q - pos" using d l(2) by (simp add: word_le_nat_alt)
    ultimately show ?thesis by (simp add: unat_sub)
  qed
  have t: "unat (q_tail q - 1) = ?t - 1"
    using l(2) by (subst unat_sub) (simp_all add: word_le_nat_alt)
  let ?r = "ring_remove pos q"
  have r: "q_head ?r = q_head q" "unat (q_tail ?r) = ?t - 1" "length (q_msg ?r) = QSLOTS"
    using t k by (simp_all add: ring_remove_def)
  then show "ring_ok ?r" using l(2) k by (auto simp: ring_ok_def)
  show "q_content ?r = take j ?c @ drop (Suc j) ?c"
  proof (rule nth_equalityI)
    show "length (q_content ?r) = length (take j ?c @ drop (Suc j) ?c)" using j r l by (simp add: length_q_content)
    fix i assume i: "i < length (q_content ?r)"
    then have i2: "?h + i < ?t - 1" using r by (simp add: length_q_content)
    define y where "y = (if i < j then ?h + i + QSLOTS else ?h + i)"
    have y: "unat pos \<le> y" "y < unat pos + QSLOTS" "y mod QSLOTS = (?h + i) mod QSLOTS"
      using i2 l k p by (auto simp: y_def)
    have "q_content ?r ! i = msg_view (ring_shift (unat (q_tail q - pos - 1)) pos (q_msg q) ! ((?h + i) mod QSLOTS))"
      using q_content_nth [OF i] r by (simp add: ring_remove_def)
    also have "\<dots> = msg_view (q_msg q ! ((if y < unat pos + (?t - (?h + j) - 1) then y + 1 else y) mod QSLOTS))"
      using ring_shift_nth [OF k(1) _ _ y(1,2), of "unat (q_tail q - pos - 1)"] n p k l b y(3) by simp
    also have "\<dots> = (take j ?c @ drop (Suc j) ?c) ! i"
    proof (cases "i < j")
      case True
      then have "\<not> y < unat pos + (?t - (?h + j) - 1)" using p k l by (simp add: y_def)
      then show ?thesis using True y(3) j q_content_nth [of i q] by (simp add: nth_append)
    next
      case False
      then have "y < unat pos + (?t - (?h + j) - 1)" "y = ?h + i" using i2 p l by (simp_all add: y_def)
      then show ?thesis using False i2 l j q_content_nth [of "Suc i" q] by (simp add: nth_append)
    qed
    finally show "q_content ?r ! i = (take j ?c @ drop (Suc j) ?c) ! i" .
  qed
qed

section \<open>The family route\<close>

definition view_family :: "view \<Rightarrow> u32" where
  "view_family v = (if 4 \<le> length (snd v) then drop_bit 16 (get32 (snd v) 0) else 0)"

lemma get32_bytes_upto: "4 \<le> n \<Longrightarrow> get32 (bytes_upto n d) 0 = get32 d 0"
  by (auto simp: get32_def byte_at_def bytes_upto_def nth_append)

lemma msg_family_view: "msg_family m = view_family (msg_view m)"
  by (simp add: msg_family_def view_family_def msg_view_def get32_bytes_upto)

lemma scan_family_first:
  assumes "ring_ok q" and "j < length (q_content q)" and "view_family (q_content q ! j) = fam"
    and "\<forall>i<j. view_family (q_content q ! i) \<noteq> fam"
  shows "scan_family (unat (q_tail q - q_head q)) (q_head q) fam q = Some (q_head q + of_nat j)"
proof -
  have n: "unat (q_tail q - q_head q) = length (q_content q)"
    using ring_used_unat [OF assms(1)] by (simp add: ring_used_def length_q_content)
  have ix: "ring_ix (q_head q + of_nat i) = (unat (q_head q) + i) mod QSLOTS" if "i < length (q_content q)" for i
    using ring_remove_content(1) [OF assms(1) that refl] by (simp add: ring_ix_def)
  have "scan_family (length (q_content q) - i) (q_head q + of_nat i) fam q = Some (q_head q + of_nat j)" if "i \<le> j" for i
    using that
  proof (induction "j - i" arbitrary: i)
    case 0
    then have "length (q_content q) - i = Suc (length (q_content q) - Suc i)" "i = j" using assms(2) by simp_all
    then show ?case using assms(2,3) q_content_nth [OF assms(2)] ix [OF assms(2)] by (simp add: msg_family_view)
  next
    case (Suc d)
    then have l: "length (q_content q) - i = Suc (length (q_content q) - Suc i)" "i < j" "i < length (q_content q)"
      using assms(2) by simp_all
    have "scan_family (length (q_content q) - Suc i) (q_head q + of_nat (Suc i)) fam q = Some (q_head q + of_nat j)"
      using Suc by (intro Suc.hyps(1)) simp_all
    moreover have "view_family (msg_view (q_msg q ! ((unat (q_head q) + i) mod QSLOTS))) \<noteq> fam"
      using assms(4) l(2) q_content_nth [OF l(3)] by auto
    moreover have "q_head q + of_nat i + 1 = q_head q + of_nat (Suc i)" by simp
    ultimately show ?case unfolding l(1) using ix [OF l(3)] by (simp add: msg_family_view add_ac)
  qed
  from this [of 0] show ?thesis using n by simp
qed

lemma ring_take_content:
  assumes ok: "ring_ok q" and j: "j < length (q_content q)"
  shows "q_content (ring_take (q_head q + of_nat j) q) = take j (q_content q) @ drop (Suc j) (q_content q)"
proof (cases "j = 0")
  case True
  then have "q_content q \<noteq> []" using j by auto
  then show ?thesis using True ring_pop_content(2) [OF ok] by (simp add: ring_take_def drop_Suc)
next
  case False
  note rm = ring_remove_content [OF ok j refl]
  then have "q_head q + of_nat j \<noteq> q_head q" using False by (metis add_cancel_right_right)
  then show ?thesis using rm(2) by (simp add: ring_take_def)
qed

text \<open>
  C17. With the family route on, a read of an \<open>Rts\<close> queue by a task whose last request was of a family
  returns the first message of that family, bytes and header, wherever it stands in the queue, and
  leaves all other messages in the queue in their order.
\<close>

theorem q_read_family:
  assumes route: "k_rts_family_route (qcf s)" "has_sub ''Rts'' (q_name (queues s ! k))"
    and off: "\<not> k_wm_timer (qcf s)" "\<not> j_replay (icf s)" "\<not> j_upd (icf s)" "i_deferred (injs s) = 0"
    and slot: "q_slot (sh s) i = Some k" and ok: "ring_ok (queues s ! k)"
    and me: "cached_self s = Some me" "task_slot (sh s) me = Some t" "t_last_req_family (tasks s ! t) = fam" "fam \<noteq> 0"
    and j: "j < length (q_content (queues s ! k))" "q_content (queues s ! k) ! j = (h, m)" "view_family (h, m) = fam"
      "\<forall>i<j. view_family (q_content (queues s ! k) ! i) \<noteq> fam"
    and fit: "length m \<le> unat maxsize" "length m < 2 ^ 31"
    and res: "q_read i True maxsize timeout True s = (out, s')"
  shows "out = RdRet (int (length m)) (Some m) (Some h) \<and>
    q_content (queues s' ! k) = take j (q_content (queues s ! k)) @ drop (Suc j) (q_content (queues s ! k))"
proof -
  let ?q = "queues s ! k" and ?pos = "q_head (queues s ! k) + of_nat j"
  have k: "k < length (queues s)" using q_slot_SomeD [OF slot] by simp
  note rm = ring_remove_content [OF ok j(1) refl]
  let ?m = "q_msg ?q ! ring_ix ?pos"
  have v: "msg_view ?m = (h, m)" using q_content_nth [OF j(1)] j(2) rm(1) by (simp add: ring_ix_def)
  then have mv: "m_hdr ?m = h" "bytes_upto (unat (m_len ?m)) (m_data ?m) = m" by (simp_all add: msg_view_def)
  then have n: "unat (m_len ?m) = length m" by (metis length_bytes_upto)
  have ne: "4 \<le> length m" using j(3) me(4) by (auto simp: view_family_def split: if_splits)
  have z: "m_len ?m \<noteq> 0" using n ne by auto
  have le: "\<not> maxsize < m_len ?m" using n fit(1) by (simp add: word_less_nat_alt)
  have t: "q_tail ?q \<noteq> q_head ?q" using j(1) by (auto simp: length_q_content)
  have pos: "read_pos k s = Some (Some ?pos)"
    using route me scan_family_first [OF ok j(1) _ j(4)] j(2,3) by (simp add: read_pos_def Let_def)
  have "q_read i True maxsize timeout True s = read_msg k i True maxsize True (errno s) ?pos s"
    using off slot t pos by (simp add: q_read_def q_read_pass_def)
  then have r: "(out, s') = read_msg k i True maxsize True (errno s) ?pos s" using res by simp
  have w: "wm_note i ?m (reset_streak k s) = reset_streak k s" using off by (simp add: wm_note_def)
  let ?s3 = "level_notify k (upd_queue k (ring_take ?pos) (reset_streak k s))"
  have d: "release_deferred x ?s3 = ?s3" "replay_trigger i k y ?s3 = ?s3" "inject_upd i k y ?s3 = ?s3" for x y
    using off by (simp_all add: release_deferred_def replay_trigger_def inject_upd_def)
  have e: "out = RdRet (int (length m)) (Some m) (Some h)" "s' = ?s3\<lparr>errno := errno s\<rparr>"
    using r le z n mv sint_unat_small [of "m_len ?m"] fit(2) by (simp_all add: read_msg_def Let_def w d)
  have "queues s' ! k = ring_take ?pos ?q" using k by (simp add: e(2))
  then show ?thesis using e(1) ring_take_content [OF ok j(1)] by simp
qed

section \<open>Examples\<close>

definition read_demo :: "view list \<Rightarrow> string \<Rightarrow> st" where
  "read_demo vs nm = boot 7 9\<lparr>sh := zero_ctl\<lparr>
     c_tasks := [zero_task\<lparr>t_used := True, t_id := 0x100, t_tgid := 7, t_tid := 9, t_last_req_family := 0x28a\<rparr>],
     c_queues := [fold ring_put vs (zero_queue\<lparr>q_used := True, q_id := 0x300, q_name := nm, q_owner := 0x100,
                            q_notify := 0x01000000\<rparr>)]\<rparr>,
     lo := proc_init\<lparr>p_tcache := replicate 128 (9, 0x100)\<rparr>\<rparr>"

lemma read_demo_simps:
  "plain_read (read_demo vs nm)" "plain (read_demo vs nm)" "errno (read_demo vs nm) = 0" "cached_self (read_demo vs nm) = Some 0x100"
  "task_slot (sh (read_demo vs nm)) 0x100 = Some 0" "q_slot (sh (read_demo [] nm)) 0x300 = Some 0"
  by (simp_all add: read_demo_def plain_read_def plain_def off_defs cached_self_def tcache_ix_less task_slot_def
      slot_of_def q_slot_def)

lemma read_demo_queue:
  assumes "length vs < 12" "list_all view_fits vs"
  shows "q_slot (sh (read_demo vs nm)) 0x300 = Some 0" and "ring_ok (queues (read_demo vs nm) ! 0)"
    and "q_content (queues (read_demo vs nm) ! 0) = vs" and "ring_cnt 1 (queues (read_demo [] nm) ! 0)"
    and "q_name (queues (read_demo vs nm) ! 0) = nm"
proof -
  let ?z = "zero_queue\<lparr>q_used := True, q_id := 0x300, q_name := nm, q_owner := 0x100, q_notify := 0x01000000\<rparr>"
  have z: "ring_ok ?z" "q_content ?z = []"
    by (simp_all add: zero_queue_def ring_ok_def q_content_def)
  have zc: "ring_cnt n ?z" if "n < 13" for n
    using that by (simp add: zero_queue_def ring_cnt_def)
  have "q_used (fold ring_put vs q) = q_used q \<and> q_id (fold ring_put vs q) = q_id q \<and> q_name (fold ring_put vs q) = q_name q" for q
    by (induction vs arbitrary: q) (simp_all add: ring_put_def ring_publish_def ring_store_def upd_slot_def ring_room_def)
  then show "q_slot (sh (read_demo vs nm)) 0x300 = Some 0" and "q_name (queues (read_demo vs nm) ! 0) = nm"
    by (simp_all add: read_demo_def q_slot_def slot_of_def)
  show "ring_ok (queues (read_demo vs nm) ! 0)" and "q_content (queues (read_demo vs nm) ! 0) = vs"
    using ring.burst [OF z(1) zc assms(2)] z assms(1) by (simp_all add: read_demo_def keep_last_short QSLOTS_def)
  show "ring_cnt 1 (queues (read_demo [] nm) ! 0)" using zc [of 1] by (simp add: read_demo_def)
qed

lemma q_read_too_big_witness:
  "fst (q_read 0x300 True 0 0 True (read_demo [((1, 2, 3), [10, 20])] ''X'')) = RdRet (-12) None None"
proof -
  have v: "length [((1::u32, 2::u32, 3::u32), [10::u8, 20])] < 12" "list_all view_fits [((1, 2, 3), [10, 20])]"
    by (simp_all add: view_fits_def QMSGCAP_def)
  have p: "\<not> k_rts_family_route (qcf (read_demo vs nm))" "\<not> k_wm_timer (qcf (read_demo vs nm))" for vs nm
    using read_demo_simps(1) [of vs nm] by (auto simp: plain_read_def)
  show ?thesis
    using q_read_too_big [OF p read_demo_queue(1,2) [OF v] read_demo_queue(3) [OF v], of 0 True 0 True] by simp
qed

lemma send_read_roundtrip_witness:
  "fst (q_read 0x300 True 100 0xffffffff True
      (snd (q_send 0x300 (Some [1, 2, 3]) (of_nat (length [1 :: u8, 2, 3])) 5 (read_demo [] ''X''))))
   = RdRet 3 (Some [1, 2, 3]) (Some (0x300, 0x100, 0x30005))"
proof -
  have self: "fst (task_self (read_demo [] ''X'')) = 0x100"
    using read_demo_simps(4) [of "[]" "''X''"]
    by (auto simp: cached_self_def task_self_def Let_def split: if_splits prod.splits)
  have e: "length [] < 12" "list_all view_fits []" by simp_all
  show ?thesis
    using send_read_roundtrip [OF read_demo_simps(2,1,6) read_demo_queue(2) [OF e] read_demo_queue(4) [OF e]
        read_demo_queue(3) [OF e], of "[1, 2, 3]" 100 5, OF _ _ _ prod.collapse [symmetric], of "0xffffffff"]
    by (simp add: QMSGCAP_def self send_hdr_def)
qed

definition lock_demo :: st where
  "lock_demo = (read_demo [((1, 2, 3), [10, 20])] ''Rts10a'')\<lparr>qcf := q_off\<lparr>k_rts_family_route := True\<rparr>, lo := proc_init\<rparr>"

lemma q_read_self_lock_witness:
  "fst (q_read 0x300 True 100 0 True lock_demo) = RdSelfLock"
proof (rule q_read_self_lock)
  have v: "length [((1::u32, 2::u32, 3::u32), [10::u8, 20])] < 12" "list_all view_fits [((1, 2, 3), [10, 20])]"
    by (simp_all add: view_fits_def QMSGCAP_def)
  have sh: "sh lock_demo = sh (read_demo [((1, 2, 3), [10, 20])] ''Rts10a'')" by (simp add: lock_demo_def)
  show "q_slot (sh lock_demo) 0x300 = Some 0" using read_demo_queue(1) [OF v] by (simp add: sh)
  have "has_sub ''Rts'' ''Rts10a''" by code_simp
  then show "has_sub ''Rts'' (q_name (queues lock_demo ! 0))" using read_demo_queue(5) [OF v] by (simp add: sh)
  show "q_tail (queues lock_demo ! 0) \<noteq> q_head (queues lock_demo ! 0)"
    using read_demo_queue(3) [OF v, of "''Rts10a''"] by (auto simp: sh q_content_def)
qed (simp_all add: lock_demo_def off_defs read_demo_def tcache_ix_less)

definition poll_demo :: st where
  "poll_demo = (read_demo [] ''WMQ00107'')\<lparr>qcf := q_off\<lparr>k_wmq_break := True, k_wmq_break_n := 3\<rparr>\<rparr>"

lemma wmq_break_exact_witness:
  "poll_empty 3 0 poll_demo = [RdRet (-0x35) None None, RdRet (-0x35) None None, RdRet (-0x6e) None None]"
proof -
  have "cached_self poll_demo = Some 0x100" "task_slot (sh poll_demo) 0x100 = Some 0"
    using read_demo_simps(4,5) [of "[]" "''WMQ00107''"] by (simp_all add: poll_demo_def cached_self_def)
  then show ?thesis
    using wmq_break_exact [of poll_demo 0 "0x100" 0]
    by (simp add: poll_demo_def off_defs read_demo_def has_prefix_def zero_task_def numeral_2_eq_2)
qed

definition family_demo :: st where
  "family_demo = (read_demo [((1, 2, 3), le32 0x00170100), ((4, 5, 6), le32 0x028a0120)] ''Rts10a'')
     \<lparr>qcf := q_off\<lparr>k_rts_family_route := True\<rparr>\<rparr>"

lemma q_read_family_witness:
  "fst (q_read 0x300 True 100 0 True family_demo) = RdRet 4 (Some (le32 0x028a0120)) (Some (4, 5, 6))"
proof -
  let ?vs = "[((1, 2, 3), le32 0x00170100), ((4, 5, 6), le32 0x028a0120)]"
  have v: "length ?vs < 12" "list_all view_fits ?vs" by (simp_all add: view_fits_def QMSGCAP_def)
  have sh: "sh family_demo = sh (read_demo ?vs ''Rts10a'')" and lo: "lo family_demo = lo (read_demo ?vs ''Rts10a'')"
    "me_tid family_demo = me_tid (read_demo ?vs ''Rts10a'')"
    by (simp_all add: family_demo_def)
  have c: "q_content (queues family_demo ! 0) = ?vs" using read_demo_queue(3) [OF v] by (simp add: sh)
  have f: "drop_bit 16 (0x28a0120 :: u32) = 0x28a" "drop_bit 16 (0x170100 :: u32) \<noteq> 0x28a"
    by code_simp+
  note q_read_family [where s = family_demo and k = 0 and me = "0x100" and t = 0 and j = 1 and fam = "0x28a"
      and i = "0x300" and maxsize = 100 and timeout = 0, OF _ _ _ _ _ _ _ _ _ _ _ _ _ _ _ _ _ _ prod.collapse [symmetric]]
  moreover have "has_sub ''Rts'' (q_name (queues family_demo ! 0))"
    using read_demo_queue(5) [OF v, of "''Rts10a''"] has_sub.simps(2) [of "''Rts''"]
    by (simp add: sh has_prefix_def)
  moreover have "cached_self family_demo = Some 0x100"
    using read_demo_simps(4) [of ?vs "''Rts10a''"] by (simp add: cached_self_def lo)
  moreover have "ring_ok (queues family_demo ! 0)" "q_slot (sh family_demo) 0x300 = Some 0"
    using read_demo_queue(1,2) [OF v] by (simp_all add: sh)
  moreover have "task_slot (sh family_demo) 0x100 = Some 0" "t_last_req_family (tasks family_demo ! 0) = 0x28a"
    using read_demo_simps(5) by (simp_all add: sh) (simp add: read_demo_def)
  ultimately show ?thesis
    using c f by (simp add: family_demo_def off_defs view_family_def read_demo_def)
qed

lemma q_read_takes_first_witness:
  "fst (q_read 0x300 True 100 0 True (read_demo [((1, 2, 3), [10, 20]), ((4, 5, 6), [30])] ''X''))
   = RdRet 2 (Some [10, 20]) (Some (1, 2, 3))"
proof -
  let ?vs = "[((1, 2, 3), [10, 20]), ((4, 5, 6), [30])]"
  have v: "length ?vs < 12" "list_all view_fits ?vs" by (simp_all add: view_fits_def QMSGCAP_def)
  show ?thesis
    using q_read_takes_first [OF read_demo_simps(1) read_demo_queue(1,2,3) [OF v], of 100 0, OF _ _ prod.collapse [symmetric]]
    by simp
qed

end
