(* ===== verification/EvReceive.thy ===== *)
theory EvReceive
  imports WmTimer Inject
begin

text \<open>
  \<open>ev_receive\<close>: the entry (the run-up fallback, the forced event, the timeout rewrites, the elapsed
  injection) and one turn of its loop, which returns, turns again, or sleeps on the task's event
  word.  A sleep ends by a wake, the given time or a signal; then the next turn runs.
\<close>

datatype ev_turn_result =
    EvRet u32
  | EvAgain                                \<comment> \<open>\<open>continue\<close>\<close>
  | EvSleep futex_word "int option"        \<comment> \<open>milliseconds, \<open>None\<close> for ever\<close>

record ev_wait =
  v_slot :: nat
  v_self :: u32
  v_want :: u32
  v_cond :: u32
  v_timeout :: u32
  v_synth :: bool
  v_deadline :: "timespec option"

definition FOREVER :: u32 where "FOREVER = 0xffffffff"

section \<open>The entry\<close>

definition runup_fallback :: "u32 \<Rightarrow> u32 \<Rightarrow> st \<Rightarrow> st" where
  "runup_fallback want timeout s =
     (if \<not> i_runup_done (injs s) \<and> timeout = FOREVER \<and> want AND 0x01010000 = 0x01010000
      then post_inject_reread (upd_inj (\<lambda>v. v\<lparr>i_runup_done := True\<rparr>) s) else s)"

definition ev_deadline :: "timespec \<Rightarrow> u32 \<Rightarrow> timespec" where
  "ev_deadline t timeout =
     (let n = unat timeout; sec = tv_sec t + int (n div 1000); nsec = tv_nsec t + int (n mod 1000) * 1000000 in
      if 1000000000 \<le> nsec then \<lparr>tv_sec = sec + 1, tv_nsec = nsec - 1000000000\<rparr>
      else \<lparr>tv_sec = sec, tv_nsec = nsec\<rparr>)"

text \<open>The timeout after the synthetic unblock and the cap, and whether the wait is synthetic.\<close>

definition ev_timeout :: "ev_cfg \<Rightarrow> u32 \<Rightarrow> u32 \<Rightarrow> u32 \<times> bool" where
  "ev_timeout c want timeout =
     (let syn = (timeout = FOREVER \<and> 0 < e_unblock_ms c \<and> (e_inject_want c = 0 \<or> want = e_inject_want c));
          t1 = (if syn then word_of_int (e_unblock_ms c) else timeout);
          t2 = (if 0 < e_timeout_cap c \<and> 10000 < unat t1 \<and> t1 \<noteq> FOREVER then word_of_int (e_timeout_cap c) else t1)
      in (t2, syn))"

text \<open>The event handed out once the awaited mask has been waited for longer than the set time.\<close>

definition ev_inject :: "u32 \<Rightarrow> st \<Rightarrow> u32 option \<times> st" where
  "ev_inject want s =
     (let c = ecf s in
      if e_inject_want c \<noteq> 0 \<and> want = e_inject_want c \<and> e_inject_bit c \<noteq> 0 \<and> 0 < e_unblock_ms c then
        let t0 = (case p_inj_t0 (lo s) of None \<Rightarrow> now s | Some t \<Rightarrow> t);
            s1 = s\<lparr>lo := (lo s)\<lparr>p_inj_t0 := Some t0\<rparr>\<rparr>
        in (if e_unblock_ms c < ms_between t0 (now s) then Some (want AND e_inject_bit c) else None, s1)
      else (None, s))"

definition ev_enter :: "u32 \<Rightarrow> u32 \<Rightarrow> u32 \<Rightarrow> st \<Rightarrow> (u32 + ev_wait) \<times> st" where
  "ev_enter want cond timeout s0 =
     (let (self, s) = task_self s0 in
      case task_slot (sh s) self of
        None \<Rightarrow> (Inl 0, s)
      | Some k \<Rightarrow>
          let s1 = runup_fallback want timeout (upd_task k (\<lambda>t. t\<lparr>t_last_ev_want := want\<rparr>) s);
              c = ecf s1; forced = want AND e_force_bit c
          in if e_force_task c \<noteq> 0 \<and> self = e_force_task c \<and> forced \<noteq> 0 then (Inl forced, ev_clear k forced s1)
             else
               let (t, syn) = ev_timeout c want timeout;
                   dl = (if t \<noteq> 0 \<and> t \<noteq> FOREVER then Some (ev_deadline (now s1) t) else None);
                   (r, s2) = ev_inject want s1
               in case r of
                    Some x \<Rightarrow> (Inl x, s2)
                  | None \<Rightarrow> (Inr \<lparr>v_slot = k, v_self = self, v_want = want, v_cond = cond, v_timeout = t,
                                 v_synth = syn, v_deadline = dl\<rparr>, s2))"

section \<open>One turn\<close>

definition events_of :: "st \<Rightarrow> nat \<Rightarrow> u32" where
  "events_of s k = t_events (tasks s ! k)"

definition raise_bits :: "nat \<Rightarrow> u32 \<Rightarrow> st \<Rightarrow> st" where
  "raise_bits k b s = upd_task k (\<lambda>t. t\<lparr>t_events := t_events t OR b\<rparr>) s"

text \<open>A poll that finds nothing; the spin counter saturates.\<close>

definition nowait_miss :: "nat \<Rightarrow> st \<Rightarrow> st" where
  "nowait_miss k s =
     (if 0 < e_nowait_yield (ecf s)
      then upd_task k (\<lambda>t. if t_nowait_miss t < 0x7fffffff then t\<lparr>t_nowait_miss := t_nowait_miss t + 1\<rparr> else t) s
      else s)"

text \<open>The sysevent bits a forever-wait fires for itself.\<close>

definition fire_mask :: "ev_wait \<Rightarrow> ev_cfg \<Rightarrow> u32" where
  "fire_mask w c = v_want w AND 0x00ff0000 AND e_firemask c AND NOT 0x00080000"

definition fire_on :: "ev_wait \<Rightarrow> ev_cfg \<Rightarrow> u32 \<Rightarrow> bool" where
  "fire_on w c fired \<longleftrightarrow> e_sysfire c \<and> v_timeout w = FOREVER \<and>
     \<not> (0 < e_firelimit c \<and> word_of_int (e_firelimit c) \<le> fired)"

definition fire_bits :: "ev_wait \<Rightarrow> st \<Rightarrow> u32" where
  "fire_bits w s =
     (if fire_on w (ecf s) (t_autofire_n (tasks s ! v_slot w)) \<and> events_of s (v_slot w) AND fire_mask w (ecf s) = 0
      then fire_mask w (ecf s) else 0)"

text \<open>The notify bits of non-empty queues the task owns and waits for.\<close>

definition level_bits :: "ev_wait \<Rightarrow> st \<Rightarrow> u32" where
  "level_bits w s =
     (if e_qnotify_level (ecf s) \<and> has_bits (v_want w) 0xff000000
      then foldr (OR) (map (\<lambda>q. if q_used q \<and> q_owner q = v_self w \<and> has_bits (q_notify q) (v_want w) \<and>
                               q_tail q \<noteq> q_head q then q_notify q AND v_want w else 0) (queues s)) 0
      else 0)"

text \<open>The task waits for the window-manager queue of an armed timer.\<close>

definition wm_waits :: "ev_wait \<Rightarrow> st \<Rightarrow> bool" where
  "wm_waits w s \<longleftrightarrow> k_wm_timer (qcf s) \<and> w_rq (wms s) \<noteq> 0 \<and> w_hs_done (wms s) \<and> w_timers (wms s) \<noteq> [] \<and>
     (case q_slot (sh s) (w_rq (wms s)) of
        None \<Rightarrow> False
      | Some q \<Rightarrow> q_owner (queues s ! q) = v_self w \<and> has_bits (q_notify (queues s ! q)) (v_want w))"

definition min_ms :: "int option \<Rightarrow> int \<Rightarrow> int option" where
  "min_ms t p = (case t of None \<Rightarrow> Some p | Some r \<Rightarrow> if p < r then Some p else Some r)"

text \<open>Before the sleep: re-assert queue levels, deliver a due tick, sleep.\<close>

definition ev_block :: "ev_wait \<Rightarrow> int option \<Rightarrow> st \<Rightarrow> ev_turn_result \<times> st" where
  "ev_block w rem s =
     (let k = v_slot w; cur = events_of s k; lv = level_bits w s in
      if lv \<noteq> 0 \<and> cur AND lv \<noteq> lv then (EvAgain, raise_bits k lv s)
      else if wm_waits w s then
        let s1 = wm_timer_maybe_tick s; nc = events_of s1 k in
        if nc AND v_want w \<noteq> 0 \<or> nc \<noteq> cur then (EvAgain, s1)
        else (EvSleep (FwEvents k) (min_ms rem (wm_timer_period_ms (w_timers (wms s1)))), s1)
      else (EvSleep (FwEvents k) rem, s))"

definition ev_turn :: "ev_wait \<Rightarrow> st \<Rightarrow> ev_turn_result \<times> st" where
  "ev_turn w s =
     (let k = v_slot w; want = v_want w; cur = events_of s k in
      if has_bits want 0x80000 \<and> c_orphan_tc (sh s) \<noteq> 0
      then (EvRet (want AND 0x80000), s\<lparr>sh := (sh s)\<lparr>c_orphan_tc := c_orphan_tc (sh s) - 1\<rparr>\<rparr>)
      else if ev_ok (v_cond w) cur want
      then (EvRet (cur AND want),
            evdev_reconcile (v_self w) (ev_clear k (cur AND want) (upd_task k (\<lambda>t. t\<lparr>t_nowait_miss := 0\<rparr>) s)))
      else if v_timeout w = 0 then (EvRet 0, nowait_miss k (evdev_reconcile (v_self w) s))
      else if fire_bits w s \<noteq> 0
      then (EvAgain, raise_bits k (fire_bits w s) (upd_task k (\<lambda>t. t\<lparr>t_autofire_n := t_autofire_n t + 1\<rparr>) s))
      else case v_deadline w of
             None \<Rightarrow> ev_block w None s
           | Some d \<Rightarrow>
               let rem = ms_between (now s) d in
               if rem \<le> 0
               then (EvRet (if v_synth w then (if e_inject_bit (ecf s) \<noteq> 0 then want AND e_inject_bit (ecf s) else want)
                            else cur AND want), s)
               else ev_block w (Some rem) s)"

text \<open>Turns until the call returns or sleeps.\<close>

fun ev_run :: "nat \<Rightarrow> ev_wait \<Rightarrow> st \<Rightarrow> (ev_turn_result \<times> st) option" where
  "ev_run 0 w s = None"
| "ev_run (Suc n) w s =
     (case ev_turn w s of (EvAgain, s') \<Rightarrow> ev_run n w s' | r \<Rightarrow> Some r)"

section \<open>Laws\<close>

lemma ev_clear_task [simp]:
  "k < length (tasks s) \<Longrightarrow> events_of (ev_clear k b s) k = events_of s k AND NOT b"
  by (simp add: events_of_def ev_clear_def)

lemma events_of_raise [simp]:
  "k < length (tasks s) \<Longrightarrow> events_of (raise_bits k b s) k = events_of s k OR b"
  by (simp add: events_of_def raise_bits_def)

lemma ms_long32: "long32 (long32 x + y) = long32 (x + y)"
  by (simp add: long32_def)

text \<open>
  The time left of a fresh deadline is the timeout read as a signed number: a finite timeout below
  \<open>2^31\<close> ms is waited for exactly, while one of \<open>2^31\<close> ms or more, other than the forever value, has a
  negative time left and expires at once.
\<close>

theorem ev_deadline_signed:
  assumes "0 \<le> tv_nsec t" and "tv_nsec t < 1000000000"
  shows "ms_between t (ev_deadline t timeout) = sint timeout"
proof -
  let ?n = "unat timeout"
  have n: "int ?n = int (?n div 1000) * 1000 + int (?n mod 1000)"
    by (metis div_mult_mod_eq of_nat_add of_nat_mult of_nat_numeral)
  have cd: "cdiv (x * 1000000) 1000000 = x" for x :: int
    by (simp add: cdiv_def abs_mult sgn_mult sgn_mult_abs)
  have s: "long32 (int ?n) = sint timeout" by (simp add: long32_def)
  show ?thesis
  proof (cases "1000000000 \<le> tv_nsec t + int (?n mod 1000) * 1000000")
    case True
    have c: "cdiv (int (?n mod 1000) * 1000000 - 1000000000) 1000000 = int (?n mod 1000) - 1000"
    proof -
      have "int (?n mod 1000) * 1000000 - 1000000000 = (int (?n mod 1000) - 1000) * 1000000" by simp
      then show ?thesis using cd by (simp only:)
    qed
    have "ms_between t (ev_deadline t timeout) = long32 ((int (?n div 1000) + 1) * 1000 + (int (?n mod 1000) - 1000))"
    proof -
      have a: "tv_sec t + int (?n div 1000) + 1 - tv_sec t = int (?n div 1000) + 1"
        "tv_nsec t + int (?n mod 1000) * 1000000 - 1000000000 - tv_nsec t = int (?n mod 1000) * 1000000 - 1000000000"
        by simp_all
      show ?thesis
        unfolding ms_between_def ev_deadline_def Let_def if_P [OF True] timespec.select_convs a c ms_long32 ..
    qed
    also have "(int (?n div 1000) + 1) * 1000 + (int (?n mod 1000) - 1000) = int ?n" using n by (simp only: algebra_simps)
    finally show ?thesis using s by simp
  next
    case False
    have c: "cdiv (int (?n mod 1000) * 1000000) 1000000 = int (?n mod 1000)"
      by (rule cd)
    have "ms_between t (ev_deadline t timeout) = long32 (int (?n div 1000) * 1000 + int (?n mod 1000))"
      using False c by (simp add: ms_between_def ev_deadline_def Let_def ms_long32)
    then show ?thesis using n s by simp
  qed
qed

lemma ev_deadline_signed_witness:
  "ms_between time0 (ev_deadline time0 2500) = 2500 \<and> ms_between time0 (ev_deadline time0 0x80000000) < 0"
  using ev_deadline_signed [of time0 2500] ev_deadline_signed [of time0 "0x80000000"]
  by (simp add: time0_def)

section \<open>No lost wakeup\<close>

lemma ev_clear_frame [simp]:
  "queues (ev_clear k b s) = queues s" "ecf (ev_clear k b s) = ecf s" "c_orphan_tc (sh (ev_clear k b s)) = c_orphan_tc (sh s)"
  by (simp_all add: ev_clear_def)

lemma ev_turn_sleepD:
  assumes "ev_turn w s = (EvSleep x t, s')"
  shows "x = FwEvents (v_slot w)" and "\<not> (has_bits (v_want w) 0x80000 \<and> c_orphan_tc (sh s) \<noteq> 0)"
    and "\<not> ev_ok (v_cond w) (events_of s (v_slot w)) (v_want w)" and "v_timeout w \<noteq> 0"
    and "s' = s \<or> s' = wm_timer_maybe_tick s"
  using assms by (auto simp: ev_turn_def ev_block_def Let_def split: if_splits option.splits)

lemma ev_turn_catch:
  assumes "\<not> (has_bits (v_want w) 0x80000 \<and> c_orphan_tc (sh s) \<noteq> 0)"
    and "ev_ok (v_cond w) (events_of s (v_slot w)) (v_want w)"
  shows "ev_turn w s = (EvRet (events_of s (v_slot w) AND v_want w),
    evdev_reconcile (v_self w) (ev_clear (v_slot w) (events_of s (v_slot w) AND v_want w)
      (upd_task (v_slot w) (\<lambda>t. t\<lparr>t_nowait_miss := 0\<rparr>) s)))"
  using assms by (auto simp: ev_turn_def Let_def)

lemma ev_turn_caught:
  assumes "\<not> (has_bits (v_want w) 0x80000 \<and> c_orphan_tc (sh s) \<noteq> 0)"
    and "ev_ok (v_cond w) (events_of s (v_slot w)) (v_want w)" and "v_slot w < length (tasks s)"
  shows "fst (ev_turn w s) = EvRet (events_of s (v_slot w) AND v_want w)"
    and "events_of (snd (ev_turn w s)) (v_slot w) = events_of s (v_slot w) AND NOT (v_want w)"
proof -
  let ?k = "v_slot w" and ?c = "events_of s (v_slot w) AND v_want w"
  show "fst (ev_turn w s) = EvRet ?c" by (simp add: ev_turn_catch [OF assms(1,2)])
  let ?u = "upd_task ?k (\<lambda>t. t\<lparr>t_nowait_miss := 0\<rparr>) s"
  have e: "events_of ?u ?k = events_of s ?k" using assms(3) by (simp add: events_of_def)
  have "events_of (snd (ev_turn w s)) ?k = events_of (ev_clear ?k ?c ?u) ?k"
    by (simp add: ev_turn_catch [OF assms(1,2)]) (simp add: events_of_def)
  also have "\<dots> = events_of s ?k AND NOT ?c" using assms(3) e by simp
  also have "\<dots> = events_of s ?k AND NOT (v_want w)" by (intro bit_word_eqI) (auto simp: bit_simps)
  finally show "events_of (snd (ev_turn w s)) ?k = events_of s ?k AND NOT (v_want w)" .
qed

text \<open>
  C18. No wakeup is lost: a task that goes to sleep in \<open>ev_receive\<close> waits for a condition its events
  did not meet and sleeps on its own event word; when a later \<open>ev_send\<close> raises bits that meet it, that
  word is woken, the next turn returns exactly the wanted events that are set, and these, and only
  these, are cleared.
\<close>

theorem ev_wakeup:
  assumes sleep: "ev_turn w s0 = (EvSleep x t, s)" and tick: "\<not> k_wm_timer (qcf s0)"
    and slot: "task_slot (sh s) (v_self w) = Some (v_slot w)"
    and snd_: "ev_send (v_self w) bits s = (r, s')"
    and ok: "ev_ok (v_cond w) (events_of s (v_slot w) OR bits) (v_want w)"
  shows "FxWake x \<in> set (fx s') \<and>
    fst (ev_turn w s') = EvRet ((events_of s (v_slot w) OR bits) AND v_want w) \<and>
    events_of (snd (ev_turn w s')) (v_slot w) = (events_of s (v_slot w) OR bits) AND NOT (v_want w)"
proof -
  let ?k = "v_slot w"
  note d = ev_turn_sleepD [OF sleep]
  have s: "s = s0" using d(5) tick by auto
  have k: "?k < length (tasks s)" using task_slot_SomeD [OF slot] by simp
  note st = ev_send_state(2,3) [OF slot, of bits, unfolded snd_ snd_conv]
  have e: "events_of s' ?k = events_of s ?k OR bits" using st(1) k by (simp add: events_of_def)
  have o: "\<not> (has_bits (v_want w) 0x80000 \<and> c_orphan_tc (sh s') \<noteq> 0)"
    using d(2) st(2) s by simp
  have "FxWake x \<in> set (fx s')"
    using snd_ slot d(1) by (auto simp: ev_send_def intro: reconcile_fx)
  then show ?thesis
    using ev_turn_caught [OF o] ok k e st(1) by simp
qed

section \<open>The turns end\<close>

lemma raise_frame [simp]:
  "queues (raise_bits k b s) = queues s" "ecf (raise_bits k b s) = ecf s" "qcf (raise_bits k b s) = qcf s"
  "lo (raise_bits k b s) = lo s" "now (raise_bits k b s) = now s" "length (tasks (raise_bits k b s)) = length (tasks s)"
  "c_orphan_tc (sh (raise_bits k b s)) = c_orphan_tc (sh s)"
  by (simp_all add: raise_bits_def)

lemma autofire_raise [simp]: "t_autofire_n (tasks (raise_bits k b s) ! k) = t_autofire_n (tasks s ! k)"
  by (cases "k < length (tasks s)") (simp_all add: raise_bits_def list_update_beyond)

lemma level_bits_queues: "queues s' = queues s \<Longrightarrow> ecf s' = ecf s \<Longrightarrow> level_bits w s' = level_bits w s"
  by (simp add: level_bits_def)

lemma ev_block_decides:
  assumes "\<not> k_wm_timer (qcf s)" and "events_of s (v_slot w) AND level_bits w s = level_bits w s"
  shows "fst (ev_block w rem s) \<noteq> EvAgain"
  using assms by (simp add: ev_block_def Let_def wm_waits_def)

lemma ev_turn_again:
  assumes "\<not> k_wm_timer (qcf s)" and "ev_turn w s = (EvAgain, s')"
  shows "(fire_bits w s \<noteq> 0 \<and> s' = raise_bits (v_slot w) (fire_bits w s) (upd_task (v_slot w) (\<lambda>t. t\<lparr>t_autofire_n := t_autofire_n t + 1\<rparr>) s))
    \<or> (fire_bits w s = 0 \<and> level_bits w s \<noteq> 0 \<and> s' = raise_bits (v_slot w) (level_bits w s) s)"
  using assms by (auto simp: ev_turn_def ev_block_def wm_waits_def Let_def split: if_splits option.splits)

lemma fire_bits_gone:
  assumes "events_of s' (v_slot w) AND fire_bits w s = fire_bits w s" and "fire_bits w s \<noteq> 0" and "ecf s' = ecf s"
  shows "fire_bits w s' = 0"
  using assms by (auto simp: fire_bits_def split: if_splits)

lemma fire_bits_mono:
  assumes "fire_bits w s = 0" and "events_of s' (v_slot w) = events_of s (v_slot w) OR b" and "ecf s' = ecf s"
    and "t_autofire_n (tasks s' ! v_slot w) = t_autofire_n (tasks s ! v_slot w)"
  shows "fire_bits w s' = 0"
proof -
  have "x AND y = 0" if "(x OR b) AND y = 0" for x y :: u32
    using that by (simp add: bit.conj_disj_distrib2 or_eq_0_iff)
  then show ?thesis
    using assms by (cases "fire_mask w (ecf s) = 0") (auto simp: fire_bits_def split: if_splits)
qed

lemma ev_run_step: "fst (ev_turn w s) \<noteq> EvAgain \<Longrightarrow> ev_run (Suc n) w s = Some (ev_turn w s)"
  by (cases "ev_turn w s"; cases "fst (ev_turn w s)") auto

lemma ev_run_again: "ev_turn w s = (EvAgain, s') \<Longrightarrow> ev_run (Suc n) w s = ev_run n w s'"
  by simp

lemma again_fires_no_more:
  assumes "\<not> k_wm_timer (qcf s)" and "v_slot w < length (tasks s)" and t: "ev_turn w s = (EvAgain, u)"
  shows "fire_bits w u = 0 \<and> \<not> k_wm_timer (qcf u) \<and> v_slot w < length (tasks u) \<and>
    (fire_bits w s = 0 \<longrightarrow> u = raise_bits (v_slot w) (level_bits w s) s)"
proof (cases "fire_bits w s = 0")
  case True
  then have u: "u = raise_bits (v_slot w) (level_bits w s) s" using ev_turn_again [OF assms(1) t] by auto
  have "fire_bits w u = 0"
    using assms(2) by (intro fire_bits_mono [OF True, of u "level_bits w s"]) (simp_all add: u)
  then show ?thesis using assms(1,2) u by simp
next
  case False
  then have u: "u = raise_bits (v_slot w) (fire_bits w s)
      (upd_task (v_slot w) (\<lambda>t. t\<lparr>t_autofire_n := t_autofire_n t + 1\<rparr>) s)"
    using ev_turn_again [OF assms(1) t] by auto
  have "events_of u (v_slot w) = events_of s (v_slot w) OR fire_bits w s"
    using assms(2) by (simp add: u) (simp add: events_of_def)
  then have "events_of u (v_slot w) AND fire_bits w s = fire_bits w s" by simp
  then have "fire_bits w u = 0" using False by (rule fire_bits_gone) (simp add: u)
  then show ?thesis using False assms(1,2) u by simp
qed

text \<open>A turn that fires nothing and whose levels are all raised returns or sleeps.\<close>

lemma turn_decides:
  assumes "\<not> k_wm_timer (qcf u)" and "fire_bits w u = 0"
    and "events_of u (v_slot w) AND level_bits w u = level_bits w u"
  shows "fst (ev_turn w u) \<noteq> EvAgain"
  using ev_block_decides [OF assms(1,3)] assms(2) by (auto simp: ev_turn_def Let_def split: option.splits)

lemma two_turns_decide:
  assumes u: "fire_bits w u = 0" "\<not> k_wm_timer (qcf u)" "v_slot w < length (tasks u)"
  shows "\<exists>r s'. ev_run 2 w u = Some (r, s') \<and> r \<noteq> EvAgain"
proof (cases "fst (ev_turn w u) = EvAgain")
  case True
  then obtain u' where t: "ev_turn w u = (EvAgain, u')" by (cases "ev_turn w u") auto
  have u': "u' = raise_bits (v_slot w) (level_bits w u) u" "fire_bits w u' = 0"
    using again_fires_no_more [OF u(2,3) t] u(1) by auto
  have lv: "level_bits w u' = level_bits w u" by (rule level_bits_queues) (simp_all add: u'(1))
  have "events_of u' (v_slot w) AND level_bits w u' = level_bits w u'"
    unfolding lv using u(3) by (simp add: u'(1))
  then have "fst (ev_turn w u') \<noteq> EvAgain" using u(2) u'(2) by (intro turn_decides) (simp_all add: u'(1))
  then show ?thesis
    using ev_run_step [of w u' 0] ev_run_again [OF t, of 1] by (cases "ev_turn w u'") (simp add: numeral_2_eq_2)
next
  case False
  then show ?thesis using ev_run_step [of w u 1] by (cases "ev_turn w u") (simp add: numeral_2_eq_2)
qed

text \<open>
  C19. The loop of \<open>ev_receive\<close> does not spin: without the window-manager timer it returns or sleeps
  after at most three turns, whatever the event words, the queues and the other switches are.
\<close>

theorem ev_run_decides:
  assumes "\<not> k_wm_timer (qcf s)" and "v_slot w < length (tasks s)"
  shows "\<exists>r s'. ev_run 3 w s = Some (r, s') \<and> r \<noteq> EvAgain"
proof (cases "fst (ev_turn w s) = EvAgain")
  case False
  then show ?thesis using ev_run_step [of w s 2] by (cases "ev_turn w s") (simp add: numeral_3_eq_3 numeral_2_eq_2)
next
  case True
  then obtain u where t: "ev_turn w s = (EvAgain, u)" by (cases "ev_turn w s") auto
  have u: "fire_bits w u = 0" "\<not> k_wm_timer (qcf u)" "v_slot w < length (tasks u)"
    using again_fires_no_more [OF assms t] by simp_all
  then show ?thesis
    using two_turns_decide [of w u] ev_run_again [OF t, of 2] by (simp add: numeral_3_eq_3 numeral_2_eq_2)
qed

text \<open>
  With the window-manager timer on it does spin: a task that waits for ALL of several events with
  no time limit, has one of them, and owns the window-manager queue, never sleeps while no tick is due;
  every turn ends in another one from the same state, whatever the number of turns.
\<close>

theorem ev_run_spins:
  assumes "wm_waits w s" and "\<not> tick_due s" and "events_of s (v_slot w) AND v_want w \<noteq> 0"
    and "\<not> ev_ok (v_cond w) (events_of s (v_slot w)) (v_want w)" and "v_timeout w = FOREVER" and "v_deadline w = None"
    and "\<not> e_sysfire (ecf s)" and "\<not> e_qnotify_level (ecf s)" and "c_orphan_tc (sh s) = 0"
  shows "ev_run n w s = None"
proof -
  have "wm_timer_maybe_tick s = s" using assms(2) by (simp add: wm_timer_maybe_tick_def)
  then have "ev_turn w s = (EvAgain, s)"
    using assms by (simp add: ev_turn_def ev_block_def fire_bits_def fire_on_def level_bits_def Let_def FOREVER_def)
  then show ?thesis by (induction n) simp_all
qed


section \<open>Examples\<close>

definition wait_demo :: ev_wait where
  "wait_demo = \<lparr>v_slot = 0, v_self = 0x100, v_want = 0x01000001, v_cond = 2, v_timeout = FOREVER,
     v_synth = False, v_deadline = None\<rparr>"

lemma wait_demo_sleeps: "ev_turn wait_demo send_demo = (EvSleep (FwEvents 0) None, send_demo)"
  by (simp add: ev_turn_def ev_block_def wait_demo_def send_demo_def Let_def has_bits_def ev_ok_def
      events_of_def zero_task_def fire_bits_def fire_on_def level_bits_def wm_waits_def off_defs FOREVER_def)

lemma ev_wakeup_witness:
  "fst (ev_turn wait_demo (snd (ev_send 0x100 1 send_demo))) = EvRet 1"
proof -
  have "task_slot (sh send_demo) (v_self wait_demo) = Some (v_slot wait_demo)"
    by (simp add: send_demo_def wait_demo_def task_slot_def slot_of_def)
  then show ?thesis
    using ev_wakeup [OF wait_demo_sleeps, where bits = 1, OF _ _ prod.collapse [symmetric]]
    by (simp add: wait_demo_def send_demo_def ev_ok_def events_of_def zero_task_def off_defs)
qed

lemma ev_run_decides_witness: "\<exists>r s'. ev_run 3 wait_demo send_demo = Some (r, s') \<and> r \<noteq> EvAgain"
  by (rule ev_run_decides) (simp_all add: send_demo_def wait_demo_def off_defs)

definition spin_demo :: st where
  "spin_demo = send_demo\<lparr>qcf := q_off\<lparr>k_wm_timer := True\<rparr>,
     lo := proc_init\<lparr>p_wm := wm_init\<lparr>w_rq := 0x300, w_hs_done := True,
        w_timers := [\<lparr>w_replyq = 0x300, w_timerid = 1, w_period = 55\<rparr>]\<rparr>\<rparr>,
     sh := (sh send_demo)\<lparr>c_tasks := [zero_task\<lparr>t_used := True, t_id := 0x100, t_events := 1\<rparr>]\<rparr>\<rparr>"

lemma ev_run_spins_witness: "ev_run n (wait_demo\<lparr>v_cond := 1\<rparr>) spin_demo = None"
proof (rule ev_run_spins)
  have q: "q_slot (sh spin_demo) 0x300 = Some 0"
    by (simp add: spin_demo_def send_demo_def q_slot_def slot_of_def)
  show "wm_waits (wait_demo\<lparr>v_cond := 1\<rparr>) spin_demo"
    using q by (simp add: wm_waits_def) (simp add: spin_demo_def send_demo_def wait_demo_def has_bits_def off_defs)
  show "\<not> tick_due spin_demo"
    by (simp add: tick_due_def Let_def spin_demo_def off_defs send_demo_def ms_between_def long32_def cdiv_def
        wm_timer_period_ms_def)
qed (simp_all add: spin_demo_def send_demo_def wait_demo_def events_of_def ev_ok_def off_defs FOREVER_def zero_ctl_def)

end
