(* ===== verification/Semaphores.thy ===== *)
theory Semaphores
  imports Tasks Events
begin

text \<open>
  Counting semaphores: \<open>sem_make\<close>, \<open>sem_ident\<close> with its automatic creation, one pass of the loop
  of \<open>sem_request\<close>, and \<open>sem_release\<close>.
\<close>

definition sem_slot :: "ctl \<Rightarrow> u32 \<Rightarrow> nat option" where
  "sem_slot c i = slot_of s_used s_id (c_sems c) i"

definition new_sem :: "string \<Rightarrow> i32 \<Rightarrow> u32 \<Rightarrow> sem \<Rightarrow> sem" where
  "new_sem nm n i e = e\<lparr>s_used := True, s_id := i, s_count := n, s_name := name_store nm\<rparr>"

definition sem_named :: "string \<Rightarrow> sem \<Rightarrow> bool" where
  "sem_named nm e \<longleftrightarrow> s_used e \<and> name_eq (s_name e) nm"

definition sem_make :: "string option \<Rightarrow> i32 \<Rightarrow> st \<Rightarrow> u32 \<times> st" where
  "sem_make nm n s =
     (let name = (case nm of Some x \<Rightarrow> x | None \<Rightarrow> []) in
      case (if name \<noteq> [] then find_index (sem_named name) (sems s) else None) of
        Some k \<Rightarrow> (s_id (sems s ! k), s)
      | None \<Rightarrow>
          (case free_slot s_used (sems s) of
             None \<Rightarrow> (0, s)
           | Some k \<Rightarrow>
               let i = c_next_sem (sh s)
               in (i, upd_sem k (new_sem name n i) (s\<lparr>sh := (sh s)\<lparr>c_next_sem := i + 1\<rparr>\<rparr>))))"

definition sem_ident :: "string \<Rightarrow> st \<Rightarrow> u32 \<times> st" where
  "sem_ident nm s =
     (case find_index (sem_named nm) (sems s) of
        Some k \<Rightarrow> (s_id (sems s ! k), s)
      | None \<Rightarrow> if k_autocreate (qcf s) \<and> nm \<noteq> [] then sem_make (Some nm) (e_sem_autocount (ecf s)) s
                else (0, s))"

text \<open>Zero units count as one, in both directions.\<close>

definition sem_units :: "u32 \<Rightarrow> u32" where
  "sem_units u = (if u = 0 then 1 else u)"

text \<open>
  One pass of \<open>sem_request\<close>; \<open>waited\<close> is set once a pass has slept under
  \<open>HEROSCALL_SEM_FORCE_OK\<close>.
\<close>

definition sem_request_pass :: "u32 \<Rightarrow> u32 \<Rightarrow> u32 \<Rightarrow> bool \<Rightarrow> st \<Rightarrow> int poll \<times> st" where
  "sem_request_pass i units timeout waited s =
     (case sem_slot (sh s) i of
        None \<Rightarrow> (Ret (-7), s)
      | Some k \<Rightarrow>
          let u = sem_units units; c = s_count (sems s ! k) in
          if sint c \<ge> sint u then (Ret 0, upd_sem k (\<lambda>e. e\<lparr>s_count := c - u\<rparr>) s)
          else if timeout = 0 then (Ret (-0x3d), s)
          else if e_sem_force_ms (ecf s) > 0 \<and> waited then (Ret 0, s)
          else let eff = (if e_sem_force_ms (ecf s) > 0 then word_of_int (e_sem_force_ms (ecf s))
                          else timeout)
               in (Sleep (FwSem k) (if eff = 0xffffffff then None else Some (uint eff)), s))"

definition sem_release :: "u32 \<Rightarrow> u32 \<Rightarrow> st \<Rightarrow> int \<times> st" where
  "sem_release i units s =
     (case sem_slot (sh s) i of
        None \<Rightarrow> (-7, s)
      | Some k \<Rightarrow>
          (0, emit (FxWake (FwSem k))
                (upd_sem k (\<lambda>e. e\<lparr>s_count := s_count e + sem_units units\<rparr>) s)))"

section \<open>Names and ids\<close>

interpretation sem_reg: id_registry s_used s_id "new_sem nm n" for nm n
  by unfold_locales (simp_all add: new_sem_def)

definition sems_ok :: "ctl \<Rightarrow> bool" where
  "sems_ok c \<longleftrightarrow> c_next_sem c \<noteq> 0 \<and> ids_ok s_used s_id (c_next_sem c) (c_sems c)"

lemma upd_sem_sel [simp]:
  "lo (upd_sem i f s) = lo s" "ecf (upd_sem i f s) = ecf s" "qcf (upd_sem i f s) = qcf s"
  "fx (upd_sem i f s) = fx s" "sems (upd_sem i f s) = (sems s)[i := f (sems s ! i)]"
  "queues (upd_sem i f s) = queues s" "tasks (upd_sem i f s) = tasks s"
  "c_next_sem (sh (upd_sem i f s)) = c_next_sem (sh s)"
  by (simp_all add: upd_sem_def)

lemma sem_slot_SomeD:
  "sem_slot c i = Some k \<Longrightarrow> k < length (c_sems c) \<and> s_used (c_sems c ! k) \<and> s_id (c_sems c ! k) = i"
  unfolding sem_slot_def by (rule slot_of_SomeD)

lemma sem_slot_upd_count:
  assumes "k < length (sems s)"
  shows "sem_slot (sh (upd_sem k (\<lambda>e. e\<lparr>s_count := f e\<rparr>) s)) i = sem_slot (sh s) i"
  using assms by (simp add: sem_slot_def slot_of_update)

text \<open>
  Creating a semaphore keeps the table well formed and makes the name resolvable: \<open>sem_ident\<close>
  of the name answers the id that \<open>sem_make\<close> answered, in the state it left, and creating it again
  (with any count) answers the same id and changes nothing.
\<close>

theorem sem_make_resolves:
  assumes ok: "sems_ok (sh s)" "c_next_sem (sh s) + 1 \<noteq> 0" and nm: "nm \<noteq> []"
    and room: "free_slot s_used (sems s) \<noteq> None" and res: "sem_make (Some nm) n s = (i, s')"
  shows "sems_ok (sh s') \<and> i \<noteq> 0 \<and> sem_ident nm s' = (i, s') \<and> sem_make (Some nm) m s' = (i, s')"
proof (cases "find_index (sem_named nm) (sems s)")
  case (Some k)
  then have "k < length (sems s)" "s_used (sems s ! k)"
    using find_index_less [OF Some] find_index_holds [OF Some] by (auto simp: sem_named_def)
  then have "s_id (sems s ! k) \<noteq> 0" using ok(1) by (auto simp: sems_ok_def ids_ok_def)
  then show ?thesis using Some res nm ok by (auto simp: sem_make_def sem_ident_def)
next
  case None
  obtain k where free: "free_slot s_used (sems s) = Some k" using room by auto
  have k: "k < length (sems s)" using free_slot_SomeD [OF free] by simp
  let ?n = "c_next_sem (sh s)"
  have ids: "ids_ok s_used s_id ?n (sems s)" "?n \<noteq> 0" using ok(1) by (auto simp: sems_ok_def)
  have i: "i = ?n" and s': "sems s' = (sems s)[k := new_sem nm n ?n (sems s ! k)]"
    and nx: "c_next_sem (sh s') = ?n + 1"
    using res None nm free by (auto simp: sem_make_def upd_sem_def Let_def)
  have "sems_ok (sh s')"
    using sem_reg.alloc_ids_ok [OF ids ok(2) free, of nm n] ok(2) by (simp add: sems_ok_def s' nx)
  moreover have found: "find_index (sem_named nm) (sems s') = Some k"
    unfolding s' using None k by (rule find_index_fresh) (simp add: sem_named_def new_sem_def)
  moreover have "s_id (sems s' ! k) = i" using k by (simp add: s' i new_sem_def)
  ultimately show ?thesis using nm i ids by (auto simp: sem_ident_def sem_make_def)
qed

lemma boot_sems_ok: "sems_ok (sh (boot g t))"
  by (simp add: sems_ok_def ids_ok_zero zero_sem_def)

lemma sem_make_resolves_witness:
  "fst (sem_ident ''NcInit'' (snd (sem_make (Some ''NcInit'') 3 (boot 7 7))))
   = fst (sem_make (Some ''NcInit'') 3 (boot 7 7))"
  using sem_make_resolves [OF boot_sems_ok _ _ _ prod.collapse [symmetric], of 7 7 "''NcInit''" 3]
  by (simp add: table_simps zero_sem_def MAXSEM_def)

section \<open>Units\<close>

text \<open>\<open>grants m\<close> makes \<open>m\<close> requests of one unit without waiting and counts the granted ones.\<close>

fun grants :: "nat \<Rightarrow> u32 \<Rightarrow> st \<Rightarrow> nat \<times> st" where
  "grants 0 i s = (0, s)"
| "grants (Suc m) i s =
     (case sem_request_pass i 1 0 False s of
        (Ret r, s1) \<Rightarrow> (case grants m i s1 of (g, s2) \<Rightarrow> (if r = 0 then Suc g else g, s2))
      | (Sleep w t, s1) \<Rightarrow> grants m i s1)"

lemma request_one:
  assumes "sem_slot (sh s) i = Some k"
  shows "sem_request_pass i 1 0 False s =
     (if sint (s_count (sems s ! k)) \<ge> 1
      then (Ret 0, upd_sem k (\<lambda>e. e\<lparr>s_count := s_count (sems s ! k) - 1\<rparr>) s)
      else (Ret (-0x3d), s))"
  using assms by (simp add: sem_request_pass_def sem_units_def)

lemma sint_dec:
  fixes c :: i32
  assumes "1 \<le> sint c"
  shows "sint (c - 1) = sint c - 1"
proof -
  have "sint (c - 1) = signed_take_bit 31 (sint c - 1)" by (simp add: sint_word_ariths)
  moreover have "sint c < 2 ^ 31" using sint_lt [of c] by simp
  ultimately show ?thesis using assms by (simp add: signed_take_bit_int_eq_self)
qed

lemma grants_count:
  assumes "sem_slot (sh s) i = Some k" and "0 \<le> sint (s_count (sems s ! k))"
  shows "fst (grants m i s) = min m (nat (sint (s_count (sems s ! k))))"
  using assms
proof (induction m arbitrary: s)
  case 0
  then show ?case by simp
next
  case (Suc m)
  have k: "k < length (sems s)" using sem_slot_SomeD [OF Suc.prems(1)] by simp
  let ?c = "s_count (sems s ! k)"
  let ?s1 = "upd_sem k (\<lambda>e. e\<lparr>s_count := ?c - 1\<rparr>) s"
  show ?case
  proof (cases "1 \<le> sint ?c")
    case True
    have "sem_slot (sh ?s1) i = Some k" using Suc.prems(1) k by (simp add: sem_slot_upd_count)
    moreover have "s_count (sems ?s1 ! k) = ?c - 1" using k by simp
    ultimately have "fst (grants m i ?s1) = min m (nat (sint (?c - 1)))"
      using Suc.IH [of ?s1] True by (simp add: sint_dec)
    moreover have "nat (sint ?c) = Suc (nat (sint (?c - 1)))"
      using True by (simp add: sint_dec)
    ultimately show ?thesis
      using True request_one [OF Suc.prems(1)] by (cases "grants m i ?s1") simp
  next
    case False
    then have "fst (grants m i s) = 0" using Suc.IH [of s] Suc.prems by simp
    then show ?thesis
      using False Suc.prems request_one [OF Suc.prems(1)] by (cases "grants m i s") simp
  qed
qed

text \<open>
  C8. The subsystem barrier: after \<open>sem_release\<close> of \<open>n\<close> units on a semaphore with count 0, exactly
  \<open>n\<close> of any number of one-unit requests are granted, the rest would block, and the sleepers were
  woken.
\<close>

theorem sem_release_barrier:
  assumes slot: "sem_slot (sh s) i = Some k" and zero: "s_count (sems s ! k) = 0"
    and n: "0 < n" "n < 2 ^ 31" and res: "sem_release i (of_nat n) s = (r, s')"
  shows "r = 0 \<and> FxWake (FwSem k) \<in> set (fx s') \<and> fst (grants m i s') = min m n"
proof -
  have k: "k < length (sems s)" using sem_slot_SomeD [OF slot] by simp
  have un: "unat (of_nat n :: u32) = n" using n by (simp add: unat_of_nat take_bit_eq_mod)
  then have u: "sem_units (of_nat n) = of_nat n" using n by (auto simp: sem_units_def)
  have s': "s' = emit (FxWake (FwSem k)) (upd_sem k (\<lambda>e. e\<lparr>s_count := s_count e + of_nat n\<rparr>) s)"
    and r: "r = 0" using res slot u by (auto simp: sem_release_def)
  have "sint (of_nat n :: i32) = int n"
    using n by (simp add: signed_of_nat signed_take_bit_int_eq_self)
  then have cnt: "sint (s_count (sems s' ! k)) = int n" using k zero by (simp add: s')
  have "sem_slot (sh s') i = Some k" using slot k by (simp add: s' sem_slot_upd_count)
  then have "fst (grants m i s') = min m n" using grants_count [of s' i k m] cnt by simp
  then show ?thesis using r by (simp add: s')
qed

definition sem_demo :: "i32 \<Rightarrow> st" where
  "sem_demo n = boot 7 7\<lparr>sh := zero_ctl\<lparr>c_sems := [zero_sem\<lparr>s_used := True, s_id := 0x200, s_count := n\<rparr>]\<rparr>\<rparr>"

lemma sem_demo_simps:
  "sem_slot (sh (sem_demo n)) 0x200 = Some 0" "s_count (sems (sem_demo n) ! 0) = n"
  "ecf (sem_demo n) = ev_off"
  by (simp_all add: sem_demo_def sem_slot_def slot_of_def zero_sem_def)

lemma sem_release_barrier_witness:
  "fst (grants 9 0x200 (snd (sem_release 0x200 6 (sem_demo 0)))) = 6"
  using sem_release_barrier [OF sem_demo_simps(1,2), where n = 6 and m = 9, OF _ _ prod.collapse [symmetric]]
  by simp

text \<open>
  A granted request is honest: with the forced-success switch off, and a unit count below
  \<open>2^31\<close>, \<open>sem_request\<close> succeeds only when the count covers the units, takes exactly them, leaves
  the count non-negative, and touches no other semaphore; with a nonzero timeout it never answers
  the would-block error, it sleeps on the semaphore's count instead (no timeout is ever reported).
\<close>

theorem sem_request_grant:
  assumes slot: "sem_slot (sh s) i = Some k" and noforce: "e_sem_force_ms (ecf s) \<le> 0"
    and u: "0 < sint (sem_units units)" and res: "sem_request_pass i units timeout waited s = (p, s')"
  shows "(p = Ret 0 \<longrightarrow> sint (sem_units units) \<le> sint (s_count (sems s ! k)) \<and>
            sint (s_count (sems s' ! k)) = sint (s_count (sems s ! k)) - sint (sem_units units) \<and>
            (\<forall>j. j \<noteq> k \<longrightarrow> sems s' ! j = sems s ! j)) \<and>
         (p \<noteq> Ret 0 \<longrightarrow> s' = s \<and> (timeout \<noteq> 0 \<longrightarrow> (\<exists>t. p = Sleep (FwSem k) t)))"
proof -
  have k: "k < length (sems s)" using sem_slot_SomeD [OF slot] by simp
  let ?c = "s_count (sems s ! k)" and ?u = "sem_units units"
  have sub: "sint (?c - ?u) = sint ?c - sint ?u" if "sint ?u \<le> sint ?c"
  proof -
    have "sint (?c - ?u) = signed_take_bit 31 (sint ?c - sint ?u)" by (simp add: sint_word_ariths)
    moreover have "sint ?c < 2 ^ 31" using sint_lt [of ?c] by simp
    ultimately show ?thesis using that u by (simp add: signed_take_bit_int_eq_self)
  qed
  show ?thesis
    using res slot noforce k sub by (auto simp: sem_request_pass_def Let_def split: if_splits)
qed

lemma sem_request_grant_witness:
  "sint (s_count (sems (snd (sem_request_pass 0x200 2 100 False (sem_demo 3))) ! 0)) = 1"
proof -
  have "fst (sem_request_pass 0x200 2 100 False (sem_demo 3)) = Ret 0"
    using sem_demo_simps [of 3] by (simp add: sem_request_pass_def sem_units_def)
  then show ?thesis
    using sem_request_grant [OF sem_demo_simps(1) _ _ prod.collapse [symmetric], of 3 2 100 False]
      sem_demo_simps(2) [of 3]
    by (simp add: sem_demo_simps(3) ev_off_def sem_units_def)
qed

text \<open>
  The unit count is compared as a signed 32-bit number: a request for \<open>2^31\<close> units or more is
  granted at once on any semaphore with a non-negative count.
\<close>

theorem sem_request_signed_units:
  assumes "sem_slot (sh s) i = Some k" and "0 \<le> sint (s_count (sems s ! k))"
    and "sint units < 0"
  shows "fst (sem_request_pass i units timeout waited s) = Ret 0"
  using assms by (auto simp: sem_request_pass_def sem_units_def)

lemma sem_request_signed_units_witness:
  "fst (sem_request_pass 0x200 0x80000000 5 False (sem_demo 0)) = Ret 0"
  using sem_request_signed_units [OF sem_demo_simps(1), of 0 "0x80000000" 5 False]
  by (simp add: sem_demo_simps)

end
