(* ===== verification/Regions.thy ===== *)
theory Regions
  imports Segment
begin

text \<open>
  Named shared memory: \<open>reg_ident\<close> (a region is identified or made by its name), \<open>reg_attach\<close> with
  the per-process cache of mappings, and the name of the backing file.  Opening and mapping that file
  is the host's work and a parameter: \<open>hmap path size\<close> is the address, \<open>None\<close> when it fails.
\<close>

definition REGION_BYTES :: u32 where "REGION_BYTES = 64 * 1024 * 1024"
definition REGNAMELEN :: nat where "REGNAMELEN = 20"

definition region_named :: "string \<Rightarrow> region \<Rightarrow> bool" where
  "region_named nm r \<longleftrightarrow> r_used r \<and> r_name r = nm"

definition new_region :: "string \<Rightarrow> u32 \<Rightarrow> region \<Rightarrow> region" where
  "new_region nm i r = r\<lparr>r_used := True, r_id := i, r_size := REGION_BYTES, r_name := take (REGNAMELEN - 1) nm\<rparr>"

text \<open>The whole name is compared, but only 19 characters of it are stored.\<close>

definition reg_ident :: "string \<Rightarrow> st \<Rightarrow> u32 \<times> st" where
  "reg_ident nm s =
     (case find_index (region_named nm) (regs s) of
        Some k \<Rightarrow> (r_id (regs s ! k), s)
      | None \<Rightarrow>
          (case free_slot r_used (regs s) of
             None \<Rightarrow> (- 2, s)
           | Some k \<Rightarrow>
               let i = c_next_reg (sh s) in
               (i, s\<lparr>sh := (sh s)\<lparr>c_next_reg := i + 1, c_regs := (regs s)[k := new_region nm i (regs s ! k)]\<rparr>\<rparr>)))"

definition reg_slot :: "ctl \<Rightarrow> u32 \<Rightarrow> nat option" where
  "reg_slot c i = slot_of r_used r_id (c_regs c) i"

definition reg_path :: "string \<Rightarrow> string" where
  "reg_path nm = ''/dev/shm/heros_reg_'' @ map (\<lambda>c. if c = CHR ''/'' \<or> c = CHR '' '' then CHR ''_'' else c) nm"

definition reg_attach :: "(string \<Rightarrow> u32 \<Rightarrow> u32 option) \<Rightarrow> u32 \<Rightarrow> st \<Rightarrow> u32 \<times> st" where
  "reg_attach hmap i s =
     (case find_index (\<lambda>e. snd e \<noteq> 0 \<and> fst e = i) (p_attach (lo s)) of
        Some c \<Rightarrow> (snd (p_attach (lo s) ! c), s)
      | None \<Rightarrow>
          (case reg_slot (sh s) i of
             None \<Rightarrow> (0, s)
           | Some k \<Rightarrow>
               (case hmap (reg_path (r_name (regs s ! k))) (r_size (regs s ! k)) of
                  None \<Rightarrow> (0, s)
                | Some a \<Rightarrow>
                    (a, if length (p_attach (lo s)) < MAXREG
                        then s\<lparr>lo := (lo s)\<lparr>p_attach := p_attach (lo s) @ [(i, a)]\<rparr>\<rparr> else s))))"

section \<open>Names and ids\<close>

interpretation reg_reg: id_registry r_used r_id "new_region nm" for nm
  by unfold_locales (simp_all add: new_region_def)

definition regs_ok :: "ctl \<Rightarrow> bool" where
  "regs_ok c \<longleftrightarrow> c_next_reg c \<noteq> 0 \<and> ids_ok r_used r_id (c_next_reg c) (c_regs c)"

lemma reg_ident_new:
  assumes "find_index (region_named nm) (regs s) = None" and "free_slot r_used (regs s) = Some k"
  shows "reg_ident nm s = (c_next_reg (sh s),
    s\<lparr>sh := (sh s)\<lparr>c_next_reg := c_next_reg (sh s) + 1,
       c_regs := (regs s)[k := new_region nm (c_next_reg (sh s)) (regs s ! k)]\<rparr>\<rparr>)"
  using assms by (simp add: reg_ident_def Let_def)

text \<open>
  Identifying a region by a name of at most 19 characters keeps the table well formed and is
  stable: the id is live, and identifying the name again answers the same id and changes nothing, so
  that every process that uses the name maps the same memory.
\<close>

theorem reg_ident_stable:
  assumes ok: "regs_ok (sh s)" "c_next_reg (sh s) + 1 \<noteq> 0" and nm: "length nm < REGNAMELEN"
    and room: "free_slot r_used (regs s) \<noteq> None" and res: "reg_ident nm s = (i, s')"
  shows "regs_ok (sh s') \<and> i \<noteq> 0 \<and> reg_ident nm s' = (i, s') \<and>
    (\<exists>k. reg_slot (sh s') i = Some k \<and> r_name (regs s' ! k) = nm)"
proof (cases "find_index (region_named nm) (regs s)")
  case (Some k)
  then have k: "k < length (regs s)" "r_used (regs s ! k)" "r_name (regs s ! k) = nm"
    using find_index_less [OF Some] find_index_holds [OF Some] by (auto simp: region_named_def)
  have ids: "ids_ok r_used r_id (c_next_reg (sh s)) (regs s)" using ok(1) by (simp add: regs_ok_def)
  then have "r_id (regs s ! k) \<noteq> 0" using k by (auto simp: ids_ok_def)
  moreover have "reg_slot (sh s) (r_id (regs s ! k)) = Some k"
    unfolding reg_slot_def by (rule slot_of_live [OF ids k(1,2)])
  ultimately show ?thesis using Some res ok k(3) by (auto simp: reg_ident_def)
next
  case None
  obtain k where free: "free_slot r_used (regs s) = Some k" using room by auto
  have k: "k < length (regs s)" using free_slot_SomeD [OF free] by simp
  let ?n = "c_next_reg (sh s)"
  have ids: "ids_ok r_used r_id ?n (regs s)" "?n \<noteq> 0" using ok(1) by (auto simp: regs_ok_def)
  have i: "i = ?n" and s': "regs s' = (regs s)[k := new_region nm ?n (regs s ! k)]"
    and nx: "c_next_reg (sh s') = ?n + 1"
    using res reg_ident_new [OF None free] by auto
  have "regs_ok (sh s')"
    using reg_reg.alloc_ids_ok [OF ids ok(2) free, of nm] ok(2) by (simp add: regs_ok_def s' nx)
  moreover have found: "find_index (region_named nm) (regs s') = Some k"
    unfolding s' using None k by (rule find_index_fresh) (use nm in \<open>simp add: region_named_def new_region_def\<close>)
  moreover have "r_id (regs s' ! k) = i" "r_name (regs s' ! k) = nm"
    using k nm by (simp_all add: s' i new_region_def)
  moreover have "reg_slot (sh s') i = Some k"
    using reg_reg.alloc_resolves [OF ids(1) free, of nm] by (simp add: reg_slot_def s' i)
  ultimately show ?thesis using i ids by (auto simp: reg_ident_def)
qed

lemma boot_regs_ok: "regs_ok (sh (boot g t))"
  by (simp add: regs_ok_def ids_ok_zero zero_region_def)

lemma boot_reg_room: "free_slot r_used (regs (boot g t)) \<noteq> None"
  by (simp add: table_simps MAXREG_def zero_region_def)

lemma reg_ident_stable_witness:
  "fst (reg_ident ''IPO_SHARED_MEMORY'' (snd (reg_ident ''IPO_SHARED_MEMORY'' (boot 7 7))))
   = fst (reg_ident ''IPO_SHARED_MEMORY'' (boot 7 7))"
  using reg_ident_stable [OF boot_regs_ok _ _ boot_reg_room prod.collapse [symmetric], of 7 7 "''IPO_SHARED_MEMORY''"]
  by (simp add: REGNAMELEN_def)

text \<open>
  A region name of 20 characters or more is never found again: every identification of it makes
  another region under a fresh id, while all of them are backed by the same file.
\<close>

theorem reg_ident_long_leaks:
  assumes nm: "REGNAMELEN \<le> length nm" and absent: "find_index (region_named nm) (regs s) = None"
    and k: "free_slot r_used (regs s) = Some k" and res: "reg_ident nm s = (i, s')"
    and k': "free_slot r_used (regs s') = Some k'" and res': "reg_ident nm s' = (i', s'')"
  shows "i' = i + 1 \<and> reg_path (r_name (regs s'' ! k')) = reg_path (r_name (regs s' ! k))"
proof -
  let ?n = "c_next_reg (sh s)"
  have b: "k < length (regs s)" using free_slot_SomeD [OF k] by simp
  have e: "i = ?n" "regs s' = (regs s)[k := new_region nm ?n (regs s ! k)]" "c_next_reg (sh s') = ?n + 1"
    using res reg_ident_new [OF absent k] by auto
  have "length (take 19 nm) < length nm" using nm by (simp add: REGNAMELEN_def)
  then have short: "take 19 nm \<noteq> nm" by (metis less_irrefl)
  have "find_index (region_named nm) (regs s') = None"
    unfolding e(2)
  proof (rule find_index_None_update)
    show "\<not> region_named nm (new_region nm ?n (regs s ! k))"
      using short by (simp add: region_named_def new_region_def REGNAMELEN_def)
    show "\<not> region_named nm (regs s ! j)" if "j < length (regs s)" for j
      using absent that by (auto simp: find_index_None)
  qed
  note r = reg_ident_new [OF this k', unfolded res', unfolded e(3)]
  have b': "k' < length (regs s')" using free_slot_SomeD [OF k'] by simp
  show ?thesis using r b b' by (auto simp: e new_region_def)
qed

definition long_name :: string where "long_name = ''SIMULATION_SHARED_MEMORY''"

lemma reg_ident_long_leaks_witness:
  "fst (reg_ident long_name (snd (reg_ident long_name (boot 7 7)))) = fst (reg_ident long_name (boot 7 7)) + 1"
proof -
  let ?s = "boot 7 7"
  have a: "find_index (region_named long_name) (regs ?s) = None"
    by (simp add: table_simps region_named_def zero_region_def)
  have k: "free_slot r_used (regs ?s) = Some 0" by (simp add: table_simps zero_region_def MAXREG_def)
  have "regs (snd (reg_ident long_name ?s)) = (regs ?s)[0 := new_region long_name 0x4000 (regs ?s ! 0)]"
    using reg_ident_new [OF a k] by simp
  then have "\<not> r_used (regs (snd (reg_ident long_name ?s)) ! 1) \<and> 1 < length (regs (snd (reg_ident long_name ?s)))"
    by (simp add: MAXREG_def zero_region_def)
  then obtain k' where "free_slot r_used (regs (snd (reg_ident long_name ?s))) = Some k'"
    unfolding free_slot_def by (metis find_index_ex nth_mem)
  from reg_ident_long_leaks [OF _ a k prod.collapse [symmetric] this prod.collapse [symmetric]]
  show ?thesis by (simp add: long_name_def REGNAMELEN_def)
qed

section \<open>Attaching\<close>

text \<open>
  Attaching is cached: once a process has mapped a region (at an address other than 0) while its
  cache of 256 entries has room, every later attach of the id answers the same address without
  touching the host, even when the host could no longer map it, and changes nothing.
\<close>

theorem reg_attach_cached:
  assumes "reg_attach hmap i s = (a, s')" and "a \<noteq> 0" and "length (p_attach (lo s)) < MAXREG"
  shows "reg_attach hmap' i s' = (a, s')"
proof (cases "find_index (\<lambda>e. snd e \<noteq> 0 \<and> fst e = i) (p_attach (lo s))")
  case (Some c)
  then show ?thesis using assms by (auto simp: reg_attach_def)
next
  case None
  then have p: "p_attach (lo s') = p_attach (lo s) @ [(i, a)]"
    using assms by (auto simp: reg_attach_def split: option.splits)
  have "find_index (\<lambda>e. snd e \<noteq> 0 \<and> fst e = i) (p_attach (lo s')) = Some (length (p_attach (lo s)))"
    unfolding p
  proof (rule find_index_SomeI)
    show "\<not> (snd ((p_attach (lo s) @ [(i, a)]) ! j) \<noteq> 0 \<and> fst ((p_attach (lo s) @ [(i, a)]) ! j) = i)"
      if "j < length (p_attach (lo s))" for j
      using None that nth_mem [OF that] by (auto simp: find_index_None nth_append)
  qed (use assms(2) in simp_all)
  then show ?thesis by (simp add: reg_attach_def p)
qed

lemma reg_attach_cached_witness:
  "fst (reg_attach (\<lambda>_ _. None) 0x4000 (snd (reg_attach (\<lambda>_ _. Some 0x70000000) 0x4000
     (snd (reg_ident ''TR_en'' (boot 7 7)))))) = 0x70000000"
proof -
  let ?s = "snd (reg_ident ''TR_en'' (boot 7 7))"
  have n: "find_index (region_named ''TR_en'') (regs (boot 7 7)) = None"
    by (simp add: table_simps region_named_def zero_region_def)
  have k: "free_slot r_used (regs (boot 7 7)) = Some 0" by (simp add: table_simps zero_region_def MAXREG_def)
  note r = reg_ident_new [OF n k]
  have slot: "reg_slot (sh ?s) 0x4000 = Some 0"
    using reg_reg.alloc_resolves [OF _ k, of "0x4000" "''TR_en''"] boot_regs_ok [of 7 7]
    by (simp add: r reg_slot_def regs_ok_def)
  have lo: "lo ?s = proc_init" by (simp add: r)
  then have a: "fst (reg_attach (\<lambda>_ _. Some 0x70000000) 0x4000 ?s) = 0x70000000"
    using slot by (simp add: reg_attach_def proc_init_def)
  have "reg_attach (\<lambda>_ _. None) 0x4000 (snd (reg_attach (\<lambda>_ _. Some 0x70000000) 0x4000 ?s))
      = (fst (reg_attach (\<lambda>_ _. Some 0x70000000) 0x4000 ?s), snd (reg_attach (\<lambda>_ _. Some 0x70000000) 0x4000 ?s))"
    by (rule reg_attach_cached [OF prod.collapse [symmetric]]) (use a lo in \<open>simp_all add: proc_init_def MAXREG_def\<close>)
  then show ?thesis using a by simp
qed

end
