(* ===== verification/Heroscall.thy ===== *)
theory Heroscall
  imports QReadMore EvReceive Semaphores Regions
begin

text \<open>
  The dispatcher: \<open>syscall(222, cmd, p)\<close> reads its arguments from the guest memory at \<open>p\<close> and runs
  one primitive; every other system call passes through.  A call that blocks stops at its first
  sleep.  What is not in the repository is a parameter: the process environment, the mapping of
  region files, the wire files and the kernel behind the pass-through.
\<close>

record host =
  h_env :: "string \<Rightarrow> string option"
  h_map :: "string \<Rightarrow> u32 \<Rightarrow> u32 option"
  h_file :: "string \<Rightarrow> u8 list option"     \<comment> \<open>what \<open>fopen\<close> and \<open>fread\<close> give\<close>

datatype hc_out =
    HcRet int
  | HcSleep futex_word "int option"
  | HcSelfLock
  | HcSpin

section \<open>Guest memory\<close>

definition peek :: "nat \<Rightarrow> u32 \<Rightarrow> st \<Rightarrow> u8 list" where
  "peek n a s = map (\<lambda>i. mem s (a + of_nat i)) [0..<n]"

definition poke :: "u32 \<Rightarrow> u8 list \<Rightarrow> st \<Rightarrow> st" where
  "poke a bs s = s\<lparr>mem := (\<lambda>x. if unat (x - a) < length bs then bs ! unat (x - a) else mem s x)\<rparr>"

definition rd32 :: "st \<Rightarrow> u32 \<Rightarrow> u32" where
  "rd32 s a = get32 (peek 4 a s) 0"

text \<open>Argument \<open>i\<close> of the parameter block.\<close>

definition arg :: "st \<Rightarrow> u32 \<Rightarrow> nat \<Rightarrow> u32" where
  "arg s p i = rd32 s (p + 4 * of_nat i)"

text \<open>Guest strings are read up to 4096 characters.\<close>

definition CSTR_MAX :: nat where "CSTR_MAX = 4096"

definition cstr_at :: "u32 \<Rightarrow> st \<Rightarrow> string" where
  "cstr_at a s = cstr_of (peek CSTR_MAX a s)"

definition poke_str :: "u32 \<Rightarrow> string \<Rightarrow> st \<Rightarrow> st" where
  "poke_str a nm s = poke a (bytes_of nm @ [0]) s"

definition msg_at :: "u32 \<Rightarrow> u32 \<Rightarrow> st \<Rightarrow> u8 list option" where
  "msg_at a sz s = (if a = 0 then None else Some (peek (unat sz) a s))"

section \<open>Tasks\<close>

definition wake_starters :: "st \<Rightarrow> st" where
  "wake_starters s = fold (\<lambda>k. if t_used (tasks s ! k) \<and> has_bits (t_last_ev_want (tasks s ! k)) 0x80000
       then emit (FxWake (FwEvents k)) else id) [0..<length (tasks s)] s"

definition t_create_wait :: "nat \<Rightarrow> st \<Rightarrow> hc_out" where
  "t_create_wait k s = (if t_started (tasks s ! k) \<noteq> 0 then HcRet 0 else HcSleep (FwStarted k) None)"

text \<open>The child registers itself and tells its id; the wake of its parent follows.\<close>

definition t_create_enter :: "u32 \<Rightarrow> st \<Rightarrow> nat option \<times> st" where
  "t_create_enter p s0 =
     (let (me, s) = task_self s0; k = task_slot (sh s) me;
          s1 = (case k of None \<Rightarrow> s
                | Some i \<Rightarrow> upd_task i (\<lambda>t. t\<lparr>t_ctx_dst := arg s p 10, t_arg_dst := arg s p 6,
                                               t_msgsize := arg s p 2, t_started := 0\<rparr>) s)
      in (k, if arg s1 p 8 \<noteq> 0 then poke (arg s1 p 8) (le32 me) s1 else s1))"

definition t_create_meet :: "u32 \<Rightarrow> st \<Rightarrow> st" where
  "t_create_meet par s =
     (if par \<noteq> 0 \<and> task_slot (sh s) par \<noteq> None then snd (ev_send par 0x80000 s)
      else wake_starters (s\<lparr>sh := (sh s)\<lparr>c_orphan_tc := c_orphan_tc (sh s) + 1\<rparr>\<rparr>))"

definition hc_t_create :: "u32 \<Rightarrow> st \<Rightarrow> hc_out \<times> st" where
  "hc_t_create p s0 =
     (if p = 0 then (HcRet (-1), s0)
      else
        let (k, s2) = t_create_enter p s0; s3 = t_create_meet (arg s2 p 12) s2
        in case k of None \<Rightarrow> (HcRet 0, s3) | Some i \<Rightarrow> (t_create_wait i s3, s3))"

text \<open>Never more of the context than the task made room for.\<close>

definition ctx_len :: "task \<Rightarrow> u32 \<Rightarrow> u32" where
  "ctx_len t sz = (if t_msgsize t \<noteq> 0 \<and> sz > t_msgsize t then t_msgsize t else sz)"

definition hc_t_start :: "u32 \<Rightarrow> st \<Rightarrow> hc_out \<times> st" where
  "hc_t_start p s =
     (if p = 0 then (HcRet (-1), s)
      else
        let tid = arg s p 4; sz = arg s p 0; src = arg s p 2 in
        case task_slot (sh s) tid of
          None \<Rightarrow> (HcRet (-1), s)
        | Some k \<Rightarrow>
            let t = tasks s ! k; cp = ctx_len t sz;
                s1 = (if t_ctx_dst t \<noteq> 0 \<and> src \<noteq> 0 \<and> cp \<noteq> 0
                      then poke (t_ctx_dst t) (peek (unat cp) src s) s else s);
                s2 = (if t_arg_dst t \<noteq> 0 then poke (t_arg_dst t) (le32 sz) s1 else s1)
            in (HcRet 0, emit (FxWake (FwStarted k)) (upd_task k (\<lambda>t. t\<lparr>t_started := 1\<rparr>) s2)))"

text \<open>The name is up to eight characters in the block itself.\<close>

definition hc_t_ident :: "u32 \<Rightarrow> st \<Rightarrow> hc_out \<times> st" where
  "hc_t_ident p s =
     (let i = (if p \<noteq> 0 \<and> (arg s p 0 \<noteq> 0 \<or> arg s p 1 \<noteq> 0)
               then task_by_name (sh s) (cstr_of (peek 8 p s)) else 0)
      in if i \<noteq> 0 then (HcRet (sint i), s)
         else case task_self s of (me, s') \<Rightarrow> (HcRet (sint me), s'))"

definition hc_t_name :: "u32 \<Rightarrow> st \<Rightarrow> hc_out \<times> st" where
  "hc_t_name p s0 =
     (if p = 0 \<or> arg s0 p 0 = 0 then (HcRet 0, s0)
      else
        let (q, s) = (if arg s0 p 2 = - 1 then task_self s0 else (arg s0 p 2, s0));
            nm = (case task_slot (sh s) q of None \<Rightarrow> [] | Some k \<Rightarrow> name_store (t_name (tasks s ! k)));
            out = (if nm = [] then name_store (p_self_pname (lo s)) else nm)
        in (HcRet 0, poke_str (arg s0 p 0) out s))"

section \<open>Processes\<close>

definition hc_p_ident :: "u32 \<Rightarrow> st \<Rightarrow> hc_out \<times> st" where
  "hc_p_ident p s =
     (if p = 0 \<or> arg s p 0 = 0 then
        (if k_pident_self (qcf s) then (case task_self s of (me, s') \<Rightarrow> (HcRet (sint me), s')) else (HcRet (-1), s))
      else
        let pn = cstr_at (arg s p 0) s; i = (if k_pname_reg (qcf s) then proc_by_name (sh s) (Some pn) else 0) in
        if i \<noteq> 0 then (HcRet (sint i), s)
        else if k_grf_stub (qcf s) \<and> has_sub ''graphics'' pn
        then (case task_self s of (me, s') \<Rightarrow> (HcRet (sint me), s'))
        else (HcRet (-1), s))"

text \<open>The process name of a task is the one its process registered.\<close>

definition pname_of :: "st \<Rightarrow> u32 \<Rightarrow> string" where
  "pname_of s tid =
     (if tid = - 1 then name_store (p_self_pname (lo s))
      else case task_slot (sh s) tid of
             None \<Rightarrow> []
           | Some k \<Rightarrow>
               (case find_index (\<lambda>t. t_used t \<and> t_tgid t = t_tgid (tasks s ! k) \<and> t_pname t \<noteq> []) (tasks s) of
                  None \<Rightarrow> [] | Some j \<Rightarrow> name_store (t_pname (tasks s ! j))))"

definition hc_p_name :: "u32 \<Rightarrow> st \<Rightarrow> hc_out \<times> st" where
  "hc_p_name p s =
     (if k_pname_reg (qcf s) \<and> p \<noteq> 0 \<and> arg s p 0 \<noteq> 0
      then (HcRet 0, poke_str (arg s p 0) (take 28 (pname_of s (arg s p 2))) s) else (HcRet 0, s))"

section \<open>Time and environment\<close>

definition hc_wkafter :: "u32 \<Rightarrow> st \<Rightarrow> hc_out \<times> st" where
  "hc_wkafter p s =
     (if p = 0 \<or> arg s p 0 = 0 then (HcRet 0, s)
      else let ms = unat (arg s p 0) div 1000; cap = e_wkafter_cap (ecf s) in
           (HcRet 0, emit (FxSleepMs (if 0 < cap \<and> nat cap < ms then nat cap else ms)) s))"

definition ptimer_start :: "u32 \<Rightarrow> u32 \<Rightarrow> u32 \<Rightarrow> st \<Rightarrow> st" where
  "ptimer_start task bits period s =
     (if \<not> e_tm_periodic (ecf s) \<or> bits = 0 \<or> 64 \<le> p_ptimers (lo s) then s
      else emit (FxTimerThread task bits period) (s\<lparr>lo := (lo s)\<lparr>p_ptimers := p_ptimers (lo s) + 1\<rparr>\<rparr>))"

text \<open>One firing of such a thread: it ends when the task is gone.\<close>

definition ptimer_period :: "u32 \<Rightarrow> u32" where
  "ptimer_period us = (if us < 20000 then 20000 else us)"

definition ptimer_fire :: "u32 \<Rightarrow> u32 \<Rightarrow> st \<Rightarrow> bool \<times> st" where
  "ptimer_fire task bits s =
     (if task_slot (sh s) task = None then (False, s\<lparr>lo := (lo s)\<lparr>p_ptimers := p_ptimers (lo s) - 1\<rparr>\<rparr>)
      else (True, snd (ev_send task bits s)))"

definition hc_tm_event :: "bool \<Rightarrow> u32 \<Rightarrow> st \<Rightarrow> hc_out \<times> st" where
  "hc_tm_event periodic p s =
     (if e_timers_fire (ecf s) \<and> p \<noteq> 0 then
        let (me, s1) = task_self s; s2 = snd (ev_send me (arg s1 p 1) s1);
            s3 = (if periodic then ptimer_start me (arg s2 p 1) (arg s2 p 0) s2 else s2)
        in (HcRet 1, s3)
      else (HcRet 0, s))"

definition env_get :: "host \<Rightarrow> string \<Rightarrow> u32 \<Rightarrow> u32 \<Rightarrow> st \<Rightarrow> st" where
  "env_get h nm out sz s =
     (case h_env h nm of
        None \<Rightarrow> if out \<noteq> 0 \<and> sz \<noteq> 0 then poke out [0] s else s
      | Some v \<Rightarrow>
          if unat sz \<le> length v then (if sz \<noteq> 0 then poke_str out (take (unat sz - 1) v) s else s)
          else poke_str out v s)"

section \<open>Messages\<close>

definition hc_q_send :: "u32 \<Rightarrow> st \<Rightarrow> hc_out \<times> st" where
  "hc_q_send p s =
     (if p = 0 then (HcRet (-9), s)
      else
        let q = arg s p 4; m = msg_at (arg s p 0) (arg s p 2) s;
            (r, s1) = q_send q m (arg s p 2) (arg s p 6) s;
            s2 = inject_evt_connect_ack q m (inject_forget_ack q m (inject_connect_ack q m (hws_autoreply q m s1)));
            s3 = inject_broadcast_register_reply m (inject_evt_error_reply q m (inject_peer_connect_ack q m s2))
        in (HcRet r, s3))"

text \<open>What a read writes to the guest: the message to \<open>buf\<close>, the header to \<open>hdr\<close>.\<close>

definition read_done :: "u32 \<Rightarrow> u32 \<Rightarrow> read_outcome \<times> st \<Rightarrow> hc_out \<times> st" where
  "read_done buf hdr r =
     (case r of
        (RdRet n w h, s) \<Rightarrow>
          let s1 = (case w of None \<Rightarrow> s | Some d \<Rightarrow> poke buf d s);
              s2 = (case h of None \<Rightarrow> s1 | Some (a, b, c) \<Rightarrow> poke hdr (le32 a @ le32 b @ le32 c) s1)
          in (HcRet n, s2)
      | (RdSleep f t, s) \<Rightarrow> (HcSleep f (map_option uint t), s)
      | (RdSelfLock, s) \<Rightarrow> (HcSelfLock, s))"

definition hc_q_read :: "u32 \<Rightarrow> st \<Rightarrow> hc_out \<times> st" where
  "hc_q_read p s =
     (if p = 0 then (HcRet (-9), s)
      else read_done (arg s p 0) (arg s p 4)
             (q_read (arg s p 7) (arg s p 0 \<noteq> 0) (arg s p 2) (arg s p 6) (arg s p 4 \<noteq> 0) s))"

section \<open>Events, signals, semaphores\<close>

text \<open>Three turns decide a wait (\<open>ev_run_decides\<close>); one more is left for a tick.\<close>

definition EV_TURNS :: nat where "EV_TURNS = 4"

definition hc_ev_receive :: "u32 \<Rightarrow> st \<Rightarrow> hc_out \<times> st" where
  "hc_ev_receive p s =
     (if p = 0 then (HcRet 0, s)
      else case ev_enter (arg s p 0) (arg s p 1) (arg s p 2) s of
             (Inl r, s1) \<Rightarrow> (HcRet (sint r), s1)
           | (Inr w, s1) \<Rightarrow>
               (case ev_run EV_TURNS w s1 of
                  Some (EvRet r, s2) \<Rightarrow> (HcRet (sint r), s2)
                | Some (EvSleep f t, s2) \<Rightarrow> (HcSleep f t, s2)
                | Some (EvAgain, s2) \<Rightarrow> (HcSpin, s2)
                | None \<Rightarrow> (HcSpin, s1)))"

definition hc_as_mask :: "u32 \<Rightarrow> st \<Rightarrow> hc_out \<times> st" where
  "hc_as_mask p s =
     (if p = 0 then (HcRet (-22), s)
      else let a = arg s p 0 in
           case as_mask_op (if a = 0 then None else Some (rd32 s a)) (arg s p 2) s of
             (r, out, s1) \<Rightarrow> (HcRet r, case out of Some v \<Rightarrow> if r = 0 then poke a (le32 v) s1 else s1 | None \<Rightarrow> s1))"

definition hc_as_read :: "u32 \<Rightarrow> st \<Rightarrow> hc_out \<times> st" where
  "hc_as_read p s =
     (if p = 0 then (HcRet (-22), s)
      else let a = arg s p 0; b = arg s p 2 in
           case as_read (if a = 0 then None else Some (rd32 s a)) s of
             (r, req, caught, s1) \<Rightarrow>
               (if r = 0 then
                  (HcRet 0, (\<lambda>u. if a \<noteq> 0 then poke a (le32 req) u else u)
                              (if b \<noteq> 0 then poke b (le32 caught) s1 else s1))
                else (HcRet r, s1)))"

definition hc_sem_request :: "u32 \<Rightarrow> st \<Rightarrow> hc_out \<times> st" where
  "hc_sem_request p s =
     (if p = 0 then (HcRet (-7), s)
      else case sem_request_pass (arg s p 0) (arg s p 1) (arg s p 2) False s of
             (Ret r, s1) \<Rightarrow> (HcRet r, s1)
           | (Sleep f t, s1) \<Rightarrow> (HcSleep f t, s1))"

section \<open>The dispatcher\<close>

definition ret_id :: "u32 \<times> st \<Rightarrow> hc_out \<times> st" where
  "ret_id r = (HcRet (sint (fst r)), snd r)"

definition ret_code :: "int \<times> st \<Rightarrow> hc_out \<times> st" where
  "ret_code r = (HcRet (fst r), snd r)"

text \<open>The named calls: semaphores, queues, regions, the environment.\<close>

definition hc_named :: "host \<Rightarrow> nat \<Rightarrow> u32 \<Rightarrow> st \<Rightarrow> (hc_out \<times> st) option" where
  "hc_named h op p s =
     (let named = (p \<noteq> 0 \<and> arg s p 0 \<noteq> 0); nm = cstr_at (arg s p 0) s in
      if op = 0x15 then
        Some (ret_id (sem_make (if named then Some nm else None) (if p = 0 then 0 else arg s p 2) s))
      else if op = 0x16 then
        Some (if named then case sem_ident nm s of (i, s1) \<Rightarrow> (HcRet (if i \<noteq> 0 then sint i else -2), s1)
              else (HcRet (-2), s))
      else if op = 0x0a then
        Some (ret_id (if named then q_create nm (arg s p 2) (arg s p 3) s else q_create [] 0 0 s))
      else if op = 0x0b then
        Some (if named then case q_ident nm s of (i, s1) \<Rightarrow> (HcRet (if i \<noteq> 0 then sint i else -1), s1)
              else (HcRet (-1), s))
      else if op = 0x22 then Some (if named then ret_id (reg_ident nm s) else (HcRet (-2), s))
      else if op = 0x27 then
        Some (if named then (HcRet 0, env_get h nm (arg s p 2) (arg s p 4) s) else (HcRet (-2), s))
      else None)"

definition heroscall :: "host \<Rightarrow> u32 \<Rightarrow> u32 \<Rightarrow> st \<Rightarrow> hc_out \<times> st" where
  "heroscall h cmd p s =
     (let op = unat (cmd AND 0xff) in
      case hc_named h op p s of
        Some r \<Rightarrow> r
      | None \<Rightarrow>
          if op = 0x00 then hc_t_create p s
          else if op = 0x01 then hc_t_ident p s
          else if op = 0x02 then hc_t_start p s
          else if op = 0x09 then hc_t_name p s
          else if op = 0x10 then (if p = 0 then (HcRet (-7), s) else ret_code (ev_send (arg s p 0) (arg s p 1) s))
          else if op = 0x11 then hc_ev_receive p s
          else if op = 0x12 then (if p = 0 then (HcRet (-9), s) else ret_code (as_send (arg s p 0) (arg s p 1) s))
          else if op = 0x13 then hc_as_mask p s
          else if op = 0x14 then hc_as_read p s
          else if op = 0x18 then hc_sem_request p s
          else if op = 0x19 then (if p = 0 then (HcRet (-7), s) else ret_code (sem_release (arg s p 0) (arg s p 1) s))
          else if op = 0x0c then (if p = 0 then (HcRet (-9), s) else ret_code (q_delete (arg s p 0) s))
          else if op = 0x0d then hc_q_send p s
          else if op = 0x0e then hc_q_read p s
          else if op = 0x1a then hc_wkafter p s
          else if op = 0x1b then hc_tm_event False p s
          else if op = 0x1d then hc_tm_event True p s
          else if op = 0x23 then (if p = 0 then (HcRet 0, s) else ret_id (reg_attach (h_map h) (arg s p 2) s))
          else if op = 0x29 then hc_p_ident p s
          else if op = 0x2d then hc_p_name p s
          else (HcRet 0, s))"

text \<open>The libc contract of the pass-through: the kernel's \<open>-errno\<close> becomes \<open>-1\<close> with \<open>errno\<close> set.\<close>

definition pass_through :: "int \<Rightarrow> st \<Rightarrow> int \<times> st" where
  "pass_through r s = (if r < 0 \<and> -4095 \<le> r then (-1, s\<lparr>errno := - r\<rparr>) else (r, s))"

definition syscall_entry :: "(int \<Rightarrow> st \<Rightarrow> int \<times> st) \<Rightarrow> host \<Rightarrow> int \<Rightarrow> u32 \<Rightarrow> u32 \<Rightarrow> st \<Rightarrow> hc_out \<times> st" where
  "syscall_entry kern h n a b s =
     (if n \<noteq> 222 then case kern n s of (r, s1) \<Rightarrow> ret_code (pass_through r s1) else heroscall h a b s)"

end
