(* ===== verification/HeroscallFacts.thy ===== *)
theory HeroscallFacts
  imports Heroscall
begin

text \<open>
  Calls seen from the guest: what a call leaves in the guest's memory, how two threads meet, and what
  one task sends another through \<open>syscall\<close>.
\<close>

section \<open>Guest memory\<close>

lemma length_peek [simp]: "length (peek n a s) = n"
  by (simp add: peek_def)

lemma poke_sel [simp]:
  "sh (poke a bs s) = sh s" "lo (poke a bs s) = lo s" "qcf (poke a bs s) = qcf s" "icf (poke a bs s) = icf s"
  "ecf (poke a bs s) = ecf s" "fx (poke a bs s) = fx s" "now (poke a bs s) = now s" "errno (poke a bs s) = errno s"
  "me_tid (poke a bs s) = me_tid s" "me_tgid (poke a bs s) = me_tgid s"
  by (simp_all add: poke_def)

lemma peek_mem: "mem s' = mem s \<Longrightarrow> peek n a s' = peek n a s"
  by (simp add: peek_def)

lemma arg_mem: "mem s' = mem s \<Longrightarrow> arg s' p i = arg s p i"
  by (simp add: arg_def rd32_def peek_def)

lemma unat_of_nat_small: "n < 2 ^ 32 \<Longrightarrow> unat (of_nat n :: u32) = n"
  by (simp add: unat_of_nat take_bit_eq_mod)

lemma peek_poke_same:
  assumes "n \<le> length bs" and "length bs < 2 ^ 32"
  shows "peek n a (poke a bs s) = take n bs"
  using assms by (intro nth_equalityI) (simp_all add: peek_def poke_def unat_of_nat_small)

text \<open>The \<open>n\<close> bytes from \<open>a\<close> and the \<open>m\<close> bytes from \<open>b\<close> do not overlap.\<close>

definition apart :: "u32 \<Rightarrow> nat \<Rightarrow> u32 \<Rightarrow> nat \<Rightarrow> bool" where
  "apart a n b m \<longleftrightarrow> (\<forall>i<n. m \<le> unat (a + of_nat i - b))"

lemma peek_poke_apart:
  assumes "apart a n b (length bs)"
  shows "peek n a (poke b bs s) = peek n a s"
  unfolding peek_def
proof (rule map_cong [OF refl])
  fix i assume "i \<in> set [0..<n]"
  then have "\<not> unat (a + of_nat i - b) < length bs" using assms by (auto simp: apart_def not_less)
  then show "mem (poke b bs s) (a + of_nat i) = mem s (a + of_nat i)" by (simp add: poke_def)
qed

lemma arg_poke_apart: "apart (p + 4 * of_nat i) 4 b (length bs) \<Longrightarrow> arg (poke b bs s) p i = arg s p i"
  by (simp add: arg_def rd32_def peek_poke_apart)

text \<open>A parameter block in memory.\<close>

definition poke_args :: "u32 \<Rightarrow> u32 list \<Rightarrow> st \<Rightarrow> st" where
  "poke_args p xs s = poke p (concat (map le32 xs)) s"

lemma poke_args_sel [simp]:
  "sh (poke_args p xs s) = sh s" "lo (poke_args p xs s) = lo s" "qcf (poke_args p xs s) = qcf s"
  "icf (poke_args p xs s) = icf s" "ecf (poke_args p xs s) = ecf s" "fx (poke_args p xs s) = fx s"
  "me_tid (poke_args p xs s) = me_tid s" "me_tgid (poke_args p xs s) = me_tgid s"
  by (simp_all add: poke_args_def)

lemma length_concat_le32: "length (concat (map le32 xs)) = 4 * length xs"
  by (induction xs) simp_all

lemma nth_concat_le32: "i < length xs \<Longrightarrow> j < 4 \<Longrightarrow> concat (map le32 xs) ! (4 * i + j) = le32 (xs ! i) ! j"
proof (induction xs arbitrary: i)
  case (Cons x xs)
  then show ?case by (cases i) (simp_all add: nth_append)
qed simp

lemma arg_poke_args:
  assumes "i < length xs" and "4 * length xs < 2 ^ 32"
  shows "arg (poke_args p xs s) p i = xs ! i"
proof -
  let ?b = "concat (map le32 xs)"
  have u: "unat (4 * of_nat i + of_nat j :: u32) = 4 * i + j" if "j < 4" for j
  proof -
    have "4 * i + j < 2 ^ 32" using assms that by linarith
    then show ?thesis using unat_of_nat_small [of "4 * i + j"] by simp
  qed
  have "peek 4 (p + 4 * of_nat i) (poke p ?b s) = le32 (xs ! i)"
  proof (intro nth_equalityI)
    fix j assume "j < length (peek 4 (p + 4 * of_nat i) (poke p ?b s))"
    then have j: "j < 4" by simp
    have "p + 4 * of_nat i + of_nat j - p = (4 * of_nat i + of_nat j :: u32)" by simp
    moreover have "4 * i + j < length ?b" using assms(1) j by (simp add: length_concat_le32)
    ultimately show "peek 4 (p + 4 * of_nat i) (poke p ?b s) ! j = le32 (xs ! i) ! j"
      using j u [OF j] nth_concat_le32 [OF assms(1) j] by (simp add: peek_def poke_def)
  qed simp
  then show ?thesis by (simp add: poke_args_def arg_def rd32_def)
qed

lemma mem_poke_args_apart:
  "4 * length xs \<le> unat (a - p) \<Longrightarrow> mem (poke_args p xs s) a = mem s a"
  by (simp add: poke_args_def poke_def length_concat_le32)

lemma peek_poke_args_apart: "apart a n p (4 * length xs) \<Longrightarrow> peek n a (poke_args p xs s) = peek n a s"
  by (simp add: poke_args_def peek_poke_apart length_concat_le32)

lemma arg_poke_args_apart:
  "apart (q + 4 * of_nat i) 4 p (4 * length xs) \<Longrightarrow> arg (poke_args p xs s) q i = arg s q i"
  by (simp add: arg_def rd32_def peek_poke_args_apart)

lemma all_less4: "(\<forall>i<4. P i) \<longleftrightarrow> P 0 \<and> P 1 \<and> P 2 \<and> P (3::nat)"
  by (auto simp: numeral_eq_Suc less_Suc_eq)

section \<open>Starting a thread\<close>

lemma mem_poke_outside: "length bs \<le> unat (x - a) \<Longrightarrow> mem (poke a bs s) x = mem s x"
  by (simp add: poke_def)

lemma ctx_len_unat:
  "unat (ctx_len t sz) = (if t_msgsize t = 0 then unat sz else min (unat sz) (unat (t_msgsize t)))"
  by (auto simp: ctx_len_def word_less_nat_alt min_def)

text \<open>
  C21. \<open>T_start\<close> hands the context over and releases the thread.  The child's buffer receives the first
  bytes of the parent's context: all of them, or as many as the child made room for if that is less; its
  argument word receives the full size; not one byte of memory outside the two changes, so the buffer is
  never overrun.  The child's wait in \<open>T_create\<close> then ends with success, its futex word is woken, and no
  other task changes.
\<close>

theorem t_start_delivers:
  assumes slot: "task_slot (sh s) (arg s p 4) = Some k" and p: "p \<noteq> 0" and src: "arg s p 2 \<noteq> 0"
    and dst: "t_ctx_dst (tasks s ! k) \<noteq> 0"
    and n: "n = (if t_msgsize (tasks s ! k) = 0 then unat (arg s p 0)
                 else min (unat (arg s p 0)) (unat (t_msgsize (tasks s ! k))))"
    and arg_out: "t_arg_dst (tasks s ! k) \<noteq> 0 \<Longrightarrow> apart (t_ctx_dst (tasks s ! k)) n (t_arg_dst (tasks s ! k)) 4"
    and res: "hc_t_start p s = (r, s')"
  shows "r = HcRet 0 \<and> peek n (t_ctx_dst (tasks s ! k)) s' = peek n (arg s p 2) s \<and>
    (t_arg_dst (tasks s ! k) \<noteq> 0 \<longrightarrow> peek 4 (t_arg_dst (tasks s ! k)) s' = le32 (arg s p 0)) \<and>
    (\<forall>x. n \<le> unat (x - t_ctx_dst (tasks s ! k)) \<longrightarrow>
       t_arg_dst (tasks s ! k) = 0 \<or> 4 \<le> unat (x - t_arg_dst (tasks s ! k)) \<longrightarrow> mem s' x = mem s x) \<and>
    t_create_wait k s' = HcRet 0 \<and> FxWake (FwStarted k) \<in> set (fx s') \<and>
    (\<forall>j. j \<noteq> k \<longrightarrow> tasks s' ! j = tasks s ! j)"
proof -
  let ?t = "tasks s ! k"
  let ?s1 = "poke (t_ctx_dst ?t) (peek n (arg s p 2) s) s"
  let ?s2 = "if t_arg_dst ?t \<noteq> 0 then poke (t_arg_dst ?t) (le32 (arg s p 0)) ?s1 else ?s1"
  have k: "k < length (tasks s)" using task_slot_SomeD [OF slot] by simp
  have cp: "unat (ctx_len ?t (arg s p 0)) = n" using n ctx_len_unat by simp
  have none: "poke a [] s = s" for a by (simp add: poke_def)
  have "(if ctx_len ?t (arg s p 0) \<noteq> 0 then ?s1 else s) = ?s1"
    using cp none by (cases "ctx_len ?t (arg s p 0) = 0") (auto simp: peek_def)
  then have e: "r = HcRet 0" "s' = emit (FxWake (FwStarted k)) (upd_task k (\<lambda>t. t\<lparr>t_started := 1\<rparr>) ?s2)"
    using res slot p src dst cp by (auto simp: hc_t_start_def Let_def)
  have b: "n < 2 ^ 32" using cp unat_lt32 by metis
  have m: "mem s' = mem ?s2" by (simp add: e(2))
  have "peek n (t_ctx_dst ?t) ?s1 = peek n (arg s p 2) s" using peek_poke_same [of n "peek n (arg s p 2) s"] b by simp
  then have "peek n (t_ctx_dst ?t) ?s2 = peek n (arg s p 2) s"
    using arg_out peek_poke_apart [of "t_ctx_dst ?t" n "t_arg_dst ?t" "le32 (arg s p 0)"] by simp
  moreover have "t_arg_dst ?t \<noteq> 0 \<longrightarrow> peek 4 (t_arg_dst ?t) ?s2 = le32 (arg s p 0)"
    using peek_poke_same [of 4 "le32 (arg s p 0)"] by simp
  moreover have "mem ?s2 x = mem s x" if "n \<le> unat (x - t_ctx_dst ?t)" "t_arg_dst ?t = 0 \<or> 4 \<le> unat (x - t_arg_dst ?t)" for x
    using that by (auto simp: mem_poke_outside)
  moreover have "tasks s' = (tasks s)[k := ?t\<lparr>t_started := 1\<rparr>]" "FxWake (FwStarted k) \<in> set (fx s')"
    by (simp_all add: e(2))
  ultimately show ?thesis
    using e(1) k peek_mem [OF m] unfolding m by (simp add: t_create_wait_def)
qed

definition start_demo :: st where
  "start_demo = poke_args 0x1000 [3, 0, 0x2000, 0, 0x100]
     (poke 0x2000 [10, 20, 30] (send_demo\<lparr>sh := (sh send_demo)\<lparr>c_tasks :=
        [zero_task\<lparr>t_used := True, t_id := 0x100, t_ctx_dst := 0x3000, t_msgsize := 2\<rparr>]\<rparr>\<rparr>))"

lemma t_start_delivers_witness:
  "t_create_wait 0 start_demo = HcSleep (FwStarted 0) None \<and>
   peek 2 0x3000 (snd (hc_t_start 0x1000 start_demo)) = peek 2 0x2000 start_demo \<and>
   mem (snd (hc_t_start 0x1000 start_demo)) 0x3002 = mem start_demo 0x3002 \<and>
   t_create_wait 0 (snd (hc_t_start 0x1000 start_demo)) = HcRet 0"
proof -
  have a: "arg start_demo 0x1000 0 = 3" "arg start_demo 0x1000 2 = 0x2000" "arg start_demo 0x1000 4 = 0x100"
    unfolding start_demo_def by (subst arg_poke_args; simp)+
  have tk: "tasks start_demo = [zero_task\<lparr>t_used := True, t_id := 0x100, t_ctx_dst := 0x3000, t_msgsize := 2\<rparr>]"
    by (simp add: start_demo_def)
  have sl: "task_slot (sh start_demo) 0x100 = Some 0" using tk by (simp add: task_slot_def slot_of_def)
  let ?s = "snd (hc_t_start 0x1000 start_demo)"
  let ?t = "tasks start_demo ! 0"
  have f: "t_ctx_dst ?t = 0x3000" "t_msgsize ?t = 2" "t_arg_dst ?t = 0"
    by (simp_all add: tk zero_task_def)
  have pre: "task_slot (sh start_demo) (arg start_demo 0x1000 4) = Some 0" "(0x1000 :: u32) \<noteq> 0" "arg start_demo 0x1000 2 \<noteq> 0"
    "t_ctx_dst ?t \<noteq> 0"
    "2 = (if t_msgsize ?t = 0 then unat (arg start_demo 0x1000 0) else min (unat (arg start_demo 0x1000 0)) (unat (t_msgsize ?t)))"
    by (simp_all only: a f sl, simp_all)
  have x: "t_arg_dst ?t \<noteq> 0 \<Longrightarrow> apart (t_ctx_dst ?t) 2 (t_arg_dst ?t) 4" by (simp only: f)
  note d = t_start_delivers [OF pre x prod.collapse [symmetric], THEN conjunct2]
  have "peek 2 0x3000 ?s = peek 2 0x2000 start_demo" using d [THEN conjunct1] by (simp only: f a)
  moreover have "mem ?s 0x3002 = mem start_demo 0x3002"
    by (rule d [THEN conjunct2, THEN conjunct2, THEN conjunct1, THEN spec, THEN mp, THEN mp]) (simp_all only: f, simp_all)
  moreover have "t_create_wait 0 start_demo = HcSleep (FwStarted 0) None"
    by (simp add: tk t_create_wait_def zero_task_def)
  moreover have "t_create_wait 0 ?s = HcRet 0"
    by (rule d [THEN conjunct2, THEN conjunct2, THEN conjunct2, THEN conjunct1])
  ultimately show ?thesis by blast
qed

section \<open>The orphan rendezvous\<close>

lemma wake_starters_fx:
  assumes "k < length (tasks s)" and "t_used (tasks s ! k)" and "has_bits (t_last_ev_want (tasks s ! k)) 0x80000"
  shows "FxWake (FwEvents k) \<in> set (fx (wake_starters s))"
proof -
  let ?f = "\<lambda>k. if t_used (tasks s ! k) \<and> has_bits (t_last_ev_want (tasks s ! k)) 0x80000
       then emit (FxWake (FwEvents k)) else id"
  have keep: "e \<in> set (fx u) \<Longrightarrow> e \<in> set (fx (fold ?f ks u))" for e ks u
    by (induction ks arbitrary: u) auto
  have "k \<in> set ks \<Longrightarrow> FxWake (FwEvents k) \<in> set (fx (fold ?f ks u))" for ks u
    by (induction ks arbitrary: u) (auto intro: keep simp: assms)
  then show ?thesis using assms(1) by (simp add: wake_starters_def)
qed

lemma wake_starters_sh [simp]: "sh (wake_starters s) = sh s"
proof -
  have "sh (fold (\<lambda>k. if P k then emit (F k) else id) ks u) = sh u" for P F ks u
    by (induction ks arbitrary: u) auto
  then show ?thesis by (simp add: wake_starters_def)
qed

lemma task_self_orphan [simp]: "c_orphan_tc (sh (snd (task_self s))) = c_orphan_tc (sh s)"
  by (cases s rule: task_self_cases) (simp_all add: tcache_put_def)

lemma task_self_mem [simp]: "mem (snd (task_self s)) = mem s" "errno (snd (task_self s)) = errno s"
  by (cases s rule: task_self_cases; simp add: tcache_put_def)+

lemma t_create_enter_frame:
  "mem s0' = mem s0 \<Longrightarrow> c_orphan_tc (sh (snd (t_create_enter p s0))) = c_orphan_tc (sh s0)"
  by (simp add: t_create_enter_def Let_def split_beta split: option.splits)

lemma t_create_enter_arg:
  assumes "arg s0 p 8 = 0 \<or> apart (p + 4 * of_nat 12) 4 (arg s0 p 8) 4"
  shows "arg (snd (t_create_enter p s0)) p 12 = arg s0 p 12"
proof -
  define s1 where "s1 = (case task_slot (sh (snd (task_self s0))) (fst (task_self s0)) of None \<Rightarrow> snd (task_self s0)
      | Some i \<Rightarrow> upd_task i (\<lambda>t. t\<lparr>t_ctx_dst := arg (snd (task_self s0)) p 10, t_arg_dst := arg (snd (task_self s0)) p 6,
           t_msgsize := arg (snd (task_self s0)) p 2, t_started := 0\<rparr>) (snd (task_self s0)))"
  have m: "mem s1 = mem s0" by (simp add: s1_def split: option.splits)
  have "snd (t_create_enter p s0) = (if arg s1 p 8 \<noteq> 0 then poke (arg s1 p 8) (le32 (fst (task_self s0))) s1 else s1)"
    by (simp add: t_create_enter_def Let_def split_beta s1_def)
  then show ?thesis using assms by (auto simp: arg_mem [OF m] arg_poke_apart)
qed

text \<open>
  C22. A thread created without a known parent still meets it: \<open>T_create\<close> with a parent id that names no
  task publishes one token and wakes every task whose last wait was for the start event; the next turn
  of such a wait, whoever's it is, returns exactly the start event and takes the token.
\<close>

theorem t_create_orphan_meets:
  assumes p: "p \<noteq> 0" and out: "arg s0 p 8 = 0 \<or> apart (p + 4 * of_nat 12) 4 (arg s0 p 8) 4"
    and par: "task_slot (sh (snd (t_create_enter p s0))) (arg s0 p 12) = None" and room: "c_orphan_tc (sh s0) + 1 \<noteq> 0"
    and res: "hc_t_create p s0 = (r, s)" and w: "has_bits (v_want w) 0x80000"
  shows "fst (ev_turn w s) = EvRet (v_want w AND 0x80000) \<and>
    c_orphan_tc (sh (snd (ev_turn w s))) = c_orphan_tc (sh s0) \<and>
    (\<forall>k<length (tasks s). t_used (tasks s ! k) \<longrightarrow> has_bits (t_last_ev_want (tasks s ! k)) 0x80000 \<longrightarrow>
       FxWake (FwEvents k) \<in> set (fx s))"
proof -
  let ?s2 = "snd (t_create_enter p s0)"
  let ?o = "?s2\<lparr>sh := (sh ?s2)\<lparr>c_orphan_tc := c_orphan_tc (sh ?s2) + 1\<rparr>\<rparr>"
  have "s = t_create_meet (arg ?s2 p 12) ?s2"
    using res p by (auto simp: hc_t_create_def Let_def split_beta split: option.splits)
  then have s: "s = wake_starters ?o" using par by (simp add: t_create_meet_def t_create_enter_arg [OF out])
  then have o: "c_orphan_tc (sh s) = c_orphan_tc (sh s0) + 1" by (simp add: t_create_enter_frame [OF refl])
  have "c_orphan_tc (sh s0) + 1 - 1 = c_orphan_tc (sh s0)" by simp
  then have "ev_turn w s = (EvRet (v_want w AND 0x80000), s\<lparr>sh := (sh s)\<lparr>c_orphan_tc := c_orphan_tc (sh s0)\<rparr>\<rparr>)"
    using w room o by (simp add: ev_turn_def Let_def)
  moreover have "FxWake (FwEvents k) \<in> set (fx s)"
    if "k < length (tasks s)" "t_used (tasks s ! k)" "has_bits (t_last_ev_want (tasks s ! k)) 0x80000" for k
    using wake_starters_fx [of k ?o] that unfolding s by simp
  ultimately show ?thesis by simp
qed

lemma task_self_cached: "cached_self s = Some me \<Longrightarrow> task_self s = (me, s)"
  by (auto simp: cached_self_def task_self_def Let_def split: if_splits prod.splits)

definition orphan_demo :: st where
  "orphan_demo = poke_args 0x1000 (replicate 12 0 @ [- 1]) (read_demo [] ''X'')"

lemma orphan_demo_simps:
  "qcf orphan_demo = q_off" "ecf orphan_demo = ev_off"
  "tasks orphan_demo = [zero_task\<lparr>t_used := True, t_id := 0x100, t_tgid := 7, t_tid := 9, t_last_req_family := 0x28a\<rparr>]"
  "task_self orphan_demo = (0x100, orphan_demo)" "c_orphan_tc (sh orphan_demo) = 0"
proof -
  show "task_self orphan_demo = (0x100, orphan_demo)"
    using read_demo_simps(4) [of "[]" "''X''"] by (intro task_self_cached) (simp add: orphan_demo_def cached_self_def)
qed (simp_all add: orphan_demo_def read_demo_def zero_ctl_def)

lemma t_create_orphan_meets_witness:
  "fst (ev_turn (wait_demo\<lparr>v_want := 0x80000\<rparr>) orphan_demo) = EvSleep (FwEvents 0) None \<and>
   fst (ev_turn (wait_demo\<lparr>v_want := 0x80000\<rparr>) (snd (hc_t_create 0x1000 orphan_demo))) = EvRet 0x80000"
proof -
  have a: "arg orphan_demo 0x1000 8 = 0" "arg orphan_demo 0x1000 12 = - 1"
    unfolding orphan_demo_def by (subst arg_poke_args; simp add: nth_append)+
  have p: "task_slot (sh (snd (t_create_enter 0x1000 orphan_demo))) (arg orphan_demo 0x1000 12) = None"
    unfolding a t_create_enter_def
    by (auto simp: orphan_demo_simps task_slot_def slot_of_def Let_def zero_task_def nth_Cons' split: option.splits)
  have "fst (ev_turn (wait_demo\<lparr>v_want := 0x80000\<rparr>) orphan_demo) = EvSleep (FwEvents 0) None"
    by (simp add: ev_turn_def ev_block_def wait_demo_def orphan_demo_simps Let_def has_bits_def ev_ok_def
        events_of_def zero_task_def fire_bits_def fire_on_def level_bits_def wm_waits_def off_defs FOREVER_def)
  moreover have "fst (ev_turn (wait_demo\<lparr>v_want := 0x80000\<rparr>) (snd (hc_t_create 0x1000 orphan_demo))) = EvRet 0x80000"
    using t_create_orphan_meets [OF _ _ p _ prod.collapse [symmetric], of "wait_demo\<lparr>v_want := 0x80000\<rparr>"]
    by (simp add: a orphan_demo_simps has_bits_def)
  ultimately show ?thesis by simp
qed

section \<open>The environment\<close>

text \<open>
  \<open>Sys_getenv\<close> stays inside the caller's buffer: it writes no byte outside the \<open>size\<close> bytes of the
  buffer, and what it writes is the value, cut to \<open>size - 1\<close> characters and always terminated.
\<close>

theorem env_get_bounded:
  assumes "h_env h nm = Some v" and "sz \<noteq> 0" and "length v < 2 ^ 32 - 1"
  shows "peek (Suc (min (length v) (unat sz - 1))) out (env_get h nm out sz s)
       = bytes_of (take (unat sz - 1) v) @ [0] \<and>
    (\<forall>a. unat sz \<le> unat (a - out) \<longrightarrow> mem (env_get h nm out sz s) a = mem s a)"
proof -
  let ?v = "take (unat sz - 1) v"
  have z: "0 < unat sz" using assms(2) by (simp add: unat_gt_0)
  have e: "env_get h nm out sz s = poke out (bytes_of ?v @ [0]) s"
    using assms(1,2) z by (auto simp: env_get_def poke_str_def)
  have l: "length (bytes_of ?v @ [0]) = Suc (min (length v) (unat sz - 1))" by simp
  have "peek (length (bytes_of ?v @ [0])) out (poke out (bytes_of ?v @ [0]) s) = bytes_of ?v @ [0]"
    using peek_poke_same [of "length (bytes_of ?v @ [0])" "bytes_of ?v @ [0]" out s] assms(3) by simp
  moreover have "mem (poke out (bytes_of ?v @ [0]) s) a = mem s a" if "unat sz \<le> unat (a - out)" for a
    using that z by (auto simp: poke_def)
  ultimately show ?thesis unfolding e l by blast
qed

lemma env_get_bounded_witness:
  "peek 5 0x1000 (env_get \<lparr>h_env = (\<lambda>_. Some ''SYS:/cfg''), h_map = (\<lambda>_ _. None), h_file = (\<lambda>_. None)\<rparr> ''X'' 0x1000 5 (boot 7 7))
   = bytes_of ''SYS:'' @ [0]"
proof -
  have n: "Suc (min (length ''SYS:/cfg'') (unat (5 :: u32) - 1)) = 5" by simp
  show ?thesis
  using env_get_bounded [of "\<lparr>h_env = (\<lambda>_. Some ''SYS:/cfg''), h_map = (\<lambda>_ _. None), h_file = (\<lambda>_. None)\<rparr>" "''X''" "''SYS:/cfg''" 5 "0x1000" "boot 7 7"]
    unfolding n by simp
qed

section \<open>One task to another\<close>

definition quiet :: "st \<Rightarrow> bool" where
  "quiet s \<longleftrightarrow> plain s \<and> plain_read s \<and> \<not> j_hws_stub (icf s) \<and> \<not> j_ack (icf s) \<and> \<not> j_evt_ack (icf s) \<and>
     \<not> j_peer_ack (icf s)"

lemma reconcile_mem [simp]: "mem (evdev_reconcile_locked i s) = mem s" "mem (evdev_reconcile t s) = mem s"
  by (auto simp: evdev_reconcile_locked_def evdev_reconcile_def upd_evdev_def Let_def split: option.splits)

lemma ev_send_mem [simp]: "mem (snd (ev_send t b s)) = mem s"
  by (simp add: ev_send_def split: option.splits)

lemma send_mem [simp]:
  "mem (as_kick g t x s) = mem s" "mem (note_family k t m s) = mem s" "mem (q_enqueue k t md m z s) = mem s"
  "mem (q_wake k s) = mem s"
  by (auto simp: as_kick_def note_family_def q_enqueue_def q_wake_def Let_def split: option.splits)

lemma quiet_hooks:
  assumes "\<not> j_hws_stub (icf s)" "\<not> j_ack (icf s)" "\<not> j_evt_ack (icf s)" "\<not> j_peer_ack (icf s)"
  shows "hws_autoreply q m s = s" "inject_connect_ack q m s = s" "inject_forget_ack q m s = s"
    "inject_evt_connect_ack q m s = s" "inject_peer_connect_ack q m s = s" "inject_evt_error_reply q m s = s"
    "inject_broadcast_register_reply m s = s"
  using assms by (simp_all add: hws_autoreply_def inject_connect_ack_def inject_forget_ack_def
      inject_evt_connect_ack_def inject_peer_connect_ack_def inject_evt_error_reply_def
      inject_broadcast_register_reply_def)

lemma heroscall_q_send: "heroscall h 0x0d p s = hc_q_send p s"
  by (simp add: heroscall_def hc_named_def)

lemma heroscall_q_read: "heroscall h 0x0e p s = hc_q_read p s"
  by (simp add: heroscall_def hc_named_def)

text \<open>
  C20. End to end through \<open>syscall\<close>: what one call sends from the guest's memory, a read call of the same
  queue puts into the reader's memory, byte for byte, and returns its length; with the interventions
  off, an empty queue, and a buffer that is large enough.
\<close>

theorem heroscall_send_read:
  assumes quiet: "quiet s" and p: "p \<noteq> 0" "p' \<noteq> 0" and slot: "q_slot (sh s) (arg s p 4) = Some k"
    and ring: "ring_ok (queues s ! k)" "ring_cnt 1 (queues s ! k)" "q_content (queues s ! k) = []"
    and msg: "arg s p 0 \<noteq> 0" "arg s p 2 \<noteq> 0" "unat (arg s p 2) \<le> QMSGCAP"
    and rd: "arg s p' 7 = arg s p 4" "arg s p' 0 \<noteq> 0" "arg s p 2 \<le> arg s p' 2" "arg s p' 4 = 0"
    and send: "heroscall h 0x0d p s = (r, s1)" and read: "heroscall h 0x0e p' s1 = (r', s2)"
  shows "r = HcRet 0 \<and> r' = HcRet (int (unat (arg s p 2))) \<and>
    peek (unat (arg s p 2)) (arg s p' 0) s2 = peek (unat (arg s p 2)) (arg s p 0) s"
proof -
  let ?n = "unat (arg s p 2)" and ?q = "arg s p 4"
  define m where "m = peek ?n (arg s p 0) s"
  have len: "length m = ?n" "of_nat (length m) = arg s p 2" by (simp_all add: m_def)
  have ne: "m \<noteq> []" using len(1) msg(2) by (auto simp: unat_eq_0)
  obtain x u where xu: "q_send ?q (Some m) (of_nat (length m)) (arg s p 6) s = (x, u)" by (cases "q_send ?q (Some m) (of_nat (length m)) (arg s p 6) s")
  have pl: "plain s" "plain_read s" using quiet by (simp_all add: quiet_def)
  have fit: "length m \<le> QMSGCAP" using len msg(3) by simp
  note d = q_send_plain [OF pl(1) slot ring(1,2) fit xu]
  have fits: "length m \<le> unat (arg s p' 2)" using rd(3) by (simp add: len(1) word_le_nat_alt)
  note sr = send_read(1) [OF pl slot ring fit fits ne xu, of "arg s p' 6" False]
    and r0 = send_read(2) [OF pl slot ring fit fits ne xu]
  have icf: "icf u = icf s" by (rule d(7))
  have mu: "mem u = mem s" by (subst d(9)) simp
  have "heroscall h 0x0d p s = (HcRet x, u)"
    using p msg(1) xu quiet quiet_hooks [of u]
    by (simp add: heroscall_q_send hc_q_send_def msg_at_def Let_def icf quiet_def flip: m_def) (simp add: len)
  then have s1: "r = HcRet 0" "s1 = u" using send r0 by auto
  have a: "arg u p' i = arg s p' i" for i using mu by (rule arg_mem)
  have "heroscall h 0x0e p' s1 = (HcRet (int ?n), poke (arg s p' 0) m
      ((level_notify k (upd_queue k ring_pop (reset_streak k u)))\<lparr>errno := errno u\<rparr>))"
    using p(2) sr rd by (simp add: heroscall_q_read hc_q_read_def a read_done_def s1(2) len)
  then have e: "r' = HcRet (int ?n)" "s2 = poke (arg s p' 0) m
      ((level_notify k (upd_queue k ring_pop (reset_streak k u)))\<lparr>errno := errno u\<rparr>)"
    using read by auto
  have "peek ?n (arg s p' 0) s2 = m"
    unfolding e(2) using peek_poke_same [of ?n m] len(1) unat_lt32 [of "arg s p 2"] by simp
  then show ?thesis using s1(1) e(1) by (simp add: m_def)
qed

definition pair_demo :: st where
  "pair_demo = poke_args 0x2000 [0x4000, 0, 100, 0, 0, 0, 0, 0x300] (poke_args 0x1000 [0x3000, 0, 3, 0, 0x300, 0, 0]
     (poke 0x3000 [10, 20, 30] (read_demo [] ''CfgServerQueue'')))"

lemma pair_demo_simps:
  "sh pair_demo = sh (read_demo [] ''CfgServerQueue'')" "quiet pair_demo"
  using read_demo_simps(1,2) [of "[]" "''CfgServerQueue''"]
  by (simp_all add: pair_demo_def quiet_def plain_def plain_read_def) (simp_all add: read_demo_def off_defs)

lemma apart_small: "m \<le> unat (a - b) \<Longrightarrow> unat (a - b) + n \<le> 2 ^ 32 \<Longrightarrow> apart a n b m"
proof -
  assume m: "m \<le> unat (a - b)" and w: "unat (a - b) + n \<le> 2 ^ 32"
  have "m \<le> unat (a + of_nat i - b)" if "i < n" for i
  proof -
    have "a + of_nat i - b = (a - b) + of_nat i" by simp
    moreover have "unat ((a - b) + of_nat i) = unat (a - b) + i"
    proof (subst unat_add_lem [THEN iffD1])
      have "unat (of_nat i :: u32) = i" using that w by (intro unat_of_nat_small) linarith
      then show "unat (a - b) + unat (of_nat i :: u32) < 2 ^ LENGTH(32)" using that w by simp
      then show "unat (a - b) + unat (of_nat i :: u32) = unat (a - b) + i" using \<open>unat (of_nat i) = i\<close> by simp
    qed
    ultimately show ?thesis using m by (metis le_add1 le_trans)
  qed
  then show ?thesis by (simp add: apart_def)
qed

lemma heroscall_send_read_witness:
  "\<forall>h. peek 3 0x4000 (snd (heroscall h 0x0e 0x2000 (snd (heroscall h 0x0d 0x1000 pair_demo)))) = peek 3 0x3000 pair_demo"
proof
  fix h
  have a: "arg pair_demo 0x1000 0 = 0x3000" "arg pair_demo 0x1000 2 = 3" "arg pair_demo 0x1000 4 = 0x300"
    unfolding pair_demo_def by (simp_all add: arg_poke_args_apart apart_small arg_poke_args)
  have b: "arg pair_demo 0x2000 0 = 0x4000" "arg pair_demo 0x2000 2 = 100" "arg pair_demo 0x2000 4 = 0"
    "arg pair_demo 0x2000 7 = 0x300"
    unfolding pair_demo_def by (subst arg_poke_args; simp)+
  have e: "length [] < 12" "list_all view_fits []" by simp_all
  have q: "q_slot (sh pair_demo) (arg pair_demo 0x1000 4) = Some 0" "ring_ok (queues pair_demo ! 0)"
    "ring_cnt 1 (queues pair_demo ! 0)" "q_content (queues pair_demo ! 0) = []"
    using read_demo_simps(6) read_demo_queue(2-4) [OF e] by (simp_all add: a pair_demo_simps)
  show "peek 3 0x4000 (snd (heroscall h 0x0e 0x2000 (snd (heroscall h 0x0d 0x1000 pair_demo)))) = peek 3 0x3000 pair_demo"
    using heroscall_send_read [where p = "0x1000" and p' = "0x2000", OF pair_demo_simps(2) _ _ q, OF _ _ _ _ _ _ _ _ _
        prod.collapse [symmetric] prod.collapse [symmetric]]
    by (simp add: a b QMSGCAP_def)
qed

section \<open>Process names\<close>

lemma cstr_at_poke:
  assumes "CHR 0x00 \<notin> set nm" and "length nm < CSTR_MAX"
  shows "cstr_at a (poke_str a nm s) = nm"
proof -
  let ?b = "bytes_of nm @ [0]"
  have l: "length ?b \<le> CSTR_MAX" "length ?b < 2 ^ 32" using assms(2) by (simp_all add: CSTR_MAX_def)
  have "take (length ?b) (peek CSTR_MAX a (poke a ?b s)) = peek (length ?b) a (poke a ?b s)"
    using l(1) by (simp add: peek_def take_map min_def)
  also have "\<dots> = ?b" using peek_poke_same [of "length ?b" ?b] l(2) by simp
  finally have "peek CSTR_MAX a (poke a ?b s) = ?b @ drop (length ?b) (peek CSTR_MAX a (poke a ?b s))"
    by (metis append_take_drop_id)
  then have "cstr_of (peek CSTR_MAX a (poke a ?b s)) = cstr_of (bytes_of nm @ 0 # drop (length ?b) (peek CSTR_MAX a (poke a ?b s)))"
    by simp
  then show ?thesis using cstr_of_bytes_of [OF assms(1)] by (simp add: cstr_at_def poke_str_def)
qed

text \<open>
  \<open>P_ident\<close> inverts \<open>P_name\<close>: the name \<open>P_name\<close> writes for a task of a process registered under a
  name of at most 28 characters without a colon, looked up with \<open>P_ident\<close>, answers the id of the task
  that carries the registration, provided no other live task carries that name.
\<close>

theorem p_name_ident_roundtrip:
  assumes reg: "k_pname_reg (qcf s)" and p: "p \<noteq> 0" "arg s p 0 \<noteq> 0" "p' \<noteq> 0"
    and tid: "arg s p 2 \<noteq> - 1" "task_slot (sh s) (arg s p 2) = Some k"
    and j: "j < length (tasks s)" "t_used (tasks s ! j)" "t_tgid (tasks s ! j) = t_tgid (tasks s ! k)" "t_pname (tasks s ! j) = nm"
      "t_id (tasks s ! j) \<noteq> 0"
    and uniq: "\<And>i. i < length (tasks s) \<Longrightarrow> t_used (tasks s ! i) \<Longrightarrow> t_pname (tasks s ! i) \<noteq> [] \<Longrightarrow>
        t_tgid (tasks s ! i) = t_tgid (tasks s ! k) \<or> name_eq (t_pname (tasks s ! i)) nm \<Longrightarrow> i = j"
    and nm: "nm \<noteq> []" "length nm \<le> 28" "CHR 0x00 \<notin> set nm" "\<not> has_char (CHR '':'') nm"
    and call: "hc_p_name p s = (r, s1)" and blk: "arg s1 p' 0 = arg s p 0"
  shows "hc_p_ident p' s1 = (HcRet (sint (t_id (tasks s ! j))), s1)"
proof -
  have "find_index (\<lambda>t. t_used t \<and> t_tgid t = t_tgid (tasks s ! k) \<and> t_pname t \<noteq> []) (tasks s) = Some j"
  proof (rule find_index_unique)
    show "i = j" if "i < length (tasks s)" "t_used (tasks s ! i) \<and> t_tgid (tasks s ! i) = t_tgid (tasks s ! k) \<and> t_pname (tasks s ! i) \<noteq> []" for i
      using uniq [of i] that by blast
  qed (use j nm(1) in simp_all)
  then have nameof: "take 28 (pname_of s (arg s p 2)) = nm"
    using tid j(4) nm(2) by (simp add: pname_of_def name_store_def NAMELEN_def)
  then have s1: "s1 = poke_str (arg s p 0) nm s" using call reg p by (simp add: hc_p_name_def)
  have c: "cstr_at (arg s1 p' 0) s1 = nm"
    unfolding blk using nm(2,3) by (simp add: s1 cstr_at_poke CSTR_MAX_def)
  have sh: "sh s1 = sh s" "qcf s1 = qcf s" by (simp_all add: s1 poke_str_def)
  have canon: "canon_pname (Some nm) = nm"
    using nm(2,4) by (simp add: canon_pname_def after_first_def name_store_def NAMELEN_def)
  have "proc_by_name (sh s1) (Some nm) = t_id (tasks s ! j)"
  proof -
    have "find_index (\<lambda>t. t_used t \<and> t_pname t \<noteq> [] \<and> name_eq (t_pname t) nm) (tasks s) = Some j"
    proof (rule find_index_unique)
      show "i = j" if "i < length (tasks s)" "t_used (tasks s ! i) \<and> t_pname (tasks s ! i) \<noteq> [] \<and> name_eq (t_pname (tasks s ! i)) nm" for i
        using uniq [of i] that by blast
    qed (use j nm(1) in simp_all)
    then show ?thesis using nm(1) by (simp add: proc_by_name_def canon sh)
  qed
  then show ?thesis using p(2,3) reg j(5) c blk by (simp add: hc_p_ident_def Let_def sh)
qed

definition names_demo :: st where
  "names_demo = poke_args 0x1000 [0x3000, 0, 0x100] ((read_demo [] ''X'')\<lparr>qcf := q_off\<lparr>k_pname_reg := True\<rparr>,
     sh := zero_ctl\<lparr>c_tasks := [zero_task\<lparr>t_used := True, t_id := 0x100, t_tgid := 7, t_pname := ''~/simulo''\<rparr>]\<rparr>\<rparr>)"

lemma p_name_ident_roundtrip_witness:
  "hc_p_ident 0x1000 (snd (hc_p_name 0x1000 names_demo)) = (HcRet 0x100, snd (hc_p_name 0x1000 names_demo))"
proof -
  have a: "arg names_demo 0x1000 0 = 0x3000" "arg names_demo 0x1000 2 = 0x100"
    unfolding names_demo_def by (subst arg_poke_args; simp)+
  have tk: "tasks names_demo = [zero_task\<lparr>t_used := True, t_id := 0x100, t_tgid := 7, t_pname := ''~/simulo''\<rparr>]"
    by (simp add: names_demo_def)
  have sl: "task_slot (sh names_demo) (arg names_demo 0x1000 2) = Some 0" using tk by (simp add: a task_slot_def slot_of_def)
  have k: "k_pname_reg (qcf names_demo)" by (simp add: names_demo_def)
  have w: "arg (snd (hc_p_name 0x1000 names_demo)) 0x1000 0 = arg names_demo 0x1000 0"
    by (simp add: hc_p_name_def a poke_str_def arg_poke_apart apart_small k)
  show ?thesis
    using p_name_ident_roundtrip [where p' = "0x1000" and j = 0 and nm = "''~/simulo''", OF k _ _ _ _ sl,
        OF _ _ _ _ _ _ _ _ _ _ _ _ _ _ prod.collapse [symmetric] w]
    by (simp add: a tk has_char_def)
qed

end
