(* ===== verification/Environ.thy ===== *)
theory Environ
  imports Tasks
begin

text \<open>
  The environment switches: how the runtime reads a flag, a decimal or hexadecimal number and the list
  of traced tasks from the environment, and \<open>ensure_init\<close>, which attaches the control segment, names
  the process and reads the switches once per process.
\<close>

section \<open>Numbers and flags\<close>

abbreviation code :: "char \<Rightarrow> nat" where "code \<equiv> of_char"

definition is_dec :: "char \<Rightarrow> bool" where
  "is_dec c \<longleftrightarrow> code (CHR ''0'') \<le> code c \<and> code c \<le> code (CHR ''9'')"

definition is_hex :: "char \<Rightarrow> bool" where
  "is_hex c \<longleftrightarrow> is_dec c \<or> (code (CHR ''a'') \<le> code c \<and> code c \<le> code (CHR ''f'')) \<or>
     (code (CHR ''A'') \<le> code c \<and> code c \<le> code (CHR ''F''))"

definition dec_digit :: "char \<Rightarrow> nat" where
  "dec_digit c = code c - code (CHR ''0'')"

text \<open>\<open>*q<='9' ? *q-'0' : (*q|0x20)-'a'+10\<close>.\<close>

definition hex_digit :: "char \<Rightarrow> nat" where
  "hex_digit c = (if code c \<le> code (CHR ''9'') then dec_digit c else (code c OR 32) - code (CHR ''a'') + 10)"

text \<open>The loop \<open>for(q=s; *q>='0'&&*q<='9'; q++) v=v*10+(*q-'0')\<close> on an unsigned 32-bit \<open>v\<close>.\<close>

fun dec_loop :: "u32 \<Rightarrow> string \<Rightarrow> u32" where
  "dec_loop v [] = v"
| "dec_loop v (c # cs) = (if is_dec c then dec_loop (v * 10 + of_nat (dec_digit c)) cs else v)"

definition env_on :: "string option \<Rightarrow> bool" where
  "env_on e = (case e of Some (c # cs) \<Rightarrow> c = CHR ''1'' | _ \<Rightarrow> False)"

definition env_not_off :: "string option \<Rightarrow> bool" where
  "env_not_off e = (case e of Some (c # cs) \<Rightarrow> c \<noteq> CHR ''0'' | _ \<Rightarrow> True)"

definition env_dec :: "u32 \<Rightarrow> string option \<Rightarrow> u32" where
  "env_dec d e = (case e of None \<Rightarrow> d | Some v \<Rightarrow> dec_loop 0 v)"

text \<open>
  \<open>strtoul\<close> and \<open>strtol\<close> with base 0 on a 32-bit \<open>long\<close>: blanks, a sign, a prefix that picks the base,
  digits up to the first character that is none, saturating.
\<close>

definition is_blank :: "char \<Rightarrow> bool" where
  "is_blank c \<longleftrightarrow> code c = 32 \<or> (9 \<le> code c \<and> code c \<le> 13)"

fun num_loop :: "nat \<Rightarrow> nat \<Rightarrow> string \<Rightarrow> nat" where
  "num_loop b v [] = v"
| "num_loop b v (c # cs) = (if is_hex c \<and> hex_digit c < b then num_loop b (v * b + hex_digit c) cs else v)"

definition num_base0 :: "string \<Rightarrow> nat" where
  "num_base0 s =
     (case s of
        c # x # d # ds \<Rightarrow>
          if c = CHR ''0'' \<and> (x = CHR ''x'' \<or> x = CHR ''X'') \<and> is_hex d then num_loop 16 0 (d # ds)
          else if c = CHR ''0'' then num_loop 8 0 s else num_loop 10 0 s
      | c # cs \<Rightarrow> if c = CHR ''0'' then num_loop 8 0 s else num_loop 10 0 s
      | [] \<Rightarrow> 0)"

definition signed_num :: "(string \<Rightarrow> nat) \<Rightarrow> string \<Rightarrow> bool \<times> nat" where
  "signed_num num s =
     (case dropWhile is_blank s of
        [] \<Rightarrow> (False, 0)
      | c # cs \<Rightarrow> if c = CHR ''-'' then (True, num cs)
                  else if c = CHR ''+'' then (False, num cs) else (False, num (c # cs)))"

definition saturate :: "bool \<times> nat \<Rightarrow> int" where
  "saturate nv = (if fst nv then max (- (2 ^ 31)) (- int (snd nv)) else min (2 ^ 31 - 1) (int (snd nv)))"

definition strtoul0 :: "string \<Rightarrow> u32" where
  "strtoul0 s = (let (neg, v) = signed_num num_base0 s in
     if 2 ^ 32 \<le> v then 0xffffffff else if neg then - of_nat v else of_nat v)"

definition strtol0 :: "string \<Rightarrow> int" where
  "strtol0 s = saturate (signed_num num_base0 s)"

text \<open>\<open>atol\<close>: base 10.\<close>

definition atol :: "string \<Rightarrow> int" where
  "atol s = saturate (signed_num (num_loop 10 0) s)"

section \<open>The list of traced tasks\<close>

text \<open>\<open>HEROSCALL_HSTRACE_TASKS\<close>: hexadecimal numbers with anything between them, 16 at most.\<close>

definition hex_val :: "string \<Rightarrow> u32" where
  "hex_val ds = fold (\<lambda>c v. v * 16 + of_nat (hex_digit c)) ds 0"

function hst_parse :: "nat \<Rightarrow> string \<Rightarrow> u32 list" where
  "hst_parse 0 q = []"
| "hst_parse (Suc n) [] = []"
| "hst_parse (Suc n) (c # q) =
     (let ds = takeWhile is_hex (c # q);
          rest = dropWhile (\<lambda>x. \<not> is_hex x) (dropWhile is_hex (c # q))
      in if ds \<noteq> [] then hex_val ds # hst_parse n rest else hst_parse (Suc n) rest)"
  by pat_completeness auto
termination
proof (relation "measures [fst, length \<circ> snd]")
  fix n c q x xa
  assume "x = takeWhile is_hex (c # q)" and "xa = dropWhile (\<lambda>x. \<not> is_hex x) (dropWhile is_hex (c # q))" and "\<not> x \<noteq> []"
  then have "\<not> is_hex c" and "xa = dropWhile (\<lambda>x. \<not> is_hex x) q" by (auto split: if_splits)
  then show "((Suc n, xa), Suc n, c # q) \<in> measures [fst, length \<circ> snd]"
    using length_dropWhile_le [of "\<lambda>x. \<not> is_hex x" q] by (simp add: less_Suc_eq_le)
qed simp_all

definition hst_tasks :: "string option \<Rightarrow> u32 list" where
  "hst_tasks e = (case e of None \<Rightarrow> [] | Some q \<Rightarrow> hst_parse 16 q)"

section \<open>The first call of a process\<close>

definition read_ev_switches :: "(string \<Rightarrow> string option) \<Rightarrow> ev_cfg \<Rightarrow> ev_cfg" where
  "read_ev_switches env c = c\<lparr>
     e_as_deliver := env_not_off (env ''HEROSCALL_AS_DELIVER''),
     e_sem_autocount := env_dec (e_sem_autocount c) (env ''HEROSCALL_SEM_INIT''),
     e_timers_fire := env_on (env ''HEROSCALL_TIMERS''),
     e_events_bridge := env_on (env ''HEROS_EVENTS_PIPE'')\<rparr>"

definition read_q_switches :: "(string \<Rightarrow> string option) \<Rightarrow> q_cfg \<Rightarrow> q_cfg" where
  "read_q_switches env c = c\<lparr>
     k_autocreate := env_not_off (env ''HEROSCALL_AUTO_QUEUE''),
     k_qident_notify := env_not_off (env ''HEROS_QIDENT_NOTIFY''),
     k_qident_dotlead := env_not_off (env ''HEROS_QIDENT_DOTLEAD''),
     k_qread_maxwait := env_dec 0 (env ''HEROSCALL_QREAD_MAXWAIT''),
     k_sync_timeout := env_dec 0 (env ''HEROSCALL_SYNC_TIMEOUT''),
     k_pname_reg := env_on (env ''HEROSCALL_PNAME'')\<rparr>"

definition read_inj_switches :: "(string \<Rightarrow> string option) \<Rightarrow> inj_cfg \<Rightarrow> inj_cfg" where
  "read_inj_switches env c = c\<lparr>
     j_hws_stub := env_on (env ''HEROSCALL_HWS_STUB''),
     j_replay := env_on (env ''HEROSCALL_REPLAY_TRIGGER''),
     j_upd := env_on (env ''HEROSCALL_INJECT_UPD''),
     j_ack := env_on (env ''HEROSCALL_INJECT_ACK''),
     j_evt_ack := env_on (env ''HEROSCALL_INJECT_EVT_ACK''),
     j_peer_ack := env_on (env ''HEROSCALL_INJECT_PEER_ACK''),
     j_reread := env_on (env ''HEROSCALL_INJECT_REREAD'')\<rparr>"

text \<open>
  A process is its state and whether it has been initialised.  \<open>None\<close>: another process is still
  initialising the segment.
\<close>

definition ensure_init ::
    "(string \<Rightarrow> string option) \<Rightarrow> string option \<Rightarrow> bool \<times> st \<Rightarrow> (bool \<times> st) option" where
  "ensure_init env cmdline p =
     (if fst p then Some p
      else
        let s = snd p;
            nm = parse_self_pname (env ''HEROS_PROC_NAME'') cmdline;
            s1 = s\<lparr>ecf := read_ev_switches env (ecf s), qcf := read_q_switches env (qcf s),
                   icf := read_inj_switches env (icf s),
                   lo := (lo s)\<lparr>p_self_pname := (if k_pname_reg (read_q_switches env (qcf s)) \<or> p_self_pname (lo s) = []
                                              then nm else p_self_pname (lo s))\<rparr>\<rparr>
        in case ctl_init (sh s1) of
             None \<Rightarrow> None
           | Some c \<Rightarrow>
               Some (True, s1\<lparr>sh := (if p_self_pname (lo s1) \<noteq> [] \<and> has_sub ''hwserver'' (p_self_pname (lo s1))
                                   then c\<lparr>c_hwserver_alive := True\<rparr> else c)\<rparr>))"

section \<open>Properties\<close>

lemma takeWhile_dropWhile_block:
  assumes "\<forall>x\<in>set a. P x" and "b = [] \<or> \<not> P (hd b)"
  shows "takeWhile P (a @ b) = a" and "dropWhile P (a @ b) = b"
  using assms by (cases b; simp)+

text \<open>Numbers with separators between them, as the variable spells them.\<close>

fun spell :: "(string \<times> string) list \<Rightarrow> string" where
  "spell [] = []"
| "spell ((ds, sep) # r) = ds @ sep @ spell r"

definition spelled :: "(string \<times> string) list \<Rightarrow> bool" where
  "spelled ts \<longleftrightarrow> (\<forall>(ds, sep)\<in>set ts. ds \<noteq> [] \<and> sep \<noteq> [] \<and> (\<forall>c\<in>set ds. is_hex c) \<and> (\<forall>c\<in>set sep. \<not> is_hex c))"

lemma spell_hd: "spelled ts \<Longrightarrow> spell ts = [] \<or> is_hex (hd (spell ts))"
  by (cases ts) (auto simp: spelled_def neq_Nil_conv)

lemma hst_parse_spell: "spelled ts \<Longrightarrow> hst_parse n (spell ts) = take n (map (hex_val \<circ> fst) ts)"
proof (induction ts arbitrary: n)
  case Nil
  then show ?case by (cases n) simp_all
next
  case (Cons t ts)
  obtain ds sep where t: "t = (ds, sep)" by force
  have d: "ds \<noteq> []" "\<forall>c\<in>set ds. is_hex c" "sep \<noteq> []" "\<forall>c\<in>set sep. \<not> is_hex c" "spelled ts"
    using Cons.prems by (auto simp: spelled_def t)
  have s: "\<not> is_hex (hd (sep @ spell ts))" using d(3,4) by (cases sep) auto
  have 1: "takeWhile is_hex (ds @ sep @ spell ts) = ds" "dropWhile is_hex (ds @ sep @ spell ts) = sep @ spell ts"
    using takeWhile_dropWhile_block [of ds is_hex "sep @ spell ts"] d(2) s by simp_all
  have 2: "dropWhile (\<lambda>x. \<not> is_hex x) (sep @ spell ts) = spell ts"
    using takeWhile_dropWhile_block(2) [of sep "\<lambda>x. \<not> is_hex x" "spell ts"] d(4) spell_hd [OF d(5)] by auto
  obtain c cs where c: "ds @ sep @ spell ts = c # cs" using d(1) by (cases ds) auto
  show ?case
  proof (cases n)
    case (Suc m)
    have "takeWhile is_hex (c # cs) = ds" "dropWhile is_hex (c # cs) = sep @ spell ts"
      using 1 unfolding c .
    then have "hst_parse (Suc m) (c # cs) = hex_val ds # hst_parse m (spell ts)"
      by (simp only: hst_parse.simps Let_def 2 d(1) if_True not_False_eq_True)
    then show ?thesis using Cons.IH [OF d(5)] by (simp add: t Suc c)
  qed simp
qed

text \<open>
  The list of traced tasks reads back: whatever the separators between the hexadecimal numbers, the
  first sixteen of them are the list, each with its value modulo \<open>2\<^sup>3\<^sup>2\<close>, and nothing else is.
\<close>

theorem hst_tasks_roundtrip:
  assumes "spelled ts"
  shows "hst_tasks (Some (spell ts)) = take 16 (map (hex_val \<circ> fst) ts)"
  using hst_parse_spell [OF assms] by (simp add: hst_tasks_def)

lemma hst_tasks_roundtrip_witness: "hst_tasks (Some ''10a, 0107;'') = [0x10a, 0x107]"
proof -
  have "spelled [(''10a'', '', ''), (''0107'', '';'')]" by (simp add: spelled_def is_hex_def is_dec_def)
  moreover have "hex_val ''10a'' = 0x10a" "hex_val ''0107'' = 0x107"
    by (simp_all add: hex_val_def hex_digit_def dec_digit_def)
  ultimately show ?thesis using hst_tasks_roundtrip [of "[(''10a'', '', ''), (''0107'', '';'')]"] by simp
qed

text \<open>
  A process attaches once and disturbs nobody: on a segment that is ready, \<open>ensure_init\<close> keeps every
  table and counter, the flag of the real hardware server is only ever raised, and exactly by the process
  of that name; a second call, whatever the environment has become, changes nothing.
\<close>

theorem ensure_init_attach:
  assumes "c_magic (sh s) = 2" and "p_self_pname (lo s) = []"
    and "ensure_init env cl (False, s) = Some p"
  shows "sh (snd p) = (sh s)\<lparr>c_hwserver_alive := c_hwserver_alive (sh s) \<or>
           has_sub ''hwserver'' (parse_self_pname (env ''HEROS_PROC_NAME'') cl)\<rparr> \<and>
    p_self_pname (lo (snd p)) = parse_self_pname (env ''HEROS_PROC_NAME'') cl \<and>
    ensure_init env' cl' p = Some p"
proof -
  let ?nm = "parse_self_pname (env ''HEROS_PROC_NAME'') cl"
  have h: "\<not> has_sub ''hwserver'' []" by (simp add: has_sub.simps)
  have c: "ctl_init (sh s) = Some (sh s)" using assms(1) by (simp add: ctl_init_def)
  have k: "(sh s)\<lparr>c_hwserver_alive := c_hwserver_alive (sh s)\<rparr> = sh s" by simp
  have p: "fst p" "p_self_pname (lo (snd p)) = ?nm"
    "sh (snd p) = (if ?nm \<noteq> [] \<and> has_sub ''hwserver'' ?nm then (sh s)\<lparr>c_hwserver_alive := True\<rparr> else sh s)"
  proof -
    have "p = the (ensure_init env cl (False, s))" using assms(3) by simp
    then show "fst p" "p_self_pname (lo (snd p)) = ?nm"
      "sh (snd p) = (if ?nm \<noteq> [] \<and> has_sub ''hwserver'' ?nm then (sh s)\<lparr>c_hwserver_alive := True\<rparr> else sh s)"
      using assms(2) by (simp_all add: ensure_init_def Let_def c)
  qed
  have "sh (snd p) = (sh s)\<lparr>c_hwserver_alive := c_hwserver_alive (sh s) \<or> has_sub ''hwserver'' ?nm\<rparr>"
    using p(3) h k by (cases "has_sub ''hwserver'' ?nm"; cases ?nm) (simp_all only: if_True if_False simp_thms list.simps)
  then show ?thesis using p(1,2) by (simp add: ensure_init_def)
qed

lemma ensure_init_attach_witness:
  "sh (snd (the (ensure_init (\<lambda>n. if n = ''HEROS_PROC_NAME'' then Some ''Server/hwserver'' else None) None
     (False, boot 7 7)))) = (sh (boot 7 7))\<lparr>c_hwserver_alive := True\<rparr>"
proof -
  let ?e = "\<lambda>n. if n = ''HEROS_PROC_NAME'' then Some ''Server/hwserver'' else None"
  have m: "c_magic (sh (boot 7 7)) = 2" "p_self_pname (lo (boot 7 7)) = []"
    by (simp_all add: boot_def ctl_init_def zero_ctl_def proc_init_def)
  have n: "has_sub ''hwserver'' (parse_self_pname (?e ''HEROS_PROC_NAME'') None)"
    by (simp add: parse_self_pname_def canon_pname_def after_first_def has_char_def name_store_def NAMELEN_def
        has_sub.simps has_prefix_def)
  obtain p where p: "ensure_init ?e None (False, boot 7 7) = Some p"
    using m(1) by (simp add: ensure_init_def Let_def ctl_init_def)
  show ?thesis using ensure_init_attach [OF m p] n p by simp
qed

end
