(* ===== verification/SkFlow.thy ===== *)
theory SkFlow
  imports Posters HeroscallFacts Environ
begin

text \<open>
  The softkey flow: a thread in every process waits for the queue of the softkey manager, the first
  that finds it takes the single-poster word and posts login, menu and activation, from the recorded
  wire files or, if one is missing, built in place.
\<close>

section \<open>Messages\<close>

definition post_sk_wire_file :: "host \<Rightarrow> u32 \<Rightarrow> string \<Rightarrow> st \<Rightarrow> bool \<times> st" where
  "post_sk_wire_file h qid path s =
     (case h_file h path of
        None \<Rightarrow> (False, s)
      | Some f \<Rightarrow> let b = take 4096 f in if length b < 8 then (False, s) else (True, post qid b 0 s))"

definition sk_client_name :: string where "sk_client_name = ''/mnt/sys/heros5/bin/Guppy.elf''"
definition sk_menu_name :: string where "sk_menu_name = ''/mnt/sys/Python/HwViewer/sk/HwViewer.spj''"

definition sk_login_msg :: "u8 list" where
  "sk_login_msg = le32 0x028a0120 @ le32 0x84 @ le32 0 @ le32 0x800001ef @
     le32 0xe7 @ le32 (of_nat (length sk_client_name)) @ bytes_of sk_client_name"

definition sk_setmenu_msg :: "u32 \<Rightarrow> u8 list" where
  "sk_setmenu_msg hnd = le32 0x028a02c0 @ le32 0x84 @ le32 hnd @ le32 0x84 @ le32 0 @ le32 0xc6 @ le32 1 @
     le32 0xe7 @ le32 (of_nat (length sk_menu_name)) @ bytes_of sk_menu_name @
     le32 0x028a006b @ le32 4 @ le32 0x028a028b @ le32 0 @ le32 0x028a00cb @ le32 0"

definition sk_activate_msg :: "u32 \<Rightarrow> u8 list" where
  "sk_activate_msg hnd = le32 0x028a0200 @ le32 0x84 @ le32 1 @ le32 0x84 @ le32 hnd @ le32 0x028a006b @ le32 4 @
     le32 0x028a004b @ le32 1 @ le32 0xc6 @ le32 1 @ le32 0x028a00e0 @ le32 0"

definition sk_flow_dir :: "host \<Rightarrow> string" where
  "sk_flow_dir h = (case h_env h ''HEROSCALL_SK_FLOW_DIR'' of Some (c # cs) \<Rightarrow> c # cs | _ \<Rightarrow> ''/tmp'')"

text \<open>All three files are tried, whatever becomes of the first; only three hits spare the fallback.\<close>

definition inject_sk_flow :: "host \<Rightarrow> u32 \<Rightarrow> st \<Rightarrow> st" where
  "inject_sk_flow h qid s =
     (let p = (\<lambda>f. take 299 (sk_flow_dir h @ f));
          (g1, s1) = post_sk_wire_file h qid (p ''/sk_login.bin'') s;
          (g2, s2) = post_sk_wire_file h qid (p ''/sk_setmenu.bin'') s1;
          (g3, s3) = post_sk_wire_file h qid (p ''/sk_activate.bin'') s2
      in if g1 \<and> g2 \<and> g3 then s3
         else post qid (sk_activate_msg 13) 0 (post qid (sk_setmenu_msg 13) 0 (post qid sk_login_msg 0 s3)))"

section \<open>The thread\<close>

datatype sk_pc =
    SkPoll nat        \<comment> \<open>tries left\<close>
  | SkFound u32       \<comment> \<open>the queue is up, the word not yet taken\<close>
  | SkWon u32
  | SkDone bool

definition sk_flow_turn :: "host \<Rightarrow> sk_pc \<Rightarrow> st \<Rightarrow> sk_pc \<times> st" where
  "sk_flow_turn h pc s =
     (case pc of
        SkPoll 0 \<Rightarrow> (SkDone False, s)
      | SkPoll (Suc n) \<Rightarrow>
          (let i = slot_id (sh s) ''Q_SkMgr'' in if i \<noteq> 0 then (SkFound i, s) else (SkPoll n, emit (FxSleepMs 1000) s))
      | SkFound i \<Rightarrow>
          (if c_sk_flow_posted (sh s) \<noteq> 0 then SkDone False else SkWon i,
           s\<lparr>sh := (sh s)\<lparr>c_sk_flow_posted := 1\<rparr>\<rparr>)
      | SkWon i \<Rightarrow> (SkDone True, inject_sk_flow h i s)
      | SkDone b \<Rightarrow> (SkDone b, s))"

definition sk_won :: "sk_pc \<Rightarrow> bool" where
  "sk_won pc = (case pc of SkWon i \<Rightarrow> True | SkDone b \<Rightarrow> b | _ \<Rightarrow> False)"

text \<open>\<open>sk_flow_spawn\<close>: whether a thread starts, and after how many seconds.\<close>

definition sk_flow_spawn :: "host \<Rightarrow> u32 option" where
  "sk_flow_spawn h =
     (if env_on (h_env h ''HEROSCALL_INJECT_SK_FLOW'')
      then Some (case h_env h ''HEROSCALL_SK_FLOW_DELAY'' of
                   None \<Rightarrow> 75 | Some d \<Rightarrow> if sint (dec_loop 0 d) \<le> 0 then 75 else dec_loop 0 d)
      else None)"

section \<open>One poster\<close>

lemma tame_slots: "tame s s' \<Longrightarrow> no680 s \<Longrightarrow> no680 s'"
  by (simp add: tame_no680)

lemma tame_wire_file: "no680 s \<Longrightarrow> tame s (snd (post_sk_wire_file h q p s))"
  by (simp add: post_sk_wire_file_def Let_def tame_post split: option.splits)

lemma tame_then:
  "no680 s \<Longrightarrow> tame s u \<Longrightarrow> tame s (post q m md u)"
  "no680 s \<Longrightarrow> tame s u \<Longrightarrow> tame s (snd (post_sk_wire_file h q p u))"
  using tame_slots [of s u] tame_trans [of s u] tame_post [of u] tame_wire_file [of u] by blast+

lemma tame_inject_sk_flow:
  assumes n: "no680 s"
  shows "tame s (inject_sk_flow h q s)"
proof -
  let ?p = "\<lambda>f. take 299 (sk_flow_dir h @ f)"
  let ?s3 = "snd (post_sk_wire_file h q (?p ''/sk_activate.bin'') (snd (post_sk_wire_file h q (?p ''/sk_setmenu.bin'')
    (snd (post_sk_wire_file h q (?p ''/sk_login.bin'') s)))))"
  have "tame s ?s3" by (rule tame_then [OF n] tame_refl)+
  moreover from this have "tame s (post q (sk_activate_msg 13) 0 (post q (sk_setmenu_msg 13) 0 (post q sk_login_msg 0 ?s3)))"
    by (intro tame_then(1) [OF n])
  ultimately show ?thesis by (simp add: inject_sk_flow_def Let_def split_beta)
qed

interpretation skf: single_poster "sk_flow_turn h" c_sk_flow_posted sk_won for h
proof
  fix pc pc' s s'
  assume t: "sk_flow_turn h pc s = (pc', s')" and n: "no680 s"
  have w: "tame s (inject_sk_flow h i s)" for i by (rule tame_inject_sk_flow [OF n])
  then have g: "c_sk_flow_posted (sh (inject_sk_flow h i s)) = c_sk_flow_posted (sh s)" for i
    by (simp add: tame_def guards_def)
  show "\<not> sk_won pc \<Longrightarrow> sk_won pc' \<Longrightarrow> c_sk_flow_posted (sh s) = 0 \<and> c_sk_flow_posted (sh s') \<noteq> 0"
    using t by (auto simp: sk_flow_turn_def sk_won_def Let_def split: sk_pc.splits nat.splits if_splits)
  show "\<not> sk_won pc \<Longrightarrow> \<not> sk_won pc' \<Longrightarrow> (c_sk_flow_posted (sh s') = 0) = (c_sk_flow_posted (sh s) = 0)"
    using t by (auto simp: sk_flow_turn_def sk_won_def Let_def split: sk_pc.splits nat.splits if_splits)
  show "sk_won pc \<Longrightarrow> sk_won pc' \<and> c_sk_flow_posted (sh s') = c_sk_flow_posted (sh s)"
    using t g by (auto simp: sk_flow_turn_def sk_won_def Let_def split: sk_pc.splits nat.splits if_splits)
  show "no680 s'"
    using t n tame_slots [OF w n]
    by (auto simp: sk_flow_turn_def no680_def q_slot_def Let_def split: sk_pc.splits nat.splits if_splits)
qed


definition flow_sh :: "u32 \<Rightarrow> ctl" where
  "flow_sh v = zero_ctl\<lparr>c_queues := [zero_queue\<lparr>q_used := True, q_id := 0x300, q_name := ''Q_SkMgr''\<rparr>], c_sk_flow_posted := v\<rparr>"

definition flow_demo :: "sk_pc world" where
  "flow_demo = \<lparr>w_sh = flow_sh 0, w_st = (\<lambda>i. boot 7 7), w_pc = (\<lambda>i. SkPoll 90)\<rparr>"

lemma flow_sh_simps: "slot_id (flow_sh v) ''Q_SkMgr'' = 0x300" "c_sk_flow_posted (flow_sh v) = v"
  "(flow_sh v)\<lparr>c_sk_flow_posted := 1\<rparr> = flow_sh 1" "q_slot (flow_sh v) 680 = None"
  by (simp_all add: flow_sh_def slot_id_def q_find_slot_def q_named_def name_eq_def q_slot_def slot_of_def)

definition flow_at :: "u32 \<Rightarrow> st \<Rightarrow> st \<Rightarrow> sk_pc \<Rightarrow> sk_pc \<Rightarrow> sk_pc world" where
  "flow_at v a b p q = \<lparr>w_sh = flow_sh v, w_st = (\<lambda>i. if i = 0 then a else if i = 1 then b else boot 7 7),
     w_pc = (\<lambda>i. if i = 0 then p else if i = 1 then q else SkPoll 90)\<rparr>"

lemma flow_at_turn:
  "sk_flow_turn h p (a\<lparr>sh := flow_sh v\<rparr>) = (p', a') \<Longrightarrow> sh a' = flow_sh v' \<Longrightarrow>
    world_step (sk_flow_turn h) c_sk_flow_posted (flow_at v a b p q) (flow_at v' a' b p' q)"
  "sk_flow_turn h q (b\<lparr>sh := flow_sh v\<rparr>) = (q', b') \<Longrightarrow> sh b' = flow_sh v' \<Longrightarrow>
    world_step (sk_flow_turn h) c_sk_flow_posted (flow_at v a b p q) (flow_at v' a b' p q')"
proof -
  have e: "(flow_at v a b p q)\<lparr>w_sh := flow_sh v', w_st := (w_st (flow_at v a b p q))(0 := a'), w_pc := (w_pc (flow_at v a b p q))(0 := p')\<rparr>
      = flow_at v' a' b p' q"
    and e': "(flow_at v a b p q)\<lparr>w_sh := flow_sh v', w_st := (w_st (flow_at v a b p q))(1 := b'), w_pc := (w_pc (flow_at v a b p q))(1 := q')\<rparr>
      = flow_at v' a b' p q'"
    by (auto simp: flow_at_def fun_eq_iff)
  show "sk_flow_turn h p (a\<lparr>sh := flow_sh v\<rparr>) = (p', a') \<Longrightarrow> sh a' = flow_sh v' \<Longrightarrow>
      world_step (sk_flow_turn h) c_sk_flow_posted (flow_at v a b p q) (flow_at v' a' b p' q)"
    using world_step.run [of "sk_flow_turn h" "flow_at v a b p q" 0 p' a' c_sk_flow_posted] e by (simp add: flow_at_def)
  show "sk_flow_turn h q (b\<lparr>sh := flow_sh v\<rparr>) = (q', b') \<Longrightarrow> sh b' = flow_sh v' \<Longrightarrow>
      world_step (sk_flow_turn h) c_sk_flow_posted (flow_at v a b p q) (flow_at v' a b' p q')"
    using world_step.run [of "sk_flow_turn h" "flow_at v a b p q" 1 q' b' c_sk_flow_posted] e' by (simp add: flow_at_def)
qed


section \<open>What the flow delivers\<close>

lemma map_keep_last: "map f (keep_last n xs) = keep_last n (map f xs)"
  by (simp add: keep_last_def drop_map)

lemma post_plain:
  assumes "plain s" and slot: "q_slot (sh s) i = Some k" and ring: "ring_ok (queues s ! k)" "ring_cnt (Suc n) (queues s ! k)"
    and fit: "length m \<le> QMSGCAP"
  shows "plain (post i m md s)" and "q_slot (sh (post i m md s)) i = Some k"
    and "ring_ok (queues (post i m md s) ! k)" and "ring_cnt n (queues (post i m md s) ! k)"
    and "map snd (q_content (queues (post i m md s) ! k)) = keep_last QSLOTS (map snd (q_content (queues s ! k)) @ [m])"
proof -
  obtain r s' where rs: "q_send i (Some m) (of_nat (length m)) md s = (r, s')" by force
  then have p: "post i m md s = s'" by (simp add: post_def)
  have k: "k < length (queues s)" using q_slot_SomeD [OF slot] by simp
  have r1: "ring_cnt 1 (queues s ! k)" using ring(2) by (simp add: ring_cnt_def)
  note d = q_send_plain [OF assms(1) slot ring(1) r1 fit rs]
  show "plain (post i m md s)" using assms(1) d(6-8) by (simp add: p plain_def)
  show "q_slot (sh (post i m md s)) i = Some k" "ring_ok (queues (post i m md s) ! k)"
    using d(3,4) slot by (simp_all add: p)
  show "map snd (q_content (queues (post i m md s) ! k)) = keep_last QSLOTS (map snd (q_content (queues s ! k)) @ [m])"
    using d(2) by (simp add: p map_keep_last)
  have f: "view_fits (h, m)" for h using fit by (simp add: view_fits_def)
  show "ring_cnt n (queues (post i m md s) ! k)"
    using d(5) k ring.put_cnt [OF ring f] by (simp add: p)
qed

lemma posts_plain:
  assumes "plain s" and "q_slot (sh s) i = Some k" and "ring_ok (queues s ! k)" and "ring_cnt (length ms) (queues s ! k)"
    and "\<forall>m\<in>set ms. length m \<le> QMSGCAP"
  shows "map snd (q_content (queues (fold (\<lambda>m. post i m 0) ms s) ! k)) = keep_last QSLOTS (map snd (q_content (queues s ! k)) @ ms)"
  using assms
proof (induction ms arbitrary: s)
  case Nil
  then show ?case by (auto simp: keep_last_short length_q_content ring_ok_def)
next
  case (Cons m ms)
  have f: "length m \<le> QMSGCAP" using Cons.prems(5) by simp
  have r: "ring_cnt (Suc (length ms)) (queues s ! k)" using Cons.prems(4) by simp
  note p = post_plain [OF Cons.prems(1-3) r f]
  have "map snd (q_content (queues (fold (\<lambda>m. post i m 0) ms (post i m 0 s)) ! k))
      = keep_last QSLOTS (map snd (q_content (queues (post i m 0 s) ! k)) @ ms)"
    using Cons.prems(5) by (intro Cons.IH [OF p(1-4)]) simp
  then show ?case by (simp add: p(5) keep_last_append)
qed

text \<open>
  Without the recorded files the softkey manager receives login, menu and activation, in this order and
  once each, after what its queue already held.
\<close>

theorem sk_flow_delivers:
  assumes "plain s" and "q_slot (sh s) i = Some k" and "ring_ok (queues s ! k)" and "ring_cnt 3 (queues s ! k)"
    and "length (q_content (queues s ! k)) \<le> 9" and "\<And>f. h_file h f = None"
  shows "map snd (q_content (queues (inject_sk_flow h i s) ! k))
       = map snd (q_content (queues s ! k)) @ [sk_login_msg, sk_setmenu_msg 13, sk_activate_msg 13]"
proof -
  let ?ms = "[sk_login_msg, sk_setmenu_msg 13, sk_activate_msg 13]"
  have "inject_sk_flow h i s = fold (\<lambda>m. post i m 0) ?ms s"
    using assms(6) by (simp add: inject_sk_flow_def post_sk_wire_file_def)
  moreover have "\<forall>m\<in>set ?ms. length m \<le> QMSGCAP"
    by (simp add: sk_login_msg_def sk_setmenu_msg_def sk_activate_msg_def sk_client_name_def sk_menu_name_def QMSGCAP_def)
  ultimately show ?thesis
    using posts_plain [OF assms(1-3), of ?ms] assms(4,5) by (simp add: numeral_eq_Suc keep_last_short QSLOTS_def)
qed

lemma sk_flow_delivers_witness:
  "map snd (q_content (queues (inject_sk_flow \<lparr>h_env = (\<lambda>_. None), h_map = (\<lambda>_ _. None), h_file = (\<lambda>_. None)\<rparr>
     0x300 (read_demo [] ''Q_SkMgr'')) ! 0)) = [sk_login_msg, sk_setmenu_msg 13, sk_activate_msg 13]"
proof -
  have e: "length [] < 12" "list_all view_fits []" by simp_all
  have c: "ring_cnt 3 (queues (read_demo [] ''Q_SkMgr'') ! 0)" by (simp add: read_demo_def zero_queue_def ring_cnt_def)
  show ?thesis
    using sk_flow_delivers [OF read_demo_simps(2,6) read_demo_queue(2) [OF e] c] read_demo_queue(3) [OF e, of "''Q_SkMgr''"]
    by simp
qed

end
