(* ===== verification/WmActivate.thy ===== *)
theory WmActivate
  imports SkFlow
begin

text \<open>
  The foreground thread of \<open>heros_rtos.c\<close>: it hides the startup picture, selects and activates a
  screen of the window manager, a bounded number of times, notifies the editor, and selects the screen
  once more; one process of the constellation does it.
\<close>

section \<open>Messages\<close>

definition post_wm_wire_file :: "host \<Rightarrow> u32 \<Rightarrow> string \<Rightarrow> st \<Rightarrow> bool \<times> st" where
  "post_wm_wire_file h qid path s =
     (case h_file h path of
        None \<Rightarrow> (False, s)
      | Some f \<Rightarrow> let b = take 4096 f in if length b < 8 then (False, s) else (True, post qid b 0 s))"

definition select_msg :: "u32 \<Rightarrow> u8 list" where
  "select_msg scr = le32 0x03b801c0 @ le32 0x03b80044 @ le32 scr"

definition activate_msg :: "u8 list" where
  "activate_msg = le32 0x03b800e0 @ le32 0xc6 @ le32 1 @ le32 0x800000e7"

definition post_wm_select_inline :: "u32 \<Rightarrow> u32 \<Rightarrow> st \<Rightarrow> st" where
  "post_wm_select_inline qid scr s = post qid (select_msg scr) 0 s"

definition post_prom_hide_startup :: "st \<Rightarrow> st" where
  "post_prom_hide_startup s =
     (let i = slot_id (sh s) ''QProMViewer'' in if i = 0 then s else post i (le32 0x404705c0 @ le32 0) 0 s)"

definition env_str :: "host \<Rightarrow> string \<Rightarrow> string option" where
  "env_str h nm = (case h_env h nm of Some (c # cs) \<Rightarrow> Some (c # cs) | _ \<Rightarrow> None)"

definition prom_queue :: "host \<Rightarrow> string" where
  "prom_queue h = (case env_str h ''HEROSCALL_PROM_ACT_QUEUE'' of Some q \<Rightarrow> q | None \<Rightarrow> ''ProgEditQueue'')"

definition post_prom_activate_notify :: "host \<Rightarrow> st \<Rightarrow> st" where
  "post_prom_activate_notify h s =
     (let i = slot_id (sh s) (prom_queue h) in
      if i = 0 then s else post i (le32 0x404703e0 @ le32 0 @ le32 0) 0 s)"

text \<open>The screen to end on and the other one.\<close>

definition wa_tgt :: "host \<Rightarrow> u32" where
  "wa_tgt h = (case env_str h ''HEROSCALL_WMACT_SCREEN'' of Some t \<Rightarrow> strtoul0 t | None \<Rightarrow> 0)"

definition wa_alt :: "host \<Rightarrow> u32" where
  "wa_alt h = (case env_str h ''HEROSCALL_WMACT_ALT_SCREEN'' of Some a \<Rightarrow> strtoul0 a
                | None \<Rightarrow> if wa_tgt h = 1 then 0 else 1)"

definition wa_select :: "host \<Rightarrow> bool" where "wa_select h = env_on (h_env h ''HEROSCALL_WMACT_SELECT'')"

definition wire_dir :: "host \<Rightarrow> string" where
  "wire_dir h = (case h_env h ''HEROSCALL_WM_WIRE_DIR'' of Some d \<Rightarrow> d | None \<Rightarrow> ''/tmp'')"

definition inject_wmgr_activate :: "host \<Rightarrow> u32 \<Rightarrow> st \<Rightarrow> st" where
  "inject_wmgr_activate h qid s =
     (let s1 = (if wa_select h then post_wm_select_inline qid (wa_tgt h) (post_wm_select_inline qid (wa_alt h) s) else s);
          (g, s2) = post_wm_wire_file h qid (take 255 (wire_dir h @ ''/wm_activate.bin'')) s1
      in if g then s2 else post qid activate_msg 0 s2)"

section \<open>The thread\<close>

datatype wa_phase = WaHide | WaLoop | WaProm | WaWait | WaRemap | WaHold u32 nat | WaDone

record wa =
  a_phase :: wa_phase
  a_tries :: nat
  a_rounds :: nat
  a_claimed :: bool

definition wa_once :: "host \<Rightarrow> bool" where "wa_once h = env_on (h_env h ''HEROSCALL_WMACT_ONCE'')"

definition wa_max :: "host \<Rightarrow> nat" where "wa_max h = (if wa_once h then 1 else 14)"

definition wa_remap :: "host \<Rightarrow> bool" where
  "wa_remap h = (env_not_off (h_env h ''HEROSCALL_PROM_ACT_REMAP'') \<and> wa_select h)"

definition wa_hold :: "host \<Rightarrow> nat" where
  "wa_hold h = (case h_env h ''HEROSCALL_PROM_ACT_REMAP_HOLD'' of Some e \<Rightarrow> nat (strtol0 e) | None \<Rightarrow> 0)"

text \<open>\<open>atomic_exchange(&wm_activate_posted, 1)\<close>: whether this thread goes on.\<close>

definition wa_claim :: "wa \<Rightarrow> st \<Rightarrow> (wa \<times> st) option" where
  "wa_claim a s =
     (if a_claimed a then Some (a, s)
      else if c_wm_activate_posted (sh s) \<noteq> 0 then None
      else Some (a\<lparr>a_claimed := True\<rparr>, s\<lparr>sh := (sh s)\<lparr>c_wm_activate_posted := 1\<rparr>\<rparr>))"

definition wa_next :: "wa_phase \<Rightarrow> wa \<Rightarrow> wa" where
  "wa_next p a = a\<lparr>a_phase := p, a_tries := 0\<rparr>"

definition wa_beaten :: "wa \<Rightarrow> st \<Rightarrow> wa \<times> st" where
  "wa_beaten a s = (wa_next WaDone a, s\<lparr>sh := (sh s)\<lparr>c_wm_activate_posted := 1\<rparr>\<rparr>)"

definition wa_delay :: "host \<Rightarrow> string \<Rightarrow> u32 \<Rightarrow> nat" where
  "wa_delay h nm d = nat (sint (env_dec d (h_env h nm))) * 1000"

definition wa_to_remap :: "host \<Rightarrow> wa \<Rightarrow> st \<Rightarrow> wa \<times> st" where
  "wa_to_remap h a s =
     (wa_next WaRemap a, if wa_remap h then emit (FxSleepMs (wa_delay h ''HEROSCALL_PROM_ACT_REMAP_DELAY'' 20)) s else s)"

text \<open>The phases, each turn from one sleep to the next.\<close>

definition wa_hide_turn :: "host \<Rightarrow> wa \<Rightarrow> st \<Rightarrow> wa \<times> st" where
  "wa_hide_turn h a s =
     (if \<not> env_on (h_env h ''HEROSCALL_INJECT_PROM_HIDE'') \<or> 180 \<le> a_tries a then (wa_next WaLoop a, s)
      else if slot_id (sh s) ''QProMViewer'' = 0 then (a\<lparr>a_tries := a_tries a + 1\<rparr>, emit (FxSleepMs 1000) s)
      else case wa_claim a s of
             None \<Rightarrow> wa_beaten a s
           | Some (a1, s1) \<Rightarrow> (wa_next WaLoop a1, emit (FxSleepMs 3000) (post_prom_hide_startup s1)))"

definition wa_loop_turn :: "host \<Rightarrow> wa \<Rightarrow> st \<Rightarrow> wa \<times> st" where
  "wa_loop_turn h a s =
     (let i = slot_id (sh s) ''Q_WMGRMSG'' in
      if \<not> (a_tries a < 180 \<and> a_rounds a < wa_max h) then (wa_next WaProm a, s)
      else if i = 0 then (a\<lparr>a_tries := a_tries a + 1\<rparr>, emit (FxSleepMs 1000) s)
      else case wa_claim a s of
             None \<Rightarrow> wa_beaten a s
           | Some (a1, s1) \<Rightarrow>
               let a2 = a1\<lparr>a_rounds := a_rounds a1 + 1\<rparr>; s2 = inject_wmgr_activate h i s1 in
               if wa_once h then (wa_next WaProm a2, s2)
               else (a2\<lparr>a_tries := a_tries a2 + 1\<rparr>, emit (FxSleepMs 8000) s2))"

definition wa_prom_turn :: "host \<Rightarrow> wa \<Rightarrow> st \<Rightarrow> wa \<times> st" where
  "wa_prom_turn h a s =
     (if \<not> env_on (h_env h ''HEROSCALL_INJECT_PROM_ACTIVATE'') then (wa_next WaDone a, s)
      else case wa_claim a s of
             None \<Rightarrow> wa_beaten a s
           | Some (a1, s1) \<Rightarrow>
               (wa_next WaWait a1, emit (FxSleepMs (wa_delay h ''HEROSCALL_PROM_ACTIVATE_DELAY'' 5)) s1))"

definition wa_wait_turn :: "host \<Rightarrow> wa \<Rightarrow> st \<Rightarrow> wa \<times> st" where
  "wa_wait_turn h a s =
     (if 180 \<le> a_tries a then wa_to_remap h a s
      else if q_find_slot (sh s) (prom_queue h) \<noteq> None then wa_to_remap h a (post_prom_activate_notify h s)
      else (a\<lparr>a_tries := a_tries a + 1\<rparr>, emit (FxSleepMs 1000) s))"

definition wa_remap_turn :: "host \<Rightarrow> wa \<Rightarrow> st \<Rightarrow> wa \<times> st" where
  "wa_remap_turn h a s =
     (let i = slot_id (sh s) ''Q_WMGRMSG'' in
      if \<not> wa_remap h \<or> 60 \<le> a_tries a then (wa_next WaDone a, s)
      else if i = 0 then (a\<lparr>a_tries := a_tries a + 1\<rparr>, emit (FxSleepMs 1000) s)
      else (wa_next (WaHold i 0) a, post_wm_select_inline i (wa_tgt h) (post_wm_select_inline i (wa_alt h) s)))"

definition wa_hold_turn :: "host \<Rightarrow> u32 \<Rightarrow> nat \<Rightarrow> wa \<Rightarrow> st \<Rightarrow> wa \<times> st" where
  "wa_hold_turn h i n a s =
     (let s1 = emit (FxSleepMs 500) (post_wm_select_inline i (wa_tgt h) s) in
      if wa_hold h \<le> n then (wa_next WaDone a, s)
      else (wa_next (WaHold i (n + 1)) a,
            if n mod 8 = 0 then post_wm_select_inline i (wa_tgt h) (post_wm_select_inline i (wa_alt h) s1) else s1))"

definition wm_activate_turn :: "host \<Rightarrow> wa \<Rightarrow> st \<Rightarrow> wa \<times> st" where
  "wm_activate_turn h a s =
     (case a_phase a of
        WaHide \<Rightarrow> wa_hide_turn h a s
      | WaLoop \<Rightarrow> wa_loop_turn h a s
      | WaProm \<Rightarrow> wa_prom_turn h a s
      | WaWait \<Rightarrow> wa_wait_turn h a s
      | WaRemap \<Rightarrow> wa_remap_turn h a s
      | WaHold i n \<Rightarrow> wa_hold_turn h i n a s
      | WaDone \<Rightarrow> (a, s))"

definition wa_start :: wa where
  "wa_start = \<lparr>a_phase = WaHide, a_tries = 0, a_rounds = 0, a_claimed = False\<rparr>"

text \<open>\<open>wm_activate_spawn\<close>: whether a thread starts, and after how many seconds.\<close>

definition wm_activate_spawn :: "host \<Rightarrow> u32 option" where
  "wm_activate_spawn h =
     (if env_on (h_env h ''HEROSCALL_INJECT_WMGR_ACTIVATE'') \<or> env_on (h_env h ''HEROSCALL_INJECT_PROM_HIDE'') \<or>
         env_on (h_env h ''HEROSCALL_INJECT_PROM_ACTIVATE'')
      then Some (case h_env h ''HEROSCALL_WMACT_DELAY'' of
                   None \<Rightarrow> 20 | Some d \<Rightarrow> if sint (dec_loop 0 d) \<le> 0 then 20 else dec_loop 0 d)
      else None)"

section \<open>One poster\<close>

lemma post_wm_wire_same: "post_wm_wire_file = post_sk_wire_file"
  by (simp add: fun_eq_iff post_wm_wire_file_def post_sk_wire_file_def)

lemma tame_wa_posts:
  assumes n: "no680 s" and u: "tame s u"
  shows "tame s (post_wm_select_inline i scr u)" and "tame s (post_prom_hide_startup u)"
    and "tame s (post_prom_activate_notify h u)" and "tame s (emit e u)"
proof -
  have "tame u (emit e u)" by (simp add: tame_def shots_def qtab_def)
  then show "tame s (emit e u)" by (rule tame_trans [OF u])
qed (use tame_then(1) [OF n u] u in \<open>simp_all add: post_wm_select_inline_def post_prom_hide_startup_def
      post_prom_activate_notify_def Let_def\<close>)

lemma tame_wmgr_activate:
  assumes n: "no680 s" and u: "tame s u"
  shows "tame s (inject_wmgr_activate h i u)"
proof -
  let ?s1 = "if wa_select h then post_wm_select_inline i (wa_tgt h) (post_wm_select_inline i (wa_alt h) u) else u"
  have 1: "tame s ?s1" using u tame_wa_posts(1) [OF n] by simp
  then have 2: "tame s (snd (post_wm_wire_file h i (take 255 (wire_dir h @ ''/wm_activate.bin'')) ?s1))"
    unfolding post_wm_wire_same by (rule tame_then(2) [OF n])
  then show ?thesis
    using tame_then(1) [OF n 2] by (simp add: inject_wmgr_activate_def Let_def split_beta)
qed

abbreviation wm_posted :: "st \<Rightarrow> u32" where
  "wm_posted s \<equiv> c_wm_activate_posted (sh s)"

definition take_word :: "st \<Rightarrow> st" where
  "take_word s = s\<lparr>sh := (sh s)\<lparr>c_wm_activate_posted := 1\<rparr>\<rparr>"

lemma take_word_simps [simp]: "wm_posted (take_word s) = 1" "no680 (take_word s) = no680 s"
  by (simp_all add: take_word_def no680_def q_slot_def)

lemma tame_word: "tame u v \<Longrightarrow> wm_posted v = wm_posted u \<and> no680 v = no680 u"
  by (simp add: tame_no680 tame_def guards_def)

lemma wa_claim_cases:
  assumes "wa_claim a s = Some (a1, s1)"
  obtains "a_claimed a" "a1 = a" "s1 = s"
  | "\<not> a_claimed a" "a1 = a\<lparr>a_claimed := True\<rparr>" "wm_posted s = 0" "s1 = take_word s"
  using assms by (auto simp: wa_claim_def take_word_def split: if_splits)

text \<open>Every turn is some posts and sleeps after the word was left alone, taken or found taken.\<close>

definition word_rel :: "wa \<Rightarrow> st \<Rightarrow> wa \<times> st \<Rightarrow> bool" where
  "word_rel a s r \<longleftrightarrow>
     (a_claimed (fst r) = a_claimed a \<and> tame s (snd r)) \<or>
     (\<not> a_claimed a \<and> \<not> a_claimed (fst r) \<and> wm_posted s \<noteq> 0 \<and> snd r = take_word s) \<or>
     (\<not> a_claimed a \<and> a_claimed (fst r) \<and> wm_posted s = 0 \<and> tame (take_word s) (snd r))"

lemma rel_keep: "tame s s' \<Longrightarrow> a_claimed a' = a_claimed a \<Longrightarrow> word_rel a s (a', s')"
  by (simp add: word_rel_def)

lemma rel_claim:
  assumes "wa_claim a s = Some (a1, s1)" and "tame s1 s'" and "a_claimed a' = a_claimed a1"
  shows "word_rel a s (a', s')"
  using assms(1) by (cases rule: wa_claim_cases) (use assms(2,3) in \<open>simp_all add: word_rel_def take_word_def\<close>)

lemma rel_beaten: "wa_claim a s = None \<Longrightarrow> word_rel a s (wa_beaten a s)"
  by (simp add: wa_claim_def wa_beaten_def word_rel_def wa_next_def take_word_def split: if_splits)

lemma wa_next_claimed [simp]: "a_claimed (wa_next p a) = a_claimed a" "a_rounds (wa_next p a) = a_rounds a"
  by (simp_all add: wa_next_def)

lemma claim_no680: "wa_claim a s = Some (a1, s1) \<Longrightarrow> no680 s \<Longrightarrow> no680 s1"
  by (erule wa_claim_cases) (simp_all flip: take_word_def)

lemma word_rel_phases:
  assumes n: "no680 s"
  shows "word_rel a s (wa_hide_turn h a s)" and "word_rel a s (wa_loop_turn h a s)"
    and "word_rel a s (wa_prom_turn h a s)" and "word_rel a s (wa_wait_turn h a s)"
    and "word_rel a s (wa_remap_turn h a s)" and "word_rel a s (wa_hold_turn h i k a s)"
proof -
  note p = tame_wa_posts [OF n] and r = tame_refl
  have c: "tame s1 (emit e (post_prom_hide_startup s1))" "tame s1 (emit e (inject_wmgr_activate h j s1))"
    "tame s1 (inject_wmgr_activate h j s1)" "tame s1 (emit e s1)"
    if "wa_claim a s = Some (a1, s1)" for a1 s1 e j
    using tame_wa_posts [OF claim_no680 [OF that n]] tame_wmgr_activate [OF claim_no680 [OF that n]] by simp_all
  note k = rel_keep [OF r] rel_keep [OF p(4) [OF r]]
  show "word_rel a s (wa_hide_turn h a s)"
    unfolding wa_hide_turn_def by (auto split: option.split intro!: k rel_beaten rel_claim [OF _ c(1)])
  show "word_rel a s (wa_loop_turn h a s)"
    unfolding wa_loop_turn_def Let_def
    by (auto split: option.split intro!: k rel_beaten rel_claim [OF _ c(2)] rel_claim [OF _ c(3)])
  show "word_rel a s (wa_prom_turn h a s)"
    unfolding wa_prom_turn_def
    by (auto split: option.split intro!: k rel_beaten rel_claim [OF _ c(4)])
  show "word_rel a s (wa_wait_turn h a s)"
    unfolding wa_wait_turn_def wa_to_remap_def by (auto intro!: rel_keep p r)
  show "word_rel a s (wa_remap_turn h a s)"
    unfolding wa_remap_turn_def Let_def by (auto intro!: rel_keep p r)
  show "word_rel a s (wa_hold_turn h i k a s)"
    unfolding wa_hold_turn_def Let_def by (auto intro!: rel_keep p r)
qed

lemma wm_turn_word: "no680 s \<Longrightarrow> word_rel a s (wm_activate_turn h a s)"
  by (simp add: wm_activate_turn_def word_rel_phases rel_keep split: wa_phase.split)

interpretation wma: single_poster "wm_activate_turn h" c_wm_activate_posted a_claimed for h
proof
  fix pc pc' s s'
  assume t: "wm_activate_turn h pc s = (pc', s')" and n: "no680 s"
  have r: "word_rel pc s (pc', s')" using wm_turn_word [OF n, of pc h] t by simp
  note w = tame_word [of s s'] tame_word [of "take_word s" s']
  show "\<not> a_claimed pc \<Longrightarrow> a_claimed pc' \<Longrightarrow> wm_posted s = 0 \<and> wm_posted s' \<noteq> 0"
    using r w by (auto simp: word_rel_def)
  show "\<not> a_claimed pc \<Longrightarrow> \<not> a_claimed pc' \<Longrightarrow> (wm_posted s' = 0) = (wm_posted s = 0)"
    using r w by (auto simp: word_rel_def)
  show "a_claimed pc \<Longrightarrow> a_claimed pc' \<and> wm_posted s' = wm_posted s"
    using r w by (auto simp: word_rel_def)
  show "no680 s'" using r w n by (auto simp: word_rel_def)
qed

section \<open>The thread ends\<close>

text \<open>Turns with anything else of the system in between.\<close>

fun wa_run :: "host \<Rightarrow> (nat \<Rightarrow> st \<Rightarrow> st) \<Rightarrow> nat \<Rightarrow> wa \<Rightarrow> st \<Rightarrow> wa \<times> st" where
  "wa_run h oth 0 a s = (a, s)"
| "wa_run h oth (Suc n) a s = (case wm_activate_turn h a (oth n s) of (a1, s1) \<Rightarrow> wa_run h oth n a1 s1)"

definition wa_left :: "host \<Rightarrow> wa \<Rightarrow> nat" where
  "wa_left h a =
     (case a_phase a of
        WaHide \<Rightarrow> 426 + wa_hold h + (180 - a_tries a)
      | WaLoop \<Rightarrow> 245 + wa_hold h + (180 - a_tries a)
      | WaProm \<Rightarrow> 244 + wa_hold h
      | WaWait \<Rightarrow> 63 + wa_hold h + (180 - a_tries a)
      | WaRemap \<Rightarrow> 2 + wa_hold h + (60 - a_tries a)
      | WaHold i n \<Rightarrow> Suc (wa_hold h - n)
      | WaDone \<Rightarrow> 0)"

lemma wa_claim_fields: "wa_claim a s = Some (a1, s1) \<Longrightarrow> a_phase a1 = a_phase a \<and> a_tries a1 = a_tries a \<and> a_rounds a1 = a_rounds a"
  by (erule wa_claim_cases) simp_all

lemmas wa_turns = wa_hide_turn_def wa_loop_turn_def wa_prom_turn_def wa_wait_turn_def wa_remap_turn_def wa_hold_turn_def

lemma wa_turn_less:
  assumes "a_phase a \<noteq> WaDone"
  shows "wa_left h (fst (wm_activate_turn h a s)) < wa_left h a"
proof -
  note d = wa_beaten_def wa_to_remap_def wa_next_def wa_left_def Let_def
  note f = wa_claim_fields [of a s]
  show ?thesis
  proof (cases "a_phase a")
    case WaHide
    then show ?thesis by (auto simp: wm_activate_turn_def wa_hide_turn_def d split: option.split)
  next
    case WaLoop
    then show ?thesis by (auto simp: wm_activate_turn_def wa_loop_turn_def d split: option.split dest!: f)
  next
    case WaProm
    then show ?thesis by (auto simp: wm_activate_turn_def wa_prom_turn_def d split: option.split)
  qed (use assms in \<open>auto simp: wm_activate_turn_def wa_turns d\<close>)
qed

lemma wa_turn_done: "a_phase a = WaDone \<Longrightarrow> wm_activate_turn h a s = (a, s)"
  by (simp add: wm_activate_turn_def)

lemma wa_run_ends: "wa_left h a \<le> n \<Longrightarrow> a_phase (fst (wa_run h oth n a s)) = WaDone"
proof (induction n arbitrary: a s)
  case 0
  then show ?case by (simp add: wa_left_def split: wa_phase.splits)
next
  case (Suc n)
  let ?r = "wm_activate_turn h a (oth n s)"
  have "wa_left h (fst ?r) \<le> n"
    using Suc.prems wa_turn_less [of a h "oth n s"] wa_turn_done [of a h "oth n s"]
    by (cases "a_phase a = WaDone") (simp_all add: wa_left_def)
  then show ?case using Suc.IH [of "fst ?r" "snd ?r"] by (simp add: split_beta)
qed

text \<open>
  The turns of a run, each with the thread before it and the states before and after it.  A turn touches
  the system when the segment is another after it, the thread's own guard word apart: it has posted.
\<close>

fun wa_trace :: "host \<Rightarrow> (nat \<Rightarrow> st \<Rightarrow> st) \<Rightarrow> nat \<Rightarrow> wa \<Rightarrow> st \<Rightarrow> (wa \<times> st \<times> st) list" where
  "wa_trace h oth 0 a s = []"
| "wa_trace h oth (Suc n) a s = (case wm_activate_turn h a (oth n s) of (a1, s1) \<Rightarrow> (a, oth n s, s1) # wa_trace h oth n a1 s1)"

definition touches :: "st \<Rightarrow> st \<Rightarrow> bool" where
  "touches s s' \<longleftrightarrow> sh s' \<noteq> sh s \<and> sh s' \<noteq> sh (take_word s)"

lemma queue_change_touches: "queues s' \<noteq> queues s \<Longrightarrow> touches s s'"
  by (auto simp: touches_def take_word_def)

lemma trace_potential:
  fixes f :: "wa \<Rightarrow> nat"
  assumes "\<And>a s. f (fst (wm_activate_turn h a s)) + (if P (a, s, snd (wm_activate_turn h a s)) then 1 else 0) \<le> f a"
  shows "length (filter P (wa_trace h oth n a s)) \<le> f a"
proof (induction n arbitrary: a s)
  case (Suc n)
  let ?r = "wm_activate_turn h a (oth n s)"
  show ?case using Suc.IH [of "fst ?r" "snd ?r"] assms [of a "oth n s"] by (simp add: split_beta split: if_splits)
qed simp

text \<open>What is left to post in the loop, and in all.\<close>

definition rounds_left :: "host \<Rightarrow> wa \<Rightarrow> nat" where
  "rounds_left h a = (case a_phase a of WaHide \<Rightarrow> wa_max h - a_rounds a | WaLoop \<Rightarrow> wa_max h - a_rounds a | _ \<Rightarrow> 0)"

definition posts_left :: "host \<Rightarrow> wa \<Rightarrow> nat" where
  "posts_left h a =
     (case a_phase a of
        WaHide \<Rightarrow> wa_max h - a_rounds a + 3 + wa_hold h
      | WaLoop \<Rightarrow> wa_max h - a_rounds a + 2 + wa_hold h
      | WaProm \<Rightarrow> 2 + wa_hold h
      | WaWait \<Rightarrow> 2 + wa_hold h
      | WaRemap \<Rightarrow> 1 + wa_hold h
      | WaHold i n \<Rightarrow> wa_hold h - n
      | WaDone \<Rightarrow> 0)"

lemma touches_own [simp]: "\<not> touches s s" "\<not> touches s (emit e s)" "\<not> touches s (take_word s)" "\<not> touches s (emit e (take_word s))"
  by (simp_all add: touches_def)

lemma claim_untouched: "wa_claim a s = Some (a1, s1) \<Longrightarrow> s1 = s \<or> s1 = take_word s"
  by (erule wa_claim_cases) simp_all

lemma wa_beaten_take: "wa_beaten a s = (wa_next WaDone a, take_word s)"
  by (simp add: wa_beaten_def take_word_def)

lemma wa_next_phase [simp]: "a_phase (wa_next p a) = p"
  by (simp add: wa_next_def)

lemma turn_posts_left:
  "posts_left h (fst (wm_activate_turn h a s)) + (if touches s (snd (wm_activate_turn h a s)) then 1 else 0) \<le> posts_left h a"
proof (cases "a_phase a")
  case WaHide
  then show ?thesis
    by (auto simp: wm_activate_turn_def wa_hide_turn_def posts_left_def wa_beaten_take split: option.split dest!: wa_claim_fields)
next
  case WaLoop
  then show ?thesis
    by (auto simp: wm_activate_turn_def wa_loop_turn_def posts_left_def wa_beaten_take Let_def split: option.split dest!: wa_claim_fields)
next
  case WaProm
  then show ?thesis
    by (auto simp: wm_activate_turn_def wa_prom_turn_def posts_left_def wa_beaten_take split: option.split dest!: claim_untouched)
qed (auto simp: wm_activate_turn_def wa_wait_turn_def wa_remap_turn_def wa_hold_turn_def wa_to_remap_def posts_left_def Let_def)

lemma turn_rounds_left:
  "rounds_left h (fst (wm_activate_turn h a s)) +
     (if a_phase a = WaLoop \<and> touches s (snd (wm_activate_turn h a s)) then 1 else 0) \<le> rounds_left h a"
proof (cases "a_phase a")
  case WaHide
  then show ?thesis
    by (auto simp: wm_activate_turn_def wa_hide_turn_def rounds_left_def wa_beaten_take split: option.split dest!: wa_claim_fields)
next
  case WaLoop
  then show ?thesis
    by (auto simp: wm_activate_turn_def wa_loop_turn_def rounds_left_def wa_beaten_take Let_def split: option.split dest!: wa_claim_fields)
next
  case WaProm
  then show ?thesis by (auto simp: wm_activate_turn_def wa_prom_turn_def rounds_left_def wa_beaten_take split: option.split)
qed (auto simp: wm_activate_turn_def wa_wait_turn_def wa_remap_turn_def wa_hold_turn_def wa_to_remap_def rounds_left_def Let_def)

text \<open>
  C24. The foreground thread ends and stops posting, whatever the rest of the system does between its turns.
  In every run at most fourteen turns of the selection loop post anything, or one if it is told so, and at
  most three other turns do (hiding the startup picture, the notification, the last selection) and one for
  every repetition asked for; after 606 turns and one for every repetition the thread has finished.
\<close>

theorem wm_activate_ends:
  "length (filter (\<lambda>(a, u, v). a_phase a = WaLoop \<and> touches u v) (wa_trace h oth n wa_start s)) \<le> (if wa_once h then 1 else 14) \<and>
   length (filter (\<lambda>(a, u, v). touches u v) (wa_trace h oth n wa_start s)) \<le> (if wa_once h then 1 else 14) + 3 + wa_hold h \<and>
   (606 + wa_hold h \<le> n \<longrightarrow> a_phase (fst (wa_run h oth n wa_start s)) = WaDone)"
proof (intro conjI impI)
  show "length (filter (\<lambda>(a, u, v). a_phase a = WaLoop \<and> touches u v) (wa_trace h oth n wa_start s)) \<le> (if wa_once h then 1 else 14)"
    using trace_potential [of "rounds_left h" h "\<lambda>(a, u, v). a_phase a = WaLoop \<and> touches u v" oth n wa_start s] turn_rounds_left
    by (simp add: rounds_left_def wa_start_def wa_max_def)
  show "length (filter (\<lambda>(a, u, v). touches u v) (wa_trace h oth n wa_start s)) \<le> (if wa_once h then 1 else 14) + 3 + wa_hold h"
    using trace_potential [of "posts_left h" h "\<lambda>(a, u, v). touches u v" oth n wa_start s] turn_posts_left
    by (simp add: posts_left_def wa_start_def wa_max_def)
  show "a_phase (fst (wa_run h oth n wa_start s)) = WaDone" if "606 + wa_hold h \<le> n"
    using wa_run_ends [of h wa_start] that by (simp add: wa_start_def wa_left_def)
qed

lemma wm_activate_ends_witness:
  "a_phase (fst (wa_run \<lparr>h_env = (\<lambda>_. Some ''1''), h_map = (\<lambda>_ _. None), h_file = (\<lambda>_. None)\<rparr> (\<lambda>_ s. s) 607 wa_start (boot 7 7))) = WaDone"
proof -
  let ?h = "\<lparr>h_env = (\<lambda>_. Some ''1''), h_map = (\<lambda>_ _. None), h_file = (\<lambda>_. None)\<rparr>"
  have "wa_hold ?h = 1"
    by (simp add: wa_hold_def strtol0_def saturate_def signed_num_def num_base0_def is_blank_def is_hex_def is_dec_def hex_digit_def dec_digit_def)
  then show ?thesis using wm_activate_ends [of ?h "\<lambda>_ s. s" 607 "boot 7 7"] by simp
qed

section \<open>What a turn delivers\<close>

text \<open>
  A round is a real switch: without the recorded file the window manager's queue receives the other
  screen, the wanted screen and the activation, in this order, after what it held; and by default the two
  screens differ, whatever screen is wanted.
\<close>

theorem wm_activate_delivers:
  assumes "plain s" and "q_slot (sh s) i = Some k" and "ring_ok (queues s ! k)" and "ring_cnt 3 (queues s ! k)"
    and "length (q_content (queues s ! k)) \<le> 9" and "\<And>f. h_file h f = None" and "wa_select h"
  shows "map snd (q_content (queues (inject_wmgr_activate h i s) ! k))
       = map snd (q_content (queues s ! k)) @ [select_msg (wa_alt h), select_msg (wa_tgt h), activate_msg] \<and>
    (env_str h ''HEROSCALL_WMACT_ALT_SCREEN'' = None \<longrightarrow> wa_alt h \<noteq> wa_tgt h)"
proof -
  let ?ms = "[select_msg (wa_alt h), select_msg (wa_tgt h), activate_msg]"
  have "inject_wmgr_activate h i s = fold (\<lambda>m. post i m 0) ?ms s"
    using assms(6,7) by (simp add: inject_wmgr_activate_def post_wm_wire_file_def post_wm_select_inline_def)
  moreover have "\<forall>m\<in>set ?ms. length m \<le> QMSGCAP"
    by (simp add: select_msg_def activate_msg_def QMSGCAP_def)
  ultimately show ?thesis
    using posts_plain [OF assms(1-3), of ?ms] assms(4,5)
    by (simp add: numeral_eq_Suc keep_last_short QSLOTS_def) (simp add: wa_alt_def)
qed

lemma wm_activate_delivers_witness:
  "map snd (q_content (queues (inject_wmgr_activate \<lparr>h_env = (\<lambda>_. Some ''1''), h_map = (\<lambda>_ _. None), h_file = (\<lambda>_. None)\<rparr>
     0x300 (read_demo [] ''Q_WMGRMSG'')) ! 0)) = [select_msg 1, select_msg 1, activate_msg]"
proof -
  let ?h = "\<lparr>h_env = (\<lambda>_. Some ''1''), h_map = (\<lambda>_ _. None), h_file = (\<lambda>_. None)\<rparr>"
  have n: "strtoul0 ''1'' = 1"
    by (simp add: strtoul0_def signed_num_def num_base0_def is_blank_def is_hex_def is_dec_def hex_digit_def dec_digit_def)
  have e: "length [] < 12" "list_all view_fits []" by simp_all
  have c: "ring_cnt 3 (queues (read_demo [] ''Q_WMGRMSG'') ! 0)" by (simp add: read_demo_def zero_queue_def ring_cnt_def)
  show ?thesis
    using wm_activate_delivers [OF read_demo_simps(2,6) read_demo_queue(2) [OF e] c, of ?h] read_demo_queue(3) [OF e, of "''Q_WMGRMSG''"]
    by (simp add: wa_select_def env_on_def wa_alt_def wa_tgt_def env_str_def n)
qed

end
