(* ===== verification/Typed.thy ===== *)
theory Typed
  imports HeroscallFacts
begin

text \<open>
  The type invariant of the runtime: the tables of the control segment keep their sizes, live ids stay
  distinct and below their counter, every name fits its field and every stored message its slot, and the
  fixed arrays of a process (task cache, pipes, timers, acknowledgements, recordings, mappings) never
  hold more than they were declared for.  Every operation preserves it, the whole dispatcher included.
\<close>

named_theorems wt_intro \<open>what preserves the type invariant\<close>

section \<open>Well-typed values\<close>

text \<open>
  An id table.  Entries of the task, semaphore and region tables are never freed, so the counter cannot
  wrap while it is this far from the end; the queue table frees entries and has only the first half.
\<close>

definition ids_wt :: "('e \<Rightarrow> bool) \<Rightarrow> ('e \<Rightarrow> u32) \<Rightarrow> u32 \<Rightarrow> 'e list \<Rightarrow> bool" where
  "ids_wt used ident nxt tab \<longleftrightarrow> nxt \<noteq> 0 \<and> ids_ok used ident nxt tab"

definition free_cnt :: "('e \<Rightarrow> bool) \<Rightarrow> 'e list \<Rightarrow> nat" where
  "free_cnt used tab = length (filter (\<lambda>e. \<not> used e) tab)"

definition table_wt :: "('e \<Rightarrow> bool) \<Rightarrow> ('e \<Rightarrow> u32) \<Rightarrow> u32 \<Rightarrow> 'e list \<Rightarrow> bool" where
  "table_wt used ident nxt tab \<longleftrightarrow> ids_wt used ident nxt tab \<and> unat nxt + free_cnt used tab < 2 ^ 32"

definition wt_task :: "task \<Rightarrow> bool" where
  "wt_task t \<longleftrightarrow> length (t_name t) < NAMELEN \<and> length (t_pname t) < NAMELEN"

definition wt_sem :: "sem \<Rightarrow> bool" where
  "wt_sem e \<longleftrightarrow> length (s_name e) < NAMELEN"

definition wt_region :: "region \<Rightarrow> bool" where
  "wt_region r \<longleftrightarrow> length (r_name r) < REGNAMELEN"

definition wt_msg :: "qmsg \<Rightarrow> bool" where
  "wt_msg m \<longleftrightarrow> unat (m_len m) \<le> QMSGCAP \<and> length (m_data m) \<le> QMSGCAP"

definition wt_queue :: "queue \<Rightarrow> bool" where
  "wt_queue q \<longleftrightarrow> length (q_name q) < NAMELEN \<and> length (q_msg q) = QSLOTS \<and> list_all wt_msg (q_msg q)"

definition wt_evt :: "u32 \<times> u8 list \<Rightarrow> bool" where
  "wt_evt e \<longleftrightarrow> unat (fst e) \<le> EVTMSGCAP \<and> length (snd e) \<le> EVTMSGCAP"

definition wt_ctl :: "ctl \<Rightarrow> bool" where
  "wt_ctl c \<longleftrightarrow>
     length (c_tasks c) = MAXTASK \<and> list_all wt_task (c_tasks c) \<and> table_wt t_used t_id (c_next_task c) (c_tasks c) \<and>
     length (c_sems c) = MAXSEM \<and> list_all wt_sem (c_sems c) \<and> table_wt s_used s_id (c_next_sem c) (c_sems c) \<and>
     length (c_regs c) = MAXREG \<and> list_all wt_region (c_regs c) \<and> table_wt r_used r_id (c_next_reg c) (c_regs c) \<and>
     length (c_queues c) = MAXQ \<and> list_all wt_queue (c_queues c) \<and> ids_wt q_used q_id (c_next_q c) (c_queues c) \<and>
     length (c_evt_ring c) = EVTRING \<and> list_all wt_evt (c_evt_ring c)"

definition wt_inj :: "inj \<Rightarrow> bool" where
  "wt_inj v \<longleftrightarrow> length (i_acked v) \<le> 32 \<and> length (i_evt_acked v) \<le> 32 \<and> length (i_peer_acked v) \<le> 64 \<and>
     i_cfgq_n v \<le> CFGQ_CAP \<and> length (i_cfgq_rec v) \<le> CFGQ_CAP \<and>
     list_all (\<lambda>m. length m \<le> CFGQ_MSG) (i_cfgq_rec v)"

definition wt_proc :: "proc \<Rightarrow> bool" where
  "wt_proc l \<longleftrightarrow> length (p_tcache l) = 128 \<and> length (p_evdevs l) \<le> MAXEVDEV \<and>
     length (p_attach l) \<le> MAXREG \<and> p_ptimers l \<le> 64 \<and> length (w_timers (p_wm l)) \<le> 8 \<and> wt_inj (p_inj l)"

definition wt_state :: "st \<Rightarrow> bool" where
  "wt_state s \<longleftrightarrow> wt_ctl (sh s) \<and> wt_proc (lo s)"

lemma wt_cong: "sh s' = sh s \<Longrightarrow> lo s' = lo s \<Longrightarrow> wt_state s' = wt_state s"
  by (simp add: wt_state_def)

lemma wt_frames [simp]:
  "wt_state (s\<lparr>errno := n\<rparr>) = wt_state s" "wt_state (s\<lparr>starved := b\<rparr>) = wt_state s"
  "wt_state (emit e s) = wt_state s" "wt_state (poke a bs s) = wt_state s"
  "wt_state (poke_str a nm s) = wt_state s"
  by (simp_all add: wt_state_def poke_str_def)

lemma wt_upd_lo [wt_intro]:
  "wt_state s \<Longrightarrow> (wt_proc (lo s) \<Longrightarrow> wt_proc l) \<Longrightarrow> wt_state (s\<lparr>lo := l\<rparr>)"
  by (simp add: wt_state_def)

section \<open>Tables\<close>

lemma list_all_update: "list_all P xs \<Longrightarrow> (k < length xs \<Longrightarrow> P e) \<Longrightarrow> list_all P (xs[k := e])"
  by (cases "k < length xs") (auto simp: list_all_length nth_list_update)

lemma list_all_nth_update:
  "list_all P xs \<Longrightarrow> (\<And>x. P x \<Longrightarrow> P (f x)) \<Longrightarrow> list_all P (xs[k := f (xs ! k)])"
  by (rule list_all_update) (auto simp: list_all_length)

lemma ids_wt_update:
  "ids_wt used ident nxt tab \<Longrightarrow> (used e \<Longrightarrow> used (tab ! k) \<and> ident e = ident (tab ! k))
    \<Longrightarrow> ids_wt used ident nxt (tab[k := e])"
  by (simp add: ids_wt_def ids_ok_update)

lemma free_cnt_same: "used e = used (tab ! k) \<Longrightarrow> free_cnt used (tab[k := e]) = free_cnt used tab"
proof (induction tab arbitrary: k)
  case (Cons x tab)
  then show ?case by (cases k) (auto simp: free_cnt_def)
qed (simp add: free_cnt_def)

lemma free_cnt_take:
  "k < length tab \<Longrightarrow> \<not> used (tab ! k) \<Longrightarrow> used e \<Longrightarrow> Suc (free_cnt used (tab[k := e])) = free_cnt used tab"
proof (induction tab arbitrary: k)
  case (Cons x tab)
  then show ?case by (cases k) (auto simp: free_cnt_def)
qed simp

lemma table_wt_update:
  assumes "table_wt used ident nxt tab" and "used e = used (tab ! k)" and "ident e = ident (tab ! k)"
  shows "table_wt used ident nxt (tab[k := e])"
  using assms free_cnt_same [OF assms(2)] ids_wt_update [of used ident nxt tab e k] by (simp add: table_wt_def)

context id_registry begin

lemma alloc_ids_wt:
  assumes "ids_wt used ident nxt tab" and "nxt + 1 \<noteq> 0" and "free_slot used tab = Some k"
  shows "ids_wt used ident (nxt + 1) (tab[k := mk nxt (tab ! k)])"
  using assms alloc_ids_ok by (simp add: ids_wt_def)

text \<open>A table that frees nothing never runs out of ids.\<close>

lemma alloc_table_wt:
  assumes "table_wt used ident nxt tab" and free: "free_slot used tab = Some k"
  shows "table_wt used ident (nxt + 1) (tab[k := mk nxt (tab ! k)])"
proof -
  let ?tab = "tab[k := mk nxt (tab ! k)]"
  have k: "k < length tab" "\<not> used (tab ! k)" using free_slot_SomeD [OF free] by auto
  have cnt: "Suc (free_cnt used ?tab) = free_cnt used tab"
    using k by (intro free_cnt_take) (simp_all add: mk_used)
  have "unat nxt + free_cnt used tab < 2 ^ 32" using assms(1) by (simp add: table_wt_def)
  then have up: "unat (nxt + 1) = unat nxt + 1" using cnt by (intro unat_succ) simp
  then have "nxt + 1 \<noteq> 0" by auto
  then show ?thesis
    using assms(1) alloc_ids_wt [OF _ _ free] up cnt by (simp add: table_wt_def)
qed

end

section \<open>Updates\<close>

lemma wt_upd_task [wt_intro]:
  assumes "wt_state s" and "\<And>t. t_used (f t) = t_used t" and "\<And>t. t_id (f t) = t_id t"
    and "\<And>t. wt_task t \<Longrightarrow> wt_task (f t)"
  shows "wt_state (upd_task k f s)"
  using assms by (simp add: wt_state_def wt_ctl_def upd_task_def list_all_nth_update table_wt_update)

lemma wt_upd_sem [wt_intro]:
  assumes "wt_state s" and "\<And>e. s_used (f e) = s_used e" and "\<And>e. s_id (f e) = s_id e"
    and "\<And>e. wt_sem e \<Longrightarrow> wt_sem (f e)"
  shows "wt_state (upd_sem k f s)"
  using assms by (simp add: wt_state_def wt_ctl_def upd_sem_def list_all_nth_update table_wt_update)

lemma wt_upd_queue [wt_intro]:
  assumes "wt_state s" and "\<And>q. q_used (f q) \<Longrightarrow> q_used q \<and> q_id (f q) = q_id q"
    and "\<And>q. wt_queue q \<Longrightarrow> wt_queue (f q)"
  shows "wt_state (upd_queue k f s)"
  using assms by (simp add: wt_state_def wt_ctl_def upd_queue_def list_all_nth_update ids_wt_update)

lemma wt_upd_inj [wt_intro]:
  "wt_state s \<Longrightarrow> (\<And>v. wt_inj v \<Longrightarrow> wt_inj (f v)) \<Longrightarrow> wt_state (upd_inj f s)"
  by (simp add: wt_state_def wt_proc_def upd_inj_def)

lemma wt_inj_frames [simp]:
  "wt_inj (v\<lparr>i_winmgr_injected := b\<rparr>) = wt_inj v" "wt_inj (v\<lparr>i_in_winmgr := b\<rparr>) = wt_inj v"
  "wt_inj (v\<lparr>i_fmload_injected := b\<rparr>) = wt_inj v" "wt_inj (v\<lparr>i_in_fmload := b\<rparr>) = wt_inj v"
  "wt_inj (v\<lparr>i_in_evt_relay := b\<rparr>) = wt_inj v" "wt_inj (v\<lparr>i_sk_fired := b\<rparr>) = wt_inj v"
  "wt_inj (v\<lparr>i_runup_done := b\<rparr>) = wt_inj v" "wt_inj (v\<lparr>i_reread_done := b\<rparr>) = wt_inj v"
  "wt_inj (v\<lparr>i_replayed := b\<rparr>) = wt_inj v" "wt_inj (v\<lparr>i_active_hw_done := b\<rparr>) = wt_inj v"
  "wt_inj (v\<lparr>i_deferred := q\<rparr>) = wt_inj v" "wt_inj (v\<lparr>i_evterr_replied := n\<rparr>) = wt_inj v"
  "wt_inj (v\<lparr>i_bcast_replied := n\<rparr>) = wt_inj v" "wt_inj (sk_track c nm m v) = wt_inj v"
  by (simp_all add: wt_inj_def sk_track_def Let_def)

lemma wt_upd_wm [wt_intro]:
  "wt_state s \<Longrightarrow> (\<And>v. length (w_timers v) \<le> 8 \<Longrightarrow> length (w_timers (f v)) \<le> 8) \<Longrightarrow> wt_state (upd_wm f s)"
  by (simp add: wt_state_def wt_proc_def upd_wm_def)

section \<open>Tasks, events, signals\<close>

lemma wt_tcache_put [wt_intro]: "wt_state s \<Longrightarrow> wt_state (tcache_put i s)"
  by (simp add: wt_state_def wt_proc_def tcache_put_def)

lemma wt_new_task: "wt_task (new_task s i t)"
  using length_name_store by (simp add: wt_task_def new_task_def) (simp add: NAMELEN_def)

lemma wt_task_self [wt_intro]:
  assumes "wt_state s"
  shows "wt_state (snd (task_self s))"
proof (cases s rule: task_self_cases)
  case (new k)
  let ?n = "c_next_task (sh s)"
  have "table_wt t_used t_id (?n + 1) ((tasks s)[k := new_task s ?n (tasks s ! k)])"
    using assms new(2) by (intro task_reg.alloc_table_wt) (simp_all add: wt_state_def wt_ctl_def)
  then have "wt_state (upd_task k (new_task s ?n) (s\<lparr>sh := (sh s)\<lparr>c_next_task := ?n + 1\<rparr>\<rparr>))"
    using assms by (simp add: wt_state_def wt_ctl_def upd_task_def list_all_update wt_new_task)
  then show ?thesis using new(3) by (simp add: wt_tcache_put)
qed (use assms in \<open>simp_all add: wt_tcache_put\<close>)

lemma wt_upd_evdev [wt_intro]: "wt_state s \<Longrightarrow> wt_state (upd_evdev i f s)"
  by (simp add: wt_state_def wt_proc_def upd_evdev_def)

lemma wt_reconcile_locked [wt_intro]: "wt_state s \<Longrightarrow> wt_state (evdev_reconcile_locked i s)"
  by (auto simp: evdev_reconcile_locked_def Let_def split: option.splits intro!: wt_intro)

lemma wt_reconcile [wt_intro]: "wt_state s \<Longrightarrow> wt_state (evdev_reconcile t s)"
  by (auto simp: evdev_reconcile_def split: option.splits intro!: wt_intro)

lemma wt_ev_send [wt_intro]: "wt_state s \<Longrightarrow> wt_state (snd (ev_send t b s))"
  by (auto simp: ev_send_def wt_task_def split: option.splits intro!: wt_intro)

lemma wt_as_kick [wt_intro]: "wt_state s \<Longrightarrow> wt_state (as_kick g t x s)"
  by (simp add: as_kick_def Let_def)

lemma wt_as_send [wt_intro]: "wt_state s \<Longrightarrow> wt_state (snd (as_send t b s))"
  by (auto simp: as_send_def wt_task_def Let_def split_beta split: option.splits intro!: wt_intro)

lemma wt_as_mask [wt_intro]: "wt_state s \<Longrightarrow> wt_state (snd (snd (as_mask_op v n s)))"
  by (auto simp: as_mask_op_def wt_task_def Let_def split_beta split: option.splits intro!: wt_intro)

lemma wt_as_read [wt_intro]: "wt_state s \<Longrightarrow> wt_state (snd (snd (snd (as_read v s))))"
  by (auto simp: as_read_def wt_task_def Let_def split_beta split: option.splits intro!: wt_intro)

section \<open>Semaphores and regions\<close>

lemma wt_sem_make [wt_intro]:
  assumes "wt_state s"
  shows "wt_state (snd (sem_make nm n s))"
proof -
  have "wt_state (upd_sem k (new_sem x n (c_next_sem (sh s))) (s\<lparr>sh := (sh s)\<lparr>c_next_sem := c_next_sem (sh s) + 1\<rparr>\<rparr>))"
    if "free_slot s_used (sems s) = Some k" for k x
  proof -
    have "table_wt s_used s_id (c_next_sem (sh s) + 1)
        ((sems s)[k := new_sem x n (c_next_sem (sh s)) (sems s ! k)])"
      using assms that by (intro sem_reg.alloc_table_wt) (simp_all add: wt_state_def wt_ctl_def)
    moreover have "wt_sem (new_sem x n i e)" for i e by (simp add: wt_sem_def new_sem_def)
    ultimately show ?thesis
      using assms by (simp add: wt_state_def wt_ctl_def upd_sem_def list_all_update)
  qed
  then show ?thesis using assms by (auto simp: sem_make_def Let_def split: option.splits)
qed

lemma wt_sem_ident [wt_intro]: "wt_state s \<Longrightarrow> wt_state (snd (sem_ident nm s))"
  by (auto simp: sem_ident_def split: option.splits intro!: wt_intro)

lemma wt_sem_request [wt_intro]: "wt_state s \<Longrightarrow> wt_state (snd (sem_request_pass i u t w s))"
  by (auto simp: sem_request_pass_def wt_sem_def Let_def split: option.splits intro!: wt_intro)

lemma wt_sem_release [wt_intro]: "wt_state s \<Longrightarrow> wt_state (snd (sem_release i u s))"
  by (auto simp: sem_release_def wt_sem_def split: option.splits intro!: wt_intro)

lemma wt_reg_ident [wt_intro]:
  assumes "wt_state s"
  shows "wt_state (snd (reg_ident nm s))"
proof -
  have "table_wt r_used r_id (c_next_reg (sh s) + 1) ((regs s)[k := new_region nm (c_next_reg (sh s)) (regs s ! k)])"
    if "free_slot r_used (regs s) = Some k" for k
    using assms that by (intro reg_reg.alloc_table_wt) (simp_all add: wt_state_def wt_ctl_def)
  moreover have "wt_region (new_region nm i r)" for i r
    by (simp add: wt_region_def new_region_def REGNAMELEN_def)
  ultimately show ?thesis
    using assms by (auto simp: reg_ident_def Let_def wt_state_def wt_ctl_def list_all_update split: option.splits)
qed

lemma wt_reg_attach [wt_intro]: "wt_state s \<Longrightarrow> wt_state (snd (reg_attach h i s))"
  by (auto simp: reg_attach_def wt_proc_def split: option.splits intro!: wt_intro)

section \<open>Sending\<close>

lemma wt_upd_slot:
  "wt_queue q \<Longrightarrow> (\<And>m. wt_msg m \<Longrightarrow> wt_msg (f m)) \<Longrightarrow> wt_queue (upd_slot f q)"
  by (simp add: wt_queue_def upd_slot_def list_all_nth_update)

lemma wt_put32: "i + 4 \<le> QMSGCAP \<Longrightarrow> wt_msg m \<Longrightarrow> wt_msg (m\<lparr>m_data := put32 (m_data m) i v\<rparr>)"
  by (simp add: wt_msg_def length_put32)

lemma wt_queue_frames [simp]:
  "wt_queue (q\<lparr>q_head := a\<rparr>) = wt_queue q" "wt_queue (q\<lparr>q_tail := b\<rparr>) = wt_queue q"
  "wt_queue (q\<lparr>q_wm_last := c\<rparr>) = wt_queue q" "wt_queue (q\<lparr>q_wm_off := d\<rparr>) = wt_queue q"
  "wt_queue (q\<lparr>q_drop_warned := e\<rparr>) = wt_queue q"
  by (simp_all add: wt_queue_def)

lemma wt_enqueue_queue:
  assumes "wt_queue q" and "unat sz \<le> QMSGCAP" and "case msg of None \<Rightarrow> True | Some m \<Rightarrow> length m \<le> QMSGCAP"
  shows "wt_queue (enqueue_queue c tick sender mode msg sz q)"
proof -
  have room: "wt_queue (ring_room q)" using assms(1) by (simp add: ring_room_def)
  have store: "wt_queue (ring_store h sz (case msg of None \<Rightarrow> [] | Some m \<Rightarrow> m) q)" for h
    unfolding ring_store_def
    by (rule wt_upd_slot [OF room]) (use assms in \<open>auto simp: wt_msg_def length_overlay split: option.splits\<close>)
  have serial: "wt_queue (wm_serial tick sz u)" if "wt_queue u" for u
    using that by (auto simp: wm_serial_def Let_def QMSGCAP_def intro!: wt_upd_slot wt_put32)
  have rect: "wt_queue (area_rect r sz u)" if "wt_queue u" for u r
    using that by (auto simp: area_rect_def Let_def split_beta wt_msg_def length_put32 QMSGCAP_def intro!: wt_upd_slot)
  show ?thesis
    by (simp add: enqueue_queue_def ring_publish_def Let_def store serial rect)
qed

lemma clip_bounds:
  "unat (clip_size z) \<le> QMSGCAP" "case clip_msg msg of None \<Rightarrow> True | Some m \<Rightarrow> length m \<le> QMSGCAP"
  by (auto simp: clip_size_def clip_msg_def QMSGCAP_def word_less_nat_alt not_less split: option.splits)

lemma wt_q_enqueue:
  assumes "wt_state s"
  shows "wt_state (q_enqueue k t md (clip_msg m) (clip_size z) s)"
  unfolding q_enqueue_def
proof (rule wt_upd_queue [OF assms])
  fix q
  have "qident (enqueue_queue (qcf s) (w_in_tick (wms s)) t md (clip_msg m) (clip_size z) q) = qident q" by simp
  then show "q_used q \<and> q_id (enqueue_queue (qcf s) (w_in_tick (wms s)) t md (clip_msg m) (clip_size z) q) = q_id q"
    if "q_used (enqueue_queue (qcf s) (w_in_tick (wms s)) t md (clip_msg m) (clip_size z) q)"
    using that by (simp add: qident_def)
qed (rule wt_enqueue_queue, simp_all add: clip_bounds)

lemma wt_q_wake [wt_intro]: "wt_state s \<Longrightarrow> wt_state (q_wake k s)"
  by (auto simp: q_wake_def Let_def split: option.splits intro!: wt_intro)

lemma wt_note_family [wt_intro]: "wt_state s \<Longrightarrow> wt_state (note_family k t m s)"
  by (auto simp: note_family_def wt_task_def split: option.splits intro!: wt_intro)

definition wt_send :: "sender \<Rightarrow> bool" where
  "wt_send send \<longleftrightarrow> (\<forall>j m md s. wt_state s \<longrightarrow> wt_state (send j m md s))"

lemma wt_sendD: "wt_send send \<Longrightarrow> wt_state s \<Longrightarrow> wt_state (send j m md s)"
  by (simp add: wt_send_def)

lemma wt_sk_activate:
  assumes "wt_send send" and "wt_state s"
  shows "wt_state (sk_activate_hook send k msg s)"
  using assms(2)
  by (auto simp: sk_activate_hook_def Let_def split: option.splits intro!: wt_upd_inj wt_sendD [OF assms(1)])

lemma wt_winmgr:
  assumes "wt_send send" and "wt_state s"
  shows "wt_state (winmgr_hook send k msg s)"
  using assms(2) by (auto simp: winmgr_hook_def Let_def intro!: wt_upd_inj wt_sendD [OF assms(1)])

lemma wt_fmload_lines:
  assumes "wt_send send"
  shows "wt_state s \<Longrightarrow> wt_state (fmload_lines send qid left ls s)"
  using wt_sendD [OF assms] by (induction ls arbitrary: left s) (simp_all split: option.splits prod.splits)

lemma wt_fmload_set:
  assumes "wt_send send" and "wt_state s"
  shows "wt_state (inject_fmload_set send qid s)"
  using assms(2) wt_sendD [OF assms(1)] wt_fmload_lines [OF assms]
  by (simp add: inject_fmload_set_def Let_def split: option.splits)

lemma wt_fmload:
  assumes "wt_send send" and "wt_state s"
  shows "wt_state (fmload_hook send k msg s)"
  using assms(2) by (auto simp: fmload_hook_def Let_def intro!: wt_upd_inj wt_fmload_set [OF assms(1)])

lemma wt_wm_hooks:
  assumes "wt_send send" and "wt_state s"
  shows "wt_state (wm_connect_hook send k msg s)" and "wt_state (wm_screens_hook send k msg s)"
    and "wt_state (wm_sync_hook send k msg s)" and "wt_state (area_hook send k msg s)"
    and "wt_state (regwin_hook send k msg s)"
  using assms(2) wt_sendD [OF assms(1)]
  by (simp_all add: wm_connect_hook_def wm_screens_hook_def wm_sync_hook_def area_hook_def regwin_hook_def
      wm_reply_def)

lemma length_drop_timer: "length (drop_timer t r ws) \<le> length ws"
  by (induction ws) auto

lemma wt_wm_timers: "wt_state s \<Longrightarrow> wt_state (wm_arm_hook k msg s)" "wt_state s \<Longrightarrow> wt_state (wm_disarm_hook k msg s)"
  by (auto simp: wm_arm_hook_def wm_disarm_hook_def Let_def intro!: wt_intro
      intro: order_trans [OF length_drop_timer])

lemma wt_record:
  assumes "wt_state s"
  shows "wt_state (record_hook k msg s)"
proof -
  have "wt_inj (v\<lparr>i_cfgq_n := i_cfgq_n v + 1, i_cfgq_rec := take (i_cfgq_n v) (i_cfgq_rec v) @ [m]\<rparr>)"
    if "wt_inj v" "i_cfgq_n v < CFGQ_CAP" "length m \<le> CFGQ_MSG" for v m
    using that by (auto simp: wt_inj_def list_all_iff dest: in_set_takeD)
  moreover have "wt_inj (v\<lparr>i_cfgq_n := CFGQ_CAP\<rparr>)" if "wt_inj v" for v
    using that by (simp add: wt_inj_def)
  ultimately show ?thesis using assms by (auto simp: record_hook_def intro!: wt_upd_inj)
qed

lemma wt_evt_ring_add:
  assumes "wt_ctl c" and "length m \<le> EVTMSGCAP"
  shows "wt_ctl (evt_ring_add m c)"
proof -
  have len: "length m < 2 ^ 32" using assms(2) by (simp add: EVTMSGCAP_def)
  have "wt_evt (of_nat (length m), overlay 0 m (snd e))" if "wt_evt e" for e
    using that assms(2) unat_of_nat_small [OF len] by (simp add: wt_evt_def length_overlay)
  then have "list_all wt_evt ((c_evt_ring c)[k := (of_nat (length m), overlay 0 m (snd (c_evt_ring c ! k)))])" for k
    using assms(1) by (intro list_all_nth_update) (simp_all add: wt_ctl_def)
  then show ?thesis using assms(1) by (simp add: wt_ctl_def evt_ring_add_def Let_def)
qed

lemma wt_relay:
  assumes "wt_send send" and "wt_state s"
  shows "wt_state (relay_hook send k msg mode s)"
proof -
  have "wt_state (s\<lparr>sh := evt_ring_add m (sh s)\<rparr>)" if "length m \<le> EVTMSGCAP" for m
    using assms(2) that by (simp add: wt_state_def wt_evt_ring_add)
  then show ?thesis
    using assms(2)
    by (auto simp: relay_hook_def Let_def split: option.splits intro!: wt_upd_inj wt_sendD [OF assms(1)])
qed

lemma wt_hooks: "wt_send send \<Longrightarrow> wt_state s \<Longrightarrow> wt_state (q_hooks send k msg mode s)"
  unfolding q_hooks_def by (intro wt_relay wt_record wt_wm_hooks wt_wm_timers wt_fmload wt_winmgr)

lemma wt_step: "wt_send send \<Longrightarrow> wt_state s \<Longrightarrow> wt_state (snd (q_send_step send i msg z mode s))"
  by (auto simp: q_send_step_def Let_def split_beta split: option.splits
      intro!: wt_hooks wt_q_wake wt_q_enqueue wt_note_family wt_task_self wt_sk_activate)

text \<open>However deep the sends nest.\<close>

lemma wt_q_send_f: "wt_state s \<Longrightarrow> wt_state (snd (q_send_f n i msg z mode s))"
proof (induction n arbitrary: i msg z mode s)
  case (Suc n)
  then have "wt_send (\<lambda>j m md s'. snd (q_send_f n j (Some m) (of_nat (length m)) md s'))"
    by (simp add: wt_send_def)
  then show ?case using Suc.prems by (simp add: wt_step)
qed simp

lemma wt_q_send [wt_intro]: "wt_state s \<Longrightarrow> wt_state (snd (q_send i msg z mode s))"
  by (simp add: q_send_def wt_q_send_f)

lemma wt_post [wt_intro]: "wt_state s \<Longrightarrow> wt_state (post i m mode s)"
  by (simp add: post_def wt_q_send)

section \<open>Replies posted after a send\<close>

lemma wt_reread [wt_intro]: "wt_state s \<Longrightarrow> wt_state (post_inject_reread s)"
  by (auto simp: post_inject_reread_def split: option.splits intro!: wt_intro)

lemma wt_hws [wt_intro]: "wt_state s \<Longrightarrow> wt_state (hws_autoreply q m s)"
  by (auto simp: hws_autoreply_def split: option.splits intro!: wt_intro)

lemma length_swap_remove: "length (swap_remove i xs) \<le> length xs"
  by (simp add: swap_remove_def)

lemma wt_acks [wt_intro]:
  assumes "wt_state s"
  shows "wt_state (inject_connect_ack q m s)" and "wt_state (inject_evt_connect_ack q m s)"
    and "wt_state (inject_peer_connect_ack q m s)" and "wt_state (inject_forget_ack q m s)"
proof -
  have ack: "wt_inj (v\<lparr>i_acked := i_acked v @ [x]\<rparr>)" if "wt_inj v" "length (i_acked v) < 32" for v x
    using that by (simp add: wt_inj_def)
  show "wt_state (inject_connect_ack q m s)"
    using assms by (auto simp: inject_connect_ack_def Let_def split: option.splits intro!: wt_intro ack)
  have "wt_inj (v\<lparr>i_evt_acked := i_evt_acked v @ [x]\<rparr>)" if "wt_inj v" "length (i_evt_acked v) < 32" for v x
    using that by (simp add: wt_inj_def)
  then show "wt_state (inject_evt_connect_ack q m s)"
    using assms by (auto simp: inject_evt_connect_ack_def Let_def split: option.splits intro!: wt_intro)
  have "wt_inj (v\<lparr>i_peer_acked := i_peer_acked v @ [x]\<rparr>)" if "wt_inj v" "length (i_peer_acked v) < 64" for v x
    using that by (simp add: wt_inj_def)
  then show "wt_state (inject_peer_connect_ack q m s)"
    using assms by (auto simp: inject_peer_connect_ack_def Let_def split: option.splits intro!: wt_intro)
  have "wt_inj (v\<lparr>i_acked := swap_remove i (i_acked v)\<rparr>)" if "wt_inj v" for v i
    using that length_swap_remove [of i "i_acked v"] by (simp add: wt_inj_def)
  then show "wt_state (inject_forget_ack q m s)"
    using assms by (auto simp: inject_forget_ack_def split: option.splits intro!: wt_intro)
qed

lemma wt_evterr [wt_intro]: "wt_state s \<Longrightarrow> wt_state (post_evt_ans_error rq s)"
  by (auto simp: post_evt_ans_error_def inject_active_handwheel_def Let_def intro!: wt_intro)

lemma wt_evt_error_reply [wt_intro]: "wt_state s \<Longrightarrow> wt_state (inject_evt_error_reply q m s)"
  by (auto simp: inject_evt_error_reply_def intro!: wt_intro)

lemma wt_broadcast [wt_intro]: "wt_state s \<Longrightarrow> wt_state (inject_broadcast_register_reply m s)"
  by (auto simp: inject_broadcast_register_reply_def Let_def split: option.splits intro!: wt_intro)

section \<open>The queue table\<close>

lemma wt_flush_fold:
  "wt_state s \<Longrightarrow> wt_state (fold (\<lambda>j s'. case c_evt_ring (sh s') ! (j mod EVTRING) of
     (len, d) \<Rightarrow> if len \<noteq> 0 then post i (bytes_upto (unat len) d) 0 s' else s') js s)"
  by (induction js arbitrary: s) (auto simp: split_beta intro: wt_post)

lemma wt_flush [wt_intro]: "wt_state s \<Longrightarrow> wt_state (flush_evt post i s)"
  unfolding flush_evt_def Let_def by (auto intro!: wt_upd_inj wt_flush_fold)

lemma wt_queue_made [simp]:
  "wt_queue q \<Longrightarrow> wt_queue (new_queue b d f ow i q)" "wt_queue (adopt_queue ow n q) = wt_queue q"
  "wt_queue (q\<lparr>q_synth := y\<rparr>) = wt_queue q"
  using length_name_store by (simp_all add: wt_queue_def new_queue_def adopt_queue_def Let_def)

lemma wt_q_create [wt_intro]:
  assumes "wt_state s" and "c_next_q (sh s) + 1 \<noteq> 0"
  shows "wt_state (snd (q_create nm depth flags s))"
proof -
  let ?s = "snd (task_self s)" and ?n = "c_next_q (sh s)"
  have s: "wt_state ?s" using assms(1) by (rule wt_task_self)
  have new: "wt_state (upd_queue k (new_queue b d f ow ?n) (?s\<lparr>sh := (sh ?s)\<lparr>c_next_q := ?n + 1\<rparr>\<rparr>))"
    if free: "free_slot q_used (queues s) = Some k" for k b d f ow
  proof -
    have "ids_wt q_used q_id (?n + 1) ((queues s)[k := new_queue b d f ow ?n (queues s ! k)])"
      using s assms(2) free by (intro queue_reg.alloc_ids_wt) (simp_all add: wt_state_def wt_ctl_def)
    then show ?thesis
      using s by (simp add: wt_state_def wt_ctl_def upd_queue_def list_all_nth_update)
  qed
  have "wt_state (upd_queue k (adopt_queue ow n) ?s)" for k ow n
    using s by (rule wt_upd_queue) simp_all
  then show ?thesis
    using s new by (auto simp: q_create_def Let_def split_beta split: option.splits intro!: wt_flush)
qed

lemma wt_mark_synth [wt_intro]: "wt_state s \<Longrightarrow> wt_state (mark_synth i s)"
  by (auto simp: mark_synth_def split: option.splits intro!: wt_upd_queue)

lemma wt_q_ident [wt_intro]: "wt_state s \<Longrightarrow> c_next_q (sh s) + 1 \<noteq> 0 \<Longrightarrow> wt_state (snd (q_ident nm s))"
  by (auto simp: q_ident_def Let_def split_beta intro!: wt_mark_synth wt_q_create)

lemma wt_q_delete [wt_intro]: "wt_state s \<Longrightarrow> wt_state (snd (q_delete i s))"
  by (auto simp: q_delete_def wt_queue_def NAMELEN_def split: option.splits intro!: wt_upd_queue)

section \<open>Reading\<close>

lemma wt_post_ticks [wt_intro]: "wt_state s \<Longrightarrow> wt_state (post_ticks rq ser ws s)"
  by (induction ws arbitrary: ser s) (simp_all add: wt_post)

lemma wt_tick [wt_intro]: "wt_state s \<Longrightarrow> wt_state (wm_timer_maybe_tick s)"
  by (auto simp: wm_timer_maybe_tick_def Let_def intro!: wt_upd_wm wt_post_ticks)

lemma wt_post_all [wt_intro]: "wt_state s \<Longrightarrow> wt_state (post_all i ms s)"
  by (induction ms arbitrary: s) (simp_all add: wt_post)

lemma wt_streak [wt_intro]: "wt_state s \<Longrightarrow> wt_state (set_streak k n s)" "wt_state s \<Longrightarrow> wt_state (reset_streak k s)"
  by (simp_all add: set_streak_def reset_streak_def wt_state_def wt_proc_def)

lemma wt_read_effects [wt_intro]:
  assumes "wt_state s"
  shows "wt_state (wm_note i m s)" and "wt_state (level_notify k s)" and "wt_state (release_deferred w s)"
    and "wt_state (replay_trigger i k n s)" and "wt_state (inject_upd i k n s)" and "wt_state (snd (wmq_break k s))"
  using assms
  by (auto simp: wm_note_def level_notify_def release_deferred_def replay_trigger_def inject_upd_def wmq_break_def
      Let_def split_beta intro!: wt_upd_inj wt_upd_wm wt_intro)

lemma wt_ring_shift:
  "list_all wt_msg ms \<Longrightarrow> length ms = QSLOTS \<Longrightarrow> list_all wt_msg (ring_shift n p ms) \<and> length (ring_shift n p ms) = QSLOTS"
proof (induction n arbitrary: p ms)
  case (Suc n)
  have "ring_ix (p + 1) < length ms" using Suc.prems(2) by (simp add: ring_ix_def QSLOTS_def)
  then have "wt_msg (ms ! ring_ix (p + 1))" using Suc.prems(1) by (simp add: list_all_length)
  then show ?case
    using Suc.IH [of "ms[ring_ix p := ms ! ring_ix (p + 1)]" "p + 1"] Suc.prems by (simp add: list_all_update)
qed simp

lemma ring_take_ids [simp]: "q_used (ring_take pos q) = q_used q" "q_id (ring_take pos q) = q_id q"
  by (simp_all add: ring_take_def ring_pop_def ring_remove_def)

lemma wt_ring_take: "wt_queue q \<Longrightarrow> wt_queue (ring_take pos q)"
  by (simp add: ring_take_def ring_pop_def ring_remove_def wt_queue_def wt_ring_shift)

lemma wt_read_msg: "wt_state s \<Longrightarrow> wt_state (snd (read_msg k i b mx h sv pos s))"
  by (auto simp: read_msg_def Let_def intro!: wt_read_effects wt_upd_queue wt_streak wt_ring_take)

lemma wt_q_read [wt_intro]: "wt_state s \<Longrightarrow> wt_state (snd (q_read i b mx t h s))"
  by (auto simp: q_read_def q_read_pass_def read_empty_def Let_def split_beta split: option.splits
      intro!: wt_tick wt_read_msg wt_read_effects)

section \<open>Waiting for events\<close>

lemma wt_raise [wt_intro]: "wt_state s \<Longrightarrow> wt_state (raise_bits k b s)" "wt_state s \<Longrightarrow> wt_state (ev_clear k b s)"
  by (auto simp: raise_bits_def ev_clear_def wt_task_def intro!: wt_upd_task)

lemma wt_orphan [wt_intro]: "wt_state s \<Longrightarrow> wt_state (s\<lparr>sh := (sh s)\<lparr>c_orphan_tc := n\<rparr>\<rparr>)"
  by (simp add: wt_state_def wt_ctl_def)

lemma wt_ev_block: "wt_state s \<Longrightarrow> wt_state (snd (ev_block w rem s))"
  by (auto simp: ev_block_def Let_def intro!: wt_raise wt_tick)

lemma wt_task_counters:
  assumes "wt_state s"
  shows "wt_state (upd_task k (\<lambda>t. t\<lparr>t_nowait_miss := 0\<rparr>) s)" and "wt_state (nowait_miss k s)"
    and "wt_state (upd_task k (\<lambda>t. t\<lparr>t_autofire_n := t_autofire_n t + 1\<rparr>) s)"
    and "wt_state (upd_task k (\<lambda>t. t\<lparr>t_last_ev_want := v\<rparr>) s)"
  using assms by (auto simp: nowait_miss_def wt_task_def split: if_splits intro!: wt_upd_task)

lemma wt_ev_turn: "wt_state s \<Longrightarrow> wt_state (snd (ev_turn w s))"
  by (simp add: ev_turn_def Let_def wt_raise wt_task_counters wt_reconcile wt_orphan wt_ev_block split: option.split)

lemma wt_ev_run: "wt_state s \<Longrightarrow> ev_run n w s = Some r \<Longrightarrow> wt_state (snd r)"
proof (induction n arbitrary: s)
  case (Suc n)
  obtain o' s' where t: "ev_turn w s = (o', s')" by (cases "ev_turn w s")
  then have "wt_state s'" using wt_ev_turn [OF Suc.prems(1), of w] by simp
  then show ?case using Suc t by (cases o') auto
qed simp

lemma wt_runup: "wt_state s \<Longrightarrow> wt_state (runup_fallback x t s)"
  by (simp add: runup_fallback_def wt_reread wt_upd_inj)

lemma wt_ev_inject: "wt_state s \<Longrightarrow> wt_state (snd (ev_inject x s))"
  by (simp add: ev_inject_def Let_def wt_state_def wt_proc_def)

lemma wt_ev_enter:
  assumes "wt_state s"
  shows "wt_state (snd (ev_enter x c t s))"
proof -
  have "wt_state (runup_fallback x t (upd_task k (\<lambda>t. t\<lparr>t_last_ev_want := x\<rparr>) (snd (task_self s))))" for k
    using assms by (intro wt_runup wt_task_counters wt_task_self)
  then show ?thesis
    using assms by (simp add: ev_enter_def Let_def split_beta wt_raise wt_ev_inject wt_task_self split: option.split)
qed

section \<open>System calls\<close>

lemma wt_t_create [wt_intro]:
  assumes "wt_state s"
  shows "wt_state (snd (hc_t_create p s))"
proof -
  have wake: "wt_state (wake_starters u)" if "wt_state u" for u
  proof -
    have "lo (fold (\<lambda>k. if P k then emit (F k) else id) ks v) = lo v" for P F ks v
      by (induction ks arbitrary: v) auto
    then have "lo (wake_starters u) = lo u" by (simp add: wake_starters_def)
    then show ?thesis using that by (simp add: wt_state_def)
  qed
  have enter: "wt_state (snd (t_create_enter p s))"
    using wt_task_self [OF assms]
    by (auto simp: t_create_enter_def Let_def split_beta wt_task_def split: option.splits intro!: wt_upd_task)
  have "wt_state (t_create_meet par u)" if "wt_state u" for par u
    using that by (simp add: t_create_meet_def wt_ev_send wt_orphan wake)
  then show ?thesis
    using assms enter by (simp add: hc_t_create_def Let_def split_beta split: option.split)
qed

lemma wt_t_start [wt_intro]: "wt_state s \<Longrightarrow> wt_state (snd (hc_t_start p s))"
  by (auto simp: hc_t_start_def Let_def wt_task_def split: option.splits intro!: wt_upd_task)

lemma wt_t_names [wt_intro]:
  "wt_state s \<Longrightarrow> wt_state (snd (hc_t_ident p s))" "wt_state s \<Longrightarrow> wt_state (snd (hc_t_name p s))"
  "wt_state s \<Longrightarrow> wt_state (snd (hc_p_ident p s))" "wt_state s \<Longrightarrow> wt_state (snd (hc_p_name p s))"
  by (auto simp: hc_t_ident_def hc_t_name_def hc_p_ident_def hc_p_name_def Let_def split_beta intro: wt_task_self)

lemma wt_timers [wt_intro]:
  "wt_state s \<Longrightarrow> wt_state (snd (hc_wkafter p s))" "wt_state s \<Longrightarrow> wt_state (snd (hc_tm_event b p s))"
proof -
  have "wt_state (ptimer_start t x d u)" if "wt_state u" for t x d u
    using that by (auto simp: ptimer_start_def wt_proc_def intro!: wt_upd_lo)
  then show "wt_state s \<Longrightarrow> wt_state (snd (hc_tm_event b p s))"
    by (simp add: hc_tm_event_def Let_def split_beta wt_ev_send wt_task_self)
qed (simp add: hc_wkafter_def Let_def)

lemma wt_env_get [wt_intro]: "wt_state s \<Longrightarrow> wt_state (env_get h nm a z s)"
  by (simp add: env_get_def split: option.split)

lemma wt_messages [wt_intro]:
  "wt_state s \<Longrightarrow> wt_state (snd (hc_q_send p s))" "wt_state s \<Longrightarrow> wt_state (snd (hc_q_read p s))"
proof -
  show "wt_state s \<Longrightarrow> wt_state (snd (hc_q_send p s))"
    by (simp add: hc_q_send_def Let_def split_beta wt_q_send wt_hws wt_acks wt_evt_error_reply wt_broadcast)
  have "wt_state (snd r) \<Longrightarrow> wt_state (snd (read_done a b r))" for a b r
    by (cases r) (auto simp: read_done_def Let_def split: read_outcome.splits option.splits)
  then show "wt_state s \<Longrightarrow> wt_state (snd (hc_q_read p s))"
    by (simp add: hc_q_read_def wt_q_read)
qed

lemma wt_ev_receive [wt_intro]:
  assumes "wt_state s"
  shows "wt_state (snd (hc_ev_receive p s))"
proof -
  obtain r s1 where e: "ev_enter (arg s p 0) (arg s p 1) (arg s p 2) s = (r, s1)"
    by (cases "ev_enter (arg s p 0) (arg s p 1) (arg s p 2) s")
  then have s1: "wt_state s1" using wt_ev_enter [OF assms, of "arg s p 0" "arg s p 1" "arg s p 2"] by simp
  have "wt_state s2" if "ev_run EV_TURNS w s1 = Some (x, s2)" for w x s2
    using wt_ev_run [OF s1 that] by simp
  then show ?thesis
    using e s1 assms by (simp add: hc_ev_receive_def split: sum.split option.split ev_turn_result.split)
qed

lemma wt_signals [wt_intro]:
  "wt_state s \<Longrightarrow> wt_state (snd (hc_as_mask p s))" "wt_state s \<Longrightarrow> wt_state (snd (hc_as_read p s))"
  "wt_state s \<Longrightarrow> wt_state (snd (hc_sem_request p s))"
proof -
  show "wt_state (snd (hc_as_mask p s))" if "wt_state s"
    using wt_as_mask [OF that] that by (simp add: hc_as_mask_def Let_def split_beta split: option.split)
  show "wt_state (snd (hc_as_read p s))" if "wt_state s"
    using wt_as_read [OF that] that by (simp add: hc_as_read_def Let_def split_beta)
  show "wt_state (snd (hc_sem_request p s))" if "wt_state s"
    using wt_sem_request [OF that, of "arg s p 0" "arg s p 1" "arg s p 2" False] that
    by (cases "sem_request_pass (arg s p 0) (arg s p 1) (arg s p 2) False s")
      (simp add: hc_sem_request_def split: poll.split)
qed

lemma wt_ret [simp]: "snd (ret_code r) = snd r" "snd (ret_id q) = snd q"
  by (simp_all add: ret_code_def ret_id_def)

lemma wt_named:
  assumes "wt_state s" and "c_next_q (sh s) + 1 \<noteq> 0" and "hc_named h op p s = Some r"
  shows "wt_state (snd r)"
  using assms(1,2) assms(3) [symmetric]
  by (auto simp: hc_named_def Let_def split_beta wt_sem_make wt_sem_ident wt_q_create wt_q_ident wt_reg_ident wt_env_get
      split: if_splits)

lemma heroscall_typed:
  assumes "wt_state s" and "c_next_q (sh s) + 1 \<noteq> 0"
  shows "wt_state (snd (heroscall h cmd p s))"
proof (cases "hc_named h (unat (cmd AND 0xff)) p s")
  case None
  then show ?thesis
    using assms(1) unfolding heroscall_def Let_def
    by (simp add: wt_t_create wt_t_start wt_t_names wt_timers wt_messages wt_ev_receive wt_signals wt_ev_send
        wt_as_send wt_sem_release wt_q_delete wt_reg_attach)
next
  case (Some r)
  then show ?thesis using wt_named [OF assms Some] by (simp add: heroscall_def)
qed

section \<open>The whole runtime\<close>

text \<open>
  What a thread of a process does to the segment: a system call, the further pass of a call that slept,
  the calls of the device shim, a pass of a pipe watcher, a firing of a periodic timer, a message of the
  posting threads.
\<close>

datatype act =
    Call u32 u32
  | EvWoken nat ev_wait
  | ReadWoken nat u32 bool u32 u32 bool int
  | SemWoken u32 u32 u32
  | EvdevRegister int int
  | EvdevSetmask int u32
  | WatcherPass nat
  | TimerFire u32 u32
  | ThreadPost u32 "u8 list" u32

fun perform :: "host \<Rightarrow> act \<Rightarrow> st \<Rightarrow> st" where
  "perform h (Call cmd p) s = snd (heroscall h cmd p s)"
| "perform h (EvWoken n w) s = (case ev_run n w s of None \<Rightarrow> s | Some r \<Rightarrow> snd r)"
| "perform h (ReadWoken k i b mx t hr sv) s = snd (q_read_woken k i b mx t hr sv s)"
| "perform h (SemWoken i u t) s = snd (sem_request_pass i u t True s)"
| "perform h (EvdevRegister rd wr) s = heros_evdev_register rd wr s"
| "perform h (EvdevSetmask rd m) s = heros_evdev_setmask rd m s"
| "perform h (WatcherPass i) s = snd (evdev_watcher_pass i s)"
| "perform h (TimerFire t b) s = snd (ptimer_fire t b s)"
| "perform h (ThreadPost i m md) s = post i m md s"

text \<open>
  The segment and the processes attached to it.  A process attaches with fresh variables or with a
  copy of its parent's; the guest program computes on its own (its memory, the clock, \<open>errno\<close>, the running thread); a thread acts on the
  segment; a posting thread takes or gives back its guard word.
\<close>

inductive run_step :: "host \<Rightarrow> ctl \<times> st list \<Rightarrow> ctl \<times> st list \<Rightarrow> bool" for h where
  attach: "lo s = proc_init\<lparr>p_self_pname := nm\<rparr> \<Longrightarrow> run_step h (c, ps) (c, ps @ [s])"
| fork: "i < length ps \<Longrightarrow> lo s = lo (ps ! i) \<Longrightarrow> run_step h (c, ps) (c, ps @ [s])"
| guest: "i < length ps \<Longrightarrow> lo s = lo (ps ! i) \<Longrightarrow> run_step h (c, ps) (c, ps[i := s])"
| act: "i < length ps \<Longrightarrow> c_next_q c + 1 \<noteq> 0 \<Longrightarrow> s = perform h a ((ps ! i)\<lparr>sh := c\<rparr>) \<Longrightarrow>
    run_step h (c, ps) (sh s, ps[i := s])"
| guard: "run_step h (c, ps) (c\<lparr>c_sk_flow_posted := x, c_wm_activate_posted := y, c_hwserver_alive := z\<rparr>, ps)"

inductive run_reach :: "host \<Rightarrow> ctl \<times> st list \<Rightarrow> bool" for h where
  start: "ctl_init zero_ctl = Some c \<Longrightarrow> run_reach h (c, [])"
| further: "run_reach h x \<Longrightarrow> run_step h x y \<Longrightarrow> run_reach h y"

definition wt_system :: "ctl \<times> st list \<Rightarrow> bool" where
  "wt_system x \<longleftrightarrow> wt_ctl (fst x) \<and> (\<forall>s\<in>set (snd x). wt_proc (lo s))"

lemma wt_q_read_woken: "wt_state s \<Longrightarrow> wt_state (snd (q_read_woken k i b mx t hr sv s))"
  by (auto simp: q_read_woken_def q_read_pass_def read_empty_def Let_def split_beta split: option.splits
      intro!: wt_read_msg wt_read_effects)

lemma wt_evdevs:
  assumes "wt_state s"
  shows "wt_state (heros_evdev_register rd wr s)" and "wt_state (heros_evdev_setmask rd m s)"
    and "wt_state (snd (evdev_watcher_pass i s))"
proof -
  show "wt_state (heros_evdev_register rd wr s)"
    using assms wt_task_self [OF assms]
    by (auto simp: heros_evdev_register_def Let_def split_beta wt_proc_def split: option.splits intro!: wt_upd_lo)
  show "wt_state (heros_evdev_setmask rd m s)"
    using assms by (auto simp: heros_evdev_setmask_def split: option.splits intro!: wt_reconcile_locked wt_upd_evdev)
  show "wt_state (snd (evdev_watcher_pass i s))"
    using assms
    by (auto simp: evdev_watcher_pass_def Let_def wt_proc_def split: option.splits
        intro!: wt_reconcile_locked wt_upd_lo)
qed

lemma wt_ptimer_fire: "wt_state s \<Longrightarrow> wt_state (snd (ptimer_fire t b s))"
  by (auto simp: ptimer_fire_def wt_proc_def intro!: wt_upd_lo wt_ev_send)

lemma wt_perform: "wt_state s \<Longrightarrow> c_next_q (sh s) + 1 \<noteq> 0 \<Longrightarrow> wt_state (perform h a s)"
  by (cases a)
    (auto simp: heroscall_typed wt_q_read_woken wt_sem_request wt_evdevs wt_ptimer_fire wt_post
      split: option.splits dest: wt_ev_run)

lemma wt_ctl_init: "ctl_init zero_ctl = Some c \<Longrightarrow> wt_ctl c"
  by (auto simp: ctl_init_def zero_ctl_def wt_ctl_def table_wt_def ids_wt_def ids_ok_zero free_cnt_def
      zero_task_def zero_sem_def zero_region_def zero_queue_def zero_qmsg_def wt_task_def wt_sem_def wt_region_def
      wt_queue_def wt_msg_def wt_evt_def list_all_length NAMELEN_def REGNAMELEN_def
      MAXTASK_def MAXSEM_def MAXREG_def EVTRING_def)

lemma wt_proc_init: "wt_proc (proc_init\<lparr>p_self_pname := nm\<rparr>)"
  by (simp add: wt_proc_def proc_init_def wt_inj_def off_defs)

lemma wt_run_step:
  assumes "wt_system x" and "run_step h x y"
  shows "wt_system y"
  using assms(2,1)
proof cases
  case (attach s nm c ps)
  then show ?thesis using assms(1) by (auto simp: wt_system_def wt_proc_init)
next
  case (fork i ps s c)
  then show ?thesis using assms(1) by (auto simp: wt_system_def)
next
  case (guest i ps s c)
  then show ?thesis
    using assms(1) set_update_subset_insert [of ps i s] by (fastforce simp: wt_system_def)
next
  case (act i ps c s a)
  have "wt_state ((ps ! i)\<lparr>sh := c\<rparr>)" using act assms(1) by (simp add: wt_system_def wt_state_def)
  then have "wt_state s" unfolding act(5) by (rule wt_perform) (use act in simp)
  then show ?thesis
    using act assms(1) set_update_subset_insert [of ps i s] by (fastforce simp: wt_system_def wt_state_def)
next
  case (guard c ps u v w)
  then show ?thesis using assms(1) by (simp add: wt_system_def wt_ctl_def)
qed

text \<open>
  C5. However many processes attach and whatever calls, wake-ups, watcher passes, timer firings and posted
  messages their threads perform, in any order, the segment and every process stay well typed: the tables
  keep their sizes, live ids stay distinct and nonzero, the task, semaphore and region counters never wrap,
  names fit their fields, stored messages fit their slots, and the fixed arrays of a process are never
  overrun.  A queue id is the one thing that may run out, after \<open>2^32\<close> creations.
\<close>

theorem runtime_typed:
  assumes "run_reach h (c, ps)"
  shows "wt_ctl c \<and> list_all (\<lambda>s. wt_proc (lo s)) ps"
proof -
  have "wt_system x" if "run_reach h x" for x
    using that
  proof (induction rule: run_reach.induct)
    case (start c)
    then show ?case by (simp add: wt_system_def wt_ctl_init)
  next
    case (further x y)
    then show ?case using wt_run_step by blast
  qed
  from this [OF assms] show ?thesis by (simp add: wt_system_def list_all_iff)
qed

definition bare_host :: host where
  "bare_host = \<lparr>h_env = (\<lambda>_. None), h_map = (\<lambda>_ _. None), h_file = (\<lambda>_. None)\<rparr>"

text \<open>One process that attaches and creates a queue.\<close>

lemma runtime_typed_witness:
  "wt_ctl (sh (snd (heroscall bare_host 0x0a 0 (boot 7 9))))"
proof -
  let ?c = "the (ctl_init zero_ctl)" and ?b = "boot 7 9"
  have c: "ctl_init zero_ctl = Some ?c" by (simp add: ctl_init_def zero_ctl_def)
  have b: "?b\<lparr>sh := ?c\<rparr> = ?b" and nq: "c_next_q ?c + 1 \<noteq> 0"
    by (simp_all add: boot_def ctl_init_def zero_ctl_def)
  have "run_reach bare_host (?c, [?b])"
    using run_reach.further [OF run_reach.start [OF c] run_step.attach [of ?b "[]"]]
    by (simp add: proc_init_def)
  then have "run_reach bare_host (sh (perform bare_host (Call 0x0a 0) ?b), [perform bare_host (Call 0x0a 0) ?b])"
    using run_reach.further [OF _ run_step.act [of 0 "[?b]" ?c, OF _ nq refl], of bare_host "Call 0x0a 0"] b by simp
  then show ?thesis using runtime_typed [THEN conjunct1] by fastforce
qed

end
