(* ===== verification/SpinLock.thy ===== *)
theory SpinLock
  imports Base
begin

text \<open>
  The futex lock that protects the control segment: \<open>lock\<close> and \<open>unlock\<close> of
  \<open>src/emulator/heros_rtos.c\<close>.  Threads are numbered; each is at one point of the two functions,
  and every atomic access of the lock word is one step.  \<open>FUTEX_WAIT\<close> sleeps only while the word
  still holds 1, and may return early (a signal); \<open>FUTEX_WAKE\<close> of one waiter is a step of its own,
  after the store, as in the code.
\<close>

datatype pc = Outside | Trying | ToWait | Sleeping | Holding | Released

record lockst =
  l_word :: nat
  l_pc :: "nat \<Rightarrow> pc"

inductive lock_step :: "lockst \<Rightarrow> lockst \<Rightarrow> bool" where
  enter: "l_pc s t = Outside \<Longrightarrow> lock_step s (s\<lparr>l_pc := (l_pc s)(t := Trying)\<rparr>)"
| exchange_won: "l_pc s t = Trying \<Longrightarrow> l_word s = 0
    \<Longrightarrow> lock_step s (s\<lparr>l_word := 1, l_pc := (l_pc s)(t := Holding)\<rparr>)"
| exchange_lost: "l_pc s t = Trying \<Longrightarrow> l_word s \<noteq> 0
    \<Longrightarrow> lock_step s (s\<lparr>l_word := 1, l_pc := (l_pc s)(t := ToWait)\<rparr>)"
| wait_sleeps: "l_pc s t = ToWait \<Longrightarrow> l_word s = 1
    \<Longrightarrow> lock_step s (s\<lparr>l_pc := (l_pc s)(t := Sleeping)\<rparr>)"
| wait_again: "l_pc s t = ToWait \<Longrightarrow> l_word s \<noteq> 1
    \<Longrightarrow> lock_step s (s\<lparr>l_pc := (l_pc s)(t := Trying)\<rparr>)"
| interrupted: "l_pc s t = Sleeping \<Longrightarrow> lock_step s (s\<lparr>l_pc := (l_pc s)(t := Trying)\<rparr>)"
| store: "l_pc s t = Holding
    \<Longrightarrow> lock_step s (s\<lparr>l_word := 0, l_pc := (l_pc s)(t := Released)\<rparr>)"
| wake_none: "l_pc s t = Released \<Longrightarrow> (\<And>w. l_pc s w \<noteq> Sleeping)
    \<Longrightarrow> lock_step s (s\<lparr>l_pc := (l_pc s)(t := Outside)\<rparr>)"
| wake_one: "l_pc s t = Released \<Longrightarrow> l_pc s w = Sleeping
    \<Longrightarrow> lock_step s (s\<lparr>l_pc := (l_pc s)(t := Outside, w := Trying)\<rparr>)"

inductive_cases lock_stepE: "lock_step s s'"

definition lock_init :: lockst where
  "lock_init = \<lparr>l_word = 0, l_pc = (\<lambda>_. Outside)\<rparr>"

inductive lock_reach :: "lockst \<Rightarrow> bool" where
  start: "lock_reach lock_init"
| step: "lock_reach s \<Longrightarrow> lock_step s s' \<Longrightarrow> lock_reach s'"

text \<open>The word is 1 exactly while somebody holds the lock, and then only one thread does.\<close>

definition lock_ok :: "lockst \<Rightarrow> bool" where
  "lock_ok s \<longleftrightarrow> (l_word s = 0 \<and> (\<forall>t. l_pc s t \<noteq> Holding)) \<or>
     (l_word s = 1 \<and> (\<exists>h. \<forall>t. l_pc s t = Holding \<longleftrightarrow> t = h))"

text \<open>Somebody awake will look at the free word, or is about to wake a sleeper.\<close>

definition lock_awake :: "lockst \<Rightarrow> bool" where
  "lock_awake s \<longleftrightarrow> (\<exists>t. l_pc s t \<in> {Trying, ToWait, Holding, Released})"

lemma lock_ok_step:
  assumes "lock_step s s'" and "lock_ok s"
  shows "lock_ok s'"
proof (cases "l_word s = 0")
  case True
  then have free: "\<forall>t. l_pc s t \<noteq> Holding" using assms(2) by (auto simp: lock_ok_def)
  from assms(1) show ?thesis
    by cases (use True free in \<open>auto simp: lock_ok_def\<close>)
next
  case False
  then obtain h where h: "l_word s = 1" "\<And>t. l_pc s t = Holding \<longleftrightarrow> t = h"
    using assms(2) by (auto simp: lock_ok_def)
  have stay: "lock_ok s''" if "l_word s'' = 1" "\<And>t. l_pc s'' t = Holding \<longleftrightarrow> t = h" for s''
    using that by (auto simp: lock_ok_def)
  from assms(1) show ?thesis
  proof cases
    case (store t)
    then show ?thesis using h by (auto simp: lock_ok_def)
  qed (rule stay; use h in \<open>auto simp flip: h(2)\<close>)+
qed

lemma lock_reach_ok: "lock_reach s \<Longrightarrow> lock_ok s"
proof (induction rule: lock_reach.induct)
  case start
  show ?case by (simp add: lock_ok_def lock_init_def)
next
  case (step s s')
  then show ?case by (blast intro: lock_ok_step)
qed

lemma lock_reach_awake: "lock_reach s \<Longrightarrow> l_pc s w = Sleeping \<Longrightarrow> lock_awake s"
proof (induction arbitrary: w rule: lock_reach.induct)
  case start
  then show ?case by (simp add: lock_init_def)
next
  case (step s s')
  have ok: "lock_ok s" using step.hyps(1) by (rule lock_reach_ok)
  from step.hyps(2) show ?case
  proof cases
    case (wait_sleeps t)
    then obtain h where "l_pc s h = Holding" using ok by (auto simp: lock_ok_def)
    with wait_sleeps show ?thesis by (auto simp: lock_awake_def intro!: exI [of _ h])
  next
    case (wake_none t)
    with step.prems show ?thesis by (auto split: if_splits)
  next
    case (wake_one t v)
    then have "l_pc s' v = Trying" by simp
    then show ?thesis by (auto simp: lock_awake_def)
  qed (auto simp: lock_awake_def)
qed

text \<open>
  C3. The segment lock: in every reachable state of any number of threads running \<open>lock\<close> and
  \<open>unlock\<close>, at most one thread is inside the critical section, and while a thread sleeps on the
  lock word some other thread is awake in the protocol (contending, holding, or about to issue the
  wake), so no wakeup is lost.
\<close>

theorem segment_lock_correct:
  "lock_reach s \<Longrightarrow>
     (\<forall>t u. l_pc s t = Holding \<longrightarrow> l_pc s u = Holding \<longrightarrow> t = u) \<and>
     (\<forall>w. l_pc s w = Sleeping \<longrightarrow> lock_awake s)"
  using lock_reach_ok [of s] lock_reach_awake [of s] by (auto simp: lock_ok_def)

text \<open>One thread holds the lock while a second one sleeps on it.\<close>

definition lock_demo :: lockst where
  "lock_demo = \<lparr>l_word = 1, l_pc = (\<lambda>_. Outside)(0 := Holding, 1 := Sleeping)\<rparr>"

lemma lock_demo_reach: "lock_reach lock_demo"
proof -
  let ?a = "lock_init\<lparr>l_pc := (l_pc lock_init)(0 := Trying)\<rparr>"
  let ?b = "?a\<lparr>l_word := 1, l_pc := (l_pc ?a)(0 := Holding)\<rparr>"
  let ?c = "?b\<lparr>l_pc := (l_pc ?b)(1 := Trying)\<rparr>"
  let ?d = "?c\<lparr>l_word := 1, l_pc := (l_pc ?c)(1 := ToWait)\<rparr>"
  let ?e = "?d\<lparr>l_pc := (l_pc ?d)(1 := Sleeping)\<rparr>"
  have "lock_reach ?a"
    by (rule lock_reach.step [OF lock_reach.start lock_step.enter]) (simp add: lock_init_def)
  then have "lock_reach ?b"
    by (rule lock_reach.step) (rule lock_step.exchange_won; simp add: lock_init_def)
  then have "lock_reach ?c"
    by (rule lock_reach.step) (rule lock_step.enter; simp add: lock_init_def)
  then have "lock_reach ?d"
    by (rule lock_reach.step) (rule lock_step.exchange_lost; simp add: lock_init_def)
  then have "lock_reach ?e"
    by (rule lock_reach.step) (rule lock_step.wait_sleeps; simp add: lock_init_def)
  moreover have "?e = lock_demo" by (auto simp: lock_demo_def lock_init_def fun_eq_iff)
  ultimately show ?thesis by simp
qed

lemma segment_lock_witness:
  "l_pc lock_demo 0 = Holding \<and> l_pc lock_demo 1 = Sleeping \<and> lock_awake lock_demo"
proof -
  have pcs: "l_pc lock_demo 0 = Holding" "l_pc lock_demo 1 = Sleeping"
    by (simp_all add: lock_demo_def)
  with segment_lock_correct [OF lock_demo_reach] show ?thesis by blast
qed

end
