(* ===== verification/Shim.thy ===== *)
theory Shim
  imports Events Environ
begin

text \<open>
  \<open>src/emulator/herosapi_shim.c\<close>: the device files it fakes, the pipe behind \<open>/dev/events\<close> that it
  hands to the runtime, the capped waits, the faked file-system calls, and the process creation.  What
  the kernel answers is an argument.
\<close>

section \<open>Faked files\<close>

definition MAX_FAKE :: nat where "MAX_FAKE = 64"

record shim =
  f_fds :: "int list"            \<comment> \<open>\<open>fake_fds\<close>, as many as \<open>fake_n\<close>\<close>
  f_events_wr :: int

text \<open>The kernel's answers to the system calls of one call.\<close>

record kernel =
  kr_memfd :: int
  kr_trunc :: int
  kr_zero :: int
  kr_pipe :: "(int \<times> int) option"
  kr_open :: "int \<Rightarrow> string \<Rightarrow> u32 \<Rightarrow> u32 \<Rightarrow> int"
  kr_ioctl :: "int \<Rightarrow> u32 \<Rightarrow> u32 \<Rightarrow> int"

definition is_heros_dev :: "string \<Rightarrow> bool" where
  "is_heros_dev p \<longleftrightarrow> has_sub ''herosapi'' p \<or> has_sub ''/dev/events'' p \<or> has_sub ''JHncmem'' p"

definition remember :: "int \<Rightarrow> shim \<Rightarrow> shim" where
  "remember fd h = (if 0 \<le> fd \<and> length (f_fds h) < MAX_FAKE then h\<lparr>f_fds := f_fds h @ [fd]\<rparr> else h)"

definition is_fake :: "int \<Rightarrow> shim \<Rightarrow> bool" where
  "is_fake fd h \<longleftrightarrow> list_ex (\<lambda>x. x = fd) (f_fds h)"

definition make_fake :: "kernel \<Rightarrow> shim \<Rightarrow> int \<times> shim" where
  "make_fake k h =
     (let fd = (if 0 \<le> kr_memfd k \<and> 0 \<le> kr_trunc k then kr_memfd k else kr_zero k) in (fd, remember fd h))"

text \<open>\<open>rtos\<close>: the runtime is preloaded too, so its weak symbols are there.\<close>

definition make_fake_events :: "bool \<Rightarrow> bool \<Rightarrow> kernel \<Rightarrow> shim \<times> st \<Rightarrow> int \<times> shim \<times> st" where
  "make_fake_events rtos pipe_on k hs =
     (let (h, s) = hs in
      case (if pipe_on then kr_pipe k else None) of
        None \<Rightarrow> (case make_fake k h of (fd, h1) \<Rightarrow> (fd, h1, s))
      | Some (rd, wr) \<Rightarrow>
          (rd, remember rd (h\<lparr>f_events_wr := wr\<rparr>), if rtos then heros_evdev_register rd wr s else s))"

definition fake_open :: "bool \<Rightarrow> bool \<Rightarrow> kernel \<Rightarrow> string \<Rightarrow> shim \<times> st \<Rightarrow> int \<times> shim \<times> st" where
  "fake_open rtos pipe_on k path hs =
     (if has_sub ''/dev/events'' path then make_fake_events rtos pipe_on k hs
      else case make_fake k (fst hs) of (fd, h1) \<Rightarrow> (fd, h1, snd hs))"

definition AT_FDCWD :: int where "AT_FDCWD = -100"
definition O_LARGEFILE :: u32 where "O_LARGEFILE = 0x8000"

definition shim_openat :: "bool \<Rightarrow> bool \<Rightarrow> kernel \<Rightarrow> int \<Rightarrow> string \<Rightarrow> u32 \<Rightarrow> u32 \<Rightarrow> shim \<times> st \<Rightarrow> int \<times> shim \<times> st" where
  "shim_openat rtos pipe_on k dfd path flags m hs =
     (if is_heros_dev path then fake_open rtos pipe_on k path hs else (kr_open k dfd path flags m, hs))"

definition shim_open where
  "shim_open rtos pipe_on k path flags m hs = shim_openat rtos pipe_on k AT_FDCWD path flags m hs"

definition shim_open64 where
  "shim_open64 rtos pipe_on k path flags m hs = shim_openat rtos pipe_on k AT_FDCWD path (flags OR O_LARGEFILE) m hs"

definition shim_open_2 where
  "shim_open_2 rtos pipe_on k path flags hs = shim_openat rtos pipe_on k AT_FDCWD path flags 0 hs"

definition shim_open64_2 where
  "shim_open64_2 rtos pipe_on k path flags hs = shim_openat rtos pipe_on k AT_FDCWD path (flags OR O_LARGEFILE) 0 hs"

text \<open>\<open>rd\<close> reads a guest word: the argument of \<open>0x4502\<close> points to the mask.\<close>

definition shim_ioctl :: "bool \<Rightarrow> (u32 \<Rightarrow> u32) \<Rightarrow> kernel \<Rightarrow> int \<Rightarrow> u32 \<Rightarrow> u32 \<Rightarrow> shim \<times> st \<Rightarrow> int \<times> shim \<times> st" where
  "shim_ioctl rtos rd k fd req a hs =
     (if is_fake fd (fst hs)
      then (0, fst hs, if req = 0x4502 \<and> a \<noteq> 0 \<and> rtos then heros_evdev_setmask fd (rd a) (snd hs) else snd hs)
      else (kr_ioctl k fd req a, hs))"

section \<open>Capped waits\<close>

definition sel_cap :: "string option \<Rightarrow> int" where
  "sel_cap e = (case e of None \<Rightarrow> -1 | Some v \<Rightarrow> atol v)"

text \<open>\<open>to\<close>: seconds and microseconds, \<open>None\<close> to wait for ever; the timeout the kernel is given.\<close>

definition select_timeout ::
    "int \<Rightarrow> shim \<Rightarrow> int \<Rightarrow> int list option \<Rightarrow> (int \<times> int) option \<Rightarrow> (int \<times> int) option" where
  "select_timeout cap h nfds r to =
     (if 0 \<le> cap \<and> r \<noteq> None \<and> list_ex (\<lambda>fd. 0 \<le> fd \<and> fd < nfds \<and> fd \<in> set (the r)) (f_fds h) then
        let cur = (case to of None \<Rightarrow> -1 | Some (s, u) \<Rightarrow> long32 (long32 (s * 1000) + cdiv u 1000)) in
        if to = None \<or> cap < cur then Some (cdiv cap 1000, cmod cap 1000 * 1000) else to
      else to)"

definition ppoll_timeout :: "int \<Rightarrow> shim \<Rightarrow> int list option \<Rightarrow> (int \<times> int) option \<Rightarrow> (int \<times> int) option" where
  "ppoll_timeout cap h fds to =
     (if 0 \<le> cap \<and> fds \<noteq> None \<and> list_ex (\<lambda>fd. is_fake fd h) (the fds) then
        let cur = (case to of None \<Rightarrow> -1 | Some (s, n) \<Rightarrow> long32 (long32 (s * 1000) + cdiv n 1000000)) in
        if to = None \<or> cap < cur then Some (cdiv cap 1000, cmod cap 1000 * 1000000) else to
      else to)"

section \<open>Faked file-system calls\<close>

definition fake_ns_on :: "(string \<Rightarrow> string option) \<Rightarrow> bool" where
  "fake_ns_on env = env_on (env ''HEROS_FAKE_NS'')"

definition fake_chmod_on :: "(string \<Rightarrow> string option) \<Rightarrow> bool" where
  "fake_chmod_on env \<longleftrightarrow> env_on (env ''HEROS_FAKE_CHMOD'') \<or> fake_ns_on env"

text \<open>\<open>r\<close>: what the kernel would answer.\<close>

definition shim_mount :: "(string \<Rightarrow> string option) \<Rightarrow> int \<Rightarrow> int" where
  "shim_mount env r = (if fake_ns_on env then 0 else r)"

definition shim_chmod :: "(string \<Rightarrow> string option) \<Rightarrow> int \<Rightarrow> int" where
  "shim_chmod env r = (if fake_chmod_on env then 0 else r)"

section \<open>Process creation\<close>

definition set_env :: "string \<Rightarrow> string option \<Rightarrow> (string \<Rightarrow> string option) \<Rightarrow> string \<Rightarrow> string option" where
  "set_env nm v env = env(nm := v)"

definition pcreate_image :: "(string \<Rightarrow> string option) \<Rightarrow> string option \<Rightarrow> string option" where
  "pcreate_image env img =
     (case (img, env ''HEROS_PCREATE_IMGFROM'', env ''HEROS_PCREATE_IMGTO'') of
        (Some i, Some from, Some to) \<Rightarrow>
          if has_prefix from i then Some (take 1023 (to @ drop (length from) i)) else img
      | _ \<Rightarrow> img)"

definition pcreate_fexbin :: "(string \<Rightarrow> string option) \<Rightarrow> string" where
  "pcreate_fexbin env = (case env ''HEROS_PCREATE_FEXBIN'' of Some (c # cs) \<Rightarrow> c # cs | _ \<Rightarrow> ''/usr/bin/FEXInterpreter'')"

definition pcreate_argv :: "(string \<Rightarrow> string option) \<Rightarrow> string option \<Rightarrow> string option \<Rightarrow> string list \<Rightarrow> string list" where
  "pcreate_argv env img p7 args =
     (let a0 = [pcreate_fexbin env];
          a1 = (case pcreate_image env img of Some (c # cs) \<Rightarrow> a0 @ [c # cs] | _ \<Rightarrow> a0);
          a2 = (case p7 of Some x \<Rightarrow> a1 @ [x] | None \<Rightarrow> a1)
      in a2 @ take (298 - length a2) args)"

definition pcreate_env :: "string option \<Rightarrow> (string \<Rightarrow> string option) \<Rightarrow> string \<Rightarrow> string option" where
  "pcreate_env p7 env =
     (let e = set_env ''HEROSCALL_INJECT_FMLOAD_PROC'' None (set_env ''HEROSCALL_INJECT_FMLOAD_IMG'' None
                (set_env ''HEROSCALL_INJECT_FMLOAD_SET'' None (set_env ''HEROSCALL_INJECT_FMLOAD'' None env)))
      in set_env ''HEROS_PROC_NAME''
           (case p7 of Some (c # cs) \<Rightarrow> if c \<noteq> CHR ''-'' then Some (c # cs) else None | _ \<Rightarrow> None) e)"

text \<open>
  The result, what is stored through \<open>pidout\<close>, and what the child executes.  \<open>pid\<close> is the answer of
  \<open>fork\<close> in the parent.
\<close>

definition p_create ::
    "(string \<Rightarrow> string option) \<Rightarrow> int \<Rightarrow> string option \<Rightarrow> string option \<Rightarrow> string list
      \<Rightarrow> int \<times> int option \<times> (string list \<times> (string \<Rightarrow> string option)) option" where
  "p_create env pid img p7 args =
     (if \<not> env_on (env ''HEROS_PCREATE_FEX'') then (-1, Some (-1), None)
      else if 0 < pid then (pid, Some pid, Some (pcreate_argv env img p7 args, pcreate_env p7 env))
      else (-1, None, None))"

end
