(* ===== verification/ShimFacts.thy ===== *)
theory ShimFacts
  imports Shim HeroscallFacts
begin

text \<open>
  What the shim promises: waits on a faked device are cut to the cap and other waits are left alone, the
  pipe it puts behind \<open>/dev/events\<close> becomes readable when the runtime sends an enabled event, and a
  process it creates runs the wanted image under its own name.
\<close>

section \<open>Capped waits\<close>

lemma long32_small: "- (2 ^ 31) \<le> x \<Longrightarrow> x < 2 ^ 31 \<Longrightarrow> long32 x = x"
  unfolding long32_def by (simp add: sint_sbintrunc' signed_take_bit_int_eq_self)

lemma ms_of_timeval:
  assumes "0 \<le> s" and "s < 2147483" and "0 \<le> u" and "u < 1000000"
  shows "long32 (long32 (s * 1000) + cdiv u 1000) = s * 1000 + u div 1000"
proof -
  have "u div 1000 < 1000" using assms(4) by linarith
  moreover have "0 \<le> u div 1000" using assms(3) by simp
  ultimately show ?thesis using assms by (simp add: long32_small cdiv_nonneg)
qed

text \<open>
  A wait that watches a faked device never outlasts the cap, whether it asked for ever or for longer;
  a wait that asked for less keeps its timeout, and a wait that watches no faked device is not touched.
\<close>

theorem select_timeout_capped:
  assumes "0 \<le> cap" and "case to of None \<Rightarrow> True | Some (s, u) \<Rightarrow> 0 \<le> s \<and> s < 2147483 \<and> 0 \<le> u \<and> u < 1000000"
    and "select_timeout cap h nfds (Some r) to = to'"
  shows "if \<exists>fd\<in>set (f_fds h). 0 \<le> fd \<and> fd < nfds \<and> fd \<in> set r
    then (\<exists>s u. to' = Some (s, u) \<and> 0 \<le> s \<and> 0 \<le> u \<and> u < 1000000 \<and> s * 1000 + u div 1000 \<le> cap) \<and>
      (\<forall>s u. to = Some (s, u) \<longrightarrow> s * 1000 + u div 1000 \<le> cap \<longrightarrow> to' = to)
    else to' = to"
proof (cases "\<exists>fd\<in>set (f_fds h). 0 \<le> fd \<and> fd < nfds \<and> fd \<in> set r")
  case True
  then have l: "list_ex (\<lambda>fd. 0 \<le> fd \<and> fd < nfds \<and> fd \<in> set r) (f_fds h)" by (simp add: list_ex_iff)
  define c where "c = (cap div 1000, cap mod 1000 * 1000)"
  have c: "(cdiv cap 1000, cmod cap 1000 * 1000) = c" using assms(1) by (simp add: c_def cdiv_nonneg cmod_nonneg)
  have cc: "0 \<le> fst c" "0 \<le> snd c" "snd c < 1000000" "fst c * 1000 + snd c div 1000 \<le> cap"
    using assms(1) pos_mod_bound [of 1000 cap] by (simp_all add: c_def)
  have cut: "\<exists>s u. Some c = Some (s, u) \<and> 0 \<le> s \<and> 0 \<le> u \<and> u < 1000000 \<and> s * 1000 + u div 1000 \<le> cap"
    using cc by (intro exI [of _ "fst c"] exI [of _ "snd c"]) simp
  show ?thesis
  proof (cases to)
    case None
    then have "to' = Some c" using assms(1,3) l by (simp add: select_timeout_def flip: c)
    then show ?thesis using True cut None by simp
  next
    case (Some su)
    obtain s u where su: "su = (s, u)" by force
    have b: "0 \<le> s" "s < 2147483" "0 \<le> u" "u < 1000000" using assms(2) by (simp_all add: Some su)
    have e: "to' = (if cap < s * 1000 + u div 1000 then Some c else to)"
      using assms(1) l ms_of_timeval [OF b] by (simp add: select_timeout_def Some su flip: assms(3) c)
    then show ?thesis using True cut b by (auto simp: Some su)
  qed
next
  case False
  then have "\<not> list_ex (\<lambda>fd. 0 \<le> fd \<and> fd < nfds \<and> fd \<in> set r) (f_fds h)" by (auto simp: list_ex_iff)
  then have "to' = to" by (simp add: select_timeout_def flip: assms(3))
  then show ?thesis using False by (simp only: if_False)
qed

lemma select_timeout_capped_witness:
  "\<exists>s u. select_timeout 50 \<lparr>f_fds = [5], f_events_wr = 6\<rparr> 6 (Some [3, 5]) None = Some (s, u) \<and> s * 1000 + u div 1000 \<le> 50"
  using select_timeout_capped [of 50 None "\<lparr>f_fds = [5], f_events_wr = 6\<rparr>" 6 "[3, 5]", OF _ _ refl] by auto

section \<open>The event pipe\<close>

lemma reconcile_writes:
  assumes "i < length (p_evdevs (lo s))" and "task_slot (sh s) (d_task (p_evdevs (lo s) ! i)) = Some k"
    and "\<not> d_signaled (p_evdevs (lo s) ! i) \<or> FxPipeWrite (d_wr (p_evdevs (lo s) ! i)) \<in> set (fx s)"
    and "evdev_want s (p_evdevs (lo s) ! i) k"
  shows "FxPipeWrite (d_wr (p_evdevs (lo s) ! i)) \<in> set (fx (evdev_reconcile_locked i s))"
  using assms by (simp add: evdev_reconcile_locked_def Let_def)

lemma reconcile_dev:
  assumes "i < length (p_evdevs (lo s))"
  shows "d_task (p_evdevs (lo (evdev_reconcile_locked i s)) ! i) = d_task (p_evdevs (lo s) ! i)"
    and "d_wr (p_evdevs (lo (evdev_reconcile_locked i s)) ! i) = d_wr (p_evdevs (lo s) ! i)"
    and "d_sysmask (p_evdevs (lo (evdev_reconcile_locked i s)) ! i) = d_sysmask (p_evdevs (lo s) ! i)"
    and "j \<noteq> i \<Longrightarrow> p_evdevs (lo (evdev_reconcile_locked i s)) ! j = p_evdevs (lo s) ! j"
    and "ecf (evdev_reconcile_locked i s) = ecf s"
    and "d_signaled (p_evdevs (lo (evdev_reconcile_locked i s)) ! i) \<Longrightarrow>
      d_signaled (p_evdevs (lo s) ! i) \<or> FxPipeWrite (d_wr (p_evdevs (lo s) ! i)) \<in> set (fx (evdev_reconcile_locked i s))"
  using assms by (auto simp: evdev_reconcile_locked_def Let_def split: option.splits)

lemma reconcile_device:
  assumes "e_events_bridge (ecf s)" and "find_index (\<lambda>e. d_task e = t) (p_evdevs (lo s)) = Some i"
  shows "evdev_reconcile t s = evdev_reconcile_locked i s"
  using assms find_index_less [OF assms(2)] by (auto simp: evdev_reconcile_def)

text \<open>A send whose bits the pipe of the task lets through leaves the pipe written.\<close>

lemma ev_send_pipe:
  assumes bridge: "e_events_bridge (ecf s)" and dev: "find_index (\<lambda>e. d_task e = t) (p_evdevs (lo s)) = Some i"
    and slot: "task_slot (sh s) t = Some j" and bits: "has_bits bits (d_sysmask (p_evdevs (lo s) ! i) OR 0xff000000)"
    and old: "\<not> d_signaled (p_evdevs (lo s) ! i) \<or> FxPipeWrite (d_wr (p_evdevs (lo s) ! i)) \<in> set (fx s)"
  shows "FxPipeWrite (d_wr (p_evdevs (lo s) ! i)) \<in> set (fx (snd (ev_send t bits s)))"
proof -
  let ?w = "emit (FxWake (FwEvents j)) (upd_task j (\<lambda>t. t\<lparr>t_events := t_events t OR bits\<rparr>) s)"
  have i: "i < length (p_evdevs (lo s))" "d_task (p_evdevs (lo s) ! i) = t"
    using find_index_less [OF dev] find_index_holds [OF dev] by auto
  have slw: "task_slot (sh ?w) t = Some j"
    using task_slot_upd_task [OF slot, of "\<lambda>t. t\<lparr>t_events := t_events t OR bits\<rparr>" t] slot by simp
  have "evdev_reconcile t ?w = evdev_reconcile_locked i ?w"
    by (rule reconcile_device) (use bridge dev in simp_all)
  moreover have "FxPipeWrite (d_wr (p_evdevs (lo ?w) ! i)) \<in> set (fx (evdev_reconcile_locked i ?w))"
  proof (rule reconcile_writes)
    show "i < length (p_evdevs (lo ?w))" using i by simp
    show "task_slot (sh ?w) (d_task (p_evdevs (lo ?w) ! i)) = Some j" using slw i by simp
    show "\<not> d_signaled (p_evdevs (lo ?w) ! i) \<or> FxPipeWrite (d_wr (p_evdevs (lo ?w) ! i)) \<in> set (fx ?w)"
      using old by auto
    have "j < length (tasks s)" using task_slot_SomeD [OF slot] by simp
    then have "t_events (tasks ?w ! j) = t_events (tasks s ! j) OR bits" by simp
    then show "evdev_want ?w (p_evdevs (lo ?w) ! i) j"
      using has_bits_or [OF bits] by (simp add: evdev_want_def evdev_mask_def)
  qed
  ultimately show ?thesis using slot by (simp add: ev_send_def)
qed

text \<open>
  From \<open>open\<close> to \<open>select\<close>: a thread opens \<open>/dev/events\<close> and enables events with the \<open>ioctl\<close>; when
  anyone then sends it an enabled (or a private) event, a byte is written into the very pipe whose
  reading end \<open>open\<close> returned, so the thread's \<open>select\<close> wakes up.
\<close>

theorem events_pipe_wakes:
  assumes bridge: "e_events_bridge (ecf s)" and pipe: "kr_pipe k = Some (rd, wr)"
    and first: "\<forall>e\<in>set (p_evdevs (lo s)). d_rd e \<noteq> rd \<and> d_task e \<noteq> fst (task_self s)" and room: "length (p_evdevs (lo s)) < MAXEVDEV"
    and dev: "p_evdevs (lo (snd (task_self s))) = p_evdevs (lo s)" "ecf (snd (task_self s)) = ecf s"
    and slot: "task_slot (sh (snd (task_self s))) (fst (task_self s)) = Some j"
    and fds: "0 \<le> rd" "length (f_fds h) < MAX_FAKE"
    and opened: "shim_open True True k ''/dev/events'' flags m (h, s) = (fd, h1, s1)"
    and masked: "shim_ioctl True mem32 k fd 0x4502 a (h1, s1) = (r, h2, s2)" and a: "a \<noteq> 0"
    and bits: "has_bits bits (mem32 a OR 0xff000000)"
  shows "fd = rd \<and> r = 0 \<and> FxPipeWrite wr \<in> set (fx (snd (ev_send (fst (task_self s)) bits s2)))"
proof -
  let ?t = "fst (task_self s)" and ?u = "snd (task_self s)" and ?es = "p_evdevs (lo s)"
  let ?e = "\<lparr>d_task = ?t, d_rd = rd, d_wr = wr, d_sysmask = 0, d_signaled = False\<rparr>"
  let ?i = "length ?es"
  have no: "find_index (\<lambda>e. d_rd e = rd \<or> d_task e = ?t) ?es = None" using first by (simp add: find_index_None)
  have name: "is_heros_dev ''/dev/events''" "has_sub ''/dev/events'' ''/dev/events''"
    by (simp_all add: is_heros_dev_def has_sub.simps has_prefix_def)
  have o: "fd = rd" "h1 = remember rd (h\<lparr>f_events_wr := wr\<rparr>)" "s1 = ?u\<lparr>lo := (lo ?u)\<lparr>p_evdevs := ?es @ [?e]\<rparr>\<rparr>"
  proof -
    have "shim_open True True k ''/dev/events'' flags m (h, s)
        = (rd, remember rd (h\<lparr>f_events_wr := wr\<rparr>), ?u\<lparr>lo := (lo ?u)\<lparr>p_evdevs := ?es @ [?e]\<rparr>\<rparr>)"
      using name pipe bridge no room
      by (simp add: shim_open_def shim_openat_def fake_open_def make_fake_events_def heros_evdev_register_def
          Let_def split_beta dev)
    then show "fd = rd" "h1 = remember rd (h\<lparr>f_events_wr := wr\<rparr>)" "s1 = ?u\<lparr>lo := (lo ?u)\<lparr>p_evdevs := ?es @ [?e]\<rparr>\<rparr>"
      using opened by simp_all
  qed
  have fake: "is_fake rd h1" using fds by (simp add: o(2) is_fake_def remember_def)
  have ev1: "p_evdevs (lo s1) = ?es @ [?e]" "sh s1 = sh ?u" "e_events_bridge (ecf s1)"
    using bridge by (simp_all add: o(3) dev)
  have at: "find_index (\<lambda>e. d_rd e = rd) (?es @ [?e]) = Some ?i" "find_index (\<lambda>e. d_task e = ?t) es = Some ?i"
    if "length es = Suc ?i" "d_task (es ! ?i) = ?t" "\<forall>j<?i. es ! j = ?es ! j" for es
  proof -
    show "find_index (\<lambda>e. d_rd e = rd) (?es @ [?e]) = Some ?i"
      using first by (intro find_index_unique) (auto simp: nth_append less_Suc_eq split: if_splits)
    show "find_index (\<lambda>e. d_task e = ?t) es = Some ?i"
      using first that by (intro find_index_unique) (auto simp: less_Suc_eq)
  qed
  let ?v = "upd_evdev ?i (\<lambda>e. e\<lparr>d_sysmask := mem32 a\<rparr>) s1"
  have v: "p_evdevs (lo ?v) ! ?i = ?e\<lparr>d_sysmask := mem32 a\<rparr>" "length (p_evdevs (lo ?v)) = Suc ?i" "sh ?v = sh ?u"
    "ecf ?v = ecf s1" "\<forall>j<?i. p_evdevs (lo ?v) ! j = ?es ! j"
    by (simp_all add: ev1 nth_append)
  have s2: "r = 0" "s2 = evdev_reconcile_locked ?i ?v"
    using masked a fake at(1) [of "p_evdevs (lo ?v)"] v ev1
    by (simp_all add: shim_ioctl_def o(1) heros_evdev_setmask_def)
  have i: "?i < length (p_evdevs (lo ?v))" unfolding v(2) by simp
  note rd2 = reconcile_dev [OF i]
  have w: "length (p_evdevs (lo s2)) = Suc ?i" "d_task (p_evdevs (lo s2) ! ?i) = ?t"
    "d_wr (p_evdevs (lo s2) ! ?i) = wr" "d_sysmask (p_evdevs (lo s2) ! ?i) = mem32 a" "ecf s2 = ecf s1"
    "\<forall>q<?i. p_evdevs (lo s2) ! q = ?es ! q"
    using rd2 v by (auto simp: s2(2))
  have "FxPipeWrite (d_wr (p_evdevs (lo s2) ! ?i)) \<in> set (fx (snd (ev_send ?t bits s2)))"
  proof (rule ev_send_pipe)
    show "e_events_bridge (ecf s2)" using w(5) ev1(3) by simp
    show "find_index (\<lambda>e. d_task e = ?t) (p_evdevs (lo s2)) = Some ?i" using at(2) [of "p_evdevs (lo s2)"] w by simp
    show "task_slot (sh s2) ?t = Some j" using slot v(3) by (simp add: s2(2))
    show "has_bits bits (d_sysmask (p_evdevs (lo s2) ! ?i) OR 0xff000000)" using bits w(4) by simp
    show "\<not> d_signaled (p_evdevs (lo s2) ! ?i) \<or> FxPipeWrite (d_wr (p_evdevs (lo s2) ! ?i)) \<in> set (fx s2)"
      using rd2(6) v(1) w(3) by (auto simp: s2(2))
  qed
  then show ?thesis using o(1) s2(1) w(3) by simp
qed

definition pipe_kernel :: kernel where
  "pipe_kernel = \<lparr>kr_memfd = 3, kr_trunc = 0, kr_zero = 4, kr_pipe = Some (5, 6), kr_open = (\<lambda>_ _ _ _. -1), kr_ioctl = (\<lambda>_ _ _. -1)\<rparr>"

definition pipe_demo :: st where
  "pipe_demo = (read_demo [] ''X'')\<lparr>ecf := ev_off\<lparr>e_events_bridge := True\<rparr>\<rparr>"

lemma events_pipe_wakes_witness:
  "FxPipeWrite 6 \<in> set (fx (snd (ev_send 0x100 0x10000
     (snd (snd (shim_ioctl True (\<lambda>_. 0x30000) pipe_kernel 5 0x4502 0x2000
        (snd (shim_open True True pipe_kernel ''/dev/events'' 0 0 (\<lparr>f_fds = [], f_events_wr = -1\<rparr>, pipe_demo)))))))))"
proof -
  have self: "task_self pipe_demo = (0x100, pipe_demo)"
    using read_demo_simps(4) [of "[]" "''X''"] by (intro task_self_cached) (simp add: pipe_demo_def cached_self_def)
  have d: "p_evdevs (lo pipe_demo) = []" "e_events_bridge (ecf pipe_demo)" "task_slot (sh pipe_demo) 0x100 = Some 0"
    using read_demo_simps(5) [of "[]" "''X''"] by (simp_all add: pipe_demo_def) (simp add: read_demo_def proc_init_def)
  let ?h = "\<lparr>f_fds = [], f_events_wr = -1\<rparr>"
  have k: "kr_pipe pipe_kernel = Some (5, 6)" by (simp add: pipe_kernel_def)
  obtain fd h1 s1 where o: "shim_open True True pipe_kernel ''/dev/events'' 0 0 (?h, pipe_demo) = (fd, h1, s1)" by (metis prod.exhaust)
  obtain r h2 s2 where m: "shim_ioctl True (\<lambda>_. 0x30000) pipe_kernel fd 0x4502 0x2000 (h1, s1) = (r, h2, s2)" by (metis prod.exhaust)
  have "fd = 5 \<and> r = 0 \<and> FxPipeWrite 6 \<in> set (fx (snd (ev_send (fst (task_self pipe_demo)) 0x10000 s2)))"
    by (rule events_pipe_wakes [OF d(2) k _ _ _ _ _ _ _ o m])
      (simp_all add: self d MAXEVDEV_def MAX_FAKE_def has_bits_def)
  then show ?thesis using o m by (simp add: self)
qed

section \<open>Process creation\<close>

lemma parse_self_set: "parse_self_pname (Some (c # cs)) cl = canon_pname (Some (name_store (c # cs)))"
  by (simp add: parse_self_pname_def)

lemma pcreate_image_maps:
  "env ''HEROS_PCREATE_IMGFROM'' = Some from \<Longrightarrow> env ''HEROS_PCREATE_IMGTO'' = Some to \<Longrightarrow> length (to @ rest) \<le> 1023 \<Longrightarrow>
    pcreate_image env (Some (from @ rest)) = Some (to @ rest)"
  by (simp add: pcreate_image_def has_prefix_def)

lemma pcreate_image_keeps:
  assumes "env ''HEROS_PCREATE_IMGFROM'' = None \<or> env ''HEROS_PCREATE_IMGTO'' = None \<or>
      (\<exists>from. env ''HEROS_PCREATE_IMGFROM'' = Some from \<and> (\<nexists>rest. im = from @ rest))"
  shows "pcreate_image env (Some im) = Some im"
proof -
  have "\<not> has_prefix fr im" if "\<nexists>rest. im = fr @ rest" for fr
    using that by (metis append_take_drop_id has_prefix_def)
  then show ?thesis using assms by (auto simp: pcreate_image_def split: option.splits)
qed

text \<open>
  C25. A created process runs the wanted image under its own name.  An image below the directory
  \<open>HEROS_PCREATE_IMGFROM\<close> is looked for at the same place below \<open>HEROS_PCREATE_IMGTO\<close>, any other is taken as
  it is; the arguments are the configured interpreter, that image, the name and what follows, none of them
  lost while there are fewer than 296.  All four switches of the injection are gone from its environment
  and no other variable but the name changes; and when its runtime starts, the process registers under
  exactly that name.
\<close>

theorem p_create_child:
  assumes on: "env_on (env ''HEROS_PCREATE_FEX'')" and pid: "0 < pid"
    and img: "(\<exists>from to rest. env ''HEROS_PCREATE_IMGFROM'' = Some from \<and> env ''HEROS_PCREATE_IMGTO'' = Some to \<and>
          im = from @ rest \<and> im' = to @ rest \<and> length im' \<le> 1023) \<or>
        ((env ''HEROS_PCREATE_IMGFROM'' = None \<or> env ''HEROS_PCREATE_IMGTO'' = None \<or>
          (\<exists>from. env ''HEROS_PCREATE_IMGFROM'' = Some from \<and> (\<nexists>rest. im = from @ rest))) \<and> im' = im)"
    and "im' \<noteq> []"
    and interp: "interp = (case env ''HEROS_PCREATE_FEXBIN'' of Some (b # bs) \<Rightarrow> b # bs | _ \<Rightarrow> ''/usr/bin/FEXInterpreter'')"
    and name: "p7 = c # cs" "c \<noteq> CHR ''-''" and args: "length args \<le> 295"
  shows "\<exists>env'. p_create env pid (Some im) (Some p7) args = (pid, Some pid, Some (interp # im' # p7 # args, env')) \<and>
      (\<forall>v. v \<notin> {''HEROSCALL_INJECT_FMLOAD'', ''HEROSCALL_INJECT_FMLOAD_SET'', ''HEROSCALL_INJECT_FMLOAD_IMG'',
            ''HEROSCALL_INJECT_FMLOAD_PROC'', ''HEROS_PROC_NAME''} \<longrightarrow> env' v = env v) \<and>
      env' ''HEROSCALL_INJECT_FMLOAD'' = None \<and> env' ''HEROSCALL_INJECT_FMLOAD_SET'' = None \<and>
      env' ''HEROSCALL_INJECT_FMLOAD_IMG'' = None \<and> env' ''HEROSCALL_INJECT_FMLOAD_PROC'' = None \<and>
      env' ''HEROS_PROC_NAME'' = Some p7 \<and>
      (\<forall>s p. p_self_pname (lo s) = [] \<longrightarrow> ensure_init env' cl (False, s) = Some p \<longrightarrow>
         p_self_pname (lo (snd p)) = canon_pname (Some (name_store p7)))"
proof -
  let ?e = "pcreate_env (Some p7) env"
  obtain i "is" where i: "im' = i # is" using \<open>im' \<noteq> []\<close> by (cases im') auto
  have "pcreate_image env (Some im) = Some im'" using img pcreate_image_maps pcreate_image_keeps by blast
  then have "pcreate_argv env (Some im) (Some p7) args = interp # im' # p7 # args"
    using args interp by (simp add: pcreate_argv_def pcreate_fexbin_def i)
  moreover have "?e ''HEROS_PROC_NAME'' = Some p7" using name by (simp add: pcreate_env_def set_env_def)
  moreover from this have n: "parse_self_pname (?e ''HEROS_PROC_NAME'') cl = canon_pname (Some (name_store p7))"
    using name(1) by (simp add: parse_self_set)
  have "p_self_pname (lo (snd p)) = canon_pname (Some (name_store p7))"
    if s: "p_self_pname (lo s) = []" and p: "ensure_init ?e cl (False, s) = Some p" for s p
  proof -
    have "p = the (ensure_init ?e cl (False, s))" using p by simp
    moreover have "ensure_init ?e cl (False, s) \<noteq> None" using p by simp
    then obtain c where "ctl_init (sh s) = Some c" by (auto simp: ensure_init_def Let_def split: option.splits)
    ultimately show ?thesis using s by (simp add: ensure_init_def Let_def n)
  qed
  moreover have "p_create env pid (Some im) (Some p7) args = (pid, Some pid, Some (pcreate_argv env (Some im) (Some p7) args, ?e))"
    using on pid by (simp add: p_create_def)
  moreover have "\<forall>v. v \<notin> {''HEROSCALL_INJECT_FMLOAD'', ''HEROSCALL_INJECT_FMLOAD_SET'', ''HEROSCALL_INJECT_FMLOAD_IMG'',
        ''HEROSCALL_INJECT_FMLOAD_PROC'', ''HEROS_PROC_NAME''} \<longrightarrow> ?e v = env v"
    "?e ''HEROSCALL_INJECT_FMLOAD'' = None" "?e ''HEROSCALL_INJECT_FMLOAD_SET'' = None"
    "?e ''HEROSCALL_INJECT_FMLOAD_IMG'' = None" "?e ''HEROSCALL_INJECT_FMLOAD_PROC'' = None"
    by (simp_all add: pcreate_env_def set_env_def)
  ultimately show ?thesis by (intro exI [of _ ?e]) simp
qed

definition spawn_env :: "string \<Rightarrow> string option" where
  "spawn_env = (\<lambda>_. None)(''HEROS_PCREATE_FEX'' := Some ''1'', ''HEROS_PCREATE_IMGFROM'' := Some ''/tmp/b/'',
     ''HEROS_PCREATE_IMGTO'' := Some ''/heros5/bin/'', ''HEROSCALL_INJECT_FMLOAD_IMG'' := Some ''1'')"

lemma p_create_child_witness:
  "\<exists>e. p_create spawn_env 77 (Some ''/tmp/b/winmgr.elf'') (Some ''winmgr:winmgr/winmgr'') [''-x'']
      = (77, Some 77, Some ([''/usr/bin/FEXInterpreter'', ''/heros5/bin/winmgr.elf'', ''winmgr:winmgr/winmgr'', ''-x''], e)) \<and>
    spawn_env ''HEROSCALL_INJECT_FMLOAD_IMG'' = Some ''1'' \<and> e ''HEROSCALL_INJECT_FMLOAD_IMG'' = None"
proof -
  have on: "env_on (spawn_env ''HEROS_PCREATE_FEX'')" "spawn_env ''HEROSCALL_INJECT_FMLOAD_IMG'' = Some ''1''"
    by (simp_all add: spawn_env_def env_on_def)
  have im: "(\<exists>from to rest. spawn_env ''HEROS_PCREATE_IMGFROM'' = Some from \<and> spawn_env ''HEROS_PCREATE_IMGTO'' = Some to \<and>
      ''/tmp/b/winmgr.elf'' = from @ rest \<and> ''/heros5/bin/winmgr.elf'' = to @ rest \<and> length ''/heros5/bin/winmgr.elf'' \<le> 1023)"
    by (intro exI [of _ "''/tmp/b/''"] exI [of _ "''/heros5/bin/''"] exI [of _ "''winmgr.elf''"]) (simp add: spawn_env_def)
  have f: "''/usr/bin/FEXInterpreter'' = (case spawn_env ''HEROS_PCREATE_FEXBIN'' of Some (b # bs) \<Rightarrow> b # bs | _ \<Rightarrow> ''/usr/bin/FEXInterpreter'')"
    by (simp add: spawn_env_def)
  show ?thesis
    using p_create_child [of spawn_env 77 "''/tmp/b/winmgr.elf''" "''/heros5/bin/winmgr.elf''" "''/usr/bin/FEXInterpreter''"
        "''winmgr:winmgr/winmgr''" "CHR ''w''" "''inmgr:winmgr/winmgr''" "[''-x'']" None, OF on(1) _ disjI1 [OF im] _ f refl] on(2)
    by fastforce
qed

end
