(* ===== verification/HdhInput.thy ===== *)
theory HdhInput
  imports Base
begin

text \<open>
  \<open>src/recomp/libhdhinput_rebuilt.c\<close>: the accessors and the range check of a numeric field
  descriptor \<open>d\<close>, a byte array of at least 17 bytes.
\<close>

section \<open>Accessors\<close>

definition type_active :: "u8 \<Rightarrow> bool" where
  "type_active t \<longleftrightarrow> (if t < 7 then t \<noteq> 0 else t = 8)"

definition pzt_flag :: "u8 \<Rightarrow> u8 list \<Rightarrow> u8" where
  "pzt_flag m d = (if type_active (d ! 2) then d ! 16 AND m else 0)"

definition get_pzt_export :: "u8 list \<Rightarrow> u8" where "get_pzt_export d = pzt_flag 0x40 d"
definition get_pzt_vorz :: "u8 list \<Rightarrow> u8" where "get_pzt_vorz d = pzt_flag 0x20 d"
definition get_pzt_igsign :: "u8 list \<Rightarrow> u8" where "get_pzt_igsign d = pzt_flag 0x80 d"

definition get_pzt_feed :: "u8 list \<Rightarrow> u8" where
  "get_pzt_feed d = (if d ! 2 - 1 < 5 then drop_bit 3 (d ! 16) AND 1 else 0)"

definition get_pzt_mm_inch :: "u8 list \<Rightarrow> u8" where
  "get_pzt_mm_inch d = (if 1 < d ! 2 - 2 then 0 else d ! 16 AND 0x10)"

definition get_pzt_hex :: "u8 list \<Rightarrow> bool" where "get_pzt_hex d \<longleftrightarrow> d ! 2 = 1 \<or> d ! 2 = 4"
definition get_pzt_float :: "u8 list \<Rightarrow> bool" where "get_pzt_float d \<longleftrightarrow> d ! 2 = 3"

definition get_pzt_nkomma :: "int \<Rightarrow> u8 list \<Rightarrow> u8" where
  "get_pzt_nkomma mode d = (if \<not> type_active (d ! 2) then 0 else if mode = 0 then d ! 0x0f else d ! 0x0e)"

definition get_pzt_vkomma :: "int \<Rightarrow> u8 list \<Rightarrow> u8" where
  "get_pzt_vkomma mode d = (if \<not> type_active (d ! 2) then 0 else if mode = 0 then d ! 0x0d else d ! 0x0c)"

definition get_pzt_pstr :: "u8 list \<Rightarrow> u8 list option" where
  "get_pzt_pstr d = (if d ! 2 \<noteq> 0 then None else Some (drop 4 d))"

definition get_pzt_perm :: "u8 list \<Rightarrow> u32 list" where
  "get_pzt_perm d =
     (let t = d ! 2 in
      if t < 7 \<and> t = 0 then [get32 d 4, get32 d 8, get32 d 12]
      else if \<not> t < 7 \<and> t \<noteq> 8 then [0, 0, 0]
      else [0xffffffff, 0xffffffff, 0xffffffff])"

section \<open>The range check\<close>

definition CheckMinMax :: "u32 \<Rightarrow> u8 list \<Rightarrow> bool" where
  "CheckMinMax v d =
     (let lo = get32 d 8; hi = get32 d 4 in
      if get_pzt_vorz d = 0 then v \<le> hi \<and> lo \<le> v else sint v \<le> sint hi \<and> sint lo \<le> sint v)"

definition xf_clear_bit30 :: "u32 \<Rightarrow> u32" where
  "xf_clear_bit30 v =
     (if v AND 0x80000000 = 0 then v AND 0xBFFFFFFF else 0 - ((0 - v) AND 0xBFFFFFFF))"

definition xf_inc_if_neg :: "u32 \<Rightarrow> u32" where
  "xf_inc_if_neg v = (if v AND 0x80000000 \<noteq> 0 then v + 1 else v)"

definition check_pzt_range :: "u32 \<Rightarrow> u8 list \<Rightarrow> bool" where
  "check_pzt_range v d =
     (let t = d ! 2 in
      if t = 0 \<or> t = 7 then False
      else if t = 1 \<or> t = 2 \<or> t = 4 \<or> t = 5 then CheckMinMax v d
      else if t = 3 then CheckMinMax (xf_clear_bit30 v) d
      else if t = 6 then CheckMinMax (xf_inc_if_neg v) d
      else if t = 8 then v = 0xff \<or> v + 1 < 2
      else True)"

text \<open>Membership in a bitmap of the characters 0x20 to 0x7f, most significant bit first.\<close>

definition check_zt_char :: "u8 list option \<Rightarrow> int \<Rightarrow> bool" where
  "check_zt_char bm ch =
     (let u = (word_of_int (ch - 0x20) :: u32) in
      case bm of None \<Rightarrow> False
      | Some b \<Rightarrow> u < 0x60 \<and> drop_bit (unat (u AND 7)) 0x80 AND b ! unat (drop_bit 3 u) \<noteq> 0)"

section \<open>Properties\<close>

lemma clear_bit30: "\<not> bit v 31 \<Longrightarrow> v AND 0xBFFFFFFF = take_bit 30 v" for v :: u32
proof -
  assume h: "\<not> bit v 31"
  have e: "(0xBFFFFFFF :: u32) = NOT (2 ^ 30)" by simp
  show ?thesis
  proof (rule bit_word_eqI)
    fix n assume "n < LENGTH(32)"
    then have "n < 30 \<or> n = 30 \<or> n = 31" by auto
    then show "bit (v AND 0xBFFFFFFF) n = bit (take_bit 30 v) n"
      unfolding e bit_and_iff bit_not_iff bit_exp_iff bit_take_bit_iff using h by auto
  qed
qed

lemma clear_bit30_nonneg: "0 \<le> sint v \<Longrightarrow> sint (v AND 0xBFFFFFFF) = sint v mod 2 ^ 30" for v :: u32
proof -
  assume h: "0 \<le> sint v"
  then have "v AND 0xBFFFFFFF = take_bit 30 v" using bit_last_iff [of v] by (intro clear_bit30) simp
  also have "\<dots> = word_of_int (take_bit 30 (uint v))"
    by (metis unsigned_take_bit_eq word_of_int_uint)
  also have "take_bit 30 (uint v) = uint v mod 2 ^ 30" by (rule take_bit_eq_mod)
  finally show ?thesis
    using sint_of_small [of "uint v mod 2 ^ 30"] pos_mod_bound [of "2 ^ 30" "uint v"] sint_uint_nonneg [OF h] by simp
qed

text \<open>Bit 30 of the magnitude is cleared, the sign kept.\<close>

lemma xf_clear_bit30_int:
  assumes "- (2 ^ 31) < sint v"
  shows "sint (xf_clear_bit30 v) = sgn (sint v) * (\<bar>sint v\<bar> mod 2 ^ 30)"
proof (cases "0 \<le> sint v")
  case True
  then show ?thesis using clear_bit30_nonneg [OF True] by (cases "sint v = 0") (simp_all add: xf_clear_bit30_def sign_bit)
next
  case False
  let ?m = "(- v) AND 0xBFFFFFFF"
  have n: "sint (- v) = - sint v" by (rule sint_neg [OF assms])
  then have m: "sint ?m = (- sint v) mod 2 ^ 30" using False clear_bit30_nonneg [of "- v"] by simp
  then have "- (2 ^ 31) < sint ?m" using pos_mod_sign [of "2 ^ 30" "- sint v"] by simp
  then have "sint (- ?m) = - ((- sint v) mod 2 ^ 30)" using sint_neg [of ?m] m by simp
  then show ?thesis using False sign_bit [of v] by (simp add: xf_clear_bit30_def)
qed

lemma xf_inc_int: "sint (xf_inc_if_neg v) = (if sint v < 0 then sint v + 1 else sint v)"
proof (cases "sint v < 0")
  case True
  have "v + 1 = word_of_int (sint v + 1)" by simp
  then have "sint (v + 1) = sint v + 1" using True sint_of_small [of "sint v + 1"] sint_ge [of v] by simp
  then show ?thesis using True sign_bit [of v] by (simp add: xf_inc_if_neg_def)
qed (simp add: xf_inc_if_neg_def sign_bit)

lemma sint_eq_iff: "- (2 ^ 31) \<le> x \<Longrightarrow> x < 2 ^ 31 \<Longrightarrow> (sint v = x) = (v = word_of_int x)" for v :: u32
proof
  show "sint v = x \<Longrightarrow> v = word_of_int x" by auto
qed (simp add: sint_of_small)

lemma truth_value_int: "(v = 0xff \<or> v + 1 < 2) = (sint v \<in> {255, 0, - 1})" for v :: u32
proof -
  have "x < 2 \<longleftrightarrow> x = 0 \<or> x = 1" for x :: u32 by (simp add: word_less_nat_alt word_unat_eq_iff less_2_cases_iff)
  then have "v + 1 < 2 \<longleftrightarrow> v + 1 = 0 \<or> v + 1 = 1" .
  also have "\<dots> \<longleftrightarrow> v = - 1 \<or> v = 0" by (simp add: add_eq_0_iff2)
  finally have a: "(v = 0xff \<or> v + 1 < 2) = (v = 0xff \<or> v = - 1 \<or> v = 0)" by simp
  show ?thesis
    unfolding a using sint_eq_iff [of 255 v] sint_eq_iff [of 0 v] sint_eq_iff [of "- 1" v] by auto
qed

text \<open>
  C27. The range check on a signed field: integer types compare the value with the two limits, type 3 first
  clears bit 30 of its magnitude, type 6 first moves a negative value one towards zero, type 8 admits
  exactly 255, 0 and -1, types 0 and 7 admit nothing and unknown types everything.
\<close>

theorem check_pzt_range_signed:
  assumes "d ! 16 AND 0x20 \<noteq> 0" and "- (2 ^ 31) < sint v"
  defines "inside \<equiv> \<lambda>x. sint (get32 d 8) \<le> x \<and> x \<le> sint (get32 d 4)"
  shows "check_pzt_range v d =
    (if d ! 2 \<in> {1, 2, 4, 5} then inside (sint v)
     else if d ! 2 = 3 then inside (sgn (sint v) * (\<bar>sint v\<bar> mod 2 ^ 30))
     else if d ! 2 = 6 then inside (if sint v < 0 then sint v + 1 else sint v)
     else if d ! 2 = 8 then sint v \<in> {255, 0, - 1}
     else d ! 2 \<notin> {0, 7})"
proof -
  have c: "CheckMinMax x d = inside (sint x)" if "type_active (d ! 2)" for x
    using that assms(1) by (auto simp: CheckMinMax_def get_pzt_vorz_def pzt_flag_def Let_def inside_def)
  have act: "type_active (d ! 2)" if "d ! 2 \<in> {1, 2, 3, 4, 5, 6}"
    using that by (auto simp: type_active_def)
  have in1: "CheckMinMax x d = inside (sint x)" if "d ! 2 \<in> {1, 2, 3, 4, 5, 6}" for x
    by (rule c [OF act [OF that]])
  consider (int) "d ! 2 \<in> {1, 2, 4, 5}" | (three) "d ! 2 = 3" | (six) "d ! 2 = 6" | (eight) "d ! 2 = 8"
    | (rest) "d ! 2 \<notin> {1, 2, 3, 4, 5, 6, 8}" by blast
  then show ?thesis
  proof cases
    case int
    then show ?thesis using in1 [of v] by (auto simp: check_pzt_range_def)
  next
    case three
    then show ?thesis using in1 [of "xf_clear_bit30 v"] xf_clear_bit30_int [OF assms(2)] by (simp add: check_pzt_range_def)
  next
    case six
    then show ?thesis using in1 [of "xf_inc_if_neg v"] xf_inc_int [of v] by (simp add: check_pzt_range_def)
  next
    case eight
    then show ?thesis using truth_value_int [of v] by (simp add: check_pzt_range_def)
  next
    case rest
    then show ?thesis by (auto simp: check_pzt_range_def Let_def)
  qed
qed

definition pzt_demo :: "u8 list" where
  "pzt_demo = [0, 0, 3, 0] @ le32 100 @ le32 (- 5) @ [0, 0, 0, 0, 0x20]"

lemma check_pzt_range_signed_witness: "check_pzt_range 0x40000007 pzt_demo \<and> \<not> check_pzt_range 101 pzt_demo"
proof -
  have d: "pzt_demo ! 16 AND 0x20 \<noteq> 0" "pzt_demo ! 2 = 3" "get32 pzt_demo 4 = 100" "get32 pzt_demo 8 = - 5"
    by (code_simp, code_simp, code_simp, code_simp)
  have s: "sint (0x40000007 :: u32) = 0x40000007" "sint (101 :: u32) = 101" "sint (100 :: u32) = 100" "sint (- 5 :: u32) = - 5"
    by simp_all
  show ?thesis
    using check_pzt_range_signed [OF d(1), of "0x40000007"] check_pzt_range_signed [OF d(1), of 101]
    by (simp add: d(2-4) s)
qed

end
