(* ===== verification/PlcBin.thy ===== *)
theory PlcBin
  imports Base
begin

text \<open>
  \<open>src/recomp/plcbin/libplcbin_rebuilt.c\<close>: the reader of a PLC binary module.  A handle is the file's
  content with the C file position, the version and the cursor of the binary code; a file that cannot
  be opened is no content.
\<close>

section \<open>Files\<close>

record plc_handle =
  h_file :: "u8 list"
  h_fpos :: nat
  h_ver :: int
  h_off :: u32
  h_size :: u32
  h_pos :: u32

definition plc_seek :: "int \<Rightarrow> plc_handle \<Rightarrow> plc_handle option" where
  "plc_seek p h = (if p < 0 then None else Some (h\<lparr>h_fpos := nat p\<rparr>))"

text \<open>\<open>fread(buf, n, 1, f)\<close>: all of it or nothing, the position moves either way.\<close>

definition plc_read :: "nat \<Rightarrow> plc_handle \<Rightarrow> u8 list option \<times> plc_handle" where
  "plc_read n h =
     (let b = take n (drop (h_fpos h) (h_file h)) in
      (if length b < n then None else Some b, h\<lparr>h_fpos := h_fpos h + length b\<rparr>))"

definition be32 :: "u8 list \<Rightarrow> u32" where
  "be32 b = push_bit 24 (ucast (b ! 0)) OR push_bit 16 (ucast (b ! 1)) OR push_bit 8 (ucast (b ! 2)) OR ucast (b ! 3)"

definition be16 :: "u8 list \<Rightarrow> u16" where
  "be16 b = push_bit 8 (ucast (b ! 0)) OR ucast (b ! 1)"

definition getlong :: "plc_handle \<Rightarrow> u32 option \<times> plc_handle" where
  "getlong h = (case plc_read 4 h of (b, h1) \<Rightarrow> (map_option be32 b, h1))"

definition getword :: "plc_handle \<Rightarrow> u16 option \<times> plc_handle" where
  "getword h = (case plc_read 2 h of (b, h1) \<Rightarrow> (map_option be16 b, h1))"

section \<open>Opening and reading\<close>

definition MAGIC_V2 :: "u8 list" where "MAGIC_V2 = bytes_of ''BIN PLC binary module  Version 2.0      ''"
definition MAGIC_V1 :: "u8 list" where "MAGIC_V1 = bytes_of ''BIN PLC binary module  Version 1.0      ''"

text \<open>The handle or the error number: 1 no memory, 2 no file, 3 no module.\<close>

definition PLCBin_Open :: "bool \<Rightarrow> u8 list option \<Rightarrow> nat + plc_handle" where
  "PLCBin_Open mem f =
     (if \<not> mem then Inl 1
      else case f of
             None \<Rightarrow> Inl 2
           | Some c \<Rightarrow>
               let h = \<lparr>h_file = c, h_fpos = 0, h_ver = 0, h_off = 0, h_size = 0, h_pos = 0\<rparr> in
               (case plc_read 0x28 h of
                  (Some b, h1) \<Rightarrow> if b = MAGIC_V2 then Inr (h1\<lparr>h_ver := 200\<rparr>)
                                  else if b = MAGIC_V1 then Inr (h1\<lparr>h_ver := 100\<rparr>) else Inl 3
                | (None, h1) \<Rightarrow> Inl 3))"

definition ReadBinCodeInfo :: "plc_handle \<Rightarrow> int \<times> plc_handle" where
  "ReadBinCodeInfo h =
     (if h_off h = 0 then
        (case plc_seek 0x28 h of
           None \<Rightarrow> (-1, h)
         | Some h1 \<Rightarrow>
             (case getlong h1 of
                (None, h2) \<Rightarrow> (-2, h2)
              | (Some a, h2) \<Rightarrow>
                  (case getlong h2 of
                     (None, h3) \<Rightarrow> (-2, h3)
                   | (Some b, h3) \<Rightarrow> (0, h3\<lparr>h_off := a, h_size := b\<rparr>))))
      else (0, h))"

text \<open>
  \<open>PLCBin_ReadBinCode\<close> with room for \<open>n\<close> bytes: an error, or the bytes \<open>fread\<close> stores.  A remaining
  size below zero is converted to an unsigned count, so everything up to the end of the file is stored.
\<close>

definition PLCBin_ReadBinCode :: "nat \<Rightarrow> plc_handle \<Rightarrow> (int + u8 list) \<times> plc_handle" where
  "PLCBin_ReadBinCode n h =
     (case ReadBinCodeInfo h of
        (rc, h1) \<Rightarrow>
          if rc < 0 then (Inl rc, h1)
          else
            case (if h_pos h1 = 0 then plc_seek (sint (h_off h1)) h1 else Some h1) of
              None \<Rightarrow> (Inl (-3), h1)
            | Some h2 \<Rightarrow>
                let rest = sint (h_size h2 - h_pos h2);
                    want = (if int n < rest then int n else rest)
                in if want \<noteq> 0 then
                     let b = (let r = drop (h_fpos h2) (h_file h2) in if want < 0 then r else take (nat want) r)
                     in (Inr b, h2\<lparr>h_pos := h_pos h2 + word_of_int want, h_fpos := h_fpos h2 + length b\<rparr>)
                   else (Inr [], h2\<lparr>h_off := 0, h_size := 0, h_pos := 0\<rparr>))"

section \<open>The token table\<close>

definition TokenList :: "(string \<times> nat) list" where
  "TokenList = [(''$SizePLCMEM$'', 0), (''BYTES'', 1), (''INPUTBYTES'', 2), (''OUTPUTBYTES'', 3), (''MARKERS'', 4),
     (''INPUTS'', 5), (''OUTPUTS'', 6), (''COUNTERS'', 7), (''TIMERS'', 8), (''STRINGS'', 9),
     (''$OffsetB$'', 10), (''$OffsetIB$'', 11), (''$OffsetOB$'', 12), (''$OffsetM$'', 13), (''$OffsetI$'', 14),
     (''$OffsetO$'', 15), (''$OffsetC$'', 16), (''$OffsetT$'', 17), (''$OffsetS$'', 18), (''MAXSTRINGLEN'', 19),
     (''REMBYTEMIN'', 20), (''REMBYTEMAX'', 21), (''REMMARKERMIN'', 22), (''REMMARKERMAX'', 23), (''$CRCSum$'', 24),
     (''MULERROR'', 25), (''DIVERROR'', 26), (''MODERROR'', 27), (''$STRUCT$'', 28)]"

definition SPLCTokenList :: "(string \<times> nat) list" where
  "SPLCTokenList = [(''$SizePLCMEM$'', 0), (''$CRCSum$'', 24), (''BYTES'', 1), (''MARKERS'', 4), (''INPUTS'', 5),
     (''OUTPUTS'', 6), (''TIMERS'', 8), (''$OffsetB$'', 10), (''$OffsetM$'', 13), (''$OffsetI$'', 14),
     (''$OffsetO$'', 15), (''$OffsetC$'', 16), (''$OffsetT$'', 17), (''STOPLCMCOUNT'', 33), (''STOPLCDCOUNT'', 34),
     (''SFROMPLCMCOUNT'', 35), (''SFROMPLCDCOUNT'', 36)]"

text \<open>Where \<open>apply_info\<close> stores the value of selector \<open>sel\<close>.\<close>

definition info_table :: "(nat \<times> nat) list" where
  "info_table = [(0, 0), (1, 0xc), (2, 0xd), (3, 0xe), (4, 0xf), (5, 0x10), (6, 0x11), (7, 0x12), (8, 0x13),
     (9, 0x14), (10, 3), (11, 4), (12, 5), (13, 6), (14, 7), (15, 8), (16, 9), (17, 0xa), (18, 0xb), (19, 0x15),
     (20, 0x16), (21, 0x17), (22, 0x18), (23, 0x19), (24, 2), (25, 0x1b), (26, 0x1a), (27, 0x1c), (28, 0x1d)]"

definition info_ix :: "nat \<Rightarrow> nat option" where "info_ix = map_of info_table"

definition apply_info :: "nat \<Rightarrow> u32 \<Rightarrow> u32 list \<Rightarrow> u32 list" where
  "apply_info sel v p = (case info_ix sel of None \<Rightarrow> p | Some i \<Rightarrow> p[i := v])"

definition splc_ix :: "nat \<Rightarrow> nat option" where
  "splc_ix sel = map_of [(0, 0), (1, 0xc), (4, 0xd), (5, 0xe), (6, 0xf), (8, 0x10), (10, 3), (13, 4), (14, 5), (15, 6),
     (17, 7), (24, 2), (33, 0x11), (34, 0x12), (35, 0x13), (36, 0x14)] sel"

definition apply_splc :: "nat \<Rightarrow> u32 \<Rightarrow> u32 list \<Rightarrow> u32 list" where
  "apply_splc sel v p =
     (case splc_ix sel of None \<Rightarrow> p | Some i \<Rightarrow> p[i := (if sel = 1 then drop_bit 2 v else v)])"

text \<open>The entries, \<open>n\<close> of them: sixteen characters of name, a zero word, a value.\<close>

fun token_loop ::
    "(string \<times> nat) list \<Rightarrow> (nat \<Rightarrow> u32 \<Rightarrow> u32 list \<Rightarrow> u32 list) \<Rightarrow> nat \<Rightarrow> u32 list \<Rightarrow> plc_handle
      \<Rightarrow> int \<times> u32 list \<times> plc_handle" where
  "token_loop toks app 0 p h = (0, p, h)"
| "token_loop toks app (Suc n) p h =
     (case plc_read 0x10 h of
        (None, h1) \<Rightarrow> (-3, p, h1)
      | (Some nm, h1) \<Rightarrow>
          (case getword h1 of
             (None, h2) \<Rightarrow> (-3, p, h2)
           | (Some z, h2) \<Rightarrow>
               if z \<noteq> 0 then (-3, p, h2)
               else (case getlong h2 of
                       (None, h3) \<Rightarrow> (-3, p, h3)
                     | (Some v, h3) \<Rightarrow>
                         token_loop toks app n
                           (case map_of toks (cstr_of nm) of None \<Rightarrow> p | Some sel \<Rightarrow> app sel v p) h3)))"

text \<open>\<open>for(pos = 0; pos < tbl_len; pos += 0x16)\<close>.\<close>

definition token_count :: "u32 \<Rightarrow> nat" where
  "token_count len = (nat (sint len) + 0x15) div 0x16"

definition parse_tokens ::
    "(string \<times> nat) list \<Rightarrow> (nat \<Rightarrow> u32 \<Rightarrow> u32 list \<Rightarrow> u32 list) \<Rightarrow> u32 list \<Rightarrow> plc_handle
      \<Rightarrow> int \<times> u32 list \<times> plc_handle" where
  "parse_tokens toks app p h =
     (case ReadBinCodeInfo h of
        (rc, h1) \<Rightarrow>
          if rc \<noteq> 0 then (rc, p, h1)
          else
            let p1 = p[1 := h_size h1] in
            case plc_seek 0x48 h1 of
              None \<Rightarrow> (-3, p1, h1)
            | Some h2 \<Rightarrow>
                (case getlong h2 of
                   (None, h3) \<Rightarrow> (-3, p1, h3)
                 | (Some off, h3) \<Rightarrow>
                     (case getlong h3 of
                        (None, h4) \<Rightarrow> (-3, p1, h4)
                      | (Some len, h4) \<Rightarrow>
                          (case plc_seek (uint off) h4 of
                             None \<Rightarrow> (-3, p1, h4)
                           | Some h5 \<Rightarrow> token_loop toks app (token_count len) p1 h5))))"

definition PLCBin_ReadInfo :: "plc_handle \<Rightarrow> int \<times> u32 list \<times> plc_handle" where
  "PLCBin_ReadInfo h = parse_tokens TokenList apply_info (replicate 30 0) h"

definition PLCBin_ReadSPLCInfo :: "plc_handle \<Rightarrow> int \<times> u32 list \<times> plc_handle" where
  "PLCBin_ReadSPLCInfo h =
     (case parse_tokens SPLCTokenList apply_splc (replicate 21 0) h of
        (rc, p, h1) \<Rightarrow>
          if rc \<noteq> 0 then (rc, p, h1)
          else
            let u = p ! 3 + p ! 0xc * 4 - p ! 0x14 * 4;
                p1 = p[0xb := u, 9 := u - p ! 0x12 * 4];
                w = p1 ! 0xd + p1 ! 4 - p1 ! 0x13
            in (0, p1[10 := w, 8 := w - p1 ! 0x11], h1))"

end
