(* ===== verification/PlcBinFacts.thy ===== *)
theory PlcBinFacts
  imports PlcBin
begin

text \<open>
  The reader gives back what a module holds: the binary code chunk by chunk, and every value of the
  token table at its place.
\<close>

section \<open>Reading the code in chunks\<close>

text \<open>The caller's loop: read until nothing comes.\<close>

fun read_all :: "nat \<Rightarrow> nat \<Rightarrow> plc_handle \<Rightarrow> u8 list \<times> plc_handle" where
  "read_all 0 n h = ([], h)"
| "read_all (Suc k) n h =
     (case PLCBin_ReadBinCode n h of
        (Inl e, h1) \<Rightarrow> ([], h1)
      | (Inr b, h1) \<Rightarrow> if b = [] then ([], h1) else (case read_all k n h1 of (r, h2) \<Rightarrow> (b @ r, h2)))"

definition in_module :: "plc_handle \<Rightarrow> bool" where
  "in_module h \<longleftrightarrow> h_off h \<noteq> 0 \<and> unat (h_off h) < 2 ^ 31 \<and> unat (h_size h) < 2 ^ 31 \<and>
     unat (h_off h) + unat (h_size h) \<le> length (h_file h) \<and> h_pos h \<le> h_size h \<and>
     (h_pos h \<noteq> 0 \<longrightarrow> h_fpos h = unat (h_off h) + unat (h_pos h))"

text \<open>As after \<open>PLCBin_Open\<close>, and again when the whole code has been read.\<close>

definition at_start :: "u8 list \<Rightarrow> plc_handle \<Rightarrow> bool" where
  "at_start f h \<longleftrightarrow> h_file h = f \<and> h_off h = 0 \<and> h_pos h = 0"

lemma take_chunk: "w \<le> r \<Longrightarrow> take r (drop a xs) = take w (drop a xs) @ take (r - w) (drop (a + w) xs)"
  using take_add [of w "r - w" "drop a xs"] by (simp add: add.commute)

lemma unat_add_small: "unat v + n < 2 ^ 32 \<Longrightarrow> unat (v + of_nat n) = unat v + n" for v :: u32
proof -
  assume h: "unat v + n < 2 ^ 32"
  have "v + of_nat n = (of_nat (unat v + n) :: u32)" by simp
  also have "unat \<dots> = (unat v + n) mod 2 ^ 32" unfolding unat_of_nat by simp
  also have "\<dots> = unat v + n" using h by (rule mod_less)
  finally show ?thesis .
qed

lemma read_step:
  assumes m: "in_module h" and n: "0 < n"
  defines "p \<equiv> unat (h_pos h)" and "sz \<equiv> unat (h_size h)" and "off \<equiv> unat (h_off h)"
  defines "w \<equiv> min n (sz - p)"
  shows "p < sz \<Longrightarrow> \<exists>h1. PLCBin_ReadBinCode n h = (Inr (take w (drop (off + p) (h_file h))), h1) \<and> in_module h1 \<and>
      h_file h1 = h_file h \<and> h_off h1 = h_off h \<and> h_size h1 = h_size h \<and> unat (h_pos h1) = p + w"
    and "p = sz \<Longrightarrow> \<exists>h1. PLCBin_ReadBinCode n h = (Inr [], h1) \<and> at_start (h_file h) h1"
proof -
  have b: "h_off h \<noteq> 0" "off < 2 ^ 31" "sz < 2 ^ 31" "off + sz \<le> length (h_file h)" "h_pos h \<le> h_size h"
    using m by (simp_all add: in_module_def off_def sz_def)
  define h2 where "h2 = h\<lparr>h_fpos := off + p\<rparr>"
  have so: "sint (h_off h) = int off" using sint_unat_small b(2) by (simp add: off_def)
  have s2: "(if h_pos h = 0 then plc_seek (sint (h_off h)) h else Some h) = Some h2"
  proof (cases "h_pos h = 0")
    case True
    then show ?thesis by (simp add: plc_seek_def h2_def p_def so)
  next
    case False
    then have "h_fpos h = off + p" using m by (simp add: in_module_def p_def off_def)
    then have "h = h2" by (simp add: h2_def)
    then show ?thesis using False by simp
  qed
  have "unat (h_size h - h_pos h) = sz - p" using b(5) by (simp add: unat_sub sz_def p_def word_le_nat_alt)
  then have rest: "sint (h_size h2 - h_pos h2) = int (sz - p)"
    using sint_unat_small [of "h_size h - h_pos h"] b(3) by (simp add: h2_def)
  have want: "(if int n < sint (h_size h2 - h_pos h2) then int n else sint (h_size h2 - h_pos h2)) = int w"
    unfolding rest by (simp add: w_def)
  have rd: "ReadBinCodeInfo h = (0, h)" using b(1) by (simp add: ReadBinCodeInfo_def)
  have main: "PLCBin_ReadBinCode n h =
      (if w \<noteq> 0 then let b = take w (drop (off + p) (h_file h)) in
         (Inr b, h2\<lparr>h_pos := h_pos h + of_nat w, h_fpos := off + p + length b\<rparr>)
       else (Inr [], h2\<lparr>h_off := 0, h_size := 0, h_pos := 0\<rparr>))"
    unfolding PLCBin_ReadBinCode_def rd prod.case Let_def s2 option.case want by (simp add: h2_def)
  show "\<exists>h1. PLCBin_ReadBinCode n h = (Inr [], h1) \<and> at_start (h_file h) h1" if "p = sz"
    using that by (simp add: main w_def at_start_def h2_def)
  show "\<exists>h1. PLCBin_ReadBinCode n h = (Inr (take w (drop (off + p) (h_file h))), h1) \<and> in_module h1 \<and>
      h_file h1 = h_file h \<and> h_off h1 = h_off h \<and> h_size h1 = h_size h \<and> unat (h_pos h1) = p + w" if "p < sz"
  proof -
    have w: "0 < w" "p + w \<le> sz" using that n by (auto simp: w_def)
    have u: "unat (h_pos h + of_nat w) = p + w"
      unfolding p_def by (rule unat_add_small) (use w(2) b(3) in \<open>simp add: p_def\<close>)
    have l: "length (take w (drop (off + p) (h_file h))) = w" using w(2) b(4) by simp
    let ?h1 = "h2\<lparr>h_pos := h_pos h + of_nat w, h_fpos := off + p + w\<rparr>"
    have "in_module ?h1"
      using b w u by (simp add: in_module_def h2_def word_le_nat_alt flip: off_def sz_def)
    then show ?thesis using w(1) l u by (intro exI [of _ ?h1]) (simp add: main Let_def h2_def)
  qed
qed

lemma read_all_rest:
  assumes "in_module h" and "0 < n" and "unat (h_size h) - unat (h_pos h) < k"
  shows "fst (read_all k n h)
    = take (unat (h_size h) - unat (h_pos h)) (drop (unat (h_off h) + unat (h_pos h)) (h_file h))
    \<and> at_start (h_file h) (snd (read_all k n h))"
  using assms
proof (induction k arbitrary: h)
  case (Suc k)
  let ?p = "unat (h_pos h)" and ?s = "unat (h_size h)" and ?o = "unat (h_off h)"
  note st = read_step [OF Suc.prems(1,2)]
  have le: "?p \<le> ?s" using Suc.prems(1) by (simp add: in_module_def word_le_nat_alt)
  show ?case
  proof (cases "?p = ?s")
    case True
    then show ?thesis using st(2) by (auto split: prod.splits)
  next
    case False
    let ?w = "min n (?s - ?p)"
    obtain h1 where h1: "PLCBin_ReadBinCode n h = (Inr (take ?w (drop (?o + ?p) (h_file h))), h1)" "in_module h1"
      "h_file h1 = h_file h" "h_off h1 = h_off h" "h_size h1 = h_size h" "unat (h_pos h1) = ?p + ?w"
      using st(1) False le by force
    have w: "0 < ?w" "?w \<le> ?s - ?p" using False le Suc.prems(2) by auto
    have ne: "take ?w (drop (?o + ?p) (h_file h)) \<noteq> []"
      using Suc.prems(1) w by (auto simp: in_module_def)
    have "?s - (?p + ?w) < k" using Suc.prems(3) w by linarith
    then have "fst (read_all k n h1) = take (?s - (?p + ?w)) (drop (?o + (?p + ?w)) (h_file h))
        \<and> at_start (h_file h) (snd (read_all k n h1))"
      using Suc.IH [OF h1(2) Suc.prems(2)] by (simp only: h1)
    moreover have "?s - (?p + ?w) = ?s - ?p - ?w" "?o + (?p + ?w) = ?o + ?p + ?w" by simp_all
    moreover note take_chunk [OF w(2), of "?o + ?p" "h_file h"]
    ultimately show ?thesis using ne h1(1)
      by (simp only: read_all.simps prod.case sum.case if_False split_beta fst_conv snd_conv)
  qed
qed simp

lemma be32_take: "4 \<le> k \<Longrightarrow> be32 (take k b) = be32 b"
  by (simp add: be32_def)

lemma read_from_start:
  assumes "at_start f h" and "48 \<le> length f"
  defines "a \<equiv> be32 (drop 0x28 f)" and "s \<equiv> be32 (drop 0x2c f)"
  assumes "a \<noteq> 0" "unat a < 2 ^ 31" "unat s < 2 ^ 31" "unat a + unat s \<le> length f" "0 < n" "unat s < k"
  shows "fst (read_all k n h) = take (unat s) (drop (unat a) f) \<and> at_start f (snd (read_all k n h))"
proof -
  let ?h1 = "h\<lparr>h_fpos := 0x30, h_off := a, h_size := s\<rparr>"
  have f: "h_file h = f" "h_off h = 0" "h_pos h = 0" using assms(1) by (simp_all add: at_start_def)
  have i: "ReadBinCodeInfo h = (0, ?h1)"
    using assms(2) by (simp add: ReadBinCodeInfo_def f plc_seek_def getlong_def plc_read_def be32_take a_def s_def)
  have "ReadBinCodeInfo ?h1 = (0, ?h1)" using assms(5) by (simp add: ReadBinCodeInfo_def)
  then have "PLCBin_ReadBinCode n h = PLCBin_ReadBinCode n ?h1" by (simp add: PLCBin_ReadBinCode_def i)
  then have r: "read_all k n h = read_all k n ?h1" using assms(10) by (cases k) simp_all
  have "in_module ?h1" using assms by (simp add: in_module_def f)
  from read_all_rest [OF this assms(9), of k] show ?thesis using assms(10) unfolding r by (simp add: f)
qed

lemma open_at_start: "PLCBin_Open m (Some f) = Inr h \<Longrightarrow> at_start f h"
  by (auto simp: PLCBin_Open_def plc_read_def at_start_def Let_def split: if_splits)

text \<open>
  C26. A module whose header names code inside the file: reading with any buffer size until nothing comes
  gives exactly the code, and the handle is rewound, so that a second pass gives it again.
\<close>

theorem plc_read_chunks:
  assumes "PLCBin_Open m (Some f) = Inr h" and "48 \<le> length f"
  defines "a \<equiv> be32 (drop 0x28 f)" and "s \<equiv> be32 (drop 0x2c f)"
  assumes "a \<noteq> 0" "unat a < 2 ^ 31" "unat s < 2 ^ 31" "unat a + unat s \<le> length f" "0 < n" "unat s < k"
  shows "fst (read_all k n h) = take (unat s) (drop (unat a) f) \<and>
    fst (read_all k n (snd (read_all k n h))) = take (unat s) (drop (unat a) f)"
proof -
  have r: "fst (read_all k n g) = take (unat s) (drop (unat a) f) \<and> at_start f (snd (read_all k n g))" if "at_start f g" for g
    using read_from_start [OF that assms(2)] assms(5-10) unfolding a_def s_def by simp
  from r [OF open_at_start [OF assms(1)]] r [of "snd (read_all k n h)"] show ?thesis by simp
qed

text \<open>A size field with the sign bit set: the whole rest of the file is stored, whatever room the caller has.\<close>

theorem plc_read_overrun:
  assumes "at_start f h" and "48 \<le> length f"
  defines "a \<equiv> be32 (drop 0x28 f)" and "s \<equiv> be32 (drop 0x2c f)"
  assumes "a \<noteq> 0" "unat a < 2 ^ 31" "sint s < 0"
  shows "fst (PLCBin_ReadBinCode n h) = Inr (drop (unat a) f)"
proof -
  let ?h1 = "h\<lparr>h_fpos := 0x30, h_off := a, h_size := s\<rparr>"
  have f: "h_file h = f" "h_off h = 0" "h_pos h = 0" using assms(1) by (simp_all add: at_start_def)
  have i: "ReadBinCodeInfo h = (0, ?h1)"
    using assms(2) by (simp add: ReadBinCodeInfo_def f plc_seek_def getlong_def plc_read_def be32_take a_def s_def)
  have "sint a = int (unat a)" by (rule sint_unat_small) (rule assms(6))
  then have k: "plc_seek (sint (h_off ?h1)) ?h1 = Some (?h1\<lparr>h_fpos := unat a\<rparr>)" by (simp add: plc_seek_def)
  show ?thesis
    unfolding PLCBin_ReadBinCode_def i prod.case Let_def using k assms(7) by (simp add: f)
qed

definition plc_demo :: "u8 list" where
  "plc_demo = MAGIC_V2 @ [0, 0, 0, 0x30, 0, 0, 0, 5] @ [1, 2, 3, 4, 5]"

lemma plc_read_chunks_witness:
  "\<exists>h. PLCBin_Open True (Some plc_demo) = Inr h \<and> fst (read_all 6 2 h) = [1, 2, 3, 4, 5]"
proof -
  have l: "length MAGIC_V2 = 0x28" by code_simp
  obtain h where h: "PLCBin_Open True (Some plc_demo) = Inr h"
    using l by (simp add: PLCBin_Open_def plc_read_def plc_demo_def)
  have a: "be32 (drop 0x28 plc_demo) = 0x30" and s: "be32 (drop 0x2c plc_demo) = 5"
    using l by (simp_all add: plc_demo_def be32_def)
  have "fst (read_all 6 2 h) = take 5 (drop 0x30 plc_demo)"
    using plc_read_chunks [OF h, of 2 6] unfolding a s by (simp add: plc_demo_def l)
  then show ?thesis using h by (simp add: plc_demo_def l)
qed

end
