(* ===== verification/PlcInfo.thy ===== *)
theory PlcInfo
  imports PlcBinFacts
begin

text \<open>
  The token table: a writer for it, and the lemmas that the reader of \<open>PlcBin\<close> takes it apart again.
\<close>

section \<open>A writer\<close>

definition be_bytes :: "u32 \<Rightarrow> u8 list" where
  "be_bytes v = rev (le32 v)"

definition plc_entry :: "string \<times> u32 \<Rightarrow> u8 list" where
  "plc_entry e = bytes_of (fst e) @ replicate (16 - length (fst e)) 0 @ [0, 0] @ be_bytes (snd e)"

definition plc_module :: "(string \<times> u32) list \<Rightarrow> u8 list \<Rightarrow> u8 list" where
  "plc_module es code =
     MAGIC_V2 @ be_bytes (of_nat (0x50 + 22 * length es)) @ be_bytes (of_nat (length code)) @ replicate 24 0
       @ be_bytes 0x50 @ be_bytes (of_nat (22 * length es)) @ concat (map plc_entry es) @ code"

definition info_slot :: "string \<Rightarrow> nat" where
  "info_slot nm = the (info_ix (the (map_of TokenList nm)))"

section \<open>Reading what was written\<close>

lemma be32_be_bytes [simp]: "be32 (be_bytes v @ xs) = v" "be32 (be_bytes v) = v"
  using word32_bytes [of v] by (simp_all add: be32_def be_bytes_def le32_def or.commute or.left_commute or.assoc)

lemma length_be_bytes [simp]: "length (be_bytes v) = 4"
  by (simp add: be_bytes_def)

lemma plc_read_here:
  assumes "drop (h_fpos h) (h_file h) = b @ r" and "length b = n"
  shows "plc_read n h = (Some b, h\<lparr>h_fpos := h_fpos h + n\<rparr>)"
    and "drop (h_fpos h + n) (h_file h) = r"
proof -
  show "plc_read n h = (Some b, h\<lparr>h_fpos := h_fpos h + n\<rparr>)" using assms by (simp add: plc_read_def Let_def)
  have "drop (h_fpos h + n) (h_file h) = drop n (drop (h_fpos h) (h_file h))" by (simp add: add.commute)
  then show "drop (h_fpos h + n) (h_file h) = r" using assms by simp
qed

lemma getlong_here:
  assumes "drop (h_fpos h) (h_file h) = be_bytes v @ r"
  shows "getlong h = (Some v, h\<lparr>h_fpos := h_fpos h + 4\<rparr>)" and "drop (h_fpos h + 4) (h_file h) = r"
  using plc_read_here [OF assms, of 4] by (simp_all add: getlong_def)

lemma getword_here:
  assumes "drop (h_fpos h) (h_file h) = [0, 0] @ r"
  shows "getword h = (Some 0, h\<lparr>h_fpos := h_fpos h + 2\<rparr>)" and "drop (h_fpos h + 2) (h_file h) = r"
  using plc_read_here [OF assms, of 2] by (simp_all add: getword_def be16_def)

definition token_name :: "string \<Rightarrow> bool" where
  "token_name nm \<longleftrightarrow> length nm \<le> 16 \<and> CHR 0x00 \<notin> set nm"

lemma cstr_of_padded: "token_name nm \<Longrightarrow> cstr_of (bytes_of nm @ replicate (16 - length nm) 0) = nm"
proof (cases "16 - length nm")
  case 0
  assume "token_name nm"
  then have "cstr_of (bytes_of nm @ 0 # []) = nm" by (intro cstr_of_bytes_of) (simp add: token_name_def)
  then show ?thesis using 0 by (simp add: cstr_of_def takeWhile_tail)
next
  case (Suc k)
  assume "token_name nm"
  then show ?thesis using Suc cstr_of_bytes_of [of nm "replicate k 0"] by (simp add: token_name_def)
qed

text \<open>One entry of the loop, then the table.\<close>

definition put_token ::
    "(string \<times> nat) list \<Rightarrow> (nat \<Rightarrow> u32 \<Rightarrow> u32 list \<Rightarrow> u32 list) \<Rightarrow> string \<times> u32 \<Rightarrow> u32 list \<Rightarrow> u32 list" where
  "put_token toks app e p = (case map_of toks (fst e) of None \<Rightarrow> p | Some sel \<Rightarrow> app sel (snd e) p)"

lemma token_step:
  assumes "drop (h_fpos h) (h_file h) = plc_entry e @ r" and "token_name (fst e)"
  shows "token_loop toks app (Suc n) p h = token_loop toks app n (put_token toks app e p) (h\<lparr>h_fpos := h_fpos h + 22\<rparr>)"
    and "drop (h_fpos h + 22) (h_file h) = r"
proof -
  let ?nm = "bytes_of (fst e) @ replicate (16 - length (fst e)) 0"
  have l: "length ?nm = 0x10" using assms(2) by (simp add: token_name_def)
  have "drop (h_fpos h) (h_file h) = ?nm @ [0, 0] @ be_bytes (snd e) @ r" using assms(1) by (simp add: plc_entry_def)
  note r1 = plc_read_here [OF this l]
  let ?h1 = "h\<lparr>h_fpos := h_fpos h + 0x10\<rparr>"
  have "drop (h_fpos ?h1) (h_file ?h1) = [0, 0] @ be_bytes (snd e) @ r" using r1(2) by simp
  note r2 = getword_here [OF this]
  let ?h2 = "h\<lparr>h_fpos := h_fpos h + 0x12\<rparr>"
  have "drop (h_fpos ?h2) (h_file ?h2) = be_bytes (snd e) @ r" using r2(2) by (simp add: ac_simps)
  note r3 = getlong_here [OF this]
  show "drop (h_fpos h + 22) (h_file h) = r" using r3(2) by (simp add: ac_simps)
  show "token_loop toks app (Suc n) p h = token_loop toks app n (put_token toks app e p) (h\<lparr>h_fpos := h_fpos h + 22\<rparr>)"
    using r1(1) r2(1) r3(1) cstr_of_padded [OF assms(2)] by (simp add: put_token_def add.commute)
qed

lemma token_loop_fold:
  assumes "drop (h_fpos h) (h_file h) = concat (map plc_entry es) @ r" and "\<forall>e\<in>set es. token_name (fst e)"
  shows "token_loop toks app (length es) p h
    = (0, fold (put_token toks app) es p, h\<lparr>h_fpos := h_fpos h + 22 * length es\<rparr>)"
  using assms
proof (induction es arbitrary: h p)
  case (Cons e es)
  have "drop (h_fpos h) (h_file h) = plc_entry e @ concat (map plc_entry es) @ r" and "token_name (fst e)"
    using Cons.prems by simp_all
  note st = token_step [OF this]
  let ?h1 = "h\<lparr>h_fpos := h_fpos h + 22\<rparr>"
  have "drop (h_fpos ?h1) (h_file ?h1) = concat (map plc_entry es) @ r" using st(2) by simp
  from Cons.IH [OF this] Cons.prems(2) show ?case by (simp add: st(1) del: token_loop.simps)
qed simp

section \<open>The values at their places\<close>

lemma fold_slots:
  fixes s :: "'k \<Rightarrow> nat"
  assumes "distinct (map (s \<circ> fst) es)" and "\<forall>e\<in>set es. s (fst e) < length p"
  shows "\<forall>e\<in>set es. fold (\<lambda>e p. p[s (fst e) := snd e]) es p ! s (fst e) = snd e"
    and "\<forall>j. j \<notin> s ` fst ` set es \<longrightarrow> fold (\<lambda>e p. p[s (fst e) := snd e]) es p ! j = p ! j"
proof -
  have keep: "fold (\<lambda>e p. p[s (fst e) := snd e]) xs q ! j = q ! j" if "j \<notin> s ` fst ` set xs" for xs :: "('k \<times> 'a) list" and q j
    using that by (induction xs arbitrary: q) auto
  show "\<forall>j. j \<notin> s ` fst ` set es \<longrightarrow> fold (\<lambda>e p. p[s (fst e) := snd e]) es p ! j = p ! j"
    using keep by blast
  show "\<forall>e\<in>set es. fold (\<lambda>e p. p[s (fst e) := snd e]) es p ! s (fst e) = snd e"
    using assms
  proof (induction es arbitrary: p)
    case (Cons x es)
    have "s (fst x) \<notin> s ` fst ` set es" using Cons.prems(1) by (auto simp: image_iff)
    then have "fold (\<lambda>e p. p[s (fst e) := snd e]) es (p[s (fst x) := snd x]) ! s (fst x) = snd x"
      using Cons.prems(2) by (simp add: keep)
    then show ?case using Cons.IH [of "p[s (fst x) := snd x]"] Cons.prems by simp
  qed simp
qed

lemma slots_distinct: "distinct (map (\<lambda>t. info_slot (fst t)) TokenList)"
  by code_simp

lemma slots_small: "\<forall>t\<in>set TokenList. info_slot (fst t) < 30 \<and> info_slot (fst t) \<noteq> 1
    \<and> map_of TokenList (fst t) = Some (snd t) \<and> info_ix (snd t) = Some (info_slot (fst t)) \<and> token_name (fst t)"
  by code_simp

definition known_tokens :: "(string \<times> u32) list \<Rightarrow> bool" where
  "known_tokens es \<longleftrightarrow> distinct (map fst es) \<and> set (map fst es) \<subseteq> set (map fst TokenList)"

lemma known_tokenD:
  assumes "known_tokens es" "e \<in> set es"
  shows "info_slot (fst e) < 30" "info_slot (fst e) \<noteq> 1" "token_name (fst e)"
    and "put_token TokenList apply_info e = (\<lambda>p. p[info_slot (fst e) := snd e])"
proof -
  have "fst e \<in> set (map fst TokenList)" using assms by (force simp: known_tokens_def)
  then obtain t where t: "t \<in> set TokenList" "fst t = fst e" by auto
  with slots_small show "info_slot (fst e) < 30" "info_slot (fst e) \<noteq> 1" "token_name (fst e)" by metis+
  have "map_of TokenList (fst e) = Some (snd t)" "info_ix (snd t) = Some (info_slot (fst e))"
    using slots_small t by metis+
  then show "put_token TokenList apply_info e = (\<lambda>p. p[info_slot (fst e) := snd e])"
    by (simp add: put_token_def apply_info_def fun_eq_iff)
qed

lemma known_slots_distinct: "known_tokens es \<Longrightarrow> distinct (map (info_slot \<circ> fst) es)"
proof -
  assume k: "known_tokens es"
  have "inj_on info_slot (set (map fst TokenList))"
    using slots_distinct by (simp add: distinct_map inj_on_def) (metis (no_types, lifting))
  then have "inj_on info_slot (set (map fst es))" using k by (rule_tac inj_on_subset) (auto simp: known_tokens_def)
  then have "distinct (map info_slot (map fst es))" using k by (simp only: distinct_map known_tokens_def simp_thms)
  then show ?thesis by simp
qed

lemma known_length: "known_tokens es \<Longrightarrow> length es \<le> 29"
proof -
  assume k: "known_tokens es"
  then have "card (set (map fst es)) \<le> card (set (map fst TokenList))"
    unfolding known_tokens_def by (intro card_mono) simp_all
  moreover have "card (set (map fst es)) = length es"
    using k distinct_card [of "map fst es"] by (simp add: known_tokens_def)
  moreover have "card (set (map fst TokenList)) \<le> 29"
    using card_length [of "map fst TokenList"] by (simp add: TokenList_def)
  ultimately show ?thesis by linarith
qed

lemma token_count_exact: "n \<le> 29 \<Longrightarrow> token_count (of_nat (22 * n)) = n"
proof -
  assume "n \<le> 29"
  then have "unat (of_nat (22 * n) :: u32) = 22 * n" unfolding unat_of_nat by (intro mod_less) simp
  then have "sint (of_nat (22 * n) :: u32) = int (22 * n)"
    using sint_unat_small [of "of_nat (22 * n)"] \<open>n \<le> 29\<close> by simp
  then show ?thesis unfolding token_count_def by simp
qed

lemma length_magic [simp]: "length MAGIC_V2 = 0x28"
  by code_simp

lemma module_open:
  "PLCBin_Open True (Some (plc_module es code)) = Inr \<lparr>h_file = plc_module es code, h_fpos = 0x28, h_ver = 200,
     h_off = 0, h_size = 0, h_pos = 0\<rparr>"
  using plc_read_here [of "\<lparr>h_file = plc_module es code, h_fpos = 0, h_ver = 0, h_off = 0, h_size = 0, h_pos = 0\<rparr>" MAGIC_V2 _ "0x28"]
  by (simp add: PLCBin_Open_def plc_module_def)

lemma module_read:
  fixes code :: "u8 list"
  assumes "known_tokens es"
  defines "f \<equiv> plc_module es code"
  defines "h \<equiv> \<lparr>h_file = f, h_fpos = 0x28, h_ver = 200, h_off = 0, h_size = 0, h_pos = 0\<rparr>"
  shows "\<exists>h1. PLCBin_ReadInfo h
    = (0, fold (put_token TokenList apply_info) es ((replicate 30 0)[1 := of_nat (length code)]), h1)"
proof -
  let ?a = "of_nat (0x50 + 22 * length es) :: u32" and ?s = "of_nat (length code) :: u32"
  let ?tail = "be_bytes 0x50 @ be_bytes (of_nat (22 * length es)) @ concat (map plc_entry es) @ code"
  let ?h1 = "h\<lparr>h_fpos := 0x30, h_off := ?a, h_size := ?s\<rparr>"
  have "drop (h_fpos h) (h_file h) = be_bytes ?a @ be_bytes ?s @ replicate 24 0 @ ?tail"
    by (simp add: h_def f_def plc_module_def)
  note g1 = getlong_here [OF this]
  have "drop (h_fpos (h\<lparr>h_fpos := 0x2c\<rparr>)) (h_file (h\<lparr>h_fpos := 0x2c\<rparr>)) = be_bytes ?s @ replicate 24 0 @ ?tail"
    using g1(2) by (simp add: h_def)
  note g2 = getlong_here [OF this]
  have i: "ReadBinCodeInfo h = (0, ?h1)"
    using g1(1) g2(1) by (simp add: ReadBinCodeInfo_def plc_seek_def) (simp add: h_def)
  have d: "drop 0x48 (h_file ?h1) = ?tail"
    by (simp add: h_def f_def plc_module_def)
  then have "drop (h_fpos (?h1\<lparr>h_fpos := 0x48\<rparr>)) (h_file (?h1\<lparr>h_fpos := 0x48\<rparr>)) = ?tail" by simp
  note g3 = getlong_here [OF this]
  have "drop (h_fpos (?h1\<lparr>h_fpos := 0x4c\<rparr>)) (h_file (?h1\<lparr>h_fpos := 0x4c\<rparr>))
      = be_bytes (of_nat (22 * length es)) @ concat (map plc_entry es) @ code"
    using g3(2) by simp
  note g4 = getlong_here [OF this]
  have "drop (h_fpos (?h1\<lparr>h_fpos := 0x50\<rparr>)) (h_file (?h1\<lparr>h_fpos := 0x50\<rparr>)) = concat (map plc_entry es) @ code"
    using g4(2) by simp
  note loop = token_loop_fold [OF this, of TokenList apply_info "(replicate 30 0)[1 := ?s]"]
  have "parse_tokens TokenList apply_info (replicate 30 0) h
      = token_loop TokenList apply_info (length es) ((replicate 30 0)[1 := ?s]) (?h1\<lparr>h_fpos := 0x50\<rparr>)"
    unfolding parse_tokens_def i prod.case Let_def using g3(1) g4(1) token_count_exact [OF known_length [OF assms(1)]]
    by (simp add: plc_seek_def)
  then show ?thesis using loop known_tokenD(3) [OF assms(1)] by (simp add: PLCBin_ReadInfo_def)
qed

text \<open>
  A module written with any selection of the known tokens reads back: \<open>PLCBin_ReadInfo\<close> succeeds, every
  written value stands at its token's place, the size of the code at place 1, and every other place is zero.
\<close>

theorem plc_info_roundtrip:
  assumes "known_tokens es"
  shows "\<exists>h p h1. PLCBin_Open True (Some (plc_module es code)) = Inr h \<and> PLCBin_ReadInfo h = (0, p, h1) \<and>
    (\<forall>e\<in>set es. p ! info_slot (fst e) = snd e) \<and> p ! 1 = of_nat (length code) \<and>
    (\<forall>j<30. j \<noteq> 1 \<and> j \<notin> info_slot ` fst ` set es \<longrightarrow> p ! j = 0)"
proof -
  let ?zero = "(replicate 30 0)[1 := of_nat (length code)] :: u32 list"
  let ?p = "fold (put_token TokenList apply_info) es ?zero"
  obtain h1 where r: "PLCBin_ReadInfo \<lparr>h_file = plc_module es code, h_fpos = 0x28, h_ver = 200, h_off = 0, h_size = 0, h_pos = 0\<rparr>
      = (0, ?p, h1)" using module_read [OF assms] by blast
  have "?p = fold (\<lambda>e p. p[info_slot (fst e) := snd e]) es ?zero"
    by (rule List.fold_cong [OF refl refl]) (rule known_tokenD(4) [OF assms])
  note p = fold_slots [OF known_slots_distinct [OF assms], of ?zero, folded this]
  have "\<forall>e\<in>set es. ?p ! info_slot (fst e) = snd e" by (rule p(1)) (simp add: known_tokenD(1) [OF assms])
  moreover have "1 \<notin> info_slot ` fst ` set es" using known_tokenD(2) [OF assms] by force
  then have "?p ! 1 = of_nat (length code)" using p(2) by (simp add: known_tokenD(1) [OF assms])
  moreover have "?p ! j = 0" if "j < 30" "j \<noteq> 1" "j \<notin> info_slot ` fst ` set es" for j
    using p(2) that by (simp add: known_tokenD(1) [OF assms])
  ultimately show ?thesis unfolding module_open using r by blast
qed

lemma plc_info_roundtrip_witness:
  "\<exists>h p h1. PLCBin_Open True (Some (plc_module [(''MARKERS'', 7), (''$CRCSum$'', 9)] [1])) = Inr h \<and>
    PLCBin_ReadInfo h = (0, p, h1) \<and> p ! 0xf = 7 \<and> p ! 2 = 9 \<and> p ! 1 = 1 \<and> p ! 3 = 0"
proof -
  have k: "known_tokens [(''MARKERS'', 7), (''$CRCSum$'', 9)]" by (simp add: known_tokens_def TokenList_def)
  have s: "info_slot ''MARKERS'' = 0xf" "info_slot ''$CRCSum$'' = 2" by code_simp+
  show ?thesis using plc_info_roundtrip [OF k, of "[1]"] by (auto simp: s)
qed

text \<open>
  \<open>PLCBin_ReadInfo\<close> between two chunks moves the file position and the next chunk is read from there: after
  this module's table, which ends where the code starts, the first two bytes come a second time.
\<close>

lemma plc_info_moves_code:
  "case PLCBin_Open True (Some (plc_module [(''MARKERS'', 7)] [1, 2, 3, 4])) of
     Inl e \<Rightarrow> False
   | Inr h \<Rightarrow>
       (case PLCBin_ReadBinCode 2 h of
          (r1, h1) \<Rightarrow> r1 = Inr [1, 2] \<and> fst (PLCBin_ReadBinCode 2 h1) = Inr [3, 4] \<and>
            fst (PLCBin_ReadBinCode 2 (snd (snd (PLCBin_ReadInfo h1)))) = Inr [1, 2])"
  by code_simp

end
