(* ===== verification/EmuV1.thy ===== *)
theory EmuV1
  imports Heroscall
begin

text \<open>
  \<open>src/emulator/heroscall_emu.c\<close>: the older, single-process emulator of system call 222.  It serves
  regions, the environment and handles, and answers everything else with success.  The guest's memory
  is a function from addresses to bytes; \<open>mmap\<close> and \<open>getenv\<close> are arguments.
\<close>

section \<open>Regions\<close>

record emu_region =
  er_name :: string
  er_id :: u32
  er_addr :: u32
  er_size :: u32

record emu =
  em_regs :: "emu_region list"      \<comment> \<open>\<open>regs\<close>, as many as \<open>nreg\<close>\<close>
  em_next_rid :: u32
  em_next_handle :: u32
  em_grant_ev :: bool
  em_mem :: "u32 \<Rightarrow> u8"

definition EMU_MAXREG :: nat where "EMU_MAXREG = 64"
definition EMU_REGION_BYTES :: u32 where "EMU_REGION_BYTES = 64 * 1024 * 1024"

definition reg_find_name :: "string \<Rightarrow> emu \<Rightarrow> nat option" where
  "reg_find_name n e = find_index (\<lambda>r. er_name r = n) (em_regs e)"

definition reg_find_id :: "u32 \<Rightarrow> emu \<Rightarrow> nat option" where
  "reg_find_id i e = find_index (\<lambda>r. er_id r = i) (em_regs e)"

text \<open>Names are stored with \<open>strncpy\<close> in 20 bytes and compared in full.\<close>

definition emu_reg_ident :: "string \<Rightarrow> emu \<Rightarrow> u32 \<times> emu" where
  "emu_reg_ident name e =
     (case reg_find_name name e of
        Some k \<Rightarrow> (er_id (em_regs e ! k), e)
      | None \<Rightarrow>
          if EMU_MAXREG \<le> length (em_regs e) then (- 2, e)
          else
            (em_next_rid e,
             e\<lparr>em_regs := em_regs e @ [\<lparr>er_name = take 19 name, er_id = em_next_rid e, er_addr = 0, er_size = EMU_REGION_BYTES\<rparr>],
               em_next_rid := em_next_rid e + 1\<rparr>))"

definition emu_reg_attach :: "(u32 \<Rightarrow> u32 option) \<Rightarrow> u32 \<Rightarrow> emu \<Rightarrow> u32 \<times> emu" where
  "emu_reg_attach mm i e =
     (case reg_find_id i e of
        None \<Rightarrow> (0, e)
      | Some k \<Rightarrow>
          let r = em_regs e ! k in
          if er_addr r = 0 then
            (case mm (er_size r) of
               None \<Rightarrow> (0, e)
             | Some a \<Rightarrow> (a, e\<lparr>em_regs := (em_regs e)[k := r\<lparr>er_addr := a\<rparr>]\<rparr>))
          else (er_addr r, e))"

section \<open>Memory and environment\<close>

definition mem_put :: "u32 \<Rightarrow> u8 list \<Rightarrow> (u32 \<Rightarrow> u8) \<Rightarrow> u32 \<Rightarrow> u8" where
  "mem_put a bs m = (\<lambda>x. if unat (x - a) < length bs then bs ! unat (x - a) else m x)"

definition mem_get :: "nat \<Rightarrow> u32 \<Rightarrow> (u32 \<Rightarrow> u8) \<Rightarrow> u8 list" where
  "mem_get n a m = map (\<lambda>i. m (a + of_nat i)) [0..<n]"

definition emu_arg :: "emu \<Rightarrow> u32 \<Rightarrow> nat \<Rightarrow> u32" where
  "emu_arg e p i = get32 (mem_get 4 (p + 4 * of_nat i) (em_mem e)) 0"

definition emu_cstr :: "u32 \<Rightarrow> emu \<Rightarrow> string" where
  "emu_cstr a e = cstr_of (mem_get 4096 a (em_mem e))"

definition emu_env_get :: "(string \<Rightarrow> string option) \<Rightarrow> string \<Rightarrow> u32 \<Rightarrow> u32 \<Rightarrow> (u32 \<Rightarrow> u8) \<Rightarrow> u32 \<Rightarrow> u8" where
  "emu_env_get env name out sz m =
     (case env name of
        None \<Rightarrow> if out \<noteq> 0 \<and> sz \<noteq> 0 then mem_put out [0] m else m
      | Some v \<Rightarrow>
          if unat sz \<le> length v then (if sz \<noteq> 0 then mem_put out (bytes_of (take (unat sz - 1) v) @ [0]) m else m)
          else mem_put out (bytes_of v @ [0]) m)"

section \<open>The system call\<close>

definition emu_init :: "(string \<Rightarrow> string option) \<Rightarrow> (u32 \<Rightarrow> u8) \<Rightarrow> emu" where
  "emu_init env m = \<lparr>em_regs = [], em_next_rid = 0x4000, em_next_handle = 0x101,
     em_grant_ev = (case env ''HEROSCALL_GRANT_EVENTS'' of Some (c # cs) \<Rightarrow> c = CHR ''1'' | _ \<Rightarrow> False), em_mem = m\<rparr>"

text \<open>\<open>a\<close> is the command, \<open>p\<close> the parameter block; other system calls go to the kernel (\<open>None\<close>).\<close>

definition emu_syscall ::
    "(string \<Rightarrow> string option) \<Rightarrow> (u32 \<Rightarrow> u32 option) \<Rightarrow> u32 \<Rightarrow> u32 \<Rightarrow> u32 \<Rightarrow> emu \<Rightarrow> u32 option \<times> emu" where
  "emu_syscall env mm n a p e =
     (if n \<noteq> 222 then (None, e)
      else
        let lo = a AND 0xff; p0 = emu_arg e p 0 in
        if lo = 0x01 then (Some 0x101, e)
        else if lo = 0x22 then
          (if p \<noteq> 0 \<and> p0 \<noteq> 0 then (case emu_reg_ident (emu_cstr p0 e) e of (i, e1) \<Rightarrow> (Some i, e1)) else (Some (- 2), e))
        else if lo = 0x23 then
          (if p \<noteq> 0 then (case emu_reg_attach mm (emu_arg e p 2) e of (x, e1) \<Rightarrow> (Some x, e1)) else (Some 0, e))
        else if lo = 0x27 then
          (if p \<noteq> 0 \<and> p0 \<noteq> 0
           then (Some 0, e\<lparr>em_mem := emu_env_get env (emu_cstr p0 e) (emu_arg e p 2) (emu_arg e p 4) (em_mem e)\<rparr>)
           else (Some (- 2), e))
        else if lo = 0x11 then (Some (if em_grant_ev e \<and> p \<noteq> 0 then p0 else 0), e)
        else if lo = 0x15 \<or> lo = 0x0a \<or> lo = 0x21 then
          (Some (em_next_handle e), e\<lparr>em_next_handle := em_next_handle e + 1\<rparr>)
        else (Some 0, e))"

section \<open>Both emulators name regions alike\<close>

text \<open>The ids a sequence of identifications answers.\<close>

fun run_idents :: "(string \<Rightarrow> 's \<Rightarrow> u32 \<times> 's) \<Rightarrow> string list \<Rightarrow> 's \<Rightarrow> u32 list" where
  "run_idents f [] s = []"
| "run_idents f (n # ns) s = (case f n s of (i, s1) \<Rightarrow> i # run_idents f ns s1)"

definition regions_rel :: "emu \<Rightarrow> st \<Rightarrow> bool" where
  "regions_rel e s \<longleftrightarrow> em_next_rid e = c_next_reg (sh s) \<and>
     (\<exists>us zs. regs s = us @ zs \<and> list_all r_used us \<and> list_all (Not \<circ> r_used) zs \<and> length (us @ zs) = MAXREG \<and>
        map (\<lambda>r. (r_name r, r_id r)) us = map (\<lambda>r. (er_name r, er_id r)) (em_regs e))"

lemma find_index_append:
  "find_index P (xs @ ys) = (case find_index P xs of None \<Rightarrow> map_option (\<lambda>i. length xs + i) (find_index P ys) | Some i \<Rightarrow> Some i)"
proof (induction xs)
  case Nil
  show ?case by (cases "find_index P ys") simp_all
next
  case (Cons x xs)
  then show ?case by (cases "find_index P xs"; cases "find_index P ys") simp_all
qed

lemma regions_rel_find:
  assumes "map (\<lambda>r. (r_name r, r_id r)) us = map (\<lambda>r. (er_name r, er_id r)) es" and "list_all r_used us"
    and "list_all (Not \<circ> r_used) zs"
  shows "find_index (region_named nm) (us @ zs) = find_index (\<lambda>r. er_name r = nm) es"
proof -
  have l: "length us = length es" using arg_cong [OF assms(1), of length] by simp
  have n: "r_name (us ! i) = er_name (es ! i)" if "i < length us" for i
    using arg_cong [OF assms(1), of "\<lambda>xs. fst (xs ! i)"] that l by simp
  have "find_index (region_named nm) zs = None" using assms(3) by (auto simp: find_index_None region_named_def list_all_iff)
  moreover have "find_index (region_named nm) us = find_index (\<lambda>r. er_name r = nm) es"
    by (rule find_index_cong) (use l n assms(2) in \<open>auto simp: region_named_def list_all_length\<close>)
  ultimately show ?thesis by (simp add: find_index_append split: option.split)
qed

lemma regions_rel_ident:
  assumes rel: "regions_rel e s" and room: "length (em_regs e) < EMU_MAXREG"
  shows "fst (emu_reg_ident nm e) = fst (reg_ident nm s) \<and> regions_rel (snd (emu_reg_ident nm e)) (snd (reg_ident nm s)) \<and>
    length (em_regs (snd (emu_reg_ident nm e))) \<le> Suc (length (em_regs e))"
proof -
  obtain us zs where tab: "regs s = us @ zs" "list_all r_used us" "list_all (Not \<circ> r_used) zs" "length (us @ zs) = MAXREG"
    and eq: "map (\<lambda>r. (r_name r, r_id r)) us = map (\<lambda>r. (er_name r, er_id r)) (em_regs e)"
    and nx: "em_next_rid e = c_next_reg (sh s)" using rel by (auto simp: regions_rel_def)
  have l: "length us = length (em_regs e)" using arg_cong [OF eq, of length] by simp
  have f: "find_index (region_named nm) (regs s) = reg_find_name nm e"
    unfolding tab(1) reg_find_name_def by (rule regions_rel_find [OF eq tab(2,3)])
  show ?thesis
  proof (cases "reg_find_name nm e")
    case (Some k)
    then have k: "k < length us" using find_index_less l by (fastforce simp: reg_find_name_def)
    then have "r_id (us ! k) = er_id (em_regs e ! k)" using arg_cong [OF eq, of "\<lambda>xs. snd (xs ! k)"] l by simp
    then show ?thesis using Some f rel k by (simp add: emu_reg_ident_def reg_ident_def tab(1) nth_append)
  next
    case None
    obtain z zs' where z: "zs = z # zs'" using tab(4) l room by (cases zs) (auto simp: MAXREG_def EMU_MAXREG_def)
    have "find_index (\<lambda>r. \<not> r_used r) us = None" using tab(2) by (auto simp: find_index_None list_all_iff)
    then have free: "free_slot r_used (regs s) = Some (length us)"
      using tab(3) by (simp add: free_slot_def tab(1) z find_index_append)
    let ?i = "c_next_reg (sh s)"
    have "(us @ zs)[length us := new_region nm ?i z] = (us @ [new_region nm ?i z]) @ zs'" by (simp add: z)
    moreover have "regs s ! length us = z" by (simp add: tab(1) z)
    ultimately have h: "reg_ident nm s = (?i, s\<lparr>sh := (sh s)\<lparr>c_next_reg := ?i + 1, c_regs := (us @ [new_region nm ?i z]) @ zs'\<rparr>\<rparr>)"
      using None f free by (simp add: reg_ident_def Let_def tab(1))
    let ?r = "\<lparr>er_name = take 19 nm, er_id = ?i, er_addr = 0, er_size = EMU_REGION_BYTES\<rparr>"
    have e: "emu_reg_ident nm e = (?i, e\<lparr>em_regs := em_regs e @ [?r], em_next_rid := ?i + 1\<rparr>)"
      using None room nx by (simp add: emu_reg_ident_def)
    have "map (\<lambda>r. (r_name r, r_id r)) (us @ [new_region nm ?i z]) = map (\<lambda>r. (er_name r, er_id r)) (em_regs e @ [?r])"
      using eq by (simp add: new_region_def REGNAMELEN_def)
    moreover have "list_all r_used (us @ [new_region nm ?i z])" "list_all (Not \<circ> r_used) zs'"
      "length ((us @ [new_region nm ?i z]) @ zs') = MAXREG"
      using tab(2-4) by (simp_all add: new_region_def z)
    ultimately have "regions_rel (snd (emu_reg_ident nm e)) (snd (reg_ident nm s))"
      unfolding regions_rel_def e h by (intro conjI exI [of _ "us @ [new_region nm ?i z]"] exI [of _ zs']) simp_all
    then show ?thesis unfolding e h by simp
  qed
qed

lemma regions_rel_run:
  "regions_rel e s \<Longrightarrow> length (em_regs e) + length ns \<le> EMU_MAXREG \<Longrightarrow>
     run_idents emu_reg_ident ns e = run_idents reg_ident ns s"
proof (induction ns arbitrary: e s)
  case (Cons n ns)
  have "length (em_regs e) < EMU_MAXREG" using Cons.prems(2) by simp
  note st = regions_rel_ident [OF Cons.prems(1) this, of n]
  then show ?case using Cons.IH [of "snd (emu_reg_ident n e)" "snd (reg_ident n s)"] Cons.prems(2)
    by (simp add: split_beta)
qed simp

lemma boot_regions_rel: "regions_rel (emu_init env m) (boot g t)"
proof -
  have "regs (boot g t) = [] @ replicate MAXREG zero_region" by simp
  moreover have "list_all (Not \<circ> r_used) (replicate MAXREG zero_region)" by (simp add: list_all_iff zero_region_def)
  ultimately show ?thesis unfolding regions_rel_def emu_init_def by fastforce
qed

text \<open>
  The two emulators agree on regions: from the start, any sequence of up to 64 identifications is answered
  with the same ids by both, whatever the names (also names that are cut when stored).
\<close>

theorem emu_regions_agree:
  assumes "length ns \<le> EMU_MAXREG"
  shows "run_idents emu_reg_ident ns (emu_init env m) = run_idents reg_ident ns (boot g t)"
  by (rule regions_rel_run [OF boot_regions_rel]) (use assms in \<open>simp add: emu_init_def\<close>)

lemma emu_regions_agree_witness:
  "run_idents emu_reg_ident [''A'', ''B'', ''A''] (emu_init (\<lambda>_. None) (\<lambda>_. 0)) = run_idents reg_ident [''A'', ''B'', ''A''] (boot 7 7)
   \<and> run_idents emu_reg_ident [''A'', ''B'', ''A''] (emu_init (\<lambda>_. None) (\<lambda>_. 0)) = [0x4000, 0x4001, 0x4000]"
  using emu_regions_agree [of "[''A'', ''B'', ''A'']" "\<lambda>_. None" "\<lambda>_. 0" 7 7]
  by (simp add: EMU_MAXREG_def emu_init_def emu_reg_ident_def reg_find_name_def)

text \<open>A mapping is made once.\<close>

lemma emu_attach_once:
  assumes "emu_reg_attach mm i e = (a, e1)" and "a \<noteq> 0"
  shows "emu_reg_attach mm' i e1 = (a, e1)"
proof -
  obtain k where k: "reg_find_id i e = Some k" using assms by (auto simp: emu_reg_attach_def split: option.splits)
  note kl = find_index_SomeD [OF k [unfolded reg_find_id_def]]
  have id: "find_index (\<lambda>r. er_id r = i) ((em_regs e)[k := x]) = Some k" if "er_id x = i" for x
    by (rule find_index_SomeI) (use kl that in auto)
  show ?thesis
    using assms k kl(1,2) id by (auto simp: emu_reg_attach_def reg_find_id_def Let_def split: if_splits option.splits)
qed

text \<open>\<open>Sys_getenv\<close> stores the same bytes in both.\<close>

lemma emu_env_get_same: "mem (env_get h nm out sz s) = emu_env_get (h_env h) nm out sz (mem s)"
  by (simp add: env_get_def emu_env_get_def poke_def poke_str_def mem_put_def split: option.split)

end
