(* ===== verification/CfgFix.thy ===== *)
theory CfgFix
  imports EmuV1 Environ HeroscallFacts
begin

text \<open>
  \<open>src/emulator/cfgfix.c\<close>: the replaced \<open>ServerHelper::IsSysFile\<close> and \<open>IsOemFile\<close>, which classify a path
  by a list of prefixes, and the patch of three bytes of the mapped \<open>libConfigSystem.so\<close>.  The environment,
  the lines of \<open>/proc/self/maps\<close> and the answer of \<open>mprotect\<close> are arguments.
\<close>

section \<open>Prefix lists\<close>

text \<open>The loop of \<open>match_pfx\<close> from the position \<open>p\<close> of the list.\<close>

function match_from :: "string \<Rightarrow> string \<Rightarrow> bool" where
  "match_from path [] = False"
| "match_from path (c # cs) =
     (let p = c # cs; e = dropWhile (\<lambda>x. x \<noteq> CHR '':'') p; part = takeWhile (\<lambda>x. x \<noteq> CHR '':'') p in
      if part \<noteq> [] \<and> has_prefix part path then True else match_from path (tl e))"
  by pat_completeness auto

termination
  by (relation "measure (\<lambda>(path, p). length p)")
    (auto simp: less_Suc_eq_le intro!: le_trans [OF diff_le_self length_dropWhile_le])

definition match_pfx :: "string option \<Rightarrow> string option \<Rightarrow> bool" where
  "match_pfx path l = (case (path, l) of (Some p, Some q) \<Rightarrow> match_from p q | _ \<Rightarrow> False)"

section \<open>State\<close>

record cfgfix =
  fl_done :: bool                          \<comment> \<open>\<open>fullload_done\<close>\<close>
  fl_pfx :: "(string \<times> string) option"    \<comment> \<open>\<open>sys_pfx\<close> and \<open>oem_pfx\<close> once they are read\<close>
  fl_mem :: "u32 \<Rightarrow> u8"

record cfg_host =
  ch_env :: "string \<Rightarrow> string option"
  ch_maps :: "string list option"
  ch_mprotect :: bool

definition init_pfx :: "cfg_host \<Rightarrow> cfgfix \<Rightarrow> cfgfix" where
  "init_pfx h s =
     (case fl_pfx s of
        Some _ \<Rightarrow> s
      | None \<Rightarrow>
          s\<lparr>fl_pfx := Some (case ch_env h ''CFGFIX_SYS'' of None \<Rightarrow> ''/tmp/s/:/mnt/sys/'' | Some v \<Rightarrow> v,
              case ch_env h ''CFGFIX_OEM'' of None \<Rightarrow> ''/tmp/o/:/mnt/plc/'' | Some v \<Rightarrow> v)\<rparr>)"

section \<open>The patch\<close>

definition FULLLOAD_VADDR :: u32 where "FULLLOAD_VADDR = 0x229e0f"
definition FL_EXPECT :: "u8 list" where "FL_EXPECT = [0x0f, 0x44, 0xc7]"

text \<open>\<open>strtoul(line, NULL, 16)\<close> on a 32-bit \<open>long\<close>.\<close>

definition num_base16 :: "string \<Rightarrow> nat" where
  "num_base16 s =
     (case s of
        z # x # d # ds \<Rightarrow>
          if z = CHR ''0'' \<and> (x = CHR ''x'' \<or> x = CHR ''X'') \<and> is_hex d then num_loop 16 0 (d # ds) else num_loop 16 0 s
      | _ \<Rightarrow> num_loop 16 0 s)"

definition strtoul16 :: "string \<Rightarrow> u32" where
  "strtoul16 s = (let (neg, v) = signed_num num_base16 s in
     if 2 ^ 32 \<le> v then 0xffffffff else if neg then - of_nat v else of_nat v)"

text \<open>The lowest mapping of the library.\<close>

fun lib_base :: "string list \<Rightarrow> u32 option \<Rightarrow> u32 option" where
  "lib_base [] base = base"
| "lib_base (l # ls) base =
     (if \<not> has_sub ''libConfigSystem.so'' l then lib_base ls base
      else let s = strtoul16 l in
           lib_base ls (case base of None \<Rightarrow> Some s | Some b \<Rightarrow> if s < b then Some s else Some b))"

definition patch_fullload :: "cfg_host \<Rightarrow> cfgfix \<Rightarrow> cfgfix" where
  "patch_fullload h s =
     (if fl_done s then s
      else if (case ch_env h ''CFGFIX_FORCE_FULLLOAD'' of Some (c # cs) \<Rightarrow> c = CHR ''0'' | _ \<Rightarrow> False) then s\<lparr>fl_done := True\<rparr>
      else case ch_maps h of
             None \<Rightarrow> s
           | Some ls \<Rightarrow>
               (case lib_base ls None of
                  None \<Rightarrow> s
                | Some base \<Rightarrow>
                    let s1 = s\<lparr>fl_done := True\<rparr>; tgt = base + FULLLOAD_VADDR in
                    if mem_get 3 tgt (fl_mem s1) \<noteq> FL_EXPECT then s1
                    else if \<not> ch_mprotect h then s1
                    else s1\<lparr>fl_mem := mem_put tgt [0x90, 0x90, 0x90] (fl_mem s1)\<rparr>))"

section \<open>The classifiers\<close>

text \<open>The path of an \<open>FSystemPathname\<close>: the string pointer is at offset 4.\<close>

definition fpath :: "u32 \<Rightarrow> cfgfix \<Rightarrow> string option" where
  "fpath fsp s =
     (if fsp = 0 \<or> fsp < 0x1000 then None
      else let p = get32 (mem_get 4 (fsp + 4) (fl_mem s)) 0 in
           if p = 0 \<or> p < 0x1000 \<or> 0xfffffff0 < p then None else Some (cstr_of (mem_get 4096 p (fl_mem s))))"

definition IsSysFile :: "cfg_host \<Rightarrow> u32 \<Rightarrow> cfgfix \<Rightarrow> bool \<times> cfgfix" where
  "IsSysFile h path s =
     (let s1 = init_pfx h (if fl_done s then s else patch_fullload h s) in
      (match_pfx (fpath path s1) (map_option fst (fl_pfx s1)), s1))"

definition IsOemFile :: "cfg_host \<Rightarrow> u32 \<Rightarrow> cfgfix \<Rightarrow> bool \<times> cfgfix" where
  "IsOemFile h path s =
     (let s1 = init_pfx h s in (match_pfx (fpath path s1) (map_option snd (fl_pfx s1)), s1))"

section \<open>Properties\<close>

text \<open>The entries of a colon-separated list.\<close>

fun colon_parts :: "string \<Rightarrow> string list" where
  "colon_parts [] = [[]]"
| "colon_parts (c # cs) =
     (if c = CHR '':'' then [] # colon_parts cs
      else case colon_parts cs of [] \<Rightarrow> [[c]] | p # ps \<Rightarrow> (c # p) # ps)"

lemma colon_parts_split:
  "colon_parts q = takeWhile (\<lambda>x. x \<noteq> CHR '':'') q #
     (case dropWhile (\<lambda>x. x \<noteq> CHR '':'') q of [] \<Rightarrow> [] | _ # r \<Rightarrow> colon_parts r)"
  by (induction q) (auto split: list.splits)

lemma match_from_parts: "match_from path q \<longleftrightarrow> (\<exists>p\<in>set (colon_parts q). p \<noteq> [] \<and> has_prefix p path)"
proof (induction path q rule: match_from.induct)
  case (2 path c cs)
  let ?q = "c # cs" let ?part = "takeWhile (\<lambda>x. x \<noteq> CHR '':'') ?q" and ?e = "dropWhile (\<lambda>x. x \<noteq> CHR '':'') ?q"
  show ?case
  proof (cases "?part \<noteq> [] \<and> has_prefix ?part path")
    case True
    have "?part \<in> set (colon_parts ?q)" by (subst colon_parts_split) simp
    then have "\<exists>p\<in>set (colon_parts ?q). p \<noteq> [] \<and> has_prefix p path" using True by blast
    moreover have "match_from path ?q" using True by (simp only: match_from.simps Let_def if_True simp_thms)
    ultimately show ?thesis by simp
  next
    case False
    have "match_from path ?q = match_from path (tl ?e)" using False by (simp only: match_from.simps Let_def if_False)
    also have "\<dots> = (\<exists>p\<in>set (colon_parts (tl ?e)). p \<noteq> [] \<and> has_prefix p path)" by (rule 2 [OF refl refl refl False])
    also have "\<dots> = (\<exists>p\<in>set (case ?e of [] \<Rightarrow> [] | _ # r \<Rightarrow> colon_parts r). p \<noteq> [] \<and> has_prefix p path)"
      by (cases ?e) simp_all
    also have "\<dots> = (\<exists>p\<in>set (colon_parts ?q). p \<noteq> [] \<and> has_prefix p path)"
      by (subst (2) colon_parts_split) (use False in auto)
    finally show ?thesis .
  qed
qed simp

definition sys_list :: "cfg_host \<Rightarrow> string" where
  "sys_list h = (case ch_env h ''CFGFIX_SYS'' of None \<Rightarrow> ''/tmp/s/:/mnt/sys/'' | Some v \<Rightarrow> v)"

definition oem_list :: "cfg_host \<Rightarrow> string" where
  "oem_list h = (case ch_env h ''CFGFIX_OEM'' of None \<Rightarrow> ''/tmp/o/:/mnt/plc/'' | Some v \<Rightarrow> v)"

lemma init_pfx_first: "fl_pfx s = None \<Longrightarrow> init_pfx h s = s\<lparr>fl_pfx := Some (sys_list h, oem_list h)\<rparr>"
  by (simp add: init_pfx_def sys_list_def oem_list_def)

lemma patch_pfx [simp]: "fl_pfx (patch_fullload h s) = fl_pfx s"
  by (simp add: patch_fullload_def Let_def split: option.split)

lemma match_pfx_parts:
  "match_pfx (Some nm) (Some q) \<longleftrightarrow> (\<exists>p\<in>set (colon_parts q). p \<noteq> [] \<and> has_prefix p nm)"
  by (simp add: match_pfx_def match_from_parts)

text \<open>
  From the first call on, a path counts as a SYS file exactly when one of the non-empty entries of the
  colon-separated list \<open>CFGFIX_SYS\<close> is a prefix of it, and as an OEM file likewise with \<open>CFGFIX_OEM\<close>; the
  lists are read once, and a later change of the environment does not alter the answer.
\<close>

theorem cfgfix_classifies:
  assumes "fl_pfx s = None" and "IsSysFile h path s = (r, s1)" and "IsOemFile h' path s1 = (r', s2)"
    and "fpath path s1 = Some nm"
  shows "(r \<longleftrightarrow> (\<exists>p\<in>set (colon_parts (sys_list h)). p \<noteq> [] \<and> has_prefix p nm)) \<and>
    (r' \<longleftrightarrow> (\<exists>p\<in>set (colon_parts (oem_list h)). p \<noteq> [] \<and> has_prefix p nm)) \<and> s2 = s1"
proof -
  define s0 where "s0 = (if fl_done s then s else patch_fullload h s)"
  have "fl_pfx s0 = None" using assms(1) by (simp add: s0_def)
  note i = init_pfx_first [OF this, of h]
  have e: "init_pfx h s0 = s1" and r: "r = match_pfx (fpath path s1) (map_option fst (fl_pfx s1))"
    using assms(2) unfolding IsSysFile_def s0_def [symmetric] Let_def by auto
  have p: "fl_pfx s1 = Some (sys_list h, oem_list h)" unfolding e [symmetric] i by simp
  then have "init_pfx h' s1 = s1" by (simp add: init_pfx_def)
  then have "s2 = s1" "r' = match_pfx (fpath path s1) (map_option snd (fl_pfx s1))"
    using assms(3) by (auto simp: IsOemFile_def Let_def)
  then show ?thesis using r by (simp add: p assms(4) match_pfx_parts)
qed

definition cfg_demo :: cfgfix where
  "cfg_demo = \<lparr>fl_done = True, fl_pfx = None,
     fl_mem = mem_put 0x3000 (bytes_of ''/mnt/sys/config/x'' @ [0]) (mem_put 0x2004 (le32 0x3000) (\<lambda>_. 0))\<rparr>"

definition cfg_host_demo :: cfg_host where
  "cfg_host_demo = \<lparr>ch_env = (\<lambda>_. None), ch_maps = Some [''f7000000-f7100000 r-xp /lib/libConfigSystem.so''], ch_mprotect = True\<rparr>"

lemma mem_get_put:
  assumes "length bs = n" and "n \<le> 4096"
  shows "mem_get n a (mem_put a bs m) = bs"
proof (rule nth_equalityI)
  show "length (mem_get n a (mem_put a bs m)) = length bs" using assms by (simp add: mem_get_def)
  fix i assume "i < length (mem_get n a (mem_put a bs m))"
  then have i: "i < n" by (simp add: mem_get_def)
  then have "unat (of_nat i :: u32) = i" using assms(2) unfolding unat_of_nat by (intro mod_less) simp
  then show "mem_get n a (mem_put a bs m) ! i = bs ! i" using i assms(1) by (simp add: mem_get_def mem_put_def)
qed

lemma mem_cstr:
  assumes "CHR 0x00 \<notin> set nm" and "length nm < 4096"
  shows "cstr_of (mem_get 4096 a (mem_put a (bytes_of nm @ [0]) m)) = nm"
proof -
  define s where "s = (boot 7 7)\<lparr>mem := m\<rparr>"
  have s: "mem s = m" by (simp add: s_def)
  have "cstr_at a (poke_str a nm s) = nm" by (rule cstr_at_poke) (use assms in \<open>simp_all add: CSTR_MAX_def\<close>)
  then show ?thesis by (simp add: cstr_at_def poke_str_def poke_def peek_def mem_get_def mem_put_def CSTR_MAX_def s cong del: if_weak_cong)
qed

lemma patch_done: "fl_done s \<Longrightarrow> patch_fullload h s = s"
  by (simp add: patch_fullload_def)

lemma patch_cases:
  obtains "patch_fullload h s = s" | "patch_fullload h s = s\<lparr>fl_done := True\<rparr>"
    | ls base where "\<not> fl_done s" "ch_maps h = Some ls" "lib_base ls None = Some base"
        "mem_get 3 (base + FULLLOAD_VADDR) (fl_mem s) = FL_EXPECT"
        "patch_fullload h s = s\<lparr>fl_done := True, fl_mem := mem_put (base + FULLLOAD_VADDR) [0x90, 0x90, 0x90] (fl_mem s)\<rparr>"
proof -
  define off where "off = (case ch_env h ''CFGFIX_FORCE_FULLLOAD'' of Some (c # cs) \<Rightarrow> c = CHR ''0'' | _ \<Rightarrow> False)"
  note d = patch_fullload_def [of h s, folded off_def]
  consider "fl_done s" | "\<not> fl_done s" "off" | "\<not> fl_done s" "\<not> off" "ch_maps h = None"
    | ls where "\<not> fl_done s" "\<not> off" "ch_maps h = Some ls" "lib_base ls None = None"
    | ls base where "\<not> fl_done s" "\<not> off" "ch_maps h = Some ls" "lib_base ls None = Some base"
    by (cases "fl_done s"; cases off; cases "ch_maps h"; cases "lib_base (the (ch_maps h)) None") auto
  then show thesis
  proof cases
    case 1
    then show ?thesis by (intro that(1)) (simp add: d)
  next
    case 2
    then show ?thesis by (intro that(2)) (simp add: d)
  next
    case 3
    then show ?thesis by (intro that(1)) (simp add: d)
  next
    case (4 ls)
    then show ?thesis by (intro that(1)) (simp add: d)
  next
    case (5 ls base)
    show ?thesis
    proof (cases "mem_get 3 (base + FULLLOAD_VADDR) (fl_mem s) = FL_EXPECT \<and> ch_mprotect h")
      case True
      then show ?thesis using 5 by (intro that(3) [of ls base]) (simp_all add: d Let_def)
    next
      case False
      then show ?thesis using 5 by (intro that(2)) (auto simp: d Let_def)
    qed
  qed
qed

lemma nops: "i < 3 \<Longrightarrow> [0x90, 0x90, 0x90] ! i = (0x90 :: u8)"
proof -
  assume "i < 3"
  then have "i = 0 \<or> i = 1 \<or> i = 2" by linarith
  then show ?thesis by auto
qed

lemma lib_base_least:
  "lib_base ls b = Some base \<Longrightarrow>
     (b = Some base \<or> (\<exists>l\<in>set ls. has_sub ''libConfigSystem.so'' l \<and> base = strtoul16 l)) \<and>
     (\<forall>l\<in>set ls. has_sub ''libConfigSystem.so'' l \<longrightarrow> base \<le> strtoul16 l) \<and> (\<forall>x. b = Some x \<longrightarrow> base \<le> x)"
proof (induction ls b rule: lib_base.induct)
  case (2 l ls b)
  show ?case
  proof (cases "has_sub ''libConfigSystem.so'' l")
    case True
    then show ?thesis using 2(2) [OF _ refl] 2(3) by (auto simp: Let_def split: option.splits if_splits)
  next
    case False
    then show ?thesis using 2 by auto
  qed
qed simp

text \<open>
  C30. The patch is safe: a byte of memory changes only if it is one of the three at the fixed offset of the
  library's lowest mapping (a line of the map names the library and gives this address, and no such line
  gives a lower one), only if these three were the expected instruction, and only to the no-op; once
  the library has been seen or the switch is off, no later call changes anything.
\<close>

theorem cfgfix_patch_safe:
  assumes "patch_fullload h s = s1"
  shows "(\<forall>a. fl_mem s1 a \<noteq> fl_mem s a \<longrightarrow>
      (\<exists>ls base. ch_maps h = Some ls \<and> lib_base ls None = Some base \<and>
        (\<exists>l\<in>set ls. has_sub ''libConfigSystem.so'' l \<and> base = strtoul16 l) \<and>
        (\<forall>l\<in>set ls. has_sub ''libConfigSystem.so'' l \<longrightarrow> base \<le> strtoul16 l) \<and>
        unat (a - (base + FULLLOAD_VADDR)) < 3 \<and>
        mem_get 3 (base + FULLLOAD_VADDR) (fl_mem s) = FL_EXPECT \<and> fl_mem s1 a = 0x90)) \<and>
    (fl_done s1 \<longrightarrow> patch_fullload h' s1 = s1) \<and> (s1 \<noteq> s \<longrightarrow> fl_done s1)"
proof (cases rule: patch_cases [of h s])
  case (3 ls base)
  let ?tgt = "base + FULLLOAD_VADDR"
  have "fl_mem s1 a \<noteq> fl_mem s a \<longrightarrow> unat (a - ?tgt) < 3 \<and> fl_mem s1 a = 0x90" for a
    using assms 3(5) nops [of "unat (a - ?tgt)"] by (auto simp: mem_put_def numeral_3_eq_3 split: if_splits)
  moreover have "fl_done s1" using assms 3(5) by auto
  ultimately show ?thesis using 3 patch_done lib_base_least [OF 3(3)] by auto
qed (use assms in \<open>auto simp: patch_done\<close>)

lemma cfgfix_classifies_witness:
  "fst (IsSysFile cfg_host_demo 0x2000 cfg_demo) \<and> \<not> fst (IsOemFile cfg_host_demo 0x2000 (snd (IsSysFile cfg_host_demo 0x2000 cfg_demo)))"
proof -
  let ?s1 = "snd (IsSysFile cfg_host_demo 0x2000 cfg_demo)"
  have s1: "fl_mem ?s1 = fl_mem cfg_demo" by (simp add: IsSysFile_def cfg_demo_def init_pfx_def Let_def)
  have "mem_get 4 0x2004 (fl_mem cfg_demo) = mem_get 4 0x2004 (mem_put 0x2004 (le32 0x3000) (\<lambda>_. 0))"
    by (simp add: cfg_demo_def mem_get_def mem_put_def [of "0x3000"] upt_rec)
  then have p: "get32 (mem_get 4 0x2004 (fl_mem cfg_demo)) 0 = 0x3000" by (simp add: mem_get_put)
  have "cstr_of (mem_get 4096 0x3000 (fl_mem cfg_demo)) = ''/mnt/sys/config/x''"
    unfolding cfg_demo_def cfgfix.select_convs by (rule mem_cstr) simp_all
  then have f: "fpath 0x2000 ?s1 = Some ''/mnt/sys/config/x''" by (simp add: fpath_def s1 p)
  have l: "colon_parts (sys_list cfg_host_demo) = [''/tmp/s/'', ''/mnt/sys/'']"
      "colon_parts (oem_list cfg_host_demo) = [''/tmp/o/'', ''/mnt/plc/'']" by code_simp+
  have "fl_pfx cfg_demo = None" by (simp add: cfg_demo_def)
  from cfgfix_classifies [OF this prod.collapse [symmetric] prod.collapse [symmetric] f, where h' = cfg_host_demo]
  show ?thesis by (simp add: l has_prefix_def)
qed

definition patch_demo :: cfgfix where
  "patch_demo = \<lparr>fl_done = False, fl_pfx = None, fl_mem = mem_put 0xf7229e0f FL_EXPECT (\<lambda>_. 0)\<rparr>"

lemma cfgfix_patch_safe_witness:
  "fl_mem (patch_fullload cfg_host_demo patch_demo) 0xf7229e10 = 0x90 \<and>
   patch_fullload cfg_host_demo (patch_fullload cfg_host_demo patch_demo) = patch_fullload cfg_host_demo patch_demo"
proof -
  have "strtoul16 ''f7000000-f7100000 r-xp /lib/libConfigSystem.so'' = 0xf7000000"
    by (simp add: strtoul16_def signed_num_def num_base16_def is_hex_def hex_digit_def is_dec_def dec_digit_def is_blank_def)
  moreover have "has_sub ''libConfigSystem.so'' ''f7000000-f7100000 r-xp /lib/libConfigSystem.so''"
    by (simp add: has_sub.simps has_prefix_def)
  ultimately have m: "lib_base [''f7000000-f7100000 r-xp /lib/libConfigSystem.so''] None = Some 0xf7000000"
    by (simp only: lib_base.simps Let_def option.case if_False not_not simp_thms)
  have g: "mem_get 3 0xf7229e0f (mem_put 0xf7229e0f FL_EXPECT (\<lambda>_. 0)) = FL_EXPECT" by (rule mem_get_put) (simp_all add: FL_EXPECT_def)
  have "patch_fullload cfg_host_demo patch_demo
      = patch_demo\<lparr>fl_done := True, fl_mem := mem_put 0xf7229e0f [0x90, 0x90, 0x90] (fl_mem patch_demo)\<rparr>"
    using m g by (simp add: patch_fullload_def cfg_host_demo_def patch_demo_def FULLLOAD_VADDR_def Let_def)
  then have "fl_done (patch_fullload cfg_host_demo patch_demo)" "fl_mem (patch_fullload cfg_host_demo patch_demo) 0xf7229e10 = 0x90"
    by (simp_all add: mem_put_def)
  then show ?thesis using cfgfix_patch_safe [OF refl, of cfg_host_demo patch_demo cfg_host_demo] by simp
qed

end
