(* ===== verification/Dkomp.thy ===== *)
theory Dkomp
  imports Base
begin

text \<open>
  \<open>src/recomp/dkomp/libEp90_Dm_dkomp_rebuilt.c\<close>: the navigators over doubly linked lists of contour
  elements.  A container holds head, tail and a cursor that \<open>first\<close>, \<open>last\<close>, \<open>next\<close> and \<open>prev\<close> move.
  Memory is one map per object type, address 0 is the null pointer, and \<open>None\<close> is the access through
  a null pointer.
\<close>

section \<open>Objects\<close>

record dnode =
  n_next :: u32
  n_prev :: u32

record dcontainer =
  c_head :: u32
  c_tail :: u32
  c_cursor :: u32

record edge_desc =
  e_container :: u32
  e_start :: u32
  e_end :: u32

text \<open>\<open>m_slot\<close> is the slot array of a handle; what a slot points to depends on the family.\<close>

record dmem =
  m_node :: "u32 \<Rightarrow> dnode"
  m_cont :: "u32 \<Rightarrow> dcontainer"
  m_slot :: "u32 \<Rightarrow> nat \<Rightarrow> u32"
  m_holder :: "u32 \<Rightarrow> u32"
  m_hilf :: "u32 \<Rightarrow> u32"
  m_rot3D :: "u32 \<Rightarrow> u32"
  m_box3D :: "u32 \<Rightarrow> u32"
  m_edge :: "u32 \<Rightarrow> edge_desc"

definition slot_ix :: "u8 \<Rightarrow> nat" where "slot_ix ch = unat (ch - 1)"

definition set_cursor :: "u32 \<Rightarrow> u32 \<Rightarrow> dmem \<Rightarrow> dmem" where
  "set_cursor c p m = m\<lparr>m_cont := (m_cont m)(c := (m_cont m c)\<lparr>c_cursor := p\<rparr>)\<rparr>"

section \<open>The navigators of a container\<close>

text \<open>The bodies the families share, on the resolved container.\<close>

definition nav_first :: "u32 \<Rightarrow> dmem \<Rightarrow> (u32 \<times> dmem) option" where
  "nav_first c m = (if c = 0 then Some (0, m) else Some (c_head (m_cont m c), set_cursor c (c_head (m_cont m c)) m))"

definition nav_last :: "u32 \<Rightarrow> dmem \<Rightarrow> (u32 \<times> dmem) option" where
  "nav_last c m = (if c = 0 then Some (0, m) else Some (c_tail (m_cont m c), set_cursor c (c_tail (m_cont m c)) m))"

definition nav_current :: "u32 \<Rightarrow> dmem \<Rightarrow> (u32 \<times> dmem) option" where
  "nav_current c m = (if c = 0 then Some (0, m) else Some (c_cursor (m_cont m c), m))"

definition nav_step :: "(dnode \<Rightarrow> u32) \<Rightarrow> u32 \<Rightarrow> dmem \<Rightarrow> (u32 \<times> dmem) option" where
  "nav_step f c m =
     (if c = 0 then Some (0, m)
      else if c_cursor (m_cont m c) = 0 then None
      else let p = f (m_node m (c_cursor (m_cont m c))) in
           if p \<noteq> 0 then Some (p, set_cursor c p m) else Some (0, m))"

definition nav_next where "nav_next = nav_step n_next"
definition nav_prev where "nav_prev = nav_step n_prev"

section \<open>The families\<close>

definition resolve :: "u32 \<Rightarrow> u8 \<Rightarrow> dmem \<Rightarrow> u32" where
  "resolve h ch m =
     (if h = 0 then 0 else let pp = m_slot m h (slot_ix ch) in if pp = 0 then 0 else m_holder m pp)"

definition dkomp_nw_get_huelle :: "u32 \<Rightarrow> u32 \<Rightarrow> dmem \<Rightarrow> u32" where
  "dkomp_nw_get_huelle h ch m =
     (if h = 0 then 0 else let pp = m_slot m h (unat (ucast (ch - 1) :: u8)) in if pp = 0 then 0 else m_holder m pp)"

definition dkomp_nw_get_huelle_first where "dkomp_nw_get_huelle_first h ch m = nav_first (resolve h ch m) m"
definition dkomp_nw_get_huelle_last where "dkomp_nw_get_huelle_last h ch m = nav_last (resolve h ch m) m"
definition dkomp_nw_get_huelle_current where "dkomp_nw_get_huelle_current h ch m = nav_current (resolve h ch m) m"
definition dkomp_nw_get_huelle_next where "dkomp_nw_get_huelle_next h ch m = nav_next (resolve h ch m) m"
definition dkomp_nw_get_huelle_prev where "dkomp_nw_get_huelle_prev h ch m = nav_prev (resolve h ch m) m"

definition resolve_wrap :: "(dmem \<Rightarrow> u32 \<Rightarrow> u32) \<Rightarrow> u32 \<Rightarrow> u8 \<Rightarrow> dmem \<Rightarrow> u32" where
  "resolve_wrap field h ch m =
     (if h = 0 then 0 else let w = m_slot m h (slot_ix ch) in if w = 0 then 0 else field m w)"

definition resolve_hilf where "resolve_hilf = resolve_wrap m_hilf"
definition resolve_rot3D where "resolve_rot3D = resolve_wrap m_rot3D"
definition resolve_box3D where "resolve_box3D = resolve_wrap m_box3D"

definition dkomp_nw_get_hilf_first where "dkomp_nw_get_hilf_first h ch m = nav_first (resolve_hilf h ch m) m"
definition dkomp_nw_get_hilf_last where "dkomp_nw_get_hilf_last h ch m = nav_last (resolve_hilf h ch m) m"
definition dkomp_nw_get_hilf_current where "dkomp_nw_get_hilf_current h ch m = nav_current (resolve_hilf h ch m) m"
definition dkomp_nw_get_hilf_next where "dkomp_nw_get_hilf_next h ch m = nav_next (resolve_hilf h ch m) m"
definition dkomp_nw_get_hilf_prev where "dkomp_nw_get_hilf_prev h ch m = nav_prev (resolve_hilf h ch m) m"

text \<open>The macro that declares the last two families.\<close>

datatype 'a nav_family = Family (fam_first: 'a) (fam_last: 'a) (fam_current: 'a) (fam_next: 'a) (fam_prev: 'a)

definition DKOMP_NAV_FAMILY ::
    "(u32 \<Rightarrow> u8 \<Rightarrow> dmem \<Rightarrow> u32) \<Rightarrow> (u32 \<Rightarrow> u8 \<Rightarrow> dmem \<Rightarrow> (u32 \<times> dmem) option) nav_family" where
  "DKOMP_NAV_FAMILY r = Family (\<lambda>h ch m. nav_first (r h ch m) m) (\<lambda>h ch m. nav_last (r h ch m) m)
     (\<lambda>h ch m. nav_current (r h ch m) m) (\<lambda>h ch m. nav_next (r h ch m) m) (\<lambda>h ch m. nav_prev (r h ch m) m)"

definition dkomp_nw_get_rot3D where "dkomp_nw_get_rot3D = DKOMP_NAV_FAMILY resolve_rot3D"
definition dkomp_nw_get_box3D where "dkomp_nw_get_box3D = DKOMP_NAV_FAMILY resolve_box3D"

section \<open>Edges\<close>

text \<open>The caller keeps the cursor; the descriptor bounds the walk.\<close>

definition edge_jump :: "(edge_desc \<Rightarrow> u32) \<Rightarrow> u32 \<Rightarrow> u8 \<Rightarrow> dmem \<Rightarrow> (u32 \<times> dmem) option" where
  "edge_jump f h ch m =
     (if h = 0 then Some (0, m)
      else let d = m_slot m h (slot_ix ch) in
           if d = 0 then Some (0, m)
           else if e_container (m_edge m d) = 0 then None
           else Some (f (m_edge m d), set_cursor (e_container (m_edge m d)) (f (m_edge m d)) m))"

definition dkomp_nw_get_edge_start where "dkomp_nw_get_edge_start = edge_jump e_start"
definition dkomp_nw_get_edge_end where "dkomp_nw_get_edge_end = edge_jump e_end"

text \<open>These two check neither the handle nor the descriptor.\<close>

definition edge_step :: "(edge_desc \<Rightarrow> u32) \<Rightarrow> (dnode \<Rightarrow> u32) \<Rightarrow> u32 \<Rightarrow> u32 \<Rightarrow> u32 \<Rightarrow> dmem \<Rightarrow> (u32 \<times> dmem) option" where
  "edge_step lim f h ch p m =
     (if p = 0 then Some (0, m)
      else if h = 0 then None
      else let d = m_slot m h (unat (ucast (ch - 1) :: u8)) in
           if d = 0 then None
           else if lim (m_edge m d) = p then Some (0, m)
           else if e_container (m_edge m d) = 0 then None
           else Some (f (m_node m p), set_cursor (e_container (m_edge m d)) (f (m_node m p)) m))"

definition dkomp_nw_get_edge_next where "dkomp_nw_get_edge_next = edge_step e_end n_next"
definition dkomp_nw_get_edge_prev where "dkomp_nw_get_edge_prev = edge_step e_start n_prev"

end
