(* ===== verification/DkompFacts.thy ===== *)
theory DkompFacts
  imports Dkomp
begin

text \<open>
  The navigators against the list they walk: an abstract cursor over a list is the interface, and each
  family provides it.
\<close>

section \<open>A cursor over a list\<close>

text \<open>Step until nothing comes.\<close>

fun walk :: "('s \<Rightarrow> (u32 \<times> 's) option) \<Rightarrow> nat \<Rightarrow> 's \<Rightarrow> (u32 list \<times> 's) option" where
  "walk step 0 s = None"
| "walk step (Suc k) s =
     (case step s of
        None \<Rightarrow> None
      | Some (p, s1) \<Rightarrow>
          if p = 0 then Some ([], s1)
          else (case walk step k s1 of None \<Rightarrow> None | Some (ps, s2) \<Rightarrow> Some (p # ps, s2)))"

locale list_cursor =
  fixes first last current nxt prv :: "'s \<Rightarrow> (u32 \<times> 's) option"
    and at :: "u32 list \<Rightarrow> nat \<Rightarrow> 's \<Rightarrow> bool"
  assumes at_inside: "at xs i s \<Longrightarrow> i < length xs" and at_live: "at xs i s \<Longrightarrow> 0 \<notin> set xs"
    and first_at: "at xs i s \<Longrightarrow> \<exists>s'. first s = Some (xs ! 0, s') \<and> at xs 0 s'"
    and last_at: "at xs i s \<Longrightarrow> \<exists>s'. last s = Some (xs ! (length xs - 1), s') \<and> at xs (length xs - 1) s'"
    and current_at: "at xs i s \<Longrightarrow> current s = Some (xs ! i, s)"
    and next_at: "at xs i s \<Longrightarrow> Suc i < length xs \<Longrightarrow> \<exists>s'. nxt s = Some (xs ! Suc i, s') \<and> at xs (Suc i) s'"
    and next_stop: "at xs i s \<Longrightarrow> Suc i = length xs \<Longrightarrow> nxt s = Some (0, s)"
    and prev_at: "at xs (Suc i) s \<Longrightarrow> \<exists>s'. prv s = Some (xs ! i, s') \<and> at xs i s'"
    and prev_stop: "at xs 0 s \<Longrightarrow> prv s = Some (0, s)"
begin

lemma walk_forward:
  "at xs i s \<Longrightarrow> length xs - i \<le> k \<Longrightarrow> \<exists>s'. walk nxt k s = Some (drop (Suc i) xs, s') \<and> at xs (length xs - 1) s'"
proof (induction k arbitrary: i s)
  case 0
  then show ?case using at_inside [of xs i s] by simp
next
  case (Suc k)
  have i: "i < length xs" using Suc.prems(1) by (rule at_inside)
  show ?case
  proof (cases "Suc i = length xs")
    case True
    then have "length xs - 1 = i" by simp
    then show ?thesis using next_stop [OF Suc.prems(1) True] True Suc.prems(1) by simp
  next
    case False
    then have m: "Suc i < length xs" using i by simp
    obtain s1 where s1: "nxt s = Some (xs ! Suc i, s1)" "at xs (Suc i) s1" using next_at [OF Suc.prems(1) m] by blast
    obtain s2 where "walk nxt k s1 = Some (drop (Suc (Suc i)) xs, s2)" "at xs (length xs - 1) s2"
      using Suc.IH [OF s1(2)] Suc.prems(2) by fastforce
    moreover have "xs ! Suc i \<noteq> 0" using at_live [OF Suc.prems(1)] m by (metis nth_mem)
    ultimately show ?thesis using s1(1) Cons_nth_drop_Suc [OF m] by simp
  qed
qed

lemma walk_backward:
  "at xs i s \<Longrightarrow> i < k \<Longrightarrow> \<exists>s'. walk prv k s = Some (rev (take i xs), s') \<and> at xs 0 s'"
proof (induction k arbitrary: i s)
  case (Suc k)
  show ?case
  proof (cases i)
    case 0
    then show ?thesis using prev_stop Suc.prems(1) by simp
  next
    case (Suc j)
    have j: "j < length xs" using at_inside [OF Suc.prems(1)] Suc by simp
    obtain s1 where s1: "prv s = Some (xs ! j, s1)" "at xs j s1" using prev_at Suc.prems(1) Suc by blast
    obtain s2 where "walk prv k s1 = Some (rev (take j xs), s2)" "at xs 0 s2"
      using Suc.IH [OF s1(2)] Suc.prems(2) Suc by auto
    moreover have "xs ! j \<noteq> 0" using at_live [OF Suc.prems(1)] j by (metis nth_mem)
    ultimately show ?thesis using s1(1) j Suc by (simp add: take_Suc_conv_app_nth)
  qed
qed simp

lemma tour:
  assumes "at xs i s" and "length xs \<le> k"
  shows "\<exists>s1 s2 s3 s4. first s = Some (hd xs, s1) \<and> walk nxt k s1 = Some (tl xs, s2) \<and>
    last s2 = Some (List.last xs, s3) \<and> walk prv k s3 = Some (rev (butlast xs), s4) \<and> at xs 0 s4"
proof -
  have ne: "xs \<noteq> []" using at_inside [OF assms(1)] by auto
  obtain s1 where s1: "first s = Some (xs ! 0, s1)" "at xs 0 s1" using first_at [OF assms(1)] by blast
  obtain s2 where s2: "walk nxt k s1 = Some (drop (Suc 0) xs, s2)" "at xs (length xs - 1) s2"
    using walk_forward [OF s1(2)] assms(2) by fastforce
  obtain s3 where s3: "last s2 = Some (xs ! (length xs - 1), s3)" "at xs (length xs - 1) s3" using last_at [OF s2(2)] by blast
  have "length xs - 1 < k" using ne assms(2) by (cases xs) auto
  then obtain s4 where s4: "walk prv k s3 = Some (rev (take (length xs - 1) xs), s4)" "at xs 0 s4"
    using walk_backward [OF s3(2)] by blast
  show ?thesis
    using s1(1) s2(1) s3(1) s4 ne by (simp add: hd_conv_nth last_conv_nth butlast_conv_take drop_Suc)
qed

end

section \<open>A container as a cursor\<close>

definition linked :: "dmem \<Rightarrow> u32 list \<Rightarrow> bool" where
  "linked m xs \<longleftrightarrow> 0 \<notin> set xs \<and>
     (\<forall>i<length xs. n_next (m_node m (xs ! i)) = (if Suc i < length xs then xs ! Suc i else 0) \<and>
        n_prev (m_node m (xs ! i)) = (case i of 0 \<Rightarrow> 0 | Suc j \<Rightarrow> xs ! j))"

definition cont_at :: "u32 \<Rightarrow> u32 list \<Rightarrow> nat \<Rightarrow> dmem \<Rightarrow> bool" where
  "cont_at c xs i m \<longleftrightarrow> c \<noteq> 0 \<and> linked m xs \<and> i < length xs \<and> c_head (m_cont m c) = xs ! 0 \<and>
     c_tail (m_cont m c) = xs ! (length xs - 1) \<and> c_cursor (m_cont m c) = xs ! i"

lemma set_cursor_sel [simp]:
  "m_node (set_cursor c p m) = m_node m" "m_slot (set_cursor c p m) = m_slot m" "m_holder (set_cursor c p m) = m_holder m"
  "m_hilf (set_cursor c p m) = m_hilf m" "m_rot3D (set_cursor c p m) = m_rot3D m" "m_box3D (set_cursor c p m) = m_box3D m"
  "m_edge (set_cursor c p m) = m_edge m" "m_cont (set_cursor c p m) c = (m_cont m c)\<lparr>c_cursor := p\<rparr>"
  by (simp_all add: set_cursor_def)

lemma linked_cursor [simp]: "linked (set_cursor c p m) xs = linked m xs"
  by (simp add: linked_def)

lemma cont_at_set: "cont_at c xs i m \<Longrightarrow> j < length xs \<Longrightarrow> cont_at c xs j (set_cursor c (xs ! j) m)"
  by (simp add: cont_at_def)

lemma cont_at_live: "cont_at c xs i m \<Longrightarrow> j < length xs \<Longrightarrow> xs ! j \<noteq> 0"
  unfolding cont_at_def linked_def by (metis nth_mem)

lemma nav_next_at:
  assumes "cont_at c xs i m"
  shows "nav_next c m = (if Suc i < length xs then Some (xs ! Suc i, set_cursor c (xs ! Suc i) m) else Some (0, m))"
proof -
  have "n_next (m_node m (xs ! i)) = (if Suc i < length xs then xs ! Suc i else 0)" "c \<noteq> 0" "c_cursor (m_cont m c) = xs ! i" "xs ! i \<noteq> 0"
    using assms cont_at_live [OF assms, of i] by (auto simp: cont_at_def linked_def)
  moreover have "Suc i < length xs \<Longrightarrow> xs ! Suc i \<noteq> 0" by (rule cont_at_live [OF assms])
  ultimately show ?thesis by (simp add: nav_next_def nav_step_def Let_def)
qed

lemma nav_prev_at:
  assumes "cont_at c xs i m"
  shows "nav_prev c m = (case i of 0 \<Rightarrow> Some (0, m) | Suc j \<Rightarrow> Some (xs ! j, set_cursor c (xs ! j) m))"
proof -
  have "n_prev (m_node m (xs ! i)) = (case i of 0 \<Rightarrow> 0 | Suc j \<Rightarrow> xs ! j)" "c \<noteq> 0" "c_cursor (m_cont m c) = xs ! i" "xs ! i \<noteq> 0"
    using assms cont_at_live [OF assms, of i] by (auto simp: cont_at_def linked_def)
  moreover have "i = Suc j \<Longrightarrow> xs ! j \<noteq> 0" for j using assms by (intro cont_at_live [OF assms]) (simp add: cont_at_def)
  ultimately show ?thesis by (cases i) (simp_all add: nav_prev_def nav_step_def Let_def)
qed

text \<open>Every way to a container that the cursor does not influence gives a cursor.\<close>

locale resolver =
  fixes r :: "dmem \<Rightarrow> u32"
  assumes r_cursor: "r (set_cursor c p m) = r m"
begin

definition at :: "u32 list \<Rightarrow> nat \<Rightarrow> dmem \<Rightarrow> bool" where
  "at xs i m \<longleftrightarrow> cont_at (r m) xs i m"

lemma at_set: "at xs i m \<Longrightarrow> j < length xs \<Longrightarrow> at xs j (set_cursor (r m) (xs ! j) m)"
  by (simp add: at_def r_cursor cont_at_set)

end

sublocale resolver \<subseteq> list_cursor "\<lambda>m. nav_first (r m) m" "\<lambda>m. nav_last (r m) m" "\<lambda>m. nav_current (r m) m"
    "\<lambda>m. nav_next (r m) m" "\<lambda>m. nav_prev (r m) m" at
proof (unfold_locales, goal_cases)
  case (1 xs i s)
  then show ?case by (simp add: at_def cont_at_def)
next
  case (2 xs i s)
  then show ?case by (simp add: at_def cont_at_def linked_def)
next
  case (3 xs i s)
  then have "0 < length xs" by (auto simp: at_def cont_at_def)
  then show ?case using at_set [OF 3] 3 by (simp add: nav_first_def at_def cont_at_def)
next
  case (4 xs i s)
  then have "length xs - 1 < length xs" by (auto simp: at_def cont_at_def)
  then show ?case using at_set [OF 4] 4 by (simp add: nav_last_def at_def cont_at_def)
next
  case (5 xs i s)
  then show ?case by (simp add: nav_current_def at_def cont_at_def)
next
  case (6 xs i s)
  then show ?case using at_set [OF 6] nav_next_at [of "r s" xs i s] by (simp add: at_def)
next
  case (7 xs i s)
  then show ?case using nav_next_at [of "r s" xs i s] by (simp add: at_def)
next
  case (8 xs i s)
  then have "i < length xs" by (simp add: at_def cont_at_def)
  then show ?case using at_set [OF 8] 8 nav_prev_at [of "r s" xs "Suc i" s] by (simp add: at_def)
next
  case (9 xs s)
  then show ?case using nav_prev_at [of "r s" xs 0 s] by (simp add: at_def)
qed

section \<open>The families\<close>

interpretation huelle: resolver "resolve h ch" for h ch
  by unfold_locales (simp add: resolve_def Let_def)

interpretation hilf: resolver "resolve_hilf h ch" for h ch
  by unfold_locales (simp add: resolve_hilf_def resolve_wrap_def Let_def)

interpretation rot3D: resolver "resolve_rot3D h ch" for h ch
  by unfold_locales (simp add: resolve_rot3D_def resolve_wrap_def Let_def)

interpretation box3D: resolver "resolve_box3D h ch" for h ch
  by unfold_locales (simp add: resolve_box3D_def resolve_wrap_def Let_def)

definition huelle_family where
  "huelle_family = Family dkomp_nw_get_huelle_first dkomp_nw_get_huelle_last dkomp_nw_get_huelle_current
     dkomp_nw_get_huelle_next dkomp_nw_get_huelle_prev"

definition hilf_family where
  "hilf_family = Family dkomp_nw_get_hilf_first dkomp_nw_get_hilf_last dkomp_nw_get_hilf_current
     dkomp_nw_get_hilf_next dkomp_nw_get_hilf_prev"

definition families where
  "families = [(huelle_family, resolve), (hilf_family, resolve_hilf),
     (dkomp_nw_get_rot3D, resolve_rot3D), (dkomp_nw_get_box3D, resolve_box3D)]"

lemma family_shape:
  assumes "(fam, r) \<in> set families"
  shows "fam_first fam h ch = (\<lambda>m. nav_first (r h ch m) m)" "fam_last fam h ch = (\<lambda>m. nav_last (r h ch m) m)"
    "fam_current fam h ch = (\<lambda>m. nav_current (r h ch m) m)" "fam_next fam h ch = (\<lambda>m. nav_next (r h ch m) m)"
    "fam_prev fam h ch = (\<lambda>m. nav_prev (r h ch m) m)"
  using assms
  by (auto simp: families_def huelle_family_def hilf_family_def dkomp_nw_get_rot3D_def dkomp_nw_get_box3D_def DKOMP_NAV_FAMILY_def
      dkomp_nw_get_huelle_first_def dkomp_nw_get_huelle_last_def dkomp_nw_get_huelle_current_def dkomp_nw_get_huelle_next_def
      dkomp_nw_get_huelle_prev_def dkomp_nw_get_hilf_first_def dkomp_nw_get_hilf_last_def dkomp_nw_get_hilf_current_def
      dkomp_nw_get_hilf_next_def dkomp_nw_get_hilf_prev_def fun_eq_iff)

text \<open>
  C28. Each of the four families walks its list: from any cursor position, \<open>first\<close> and then \<open>next\<close> until nothing
  comes give every node once and in order, \<open>last\<close> and then \<open>prev\<close> give them all backwards, and the list is as it
  was, with the cursor at its head.
\<close>

theorem dkomp_tour:
  assumes "(fam, r) \<in> set families" and "cont_at (r h ch m) xs i m" and "length xs \<le> k"
  shows "\<exists>m1 m2 m3 m4. fam_first fam h ch m = Some (hd xs, m1) \<and> walk (fam_next fam h ch) k m1 = Some (tl xs, m2) \<and>
    fam_last fam h ch m2 = Some (last xs, m3) \<and> walk (fam_prev fam h ch) k m3 = Some (rev (butlast xs), m4) \<and>
    cont_at (r h ch m4) xs 0 m4"
  unfolding family_shape [OF assms(1)]
  using assms huelle.tour [of h ch xs i m k] hilf.tour [of h ch xs i m k] rot3D.tour [of h ch xs i m k] box3D.tour [of h ch xs i m k]
  by (auto simp: families_def huelle.at_def hilf.at_def rot3D.at_def box3D.at_def)

text \<open>Three nodes in a container, reached through each kind of slot.\<close>

definition dk_node :: "u32 \<Rightarrow> dnode" where
  "dk_node a = (if a = 0x10 then \<lparr>n_next = 0x20, n_prev = 0\<rparr>
     else if a = 0x20 then \<lparr>n_next = 0x30, n_prev = 0x10\<rparr> else \<lparr>n_next = 0, n_prev = 0x20\<rparr>)"

definition dk_demo :: dmem where
  "dk_demo = \<lparr>m_node = dk_node, m_cont = (\<lambda>_. \<lparr>c_head = 0x10, c_tail = 0x30, c_cursor = 0x20\<rparr>), m_slot = (\<lambda>_ _. 0x50),
     m_holder = (\<lambda>_. 0x60), m_hilf = (\<lambda>_. 0x60), m_rot3D = (\<lambda>_. 0x60), m_box3D = (\<lambda>_. 0x60),
     m_edge = (\<lambda>_. \<lparr>e_container = 0x60, e_start = 0x20, e_end = 0x30\<rparr>)\<rparr>"

lemma dk_demo_linked: "linked dk_demo [0x10, 0x20, 0x30]"
  by (simp add: linked_def dk_demo_def dk_node_def less_Suc_eq)

lemma dkomp_tour_witness:
  "\<exists>m1 m2. fam_first dkomp_nw_get_box3D 0x40 1 dk_demo = Some (0x10, m1) \<and>
     walk (fam_next dkomp_nw_get_box3D 0x40 1) 3 m1 = Some ([0x20, 0x30], m2)"
proof -
  have "(dkomp_nw_get_box3D, resolve_box3D) \<in> set families" by (simp add: families_def)
  moreover have "cont_at (resolve_box3D 0x40 1 dk_demo) [0x10, 0x20, 0x30] 1 dk_demo"
    using dk_demo_linked by (simp add: cont_at_def resolve_box3D_def resolve_wrap_def dk_demo_def)
  ultimately show ?thesis using dkomp_tour [of dkomp_nw_get_box3D resolve_box3D "0x40" 1 dk_demo _ _ 3] by fastforce
qed

section \<open>Edges\<close>

text \<open>The caller passes each node back.\<close>

fun walk_from :: "(u32 \<Rightarrow> 's \<Rightarrow> (u32 \<times> 's) option) \<Rightarrow> nat \<Rightarrow> u32 \<Rightarrow> 's \<Rightarrow> (u32 list \<times> 's) option" where
  "walk_from step 0 p s = None"
| "walk_from step (Suc k) p s =
     (case step p s of
        None \<Rightarrow> None
      | Some (q, s1) \<Rightarrow>
          if q = 0 then Some ([], s1)
          else (case walk_from step k q s1 of None \<Rightarrow> None | Some (ps, s2) \<Rightarrow> Some (q # ps, s2)))"

definition edge_at :: "u32 \<Rightarrow> u8 \<Rightarrow> u32 list \<Rightarrow> nat \<Rightarrow> nat \<Rightarrow> dmem \<Rightarrow> bool" where
  "edge_at h ch xs i j m \<longleftrightarrow> linked m xs \<and> distinct xs \<and> i \<le> j \<and> j < length xs \<and> h \<noteq> 0 \<and> m_slot m h (slot_ix ch) \<noteq> 0 \<and>
     e_container (m_edge m (m_slot m h (slot_ix ch))) \<noteq> 0 \<and>
     e_start (m_edge m (m_slot m h (slot_ix ch))) = xs ! i \<and> e_end (m_edge m (m_slot m h (slot_ix ch))) = xs ! j"

lemma int_channel: "unat (ucast ((ucast ch :: u32) - 1) :: u8) = slot_ix ch"
proof -
  have "uint ch mod 4294967296 = uint ch" using unsigned_less [of ch, where ?'a = int] by simp
  then have "ucast ((ucast ch :: u32) - 1) = ch - 1"
    by (intro word_uint_eqI)
      (simp add: uint_word_ariths unsigned_ucast_eq take_bit_eq_mod mod_mod_cancel flip: unsigned_take_bit_eq)
  then show ?thesis by (simp add: slot_ix_def)
qed

lemma edge_at_cursor [simp]: "edge_at h ch xs i j (set_cursor c p m) = edge_at h ch xs i j m"
  by (simp add: edge_at_def)

lemma edge_node:
  assumes "edge_at h ch xs i j m" and "n \<le> j"
  shows "xs ! n \<noteq> 0" and "xs ! n = xs ! j \<longleftrightarrow> n = j" and "xs ! n = xs ! i \<longleftrightarrow> n = i"
proof -
  have n: "n < length xs" "i < length xs" "j < length xs" using assms by (simp_all add: edge_at_def)
  show "xs ! n \<noteq> 0" using assms(1) n(1) unfolding edge_at_def linked_def by (metis nth_mem)
  show "xs ! n = xs ! j \<longleftrightarrow> n = j" "xs ! n = xs ! i \<longleftrightarrow> n = i"
    using assms(1) n by (simp_all add: edge_at_def nth_eq_iff_index_eq)
qed

lemma edge_next_at:
  assumes "edge_at h ch xs i j m" and "n \<le> j"
  defines "c \<equiv> e_container (m_edge m (m_slot m h (slot_ix ch)))"
  shows "dkomp_nw_get_edge_next h (ucast ch) (xs ! n) m
    = (if n = j then Some (0, m) else Some (xs ! Suc n, set_cursor c (xs ! Suc n) m))"
proof (cases "n = j")
  case True
  then show ?thesis using assms(1) edge_node(1) [OF assms(1,2)]
    by (simp add: dkomp_nw_get_edge_next_def edge_step_def int_channel edge_at_def)
next
  case False
  then have "n_next (m_node m (xs ! n)) = xs ! Suc n" using assms(1,2) by (simp add: edge_at_def linked_def)
  then show ?thesis using assms False edge_node(1,2) [OF assms(1,2)]
    by (simp add: dkomp_nw_get_edge_next_def edge_step_def int_channel edge_at_def eq_commute [of "xs ! j"])
qed

lemma edge_prev_at:
  assumes "edge_at h ch xs i j m" and "i \<le> n" "n \<le> j"
  defines "c \<equiv> e_container (m_edge m (m_slot m h (slot_ix ch)))"
  shows "dkomp_nw_get_edge_prev h (ucast ch) (xs ! n) m
    = (if n = i then Some (0, m) else Some (xs ! (n - 1), set_cursor c (xs ! (n - 1)) m))"
proof (cases "n = i")
  case True
  then show ?thesis using assms(1) edge_node(1) [OF assms(1,3)]
    by (simp add: dkomp_nw_get_edge_prev_def edge_step_def int_channel edge_at_def)
next
  case False
  then obtain l where l: "n = Suc l" using assms(2) by (cases n) auto
  then have "n_prev (m_node m (xs ! n)) = xs ! l" using assms(1,3) by (simp add: edge_at_def linked_def)
  then show ?thesis using assms False l edge_node(1,3) [OF assms(1,3)]
    by (simp add: dkomp_nw_get_edge_prev_def edge_step_def int_channel edge_at_def eq_commute [of "xs ! i"])
qed

lemma edge_forward:
  "edge_at h ch xs i j m \<Longrightarrow> n \<le> j \<Longrightarrow> j - n < k \<Longrightarrow>
     \<exists>m'. walk_from (dkomp_nw_get_edge_next h (ucast ch)) k (xs ! n) m = Some (map ((!) xs) [Suc n..<Suc j], m')
       \<and> edge_at h ch xs i j m'"
proof (induction k arbitrary: n m)
  case (Suc k)
  note st = edge_next_at [OF Suc.prems(1,2)]
  show ?case
  proof (cases "n = j")
    case True
    then show ?thesis using st Suc.prems(1) by simp
  next
    case False
    then have n: "Suc n \<le> j" using Suc.prems(2) by simp
    let ?m1 = "set_cursor (e_container (m_edge m (m_slot m h (slot_ix ch)))) (xs ! Suc n) m"
    have "edge_at h ch xs i j ?m1" and "j - Suc n < k" using Suc.prems n by auto
    from Suc.IH [OF this(1) n this(2)]
    obtain m' where "walk_from (dkomp_nw_get_edge_next h (ucast ch)) k (xs ! Suc n) ?m1 = Some (map ((!) xs) [Suc (Suc n)..<Suc j], m')"
      "edge_at h ch xs i j m'" by blast
    moreover have "[Suc n..<Suc j] = Suc n # [Suc (Suc n)..<Suc j]" using n by (simp add: upt_conv_Cons)
    ultimately show ?thesis using st False edge_node(1) [OF Suc.prems(1) n] by simp
  qed
qed simp

lemma edge_backward:
  "edge_at h ch xs i j m \<Longrightarrow> i \<le> n \<Longrightarrow> n \<le> j \<Longrightarrow> n - i < k \<Longrightarrow>
     \<exists>m'. walk_from (dkomp_nw_get_edge_prev h (ucast ch)) k (xs ! n) m = Some (rev (map ((!) xs) [i..<n]), m')
       \<and> edge_at h ch xs i j m'"
proof (induction k arbitrary: n m)
  case (Suc k)
  note st = edge_prev_at [OF Suc.prems(1-3)]
  show ?case
  proof (cases "n = i")
    case True
    then show ?thesis using st Suc.prems(1) by simp
  next
    case False
    then obtain l where l: "n = Suc l" "i \<le> l" "l \<le> j" using Suc.prems(2,3) by (cases n) auto
    let ?m1 = "set_cursor (e_container (m_edge m (m_slot m h (slot_ix ch)))) (xs ! l) m"
    have "edge_at h ch xs i j ?m1" and "l - i < k" using Suc.prems l by auto
    from Suc.IH [OF this(1) l(2,3) this(2)]
    obtain m' where "walk_from (dkomp_nw_get_edge_prev h (ucast ch)) k (xs ! l) ?m1 = Some (rev (map ((!) xs) [i..<l]), m')"
      "edge_at h ch xs i j m'" by blast
    then show ?thesis using st False l edge_node(1) [OF Suc.prems(1) l(3)] by simp
  qed
qed simp

text \<open>
  The edge navigators stay between the two nodes of the descriptor: from \<open>edge_start\<close>, passing each node
  back to \<open>edge_next\<close>, exactly the nodes from start to end come, once and in order, and from \<open>edge_end\<close> with
  \<open>edge_prev\<close> the same nodes backwards, although the list goes on at both sides.
\<close>

theorem dkomp_edge_walk:
  assumes "edge_at h ch xs i j m" and "j - i < k"
  defines "seg \<equiv> map ((!) xs) [i..<Suc j]"
  shows "\<exists>m1 m2 m3 m4. dkomp_nw_get_edge_start h ch m = Some (hd seg, m1) \<and>
      walk_from (dkomp_nw_get_edge_next h (ucast ch)) k (hd seg) m1 = Some (tl seg, m2) \<and>
      dkomp_nw_get_edge_end h ch m2 = Some (last seg, m3) \<and>
      walk_from (dkomp_nw_get_edge_prev h (ucast ch)) k (last seg) m3 = Some (rev (butlast seg), m4)"
proof -
  have ij: "i \<le> j" using assms(1) by (simp add: edge_at_def)
  have "seg = xs ! i # map ((!) xs) [Suc i..<Suc j]"
    unfolding seg_def by (simp only: upt_conv_Cons [OF le_imp_less_Suc [OF ij]] list.map)
  moreover have "seg = map ((!) xs) [i..<j] @ [xs ! j]" using ij by (simp add: seg_def)
  ultimately have "hd seg = xs ! i" "tl seg = map ((!) xs) [Suc i..<Suc j]" "last seg = xs ! j" "butlast seg = map ((!) xs) [i..<j]"
    by (metis list.sel, metis list.sel, metis last_snoc, metis butlast_snoc)
  note s = this
  have jump: "\<exists>m1. dkomp_nw_get_edge_start h ch m = Some (xs ! i, m1) \<and> edge_at h ch xs i j m1"
    "\<exists>m1. dkomp_nw_get_edge_end h ch m = Some (xs ! j, m1) \<and> edge_at h ch xs i j m1" if "edge_at h ch xs i j m" for m
    using that by (auto simp: dkomp_nw_get_edge_start_def dkomp_nw_get_edge_end_def edge_jump_def Let_def)
      (auto simp: edge_at_def)
  obtain m1 where m1: "dkomp_nw_get_edge_start h ch m = Some (xs ! i, m1)" "edge_at h ch xs i j m1"
    using jump(1) [OF assms(1)] by blast
  obtain m2 where m2: "walk_from (dkomp_nw_get_edge_next h (ucast ch)) k (xs ! i) m1 = Some (tl seg, m2)" "edge_at h ch xs i j m2"
    using edge_forward [OF m1(2) ij assms(2)] unfolding s by blast
  obtain m3 where m3: "dkomp_nw_get_edge_end h ch m2 = Some (xs ! j, m3)" "edge_at h ch xs i j m3"
    using jump(2) [OF m2(2)] by blast
  obtain m4 where "walk_from (dkomp_nw_get_edge_prev h (ucast ch)) k (xs ! j) m3 = Some (rev (butlast seg), m4)"
    using edge_backward [OF m3(2) ij order_refl assms(2)] unfolding s by blast
  then show ?thesis using m1(1) m2(1) m3(1) unfolding s(1,3) by blast
qed

lemma dkomp_edge_walk_witness:
  "\<exists>m1 m2. dkomp_nw_get_edge_start 0x40 1 dk_demo = Some (0x20, m1) \<and>
     walk_from (dkomp_nw_get_edge_next 0x40 1) 2 0x20 m1 = Some ([0x30], m2)"
proof -
  have "edge_at 0x40 1 [0x10, 0x20, 0x30] 1 2 dk_demo"
    using dk_demo_linked by (simp add: edge_at_def) (simp add: dk_demo_def)
  then show ?thesis
    using dkomp_edge_walk [of "0x40" 1 "[0x10, 0x20, 0x30]" 1 2 dk_demo 2] by (fastforce simp: upt_rec)
qed

end
