(* ===== verification/Wznorm.thy ===== *)
theory Wznorm
  imports Environ
begin

text \<open>
  \<open>src/recomp/wznorm/libEp90_Wznorm_partial_rebuilt.c\<close>: the codec between the packed tool code (main type
  times 256, sub type times 16, variant) and its decimal spelling, and the predicate for outer tools.
\<close>

section \<open>The codec\<close>

definition GeotecToIntWkzTyp :: "int \<Rightarrow> int" where
  "GeotecToIntWkzTyp c =
     (let lo = cmod c 0x100; lo256 = (if lo < 0 then lo + 0xf else lo);
          q256 = (if 0 \<le> c then c else c + 0xff)
      in q256 div 256 * 100 + lo256 div 16 * 10 + cmod c 0x10)"

definition IntToGeotecWkzTyp :: "int \<Rightarrow> int" where
  "IntToGeotecWkzTyp v = long32 ((cdiv (cmod v 100) 10 + cdiv v 100 * 0x10) * 0x10 + cmod v 10)"

text \<open>\<open>strtol(s, 0, 10)\<close> with a 64-bit \<open>long\<close>.\<close>

definition strtol10 :: "string \<Rightarrow> int" where
  "strtol10 s = (case signed_num (num_loop 10 0) s of
     (neg, v) \<Rightarrow> if neg then max (- (2 ^ 63)) (- int v) else min (2 ^ 63 - 1) (int v))"

definition AsciiToGeotecWkzTyp :: "string \<Rightarrow> int" where
  "AsciiToGeotecWkzTyp s =
     (let e = (word_of_int (strtol10 s) :: u32) in if e - 0xb < 0x3dd then IntToGeotecWkzTyp (sint e) else 0)"

section \<open>Tool classes\<close>

text \<open>A tool is its field at offset 0xd8: the result, then main type, sub type and variant.\<close>

definition WerkzeugTyp :: "int option \<Rightarrow> int \<times> int \<times> int \<times> int" where
  "WerkzeugTyp tool =
     (case tool of
        None \<Rightarrow> (0, 0, 0, 0)
      | Some f \<Rightarrow>
          let q = (if 0 \<le> f then f else f + 0xff); main = q div 256;
              r = cmod f 0x100; sub = (if r < 0 then r + 0xf else r) div 16
          in (if main = 0 then sub else main, main, sub, cmod f 0x10))"

definition wz_outer :: "int \<Rightarrow> u32 \<Rightarrow> u32 \<Rightarrow> bool" where
  "wz_outer main sub var =
     (let joined = (\<lambda>x::u32. if x < 2 then var AND 0xfffffffd \<noteq> 5 else True) in
      if main = 1 then
        (if 0xc < sint (sub + 10) then joined (sub - 4)
         else if 10 < sint (sub + 10) then 2 < var - 5 else True)
      else if main = 2 then (if sub = 1 then 2 < var - 5 else joined (sub - 6))
      else if main = 3 then 6 < sub - 1 \<or> var \<noteq> 6
      else if main = 4 then
        (if sint (sub + 0x28) < 0x2d then (if sint (sub + 0x28) < 0x2a then True else var \<noteq> 6)
         else if 2 < sub - 7 then True else var \<noteq> 6)
      else if main = 5 then
        (let i = sint (sub + 0x32) in
         if i < 0x35 then (if i < 0x33 then True else var \<noteq> 6) else if i \<noteq> 0x38 then True else var \<noteq> 6)
      else if main = 6 then
        (if sub - 1 < 7 then (if push_bit (unat ((sub - 1) AND 0x1f)) 1 AND (0x6d :: u32) \<noteq> 0 then var \<noteq> 6 else True)
         else True)
      else True)"

definition WZ_IsAussenWkz :: "int option \<Rightarrow> bool" where
  "WZ_IsAussenWkz tool = (let (ret, main, s, v) = WerkzeugTyp tool in wz_outer main (word_of_int s) (word_of_int v))"

section \<open>Properties\<close>

lemma cdiv_uminus: "cdiv (- a) b = - cdiv a b"
  by (simp add: cdiv_def)

lemma cmod_uminus: "cmod (- a) b = - cmod a b"
  by (simp add: cmod_def cdiv_uminus)

lemma long32_id: "- (2 ^ 31) \<le> x \<Longrightarrow> x < 2 ^ 31 \<Longrightarrow> long32 x = x"
  unfolding long32_def by (simp add: sint_sbintrunc' signed_take_bit_int_eq_self)

text \<open>Three digits of a number, and its code.\<close>

lemma decimal_digits:
  fixes v :: int
  obtains h t u where "v div 100 = h" "v mod 100 div 10 = t" "v mod 10 = u" "v = h * 100 + t * 10 + u"
    "0 \<le> t" "t < 10" "0 \<le> u" "u < 10" "v mod 100 = t * 10 + u"
proof -
  let ?m = "v mod 100"
  have m: "0 \<le> ?m" "?m < 100" by simp_all
  have u: "?m mod 10 = v mod 10" by (simp add: mod_mod_cancel)
  have d: "v div 100 * 100 + ?m = v" "?m div 10 * 10 + v mod 10 = ?m" "0 \<le> v mod 10" "v mod 10 < 10"
    using div_mult_mod_eq [of v 100] div_mult_mod_eq [of ?m 10] u by simp_all
  then have "?m div 10 < 10" "0 \<le> ?m div 10" using m by linarith+
  then show thesis using that [of "v div 100" "?m div 10" "v mod 10"] d by simp
qed

lemma div_mirror: "0 < n \<Longrightarrow> (n - 1 - c) div n = - (c div n)" for c n :: int
proof -
  assume n: "0 < n"
  have "n - 1 - c = n * (- (c div n)) + (n - 1 - c mod n)" 
  proof -
    have "n * (- (c div n)) = - (n * (c div n))" by simp
    then show ?thesis using mult_div_mod_eq [of n c] by linarith
  qed
  then show ?thesis by (rule int_div_pos_eq) (use pos_mod_sign [OF n, of c] pos_mod_bound [OF n, of c] in linarith)+
qed

lemma int_to_geotec_pos:
  assumes "0 \<le> v" and "v < 838860800"
  shows "IntToGeotecWkzTyp v = v div 100 * 256 + v mod 100 div 10 * 16 + v mod 10"
proof -
  obtain h t u where d: "v div 100 = h" "v mod 100 div 10 = t" "v mod 10 = u" "v = h * 100 + t * 10 + u"
    "0 \<le> t" "t < 10" "0 \<le> u" "u < 10" by (rule decimal_digits)
  have h: "0 \<le> h" "h < 8388608" using d assms by linarith+
  have "(cdiv (cmod v 100) 10 + cdiv v 100 * 0x10) * 0x10 + cmod v 10 = h * 256 + t * 16 + u"
    using assms(1) by (simp add: cdiv_nonneg cmod_nonneg d(1-3))
  moreover have "long32 (h * 256 + t * 16 + u) = h * 256 + t * 16 + u"
    by (rule long32_id) (use h d(5-8) in \<open>simp_all\<close>)
  ultimately show ?thesis by (simp add: IntToGeotecWkzTyp_def d(1-3))
qed

lemma int_to_geotec_neg: "- 838860800 < v \<Longrightarrow> v \<le> 0 \<Longrightarrow> IntToGeotecWkzTyp v = - IntToGeotecWkzTyp (- v)"
proof -
  assume v: "- 838860800 < v" "v \<le> 0"
  have p: "IntToGeotecWkzTyp (- v) = (- v) div 100 * 256 + (- v) mod 100 div 10 * 16 + (- v) mod 10"
    by (rule int_to_geotec_pos) (use v in simp_all)
  let ?x = "(cdiv (cmod (- v) 100) 10 + cdiv (- v) 100 * 0x10) * 0x10 + cmod (- v) 10"
  have e: "(cdiv (cmod v 100) 10 + cdiv v 100 * 0x10) * 0x10 + cmod v 10 = - ?x"
    using cdiv_uminus [of v 100] cmod_uminus [of v 100] cmod_uminus [of v 10] cdiv_uminus [of "cmod v 100" 10] by simp
  have x: "?x = (- v) div 100 * 256 + (- v) mod 100 div 10 * 16 + (- v) mod 10"
    using v(2) by (simp add: cdiv_nonneg cmod_nonneg)
  obtain h t u where d: "(- v) div 100 = h" "(- v) mod 100 div 10 = t" "(- v) mod 10 = u" "- v = h * 100 + t * 10 + u"
    "0 \<le> t" "t < 10" "0 \<le> u" "u < 10" by (rule decimal_digits [of "- v"])
  have "0 \<le> h" "h < 8388608" using d v by linarith+
  then have "0 \<le> ?x" "?x < 2 ^ 31" unfolding x d(1-3) using d(5-8) by simp_all
  then have "long32 (- ?x) = - ?x" by (intro long32_id) simp_all
  then show ?thesis unfolding p x [symmetric] by (simp only: IntToGeotecWkzTyp_def e)
qed

lemma geotec_to_int_pos: "0 \<le> c \<Longrightarrow> GeotecToIntWkzTyp c = c div 256 * 100 + c mod 256 div 16 * 10 + c mod 16"
  by (simp add: GeotecToIntWkzTyp_def cmod_nonneg Let_def)

lemma trunc16: "0 \<le> m \<Longrightarrow> (if - m < 0 then - m + 0xf else - m) div 16 = - (m div 16)" for m :: int
  using div_mirror [of 16 m] by (cases "m = 0") (simp_all add: add.commute)

lemma trunc256: "0 \<le> c \<Longrightarrow> (if 0 \<le> - c then - c else - c + 0xff) div 256 = - (c div 256)" for c :: int
  using div_mirror [of 256 c] by (cases "c = 0") (simp_all add: add.commute)

lemma geotec_to_int_uminus: "0 \<le> c \<Longrightarrow> GeotecToIntWkzTyp (- c) = - GeotecToIntWkzTyp c"
proof -
  assume c: "0 \<le> c"
  have m: "cmod (- c) 0x100 = - (c mod 0x100)" "cmod (- c) 0x10 = - (c mod 0x10)" using c by (simp_all add: cmod_uminus cmod_nonneg)
  have "0 \<le> c mod 0x100" by simp
  from trunc16 [OF this] show ?thesis
    unfolding GeotecToIntWkzTyp_def [of "- c"] geotec_to_int_pos [OF c] Let_def m trunc256 [OF c] by simp
qed

lemma digits_back:
  assumes "0 \<le> (v::int)"
  defines "c \<equiv> v div 100 * 256 + v mod 100 div 10 * 16 + v mod 10"
  shows "c div 256 * 100 + c mod 256 div 16 * 10 + c mod 16 = v"
proof -
  obtain h t u where d: "v div 100 = h" "v mod 100 div 10 = t" "v mod 10 = u" "v = h * 100 + t * 10 + u"
    "0 \<le> t" "t < 10" "0 \<le> u" "u < 10" by (rule decimal_digits)
  have c: "c = h * 256 + (t * 16 + u)" by (simp add: c_def d(1-3))
  have "c div 256 = h" "c mod 256 = t * 16 + u" unfolding c using d(5-8) by simp_all
  moreover have "(t * 16 + u) div 16 = t" "c mod 16 = u"
    using d(1,5-8) mod_mod_cancel [of 16 256 c] \<open>c mod 256 = t * 16 + u\<close> by simp_all
  ultimately show ?thesis using d(4) by simp
qed

lemma wz_code_pos:
  assumes "0 \<le> x" and "x < 838860800"
  shows "GeotecToIntWkzTyp (IntToGeotecWkzTyp x) = x" and "0 \<le> IntToGeotecWkzTyp x"
proof -
  note c = int_to_geotec_pos [OF assms]
  have "0 \<le> x div 100 * 256" "0 \<le> x mod 100 div 10 * 16" "0 \<le> x mod 10"
    using assms(1) by (simp_all add: pos_imp_zdiv_nonneg_iff)
  then show p: "0 \<le> IntToGeotecWkzTyp x" unfolding c by (intro add_nonneg_nonneg)
  show "GeotecToIntWkzTyp (IntToGeotecWkzTyp x) = x"
    unfolding geotec_to_int_pos [OF p] by (unfold c) (rule digits_back [OF assms(1)])
qed

text \<open>
  The codec gives back every decimal tool number, negative ones too, as far as the packed code fits an
  \<open>int\<close>.
\<close>

theorem wz_code_roundtrip:
  assumes "\<bar>v\<bar> < 838860800"
  shows "GeotecToIntWkzTyp (IntToGeotecWkzTyp v) = v"
proof (cases "0 \<le> v")
  case True
  then show ?thesis using assms by (intro wz_code_pos(1)) simp_all
next
  case False
  then have v: "IntToGeotecWkzTyp v = - IntToGeotecWkzTyp (- v)" using assms by (intro int_to_geotec_neg) simp_all
  have "GeotecToIntWkzTyp (IntToGeotecWkzTyp (- v)) = - v" "0 \<le> IntToGeotecWkzTyp (- v)"
    using False assms by (intro wz_code_pos; simp)+
  then show ?thesis unfolding v by (simp only: geotec_to_int_uminus minus_minus)
qed

lemma wz_code_roundtrip_witness: "GeotecToIntWkzTyp (IntToGeotecWkzTyp (- 123)) = - 123"
  using wz_code_roundtrip [of "- 123"] by simp

section \<open>Inner tools\<close>

text \<open>The table behind the predicate: main type, sub type, variant of the tools that are not outer ones.\<close>

definition wz_inner :: "int \<Rightarrow> int \<Rightarrow> int \<Rightarrow> bool" where
  "wz_inner m s v =
     (if m = 1 then s \<in> {1, 2} \<and> v \<in> {5, 6, 7} \<or> s \<in> {4, 5} \<and> v \<in> {5, 7}
      else if m = 2 then s = 1 \<and> v \<in> {5, 6, 7} \<or> s \<in> {6, 7} \<and> v \<in> {5, 7}
      else if m = 3 then s \<in> {1, 2, 3, 4, 5, 6, 7} \<and> v = 6
      else if m = 4 then s \<in> {2, 3, 4, 7, 8, 9} \<and> v = 6
      else if m = 5 then s \<in> {1, 2, 6} \<and> v = 6
      else m = 6 \<and> s \<in> {1, 3, 4, 6, 7} \<and> v = 6)"

definition nibbles :: "int list" where "nibbles = [0, 1, 2, 3, 4, 5, 6, 7, 8, 9, 10, 11, 12, 13, 14, 15]"

definition wz_agree :: "int \<Rightarrow> bool" where
  "wz_agree m = list_all (\<lambda>s. list_all (\<lambda>v. wz_outer m (word_of_int s) (word_of_int v) = (\<not> wz_inner m s v)) nibbles) nibbles"

lemma wz_agree_all: "wz_agree 1" "wz_agree 2" "wz_agree 3" "wz_agree 4" "wz_agree 5" "wz_agree 6"
  by (code_simp, code_simp, code_simp, code_simp, code_simp, code_simp)

lemma in_nibbles: "0 \<le> x \<Longrightarrow> x < 16 \<Longrightarrow> x \<in> set nibbles"
  unfolding nibbles_def by (simp, presburger)

lemma wz_outer_digits:
  assumes "0 \<le> s" "s < 16" "0 \<le> v" "v < 16"
  shows "wz_outer m (word_of_int s) (word_of_int v) = (\<not> wz_inner m s v)"
proof (cases "m \<in> {1, 2, 3, 4, 5, 6}")
  case True
  then have "wz_agree m" using wz_agree_all by auto
  then show ?thesis using in_nibbles assms by (simp add: wz_agree_def list_all_iff)
next
  case False
  then show ?thesis by (simp add: wz_outer_def wz_inner_def Let_def)
qed

lemma wz_decimal:
  assumes "0 \<le> n" and "n < 838860800"
  shows "WZ_IsAussenWkz (Some (IntToGeotecWkzTyp n)) = (\<not> wz_inner (n div 100) (n mod 100 div 10) (n mod 10))"
proof -
  obtain h t u where d: "n div 100 = h" "n mod 100 div 10 = t" "n mod 10 = u" "n = h * 100 + t * 10 + u"
    "0 \<le> t" "t < 10" "0 \<le> u" "u < 10" by (rule decimal_digits)
  let ?c = "h * 256 + (t * 16 + u)"
  have c: "IntToGeotecWkzTyp n = ?c" using int_to_geotec_pos [OF assms] by (simp add: d(1-3))
  have "0 \<le> h" unfolding d(1) [symmetric] using assms(1) by (simp add: pos_imp_zdiv_nonneg_iff)
  then have p: "0 \<le> ?c" using d(5,7) by simp
  have m: "?c div 256 = h" "?c mod 256 = t * 16 + u" using d(5-8) by simp_all
  moreover have "?c mod 16 = u" using mod_mod_cancel [of 16 256 ?c] d(5-8) unfolding m by simp
  moreover have "(t * 16 + u) div 16 = t" using d(5-8) by simp
  moreover have "0 \<le> t * 16 + u" using d(5-8) by simp
  ultimately have "WerkzeugTyp (Some ?c) = (if h = 0 then t else h, h, t, u)"
    using p by (simp only: WerkzeugTyp_def option.case Let_def cmod_nonneg [OF p] if_True not_less [symmetric] if_False)
      (simp add: cmod_nonneg)
  then show ?thesis unfolding c d(1-3) WZ_IsAussenWkz_def using wz_outer_digits [of t u h] d(5-8) by simp
qed

lemma ascii_range:
  assumes "- (2 ^ 31) \<le> strtol10 s" and "strtol10 s < 2 ^ 31"
  shows "AsciiToGeotecWkzTyp s = (if 11 \<le> strtol10 s \<and> strtol10 s \<le> 999 then IntToGeotecWkzTyp (strtol10 s) else 0)"
proof -
  let ?n = "strtol10 s"
  have sn: "sint (word_of_int ?n :: u32) = ?n"
    using assms by (simp add: sint_sbintrunc' signed_take_bit_int_eq_self)
  have "(word_of_int ?n :: u32) - 0xb = word_of_int (?n - 11)" by simp
  then have "(word_of_int ?n - (0xb :: u32) < 0x3dd) = ((?n - 11) mod 2 ^ 32 < 989)"
    by (simp add: word_less_def uint_word_of_int del: of_int_diff)
  also have "\<dots> = (11 \<le> ?n \<and> ?n \<le> 999)"
  proof (cases "11 \<le> ?n")
    case True
    then show ?thesis using assms(2) by (simp add: mod_pos_pos_trivial) linarith
  next
    case False
    have "(?n - 11) mod 2 ^ 32 = ?n - 11 + 2 ^ 32"
      by (rule int_mod_pos_eq [of _ _ "- 1"]) (use False assms(1) in simp_all)
    then show ?thesis using False assms(1) by simp
  qed
  finally show ?thesis by (simp add: AsciiToGeotecWkzTyp_def Let_def sn)
qed

text \<open>
  C29. From the spelling to the class: for a tool number given as a decimal string, the predicate on the code
  that the string converts to says exactly whether the number's digits (main type, sub type, variant) are missing
  in the table of inner tools; numbers outside 11 to 999 have no code and count as outer.
\<close>

theorem wz_inner_table:
  assumes "- (2 ^ 31) \<le> strtol10 s" and "strtol10 s < 2 ^ 31"
  defines "n \<equiv> strtol10 s"
  shows "WZ_IsAussenWkz (Some (AsciiToGeotecWkzTyp s))
    = (n < 11 \<or> 999 < n \<or> \<not> wz_inner (n div 100) (n mod 100 div 10) (n mod 10))"
proof (cases "11 \<le> n \<and> n \<le> 999")
  note r = ascii_range [OF assms(1,2), folded n_def]
  case True
  then have "AsciiToGeotecWkzTyp s = IntToGeotecWkzTyp n" unfolding r by simp
  then show ?thesis using wz_decimal [of n] True by auto
next
  note r = ascii_range [OF assms(1,2), folded n_def]
  case False
  then have "AsciiToGeotecWkzTyp s = 0" unfolding r by (simp only: if_False)
  moreover have "WZ_IsAussenWkz (Some 0)" by code_simp
  moreover have "n < 11 \<or> 999 < n" using False by linarith
  ultimately show ?thesis by (simp only:) blast
qed

lemma wz_inner_table_witness:
  "\<not> WZ_IsAussenWkz (Some (AsciiToGeotecWkzTyp ''126'')) \<and> WZ_IsAussenWkz (Some (AsciiToGeotecWkzTyp '' 127x''))
   = (\<not> wz_inner 1 2 7)"
proof -
  have n: "strtol10 ''126'' = 126" "strtol10 '' 127x'' = 127" by (code_simp, code_simp)
  show ?thesis using wz_inner_table [of "''126''"] wz_inner_table [of "'' 127x''"] by (simp add: n wz_inner_def)
qed

end
