(* ===== verification/PlcCond.thy ===== *)
theory PlcCond
  imports Base
begin

text \<open>
  \<open>src/recomp/plccond/libplccond_partial_rebuilt.c\<close>: the helpers of the PLC condition evaluator and its
  stack of 16-bit words, 513 of them, with the index of the top (-1 when it is empty).  \<open>None\<close> is an access
  outside the array.
\<close>

section \<open>Characters and operands\<close>

text \<open>The comparison looks at the low byte only, the result is the whole \<open>int\<close>.\<close>

definition toupper_ASCII :: "u32 \<Rightarrow> u32" where
  "toupper_ASCII c = (if (ucast c :: u8) + 0x9f < 0x1a then c - 0x20 else c)"

definition tolower_ASCII :: "u32 \<Rightarrow> u32" where
  "tolower_ASCII c = (if (ucast c :: u8) + 0xbf < 0x1a then c + 0x20 else c)"

definition IsPathSep :: "char \<Rightarrow> bool" where
  "IsPathSep c \<longleftrightarrow> c = CHR 0x5c \<or> c = CHR ''/''"

fun isNull :: "string \<Rightarrow> bool" where
  "isNull [] = True"
| "isNull (c # p) = (if c \<noteq> CHR ''0'' then False else isNull p)"

section \<open>The stack\<close>

record plc_stack =
  ps_top :: i32
  ps_data :: "u16 list"

definition STACK_CAP :: nat where "STACK_CAP = 513"

definition IsStackEmpty :: "plc_stack option \<Rightarrow> u32" where
  "IsStackEmpty p = (case p of None \<Rightarrow> 1 | Some s \<Rightarrow> drop_bit 31 (ps_top s))"

definition at_index :: "int \<Rightarrow> plc_stack \<Rightarrow> u16 option" where
  "at_index i s = (if 0 \<le> i \<and> nat i < length (ps_data s) then Some (ps_data s ! nat i) else None)"

definition PeekStack :: "plc_stack \<Rightarrow> u32 option" where
  "PeekStack s = (if sint (ps_top s) < 0 then Some 1 else map_option ucast (at_index (sint (ps_top s)) s))"

definition PushStack :: "u16 \<Rightarrow> plc_stack \<Rightarrow> (bool \<times> plc_stack) option" where
  "PushStack v s =
     (let top = sint (ps_top s) in
      if top < 0x200 then
        if 0 \<le> top + 1 \<and> nat (top + 1) < length (ps_data s)
        then Some (True, s\<lparr>ps_top := ps_top s + 1, ps_data := (ps_data s)[nat (top + 1) := v]\<rparr>) else None
      else Some (False, s))"

definition PopStack :: "plc_stack \<Rightarrow> (u32 \<times> plc_stack) option" where
  "PopStack s =
     (let top = sint (ps_top s) in
      if 0 \<le> top then map_option (\<lambda>v. (ucast v, s\<lparr>ps_top := ps_top s - 1\<rparr>)) (at_index top s)
      else Some (0, s))"

section \<open>A bounded stack\<close>

text \<open>The user's loops: push a list, pop a number of entries.\<close>

fun push_all :: "('a \<Rightarrow> 's \<Rightarrow> (bool \<times> 's) option) \<Rightarrow> 'a list \<Rightarrow> 's \<Rightarrow> 's option" where
  "push_all push [] s = Some s"
| "push_all push (v # vs) s = (case push v s of Some (True, s') \<Rightarrow> push_all push vs s' | _ \<Rightarrow> None)"

fun pop_n :: "('s \<Rightarrow> ('b \<times> 's) option) \<Rightarrow> nat \<Rightarrow> 's \<Rightarrow> ('b list \<times> 's) option" where
  "pop_n pop 0 s = Some ([], s)"
| "pop_n pop (Suc n) s = (case pop s of None \<Rightarrow> None
     | Some (v, s') \<Rightarrow> (case pop_n pop n s' of None \<Rightarrow> None | Some (vs, s'') \<Rightarrow> Some (v # vs, s'')))"

text \<open>What a user of the stack relies on: \<open>content\<close> lists the entries, the top first.\<close>

locale bounded_stack =
  fixes ok :: "'s \<Rightarrow> bool" and content :: "'s \<Rightarrow> 'a list" and cap :: nat
    and push :: "'a \<Rightarrow> 's \<Rightarrow> (bool \<times> 's) option" and pop :: "'s \<Rightarrow> ('b \<times> 's) option" and out :: "'a \<Rightarrow> 'b"
  assumes push_room: "ok s \<Longrightarrow> length (content s) < cap
      \<Longrightarrow> \<exists>s'. push v s = Some (True, s') \<and> ok s' \<and> content s' = v # content s"
    and push_full: "ok s \<Longrightarrow> length (content s) = cap \<Longrightarrow> push v s = Some (False, s)"
    and pop_top: "ok s \<Longrightarrow> content s = v # vs \<Longrightarrow> \<exists>s'. pop s = Some (out v, s') \<and> ok s' \<and> content s' = vs"
begin

lemma push_all_content:
  "ok s \<Longrightarrow> length (content s) + length vs \<le> cap \<Longrightarrow> \<exists>s'. push_all push vs s = Some s' \<and> ok s' \<and> content s' = rev vs @ content s"
proof (induction vs arbitrary: s)
  case (Cons v vs)
  have "length (content s) < cap" using Cons.prems(2) by simp
  from push_room [OF Cons.prems(1) this, of v] obtain s1
    where s1: "push v s = Some (True, s1)" "ok s1" "content s1 = v # content s" by blast
  then show ?case using Cons.IH [OF s1(2)] Cons.prems(2) by simp
qed simp

lemma pop_n_content:
  "ok s \<Longrightarrow> n \<le> length (content s) \<Longrightarrow>
     \<exists>s'. pop_n pop n s = Some (map out (take n (content s)), s') \<and> ok s' \<and> content s' = drop n (content s)"
proof (induction n arbitrary: s)
  case (Suc n)
  then obtain v vs where c: "content s = v # vs" by (cases "content s") auto
  from pop_top [OF Suc.prems(1) this] obtain s1 where s1: "pop s = Some (out v, s1)" "ok s1" "content s1 = vs" by blast
  have "n \<le> length (content s1)" using Suc.prems(2) c s1(3) by simp
  from Suc.IH [OF s1(2) this] show ?case using s1 c by fastforce
qed simp

lemma lifo:
  assumes "ok s" and "length (content s) + length vs \<le> cap"
  shows "\<exists>s1 s2. push_all push vs s = Some s1 \<and> pop_n pop (length vs) s1 = Some (rev (map out vs), s2) \<and>
    content s2 = content s \<and> (length (content s) + length vs = cap \<longrightarrow> (\<forall>w. push w s1 = Some (False, s1)))"
proof -
  obtain s1 where s1: "push_all push vs s = Some s1" "ok s1" "content s1 = rev vs @ content s" using push_all_content [OF assms] by blast
  from pop_n_content [OF s1(2), of "length vs"]
  have "\<exists>s2. pop_n pop (length vs) s1 = Some (rev (map out vs), s2) \<and> content s2 = content s"
    by (auto simp: s1(3) rev_map)
  moreover have "length (content s) + length vs = cap \<Longrightarrow> push w s1 = Some (False, s1)" for w
    by (rule push_full [OF s1(2)]) (simp add: s1(3))
  ultimately show ?thesis using s1(1) by blast
qed

end

section \<open>The code provides it\<close>

definition stack_size :: "plc_stack \<Rightarrow> nat" where "stack_size s = nat (sint (ps_top s) + 1)"

definition stack_ok :: "plc_stack \<Rightarrow> bool" where
  "stack_ok s \<longleftrightarrow> length (ps_data s) = STACK_CAP \<and> - 1 \<le> sint (ps_top s) \<and> sint (ps_top s) < int STACK_CAP"

definition stack_content :: "plc_stack \<Rightarrow> u16 list" where
  "stack_content s = rev (take (stack_size s) (ps_data s))"

lemma sint_bump:
  fixes x :: i32
  assumes "\<bar>sint x\<bar> < 1000" and "\<bar>d\<bar> < 1000"
  shows "sint (x + word_of_int d) = sint x + d"
proof -
  have "x + word_of_int d = word_of_int (sint x + d)" by simp
  moreover have "sint (word_of_int (sint x + d) :: i32) = sint x + d"
    using assms by (subst sint_sbintrunc') (simp add: signed_take_bit_int_eq_self)
  ultimately show ?thesis by simp
qed

lemma push_step:
  assumes "stack_ok s" and "length (stack_content s) < STACK_CAP"
  shows "\<exists>s'. PushStack v s = Some (True, s') \<and> stack_ok s' \<and> stack_content s' = v # stack_content s"
proof -
  let ?t = "sint (ps_top s)" and ?n = "stack_size s"
  have l: "length (ps_data s) = 513" "- 1 \<le> ?t" "?t < 513" using assms(1) by (simp_all add: stack_ok_def STACK_CAP_def)
  have n: "?n < 513" using assms(2) l by (simp add: stack_content_def STACK_CAP_def)
  have tn: "nat (?t + 1) = ?n" "?t = int ?n - 1" using l(2) by (simp_all add: stack_size_def)
  have "sint (ps_top s + 1) = ?t + 1" using sint_bump [of "ps_top s" 1] l by simp
  then have z: "stack_size (s\<lparr>ps_top := ps_top s + 1, ps_data := d\<rparr>) = Suc ?n" for d
    using l(2) by (simp add: stack_size_def nat_add_distrib)
  let ?s' = "s\<lparr>ps_top := ps_top s + 1, ps_data := (ps_data s)[?n := v]\<rparr>"
  have "PushStack v s = Some (True, ?s')" using l n tn by (simp add: PushStack_def Let_def)
  moreover have "stack_ok ?s'" using l n tn(2) \<open>sint (ps_top s + 1) = ?t + 1\<close> by (simp add: stack_ok_def STACK_CAP_def)
  moreover have "stack_content ?s' = v # stack_content s"
    unfolding stack_content_def z using n l(1) by (simp add: take_Suc_conv_app_nth)
  ultimately show ?thesis by blast
qed

lemma push_refused:
  assumes "stack_ok s" and "length (stack_content s) = STACK_CAP"
  shows "PushStack v s = Some (False, s)"
proof -
  have "513 \<le> nat (sint (ps_top s) + 1)"
    using assms by (simp add: stack_ok_def stack_content_def stack_size_def STACK_CAP_def)
  then have "\<not> sint (ps_top s) < 0x200" by linarith
  then show ?thesis by (simp add: PushStack_def Let_def)
qed

lemma pop_step:
  assumes "stack_ok s" and "stack_content s = v # vs"
  shows "\<exists>s'. PopStack s = Some (ucast v, s') \<and> stack_ok s' \<and> stack_content s' = vs"
proof -
  let ?t = "sint (ps_top s)"
  have l: "length (ps_data s) = 513" "- 1 \<le> ?t" "?t < 513" using assms(1) by (simp_all add: stack_ok_def STACK_CAP_def)
  have "?t \<noteq> - 1" using assms(2) by (auto simp: stack_content_def stack_size_def)
  then have "0 \<le> ?t" using l(2) by linarith
  then obtain k where k: "?t = int k" using nonneg_int_cases by blast
  then have k: "?t = int k" "k < 513" using l(3) by simp_all
  have "take (Suc k) (ps_data s) = take k (ps_data s) @ [ps_data s ! k]" using k(2) l(1) by (simp add: take_Suc_conv_app_nth)
  then have c: "v = ps_data s ! k" "vs = rev (take k (ps_data s))"
    using assms(2) k(1) by (simp_all add: stack_content_def stack_size_def nat_add_distrib)
  have "sint (ps_top s - 1) = ?t - 1" using sint_bump [of "ps_top s" "- 1"] l by simp
  then show ?thesis
    using k l(1) c by (auto simp: PopStack_def at_index_def stack_ok_def STACK_CAP_def stack_content_def stack_size_def)
qed

interpretation plc: bounded_stack stack_ok stack_content STACK_CAP PushStack PopStack ucast
  by unfold_locales (fact push_step, fact push_refused, fact pop_step)

section \<open>Property\<close>

text \<open>
  The stack of the condition evaluator: as long as they fit in its 513 places, words that are pushed come back
  in reverse order, zero-extended, and what was on the stack before is left; a full stack refuses a push and
  is not changed; no access leaves the array.
\<close>

theorem plc_stack_lifo:
  assumes "stack_ok s" and "length (stack_content s) + length vs \<le> STACK_CAP"
  shows "\<exists>s1 s2. push_all PushStack vs s = Some s1 \<and> pop_n PopStack (length vs) s1 = Some (rev (map ucast vs), s2) \<and>
    stack_content s2 = stack_content s \<and>
    (length (stack_content s) + length vs = STACK_CAP \<longrightarrow> (\<forall>w. PushStack w s1 = Some (False, s1)))"
  by (rule plc.lifo [OF assms])

definition stack_demo :: plc_stack where
  "stack_demo = \<lparr>ps_top = - 1, ps_data = replicate 513 0\<rparr>"

lemma plc_stack_lifo_witness:
  "\<exists>s1 s2. push_all PushStack [7, 8] stack_demo = Some s1 \<and> pop_n PopStack 2 s1 = Some ([8, 7], s2)"
proof -
  have d: "stack_ok stack_demo" "stack_content stack_demo = []"
    by (simp_all add: stack_ok_def stack_content_def stack_size_def stack_demo_def STACK_CAP_def)
  have r: "length [7, 8 :: u16] = 2" "rev (map ucast [7, 8 :: u16]) = [8, 7 :: u32]" by simp_all
  have "length (stack_content stack_demo) + length [7, 8 :: u16] \<le> STACK_CAP" by (simp add: d(2) STACK_CAP_def)
  from plc_stack_lifo [OF d(1) this] show ?thesis unfolding r by blast
qed

end
