(* ===== verification/Classify.thy ===== *)
theory Classify
  imports Base
begin

text \<open>
  The integer classifiers of the rebuilt libraries: features of geometry nodes
  (\<open>src/recomp/gtlib/libEp90_Gtlib_partial_rebuilt.c\<close> on the bytes of a node,
  \<open>src/recomp/gtlib2/gtlib2_rebuilt.c\<close> along pointers), error classes
  (\<open>src/recomp/errplib\<close>) and products (\<open>src/recomp/productid\<close>).  Null pointers are \<open>None\<close>.
\<close>

section \<open>Geotec nodes as bytes\<close>

definition GEOTEC_TAG :: "u8 list \<Rightarrow> u32" where "GEOTEC_TAG p = get32 p 0x54"

definition has_tag :: "u32 \<Rightarrow> u8 list option \<Rightarrow> bool" where
  "has_tag t p = (case p of None \<Rightarrow> False | Some b \<Rightarrow> GEOTEC_TAG b = t)"

definition gtf_isbohrung where "gtf_isbohrung = has_tag 0x15"
definition gtf_isfasrun where "gtf_isfasrun = has_tag 8"
definition gtf_isfreistich where "gtf_isfreistich = has_tag 10"
definition gtf_iseinstich where "gtf_iseinstich = has_tag 9"
definition gtf_isgewinde where "gtf_isgewinde = has_tag 4"

definition flag_bit :: "bool \<Rightarrow> u32" where "flag_bit b = (if b then 1 else 0)"

text \<open>The upper bytes of the result register carry the argument along.\<close>

definition gtf_isvariante :: "u8 list option \<Rightarrow> u32 \<Rightarrow> u32" where
  "gtf_isvariante p v = (case p of None \<Rightarrow> 0 | Some b \<Rightarrow> (v AND 0xFFFFFF00) OR flag_bit (GEOTEC_TAG b = v))"

definition gtf_isfigurrucksack :: "u8 list option \<Rightarrow> u32" where
  "gtf_isfigurrucksack p =
     (case p of None \<Rightarrow> 0
      | Some b \<Rightarrow>
          if GEOTEC_TAG b > 0x13 then 0
          else let u = push_bit (unat (GEOTEC_TAG b)) 1 in (u AND 0xFFFFFF00) OR flag_bit (u AND 0xd2800 \<noteq> 0))"

text \<open>Gated on variant 1: a bit of another field.\<close>

definition gated_bit :: "nat \<Rightarrow> nat \<Rightarrow> u8 list option \<Rightarrow> u32" where
  "gated_bit off n p =
     (let u = gtf_isvariante p 1 in
      if (ucast u :: u8) \<noteq> 0 then drop_bit n (get32 (the p) off) AND 1 else u)"

definition gtf_ispkt where "gtf_ispkt = gated_bit 0x5c 4"
definition gtf_isdeftanziel where "gtf_isdeftanziel = gated_bit 0x58 12"
definition gtf_iscirc where "gtf_iscirc = gated_bit 0x5c 6"
definition gtf_isdefcir where "gtf_isdefcir = gated_bit 0x58 6"

definition gtf_istanziel :: "u8 list option \<Rightarrow> u32" where
  "gtf_istanziel p =
     (let u = gtf_isvariante p 1 in
      if (ucast u :: u8) \<noteq> 0
      then if get32 (the p) 0xc \<noteq> 0 then drop_bit 12 (get32 (the p) 0x5c) AND 1 else 0
      else u)"

definition gtf_isueberlagerung :: "u8 list option \<Rightarrow> bool" where
  "gtf_isueberlagerung p =
     (if \<not> gtf_isfasrun p \<and> \<not> gtf_isfreistich p \<and> \<not> gtf_iseinstich p then gtf_isbohrung p else True)"

text \<open>The comparisons of an IEEE double with zero, on its two words: not a number compares as false.\<close>

definition dbl_number :: "u32 \<Rightarrow> u32 \<Rightarrow> bool" where
  "dbl_number lo hi \<longleftrightarrow> \<not> (hi AND 0x7ff00000 = 0x7ff00000 \<and> (hi AND 0xfffff \<noteq> 0 \<or> lo \<noteq> 0))"

definition dbl_zero :: "u32 \<Rightarrow> u32 \<Rightarrow> bool" where
  "dbl_zero lo hi \<longleftrightarrow> hi AND 0x7fffffff = 0 \<and> lo = 0"

definition gtf_iscircw :: "u8 list option \<Rightarrow> bool" where
  "gtf_iscircw p =
     (if (ucast (gtf_iscirc p) :: u8) = 0 then False
      else let lo = get32 (the p) 0xb0; hi = get32 (the p) 0xb4 in
           dbl_number lo hi \<and> \<not> dbl_zero lo hi \<and> hi AND 0x80000000 \<noteq> 0)"

definition gtf_iscirccw :: "u8 list option \<Rightarrow> bool" where
  "gtf_iscirccw p =
     (if (ucast (gtf_iscirc p) :: u8) = 0 then False
      else let lo = get32 (the p) 0xb0; hi = get32 (the p) 0xb4 in
           dbl_number lo hi \<and> \<not> dbl_zero lo hi \<and> hi AND 0x80000000 = 0)"

definition gtf_isyebene :: "u32 \<Rightarrow> bool" where
  "gtf_isyebene p = (if p < 6 then p > 3 else p - 0xd < 2)"

definition gtf_ismantel :: "u32 \<Rightarrow> u32" where
  "gtf_ismantel p =
     (if p > 0xd then 0
      else let u = push_bit (unat p) 1 in (u AND 0xFFFFFF00) OR flag_bit (u AND 0x3028 \<noteq> 0))"

section \<open>Nodes along pointers\<close>

datatype gnode = GNode (p16: "gnode option") (p20: "gnode option") (f28: "u32") (gtyp: "u32") (gflags: "u32")

definition type_at2 :: "u32 \<Rightarrow> gnode option \<Rightarrow> bool" where
  "type_at2 t a =
     (case a of None \<Rightarrow> False | Some n \<Rightarrow>
        (case p16 n of None \<Rightarrow> False | Some m \<Rightarrow> (case p16 m of None \<Rightarrow> False | Some l \<Rightarrow> gtyp l = t)))"

definition GTFIND_IsAbflach where "GTFIND_IsAbflach = type_at2 59"
definition GTFIND_IsMehrkant where "GTFIND_IsMehrkant = type_at2 58"
definition GTFIND_IsMuster where "GTFIND_IsMuster = type_at2 20"

definition GTFIND_IsFigur :: "gnode option \<Rightarrow> bool" where
  "GTFIND_IsFigur a =
     (case a of None \<Rightarrow> False | Some n \<Rightarrow>
        (case p16 n of None \<Rightarrow> False | Some m \<Rightarrow>
           (case p16 m of None \<Rightarrow> False
            | Some l \<Rightarrow> if gtyp l \<le> 0x13 then push_bit (unat (gtyp l)) (1 :: u32) AND 0xD2800 \<noteq> 0 else False)))"

definition GTFIND_IsBohrung :: "gnode option \<Rightarrow> bool" where
  "GTFIND_IsBohrung a =
     (case a of None \<Rightarrow> False | Some n \<Rightarrow> (case p16 n of None \<Rightarrow> False | Some m \<Rightarrow> gtyp m = 21))"

definition round_stock :: "u32 \<Rightarrow> gnode option \<Rightarrow> bool" where
  "round_stock t a =
     (case a of None \<Rightarrow> False | Some n \<Rightarrow>
        if f28 n = 36 \<or> f28 n = 6 then
          (case p16 n of None \<Rightarrow> False | Some m \<Rightarrow> (case p16 m of None \<Rightarrow> False | Some l \<Rightarrow> gtyp l = t))
        else False)"

definition GTFIND_IsRohr where "GTFIND_IsRohr = round_stock 6"
definition GTFIND_IsStange where "GTFIND_IsStange = round_stock 7"

definition GTFIND_IsTasche :: "gnode option \<Rightarrow> bool" where
  "GTFIND_IsTasche a \<longleftrightarrow>
     (case a of None \<Rightarrow> False | Some n \<Rightarrow>
        (case p16 n of None \<Rightarrow> False | Some m \<Rightarrow> p20 n \<noteq> None \<and> gtyp m = 1)) \<and>
     \<not> GTFIND_IsFigur a \<and> \<not> GTFIND_IsAbflach a \<and> \<not> GTFIND_IsMehrkant a"

definition GTFIND_IsRucksackTyp :: "gnode option \<Rightarrow> u32 \<Rightarrow> bool" where
  "GTFIND_IsRucksackTyp g bv =
     (case g of None \<Rightarrow> False | Some n \<Rightarrow> (case p16 n of None \<Rightarrow> False | Some c \<Rightarrow> gtyp c = bv))"

definition geo_flag :: "nat \<Rightarrow> gnode option \<Rightarrow> u32" where
  "geo_flag k g =
     (case g of None \<Rightarrow> 0 | Some n \<Rightarrow> if gtyp n = 1 then drop_bit k (gflags n) AND 1 else 0)"

definition GTFIND_IsGeoKomplett where "GTFIND_IsGeoKomplett = geo_flag 1"
definition GTFIND_IsGeoError where "GTFIND_IsGeoError = geo_flag 3"
definition GTFIND_IsLine where "GTFIND_IsLine = geo_flag 5"
definition GTFIND_IsCirc where "GTFIND_IsCirc = geo_flag 6"

section \<open>Error classes\<close>

definition ERR_IsSystemWarning :: "u32 \<Rightarrow> bool" where "ERR_IsSystemWarning c \<longleftrightarrow> c = 2"
definition ERR_IsInternWarning :: "u32 \<Rightarrow> u32 \<Rightarrow> bool" where "ERR_IsInternWarning c f \<longleftrightarrow> c = 1 \<and> f AND 0xff \<noteq> 0"
definition ERR_IsExternWarning :: "u32 \<Rightarrow> u32 \<Rightarrow> bool" where "ERR_IsExternWarning c f \<longleftrightarrow> c = 1 \<and> f AND 0xff = 0"
definition ERR_IsUserWarning :: "u32 \<Rightarrow> bool" where "ERR_IsUserWarning c \<longleftrightarrow> c = 1"

definition ERR_IsWarning :: "u32 \<Rightarrow> u32" where
  "ERR_IsWarning c = (let e = c - 1 in (e AND 0xFFFFFF00) OR (if e \<le> 1 then 1 else 0))"

definition ERR_IsSystemError :: "u32 \<Rightarrow> bool" where "ERR_IsSystemError c \<longleftrightarrow> c = 4"
definition ERR_IsInternError :: "u32 \<Rightarrow> u32 \<Rightarrow> bool" where "ERR_IsInternError c f \<longleftrightarrow> c = 3 \<and> f AND 0xff \<noteq> 0"
definition ERR_IsExternError :: "u32 \<Rightarrow> u32 \<Rightarrow> bool" where "ERR_IsExternError c f \<longleftrightarrow> c = 3 \<and> f AND 0xff = 0"
definition ERR_IsUserError :: "u32 \<Rightarrow> bool" where "ERR_IsUserError c \<longleftrightarrow> c = 3"

definition ERR_IsError :: "u32 \<Rightarrow> u32" where
  "ERR_IsError c = (let e = c - 3 in (e AND 0xFFFFFF00) OR (if e \<le> 1 then 1 else 0))"

definition errplib_facility_table :: "u32 list" where
  "errplib_facility_table =
    [0x060c0000, 0, 0, 0, 0, 0, 0, 0, 0, 0x06050000, 0, 0x06520000] @ replicate 34 0 @
    [0x06500000, 0x06000000, 0x060a0000, 0x06020000, 0x060b0000, 0x06010000, 0x06070000, 0x06080000,
     0x060f0000, 0x06100000, 0x06060000, 0x06030000, 0x06090000, 0x06040000,
     0x06210000, 0x06150000, 0, 0x06550000, 0x06560000, 0x060e0000,
     0, 0x06060000, 0x06060000, 0x06060000, 0x060d0000, 0x06120000]"

definition ERRPLIB_GetFacilityID :: "u32 \<Rightarrow> u32" where
  "ERRPLIB_GetFacilityID n = (let i = n - 4 in if i > 0x47 then 0 else errplib_facility_table ! unat i)"

definition IsDPDemo :: bool where "IsDPDemo = False"

section \<open>Products\<close>

record product =
  s_info :: u32
  s_ncExport :: u8
  s_ncProgStation :: u8
  s_ncVirtual :: u8
  s_ncState :: u32

definition SetControlMarkForTest :: "u32 \<Rightarrow> product \<Rightarrow> product" where
  "SetControlMarkForTest v p = p\<lparr>s_info := v\<rparr>"

definition GetControlMark :: "product \<Rightarrow> u32" where "GetControlMark p = s_info p"
definition GetNcState :: "product \<Rightarrow> u32" where "GetNcState p = s_ncState p"
definition IsTurningProduct :: "product \<Rightarrow> bool" where "IsTurningProduct p \<longleftrightarrow> s_info p - 0xb < 2"
definition IsCncPilotProduct :: "product \<Rightarrow> bool" where "IsCncPilotProduct p \<longleftrightarrow> s_info p = 0xc"
definition IsManualPlusProduct :: "product \<Rightarrow> bool" where "IsManualPlusProduct p \<longleftrightarrow> s_info p = 0xb"
definition IsMillTurnProduct :: "product \<Rightarrow> bool" where "IsMillTurnProduct p \<longleftrightarrow> s_info p = 0x10 \<or> s_info p = 0x16"
definition IsAnalogProduct :: "product \<Rightarrow> bool" where "IsAnalogProduct p \<longleftrightarrow> s_info p - 6 < 3"

definition IsTNC7Generation :: "product \<Rightarrow> bool" where
  "IsTNC7Generation p \<longleftrightarrow> s_info p \<notin> {0, 6, 7, 8, 0xb, 0xc, 0xe, 0x10, 0x14, 0x1a, 0x1b}"

definition IsExportVersion :: "product \<Rightarrow> u8" where "IsExportVersion p = s_ncExport p"
definition IsProgStationVersion :: "product \<Rightarrow> u8" where "IsProgStationVersion p = s_ncProgStation p"
definition IsVirtualMachine :: "product \<Rightarrow> u8" where "IsVirtualMachine p = s_ncVirtual p"
definition IsPhysicalMachine :: "product \<Rightarrow> u32" where "IsPhysicalMachine p = ucast (IsVirtualMachine p) XOR 1"

section \<open>Facts\<close>

lemma low_byte_flag [simp]: "(ucast ((u AND 0xFFFFFF00) OR flag_bit c) :: u8) = (if c then 1 else 0)" for u :: u32
proof -
  have "(0xFFFFFF00 :: u8) = 0" by code_simp
  then have "(ucast u AND 0xFFFFFF00 :: u8) = 0" by (simp only: bit.conj_zero_right)
  then show ?thesis by (simp add: unsigned_or_eq unsigned_and_eq flag_bit_def)
qed

lemma gtf_isvariante_low: "(ucast (gtf_isvariante (Some b) v) :: u8) \<noteq> 0 \<longleftrightarrow> get32 b 0x54 = v"
  by (simp add: gtf_isvariante_def GEOTEC_TAG_def)

lemma gtf_isfigurrucksack_low:
  "(ucast (gtf_isfigurrucksack (Some b)) :: u8) \<noteq> 0 \<longleftrightarrow>
     get32 b 0x54 \<le> 0x13 \<and> push_bit (unat (get32 b 0x54)) (1 :: u32) AND 0xd2800 \<noteq> 0"
  by (cases "get32 b 0x54 \<le> 0x13") (auto simp: gtf_isfigurrucksack_def GEOTEC_TAG_def Let_def not_le [symmetric])

lemma gated_bit_flags:
  "gated_bit 0x5c k (Some b) = (if get32 b 0x54 = 1 then drop_bit k (get32 b 0x5c) AND 1 else 0)"
  by (simp add: gated_bit_def gtf_isvariante_low Let_def) (simp add: gtf_isvariante_def GEOTEC_TAG_def flag_bit_def)

text \<open>The shift masks spelled out: the planes and the pocket figures they stand for.\<close>

lemma mantel_mask: "p \<le> 0xd \<Longrightarrow> push_bit (unat p) (1 :: u32) AND 0x3028 \<noteq> 0 \<longleftrightarrow> p \<in> {3, 5, 12, 13}" for p :: u32
proof -
  assume "p \<le> 0xd"
  then have "unat p \<in> set [0..<14]" by (simp add: word_le_nat_alt)
  moreover have "\<forall>n \<in> set [0..<14]. push_bit n (1 :: u32) AND 0x3028 \<noteq> 0 \<longleftrightarrow> n \<in> {3, 5, 12, 13}" by code_simp
  ultimately show ?thesis by (auto simp: word_unat_eq_iff)
qed

lemma figur_mask: "p \<le> 0x13 \<Longrightarrow> push_bit (unat p) (1 :: u32) AND 0xd2800 \<noteq> 0 \<longleftrightarrow> p \<in> {11, 13, 16, 18, 19}" for p :: u32
proof -
  assume "p \<le> 0x13"
  then have "unat p \<in> set [0..<20]" by (simp add: word_le_nat_alt)
  moreover have "\<forall>n \<in> set [0..<20]. push_bit n (1 :: u32) AND 0xd2800 \<noteq> 0 \<longleftrightarrow> n \<in> {11, 13, 16, 18, 19}" by code_simp
  ultimately show ?thesis by (auto simp: word_unat_eq_iff)
qed

lemma gtf_ismantel_low: "(ucast (gtf_ismantel p) :: u8) \<noteq> 0 \<longleftrightarrow> p \<in> {3, 5, 12, 13}"
proof (cases "p \<le> 0xd")
  case True
  then show ?thesis using mantel_mask [OF True] by (simp add: gtf_ismantel_def Let_def not_less [symmetric])
next
  case False
  then show ?thesis by (auto simp: gtf_ismantel_def)
qed

lemma gtf_isueberlagerung_tags:
  "gtf_isueberlagerung (Some b) \<longleftrightarrow> get32 b 0x54 \<in> {8, 9, 10, 21}"
  by (auto simp: gtf_isueberlagerung_def gtf_isfasrun_def gtf_isfreistich_def gtf_iseinstich_def gtf_isbohrung_def
      has_tag_def GEOTEC_TAG_def)

text \<open>A pocket is never one of the special figures, and both circle senses exclude each other.\<close>

lemma circle_senses_exclude: "\<not> (gtf_iscircw p \<and> gtf_iscirccw p)"
  by (auto simp: gtf_iscircw_def gtf_iscirccw_def Let_def split: if_splits)

definition holder :: "gnode \<Rightarrow> gnode" where "holder n = GNode (Some n) None 0 0 0"

text \<open>
  The two rebuilt geometry libraries agree.  On a node whose type and flag fields hold the same
  words in both representations (bytes at 0x54 and 0x5c of a buffer, fields reached along pointers),
  the circle test, the bore test, the variant test and the pocket-figure test give the same answers,
  the figure test exactly for the types 11, 13, 16, 18 and 19.
\<close>

lemma gt_libs_agree:
  assumes "get32 b 0x54 = gtyp n" and "get32 b 0x5c = gflags n"
  shows "gtf_iscirc (Some b) = GTFIND_IsCirc (Some n) \<and>
    gtf_isbohrung (Some b) = GTFIND_IsBohrung (Some (holder n)) \<and>
    ((ucast (gtf_isvariante (Some b) v) :: u8) \<noteq> 0 \<longleftrightarrow> GTFIND_IsRucksackTyp (Some (holder n)) v) \<and>
    ((ucast (gtf_isfigurrucksack (Some b)) :: u8) \<noteq> 0 \<longleftrightarrow> gtyp n \<in> {11, 13, 16, 18, 19}) \<and>
    (GTFIND_IsFigur (Some (holder (holder n))) \<longleftrightarrow> gtyp n \<in> {11, 13, 16, 18, 19})"
proof -
  have fig: "gtyp n \<le> 0x13 \<and> push_bit (unat (gtyp n)) (1 :: u32) AND 0xd2800 \<noteq> 0 \<longleftrightarrow> gtyp n \<in> {11, 13, 16, 18, 19}"
    using figur_mask [of "gtyp n"] by auto
  have "gtf_iscirc (Some b) = GTFIND_IsCirc (Some n)"
    by (simp add: gtf_iscirc_def GTFIND_IsCirc_def geo_flag_def gated_bit_flags assms)
  moreover have "gtf_isbohrung (Some b) = GTFIND_IsBohrung (Some (holder n))"
    by (simp add: gtf_isbohrung_def GTFIND_IsBohrung_def has_tag_def GEOTEC_TAG_def holder_def assms)
  moreover have "(ucast (gtf_isvariante (Some b) v) :: u8) \<noteq> 0 \<longleftrightarrow> GTFIND_IsRucksackTyp (Some (holder n)) v"
    by (simp add: gtf_isvariante_low GTFIND_IsRucksackTyp_def holder_def assms)
  moreover have "(ucast (gtf_isfigurrucksack (Some b)) :: u8) \<noteq> 0 \<longleftrightarrow> gtyp n \<in> {11, 13, 16, 18, 19}"
    using fig by (simp only: gtf_isfigurrucksack_low assms)
  moreover have "GTFIND_IsFigur (Some (holder (holder n))) \<longleftrightarrow> gtyp n \<in> {11, 13, 16, 18, 19}"
    by (cases "gtyp n \<le> 0x13") (use fig in \<open>simp_all add: GTFIND_IsFigur_def holder_def\<close>)
  ultimately show ?thesis by blast
qed

definition sample_geo :: "u8 list" where
  "sample_geo = replicate 0x54 0 @ [1, 0, 0, 0] @ replicate 4 0 @ [0x40, 0, 0, 0] @ replicate 8 0"

lemma gt_libs_agree_witness:
  "gtf_iscirc (Some sample_geo) = GTFIND_IsCirc (Some (GNode None None 0 1 0x40)) \<and>
    GTFIND_IsCirc (Some (GNode None None 0 1 0x40)) = 1"
proof -
  have a: "get32 sample_geo 0x54 = gtyp (GNode None None 0 1 0x40)" by code_simp
  have b: "get32 sample_geo 0x5c = gflags (GNode None None 0 1 0x40)" by code_simp
  have c: "GTFIND_IsCirc (Some (GNode None None 0 1 0x40)) = 1" by code_simp
  show ?thesis using gt_libs_agree [OF a b, of 0] c by blast
qed

lemma errplib_facility_len: "length errplib_facility_table = 0x48" by code_simp

lemma facility_zero_below: "n < 4 \<Longrightarrow> ERRPLIB_GetFacilityID n = 0"
proof -
  assume n: "n < 4"
  then have "unat n \<in> set [0..<4]" by (simp add: word_less_nat_alt)
  moreover have "\<forall>k \<in> set [0..<4]. ERRPLIB_GetFacilityID (of_nat k) = 0" by code_simp
  ultimately have "ERRPLIB_GetFacilityID (of_nat (unat n)) = 0" by blast
  then show ?thesis by simp
qed

text \<open>Warnings and errors are told apart, and each is of a system or a user kind.\<close>

lemma warning_error_exclude:
  "ERR_IsUserWarning c \<or> ERR_IsSystemWarning c \<Longrightarrow> \<not> (ERR_IsUserError c \<or> ERR_IsSystemError c)"
  by (auto simp: ERR_IsUserWarning_def ERR_IsSystemWarning_def ERR_IsUserError_def ERR_IsSystemError_def)

lemma warning_kinds:
  "ERR_IsUserWarning c \<longleftrightarrow> ERR_IsInternWarning c f \<noteq> ERR_IsExternWarning c f"
  by (auto simp: ERR_IsUserWarning_def ERR_IsInternWarning_def ERR_IsExternWarning_def)

end
