(* ===== verification/TextNum.thy ===== *)
theory TextNum
  imports Base
begin

text \<open>
  Texts, numbers and hashes of the rebuilt libraries: \<open>src/recomp/cfxutil\<close> (binary numbers, byte order mark,
  wide strings), \<open>src/recomp/plcmap\<close> (byte order, 64-bit comparison, width of a decimal), \<open>src/recomp/file\<close>
  (bit fields, file types), \<open>src/recomp/spurgen\<close> (reversal in place) and \<open>src/recomp/xmlhash\<close> (the key hash).
\<close>

section \<open>Binary numbers\<close>

definition skip_percent :: "string \<Rightarrow> string" where
  "skip_percent s = (case s of c # cs \<Rightarrow> if c = CHR ''%'' then cs else s | [] \<Rightarrow> s)"

fun bin_digits :: "string \<Rightarrow> bool" where
  "bin_digits [] = True"
| "bin_digits (c # cs) = (if (of_char c :: u8) - 0x30 > 1 then False else bin_digits cs)"

definition IsBinNumber :: "string option \<Rightarrow> bool" where
  "IsBinNumber s =
     (case s of None \<Rightarrow> False | Some t \<Rightarrow> let p = skip_percent t in if p = [] then False else bin_digits p)"

fun bin_loop :: "u32 \<Rightarrow> string \<Rightarrow> u32" where
  "bin_loop c [] = c"
| "bin_loop c (ch # cs) =
     (if ch = CHR 0x20 then bin_loop c cs
      else if ch = CHR ''0'' then bin_loop (c * 2) cs
      else if ch = CHR ''1'' then bin_loop (c * 2 + 1) cs
      else c)"

definition BinAtol :: "string \<Rightarrow> u32" where "BinAtol s = bin_loop 0 (skip_percent s)"

definition IsUtf8 :: "u8 list \<Rightarrow> bool" where
  "IsUtf8 p = (if byte_at p 0 \<noteq> 0xef then False else if byte_at p 1 \<noteq> 0xbb then False else byte_at p 2 = 0xbf)"

text \<open>\<open>None\<close> is a string without its terminator.\<close>

fun utf16_strlen :: "u16 list \<Rightarrow> nat option" where
  "utf16_strlen [] = None"
| "utf16_strlen (c # cs) = (if c = 0 then Some 0 else map_option Suc (utf16_strlen cs))"

section \<open>Byte order and width\<close>

definition Swap_d :: "u32 \<Rightarrow> u32" where
  "Swap_d v = drop_bit 24 v OR drop_bit 8 (v AND 0xff0000) OR push_bit 8 (v AND 0xff00) OR push_bit 24 v"

definition Swap_w :: "u16 \<Rightarrow> u32" where "Swap_w v = ucast (push_bit 8 v OR drop_bit 8 v)"

definition UQuadCompare :: "u32 \<Rightarrow> u32 \<Rightarrow> u32 \<Rightarrow> u32 \<Rightarrow> int" where
  "UQuadCompare a_hi a_lo b_hi b_lo =
     (if a_hi > b_hi then 1 else if a_hi < b_hi then - 1 else if a_lo > b_lo then 1 else if a_lo < b_lo then - 1 else 0)"

function width_loop :: "u32 \<Rightarrow> nat \<Rightarrow> nat" where
  "width_loop a cnt = (if 99 < sint a then width_loop (a div 10) (cnt + 1) else cnt + 1)"
  by pat_completeness auto

termination
proof (relation "measure (\<lambda>(a, cnt). unat a)")
  show "wf (measure (\<lambda>(a :: u32, cnt :: nat). unat a))" by simp
  fix a :: u32 and cnt :: nat
  assume "99 < sint a"
  then have "a \<noteq> 0" by auto
  then have "0 < unat a" by (simp add: unat_gt_0)
  then show "((a div 10, cnt + 1), a, cnt) \<in> measure (\<lambda>(a, cnt). unat a)" by (simp add: unat_div_distrib)
qed

definition NumberOfCharacters :: "i32 \<Rightarrow> nat" where
  "NumberOfCharacters v =
     (let sign = signed_drop_bit 31 v;
          a = (sign XOR v) - sign;
          cnt = (if 9 < sint a then width_loop a 1 else 1)
      in cnt + 1 - (if v < 0x80000000 then 1 else 0))"

section \<open>Files\<close>

text \<open>\<open>None\<close> is an access outside the field.\<close>

definition BitFieldTst :: "u8 list \<Rightarrow> int \<Rightarrow> u32 option" where
  "BitFieldTst p n =
     (let idx = (if 0 \<le> n then n else n + 7) div 8 in
      if 0 \<le> idx \<and> nat idx < length p
      then Some (push_bit (nat (n mod 8)) 1 AND scast (p ! nat idx)) else None)"

definition IsNcFile :: "int \<Rightarrow> bool" where
  "IsNcFile t = (if t < 6 then t > 3 else (word_of_int (t - 0x26) :: u32) < 2)"

definition IsAscFile :: "int \<Rightarrow> bool" where
  "IsAscFile t \<longleftrightarrow> t \<in> {9, 10, 0xc, 0x11, 0x12, 0x13, 0x14, 0x15, 0x23, 0x28, 0x2a, 0x2b}"

definition FlServerListSize :: "u8 list \<Rightarrow> u32" where "FlServerListSize p = get32 p 4"
definition read_mminch :: u32 where "read_mminch = 0"

section \<open>Reversal in place\<close>

function swap_loop :: "nat \<Rightarrow> nat \<Rightarrow> 'a list \<Rightarrow> nat \<times> 'a list" where
  "swap_loop n r b =
     (let v4 = b ! r; v5 = b ! (n - 1 - r); b1 = b[r := v5, n - 1 - r := v4] in
      if Suc r < n div 2 then swap_loop n (Suc r) b1 else (Suc r, b1))"
  by pat_completeness auto

termination by (relation "measure (\<lambda>(n, r, b). n div 2 - r)") auto

definition SwapN :: "u8 list \<Rightarrow> int \<Rightarrow> (int \<times> u8 list) option" where
  "SwapN a n =
     (if n > 1
      then if nat n \<le> length a then (case swap_loop (nat n) 0 a of (r, b) \<Rightarrow> Some (int r, b)) else None
      else Some (n, a))"

section \<open>The key hash\<close>

definition hash_mix :: "u32 \<Rightarrow> u8 \<Rightarrow> u32" where
  "hash_mix h b =
     (let h1 = h + scast b; h2 = h1 + push_bit 10 h1 in h2 XOR drop_bit 6 h2)"

definition hash_end :: "u32 \<Rightarrow> u32" where
  "hash_end h =
     (let h1 = h + push_bit 3 h; h2 = h1 XOR drop_bit 11 h1 in h2 + push_bit 15 h2)"

definition XmlKeyHashBinary :: "u8 list \<Rightarrow> u32" where
  "XmlKeyHashBinary key = (if key = [] then 0 else hash_end (fold (\<lambda>b h. hash_mix h b) key 0))"

definition XmlHashSetKey :: "u8 list \<Rightarrow> u32 \<Rightarrow> u32 \<Rightarrow> u8 list" where
  "XmlHashSetKey h key keylen = put32 (put32 h 0x0c key) 0x10 keylen"

definition XmlHashSetValueAllocator :: "u8 list \<Rightarrow> u32 \<Rightarrow> u32 \<Rightarrow> u8 list" where
  "XmlHashSetValueAllocator h alloc ctx = put32 (put32 h 0x14 alloc) 0x18 ctx"

end
