(* ===== verification/TextNumFacts.thy ===== *)
theory TextNumFacts
  imports TextNum
begin

text \<open>
  What the text and number functions compute: printing and reading of binary numbers, the width of a decimal,
  the reversal of a buffer, and keys that the hash tells apart.
\<close>

declare width_loop.simps [simp del] swap_loop.simps [simp del]

section \<open>Binary numbers\<close>

fun bin_str :: "nat \<Rightarrow> string" where
  "bin_str n = (if n < 2 then [] else bin_str (n div 2)) @ [if odd n then CHR ''1'' else CHR ''0'']"

declare bin_str.simps [simp del]

lemma bin_digits_append [simp]: "bin_digits (s @ t) \<longleftrightarrow> bin_digits s \<and> bin_digits t"
  by (induction s) auto

lemma bin_digits_str: "bin_digits (bin_str n)"
proof (induction n rule: bin_str.induct)
  case (1 n)
  have "bin_digits [if odd n then CHR ''1'' else CHR ''0'']" by simp
  then show ?case using 1 by (subst bin_str.simps) (simp split: if_split)
qed

lemma bin_str_not_Nil [simp]: "bin_str n \<noteq> []"
  by (subst bin_str.simps) simp

lemma bin_str_hd: "hd (bin_str n) \<in> {CHR ''0'', CHR ''1''}"
proof (induction n rule: bin_str.induct)
  case (1 n)
  then show ?case by (subst bin_str.simps) (auto simp: hd_append)
qed

lemma skip_percent_bin [simp]:
  "skip_percent (bin_str n @ r) = bin_str n @ r" "skip_percent (CHR ''%'' # s) = s"
proof -
  obtain c cs where "bin_str n = c # cs" by (cases "bin_str n") auto
  then show "skip_percent (bin_str n @ r) = bin_str n @ r"
    using bin_str_hd [of n] by (auto simp: skip_percent_def)
qed (simp add: skip_percent_def)

lemma bin_loop_digit [simp]:
  "bin_loop c ((if b then CHR ''1'' else CHR ''0'') # s) = bin_loop (c * 2 + of_bool b) s"
  by simp

lemma bin_loop_str: "bin_loop 0 (bin_str n @ s) = bin_loop (of_nat n) s"
proof (induction n arbitrary: s rule: bin_str.induct)
  case (1 n)
  have n: "of_nat n = (of_nat (n div 2) :: u32) * 2 + of_bool (odd n)"
    by (metis of_nat_add of_nat_mult of_nat_numeral of_nat_of_bool of_bool_odd_eq_mod_2 div_mult_mod_eq)
  show ?case
  proof (cases "n < 2")
    case True
    then have "of_nat n = (of_bool (odd n) :: u32)" using n by simp
    then show ?thesis using True by (subst bin_str.simps) simp
  next
    case False
    then show ?thesis using 1 n by (subst bin_str.simps) simp
  qed
qed

text \<open>
  Binary numbers read back: what prints a word in base two, with or without the percent sign in front, is accepted as a
  binary number, and reading it gives the word; anything that follows behind another character does not matter.
\<close>

theorem bin_number_roundtrip:
  assumes "pre \<in> {[], ''%''}" and "rest = [] \<or> hd rest \<notin> {CHR ''0'', CHR ''1'', CHR 0x20}"
  shows "IsBinNumber (Some (pre @ bin_str (unat v))) \<and> BinAtol (pre @ bin_str (unat v) @ rest) = v"
proof -
  have "bin_loop v rest = v" using assms(2) by (cases rest) auto
  moreover have "skip_percent (bin_str n) = bin_str n" for n using skip_percent_bin(1) [of n "[]"] by simp
  ultimately show ?thesis using assms(1) by (auto simp: IsBinNumber_def BinAtol_def bin_digits_str bin_loop_str)
qed

lemma bin_number_roundtrip_witness:
  "IsBinNumber (Some (''%'' @ bin_str (unat (13 :: u32)))) \<and> BinAtol (''%'' @ bin_str (unat (13 :: u32)) @ ''x1'') = 13"
  using bin_number_roundtrip [of "''%''" "''x1''" 13] by simp

section \<open>Byte order\<close>

lemma byte_masks: "(0xff0000 :: u32) = push_bit 16 (mask 8)" "(0xff00 :: u32) = push_bit 8 (mask 8)"
  by (simp_all add: mask_eq_exp_minus_1 push_bit_eq_mult)

lemma bit_Swap_d:
  "n < 32 \<Longrightarrow> bit (Swap_d v) n \<longleftrightarrow> bit v (if n < 8 then n + 24 else if n < 16 then n + 8 else if n < 24 then n - 8 else n - 24)"
  by (auto simp: Swap_d_def byte_masks bit_simps not_less add.commute dest: bit_imp_le_length)

text \<open>Byte reversal is its own inverse, and reads big-endian what is stored little-endian.\<close>

lemma Swap_d_involution: "Swap_d (Swap_d v) = v"
proof (rule bit_word_eqI)
  fix n :: nat
  assume n: "n < LENGTH(32)"
  define j where "j = n mod 8"
  have "n div 8 < 4" using n by simp
  then have "n div 8 \<in> {0, 1, 2, 3}" by auto
  moreover have "n = 8 * (n div 8) + j" by (simp add: j_def)
  ultimately have "n = j \<or> n = 8 + j \<or> n = 16 + j \<or> n = 24 + j" by auto
  moreover have "j < 8" by (simp add: j_def)
  ultimately show "bit (Swap_d (Swap_d v)) n = bit v n" by (auto simp: bit_Swap_d add.commute)
qed

section \<open>The width of a decimal\<close>

fun dec_digits :: "nat \<Rightarrow> string" where
  "dec_digits n = (if n < 10 then [] else dec_digits (n div 10)) @ [char_of (48 + n mod 10)]"

declare dec_digits.simps [simp del]

definition decimal :: "int \<Rightarrow> string" where
  "decimal i = (if i < 0 then CHR ''-'' # dec_digits (nat (- i)) else dec_digits (nat i))"

lemma length_dec_digits: "length (dec_digits n) = (if n < 10 then 1 else Suc (length (dec_digits (n div 10))))"
  by (subst dec_digits.simps) simp

lemma width_loop_digits:
  "9 < n \<Longrightarrow> n < 2 ^ 31 \<Longrightarrow> width_loop (of_nat n) cnt + 1 = cnt + length (dec_digits n)"
proof (induction n arbitrary: cnt rule: dec_digits.induct)
  case (1 n)
  have u: "unat (of_nat n :: u32) = n" using "1.prems" by (simp add: unat_of_nat)
  have s: "sint (of_nat n :: u32) = int n" using sint_unat_small [of "of_nat n"] u "1.prems" by simp
  have d: "(of_nat n :: u32) div 10 = of_nat (n div 10)"
    by (rule word_unat_eq_iff [THEN iffD2]) (use "1.prems" in \<open>simp add: unat_div_distrib unat_of_nat\<close>)
  show ?case
  proof (cases "99 < n")
    case True
    then have "width_loop (of_nat n) cnt = width_loop (of_nat (n div 10)) (cnt + 1)"
      by (subst width_loop.simps) (simp add: s d)
    then show ?thesis using "1.IH" [of "cnt + 1"] "1.prems" True by (subst length_dec_digits) simp
  next
    case False
    then have "width_loop (of_nat n) cnt = cnt + 1" by (subst width_loop.simps) (simp add: s)
    moreover have "length (dec_digits n) = 2" using False "1.prems" by (simp add: length_dec_digits)
    ultimately show ?thesis by simp
  qed
qed

lemma sign_of_bit: "bit v 31 \<longleftrightarrow> sint v < 0" for v :: u32
  using bit_last_iff [of v] by simp

lemma below_sign: "v < 0x80000000 \<longleftrightarrow> 0 \<le> sint v" for v :: u32
proof
  assume "v < 0x80000000"
  then have "unat v < 2 ^ 31" by (simp add: word_less_nat_alt)
  then show "0 \<le> sint v" using sint_unat_small [of v] by simp
next
  assume "0 \<le> sint v"
  then have "uint v < 2 ^ 31" using sint_uint_nonneg [of v] sint_lt [of v] by simp
  then show "v < 0x80000000" by (simp add: word_less_def)
qed

lemma abs_by_sign:
  fixes v :: i32
  assumes "v \<noteq> 0x80000000"
  shows "(signed_drop_bit 31 v XOR v) - signed_drop_bit 31 v = word_of_int \<bar>sint v\<bar> \<and> \<bar>sint v\<bar> < 2 ^ 31"
proof (cases "0 \<le> sint v")
  case True
  have "sint v div 2 ^ 31 = 0" using True sint_lt [of v] by (simp add: div_pos_pos_trivial)
  then have "sint (signed_drop_bit 31 v) = sint (0 :: i32)" by (simp add: sint_signed_drop_bit_eq drop_bit_eq_div)
  then have "signed_drop_bit 31 v = 0" by (rule signed_word_eqI)
  then show ?thesis using True sint_lt [of v] by simp
next
  case False
  have "sint v div 2 ^ 31 = - 1" by (rule int_div_pos_eq [of _ _ _ "sint v + 2 ^ 31"]) (use False sint_ge [of v] in simp_all)
  then have "sint (signed_drop_bit 31 v) = sint (- 1 :: i32)" by (simp add: sint_signed_drop_bit_eq drop_bit_eq_div)
  then have s: "signed_drop_bit 31 v = - 1" by (rule signed_word_eqI)
  have abs: "\<bar>sint v\<bar> = - sint v" using False by simp
  have "- (2 ^ 31) \<noteq> sint v"
  proof
    assume e: "- (2 ^ 31) = sint v"
    have "v = word_of_int (- (2 ^ 31))" unfolding e by simp
    then show False using assms by simp
  qed
  then have "\<bar>sint v\<bar> < 2 ^ 31" unfolding abs using sint_ge [of v] by simp
  moreover have "(- 1 XOR v) - (- 1) = word_of_int \<bar>sint v\<bar>" unfolding abs by (simp add: not_eq_complement)
  ultimately show ?thesis unfolding s by blast
qed

text \<open>
  The width of a number is the length of its decimal spelling, sign included, for every \<open>int\<close> but the
  smallest.
\<close>

theorem number_of_characters:
  assumes "v \<noteq> 0x80000000"
  shows "NumberOfCharacters v = length (decimal (sint v))"
proof -
  define n where "n = nat \<bar>sint v\<bar>"
  have n: "(signed_drop_bit 31 v XOR v) - signed_drop_bit 31 v = of_nat n" "n < 2 ^ 31"
    using abs_by_sign [OF assms] by (simp_all add: n_def nat_less_iff)
  have s: "sint (of_nat n :: u32) = int n" using sint_unat_small [of "of_nat n"] n(2) by (simp add: unat_of_nat)
  have "(if 9 < int n then width_loop (of_nat n) 1 else 1) = length (dec_digits n)"
    using width_loop_digits [of n 1] n(2) by (simp add: length_dec_digits)
  then have "NumberOfCharacters v = length (dec_digits n) + 1 - (if v < 0x80000000 then 1 else 0)"
    unfolding NumberOfCharacters_def Let_def n(1) s by simp
  then show ?thesis by (auto simp: decimal_def n_def below_sign)
qed

lemma number_of_characters_witness: "NumberOfCharacters (- 120) = 4 \<and> length (decimal (- 120)) = 4"
proof -
  have "sint (- 120 :: i32) = - 120" by code_simp
  moreover have "length (decimal (- 120)) = 4" by code_simp
  ultimately show ?thesis using number_of_characters [of "- 120"] by simp
qed

text \<open>The smallest \<open>int\<close> counts as two characters; its spelling has eleven.\<close>

lemma number_of_characters_min: "NumberOfCharacters 0x80000000 = 2" "length (decimal (sint (0x80000000 :: i32))) = 11"
proof -
  have "\<not> 9 < sint ((signed_drop_bit 31 0x80000000 XOR 0x80000000) - signed_drop_bit 31 0x80000000 :: i32)" by code_simp
  then show "NumberOfCharacters 0x80000000 = 2" by (simp add: NumberOfCharacters_def Let_def)
  have "sint (0x80000000 :: i32) = - 2147483648" by code_simp
  then show "length (decimal (sint (0x80000000 :: i32))) = 11" by (simp add: decimal_def length_dec_digits)
qed

section \<open>Reversal in place\<close>

lemma swap_loop_reverses:
  "r < n div 2 \<Longrightarrow> n \<le> length b \<Longrightarrow> \<exists>c. swap_loop n r b = (n div 2, c) \<and>
     length c = length b \<and> (\<forall>i < length b. c ! i = (if r \<le> i \<and> i < n - r then b ! (n - 1 - i) else b ! i))"
proof (induction "n div 2 - r" arbitrary: r b)
  case (Suc k)
  let ?b = "b[r := b ! (n - 1 - r), n - 1 - r := b ! r]"
  have step: "?b ! i = (if i = n - 1 - r then b ! r else if i = r then b ! (n - 1 - r) else b ! i)" if "i < length b" for i
    using that Suc.prems by (auto simp: nth_list_update)
  show ?case
  proof (cases "Suc r < n div 2")
    case True
    have "k = n div 2 - Suc r" using Suc.hyps(2) by simp
    from Suc.hyps(1) [OF this True, of ?b] Suc.prems(2) obtain c where
      c: "swap_loop n (Suc r) ?b = (n div 2, c)" "length c = length b"
      "\<And>i. i < length b \<Longrightarrow> c ! i = (if Suc r \<le> i \<and> i < n - Suc r then ?b ! (n - 1 - i) else ?b ! i)"
      unfolding length_list_update by blast
    have "swap_loop n r b = (n div 2, c)" using c(1) True by (subst swap_loop.simps) (simp add: Let_def)
    moreover have "c ! i = (if r \<le> i \<and> i < n - r then b ! (n - 1 - i) else b ! i)" if i: "i < length b" for i
    proof (cases "Suc r \<le> i \<and> i < n - Suc r")
      case True
      then have j: "n - 1 - i < length b" "n - 1 - i \<noteq> n - 1 - r" "n - 1 - i \<noteq> r" and ir: "r \<le> i \<and> i < n - r"
        using Suc.prems by auto
      have "c ! i = ?b ! (n - 1 - i)" by (rule trans [OF c(3) [OF i] if_P [OF True]])
      also have "\<dots> = b ! (n - 1 - i)" by (rule trans [OF step [OF j(1)] trans [OF if_not_P [OF j(2)] if_not_P [OF j(3)]]])
      also have "\<dots> = (if r \<le> i \<and> i < n - r then b ! (n - 1 - i) else b ! i)" by (rule if_P [OF ir, symmetric])
      finally show ?thesis .
    next
      case False
      then have "c ! i = ?b ! i" unfolding c(3) [OF i] by (rule if_not_P)
      moreover have "n - 1 - r < n - r" "n - 1 - (n - 1 - r) = r" "r \<le> n - 1 - r" "r < n - r" using True Suc.prems(1) by auto
      moreover have "i \<noteq> r \<Longrightarrow> i \<noteq> n - 1 - r \<Longrightarrow> \<not> (r \<le> i \<and> i < n - r)" using False by auto
      ultimately show ?thesis unfolding step [OF i] by (cases "i = n - 1 - r"; cases "i = r") auto
    qed
    ultimately show ?thesis using c(2) by blast
  next
    case False
    then have e: "Suc r = n div 2" using Suc.prems(1) by simp
    have "swap_loop n r b = (n div 2, ?b)" using False e by (subst swap_loop.simps) (simp add: Let_def)
    moreover have "?b ! i = (if r \<le> i \<and> i < n - r then b ! (n - 1 - i) else b ! i)" if "i < length b" for i
    proof -
      have "n = 2 * r + 2 \<or> n = 2 * r + 3" using e by presburger
      then show ?thesis unfolding step [OF that] by (auto simp: le_Suc_eq less_Suc_eq numeral_eq_Suc)
    qed
    ultimately show ?thesis by auto
  qed
qed simp

text \<open>
  Reversal in place: within the buffer the first bytes come in reverse order, the rest stays, and the
  answer is the number of exchanges.
\<close>

theorem swapn_reverses:
  assumes "1 < n" and "nat n \<le> length a"
  shows "SwapN a n = Some (n div 2, rev (take (nat n) a) @ drop (nat n) a)"
proof -
  let ?n = "nat n"
  have "0 < ?n div 2" using assms(1) by (simp add: div_greater_zero_iff)
  then obtain c where c: "swap_loop ?n 0 a = (?n div 2, c)" "length c = length a"
    "\<And>i. i < length a \<Longrightarrow> c ! i = (if i < ?n then a ! (?n - 1 - i) else a ! i)"
    using swap_loop_reverses [of 0 ?n a] assms(2) by auto
  have "c = rev (take ?n a) @ drop ?n a"
  proof (rule nth_equalityI)
    fix i assume "i < length c"
    then show "c ! i = (rev (take ?n a) @ drop ?n a) ! i" using assms(2) c(2) by (auto simp: c(3) nth_append rev_nth min_def)
  qed (use assms(2) c(2) in simp)
  then show ?thesis using assms c(1) by (simp add: SwapN_def nat_div_distrib)
qed

lemma swapn_reverses_witness: "SwapN [1, 2, 3, 4, 5] 3 = Some (1, [3, 2, 1, 4, 5])"
  using swapn_reverses [of 3 "[1, 2, 3, 4, 5]"] by simp

section \<open>The key hash\<close>

text \<open>Both halves of the mixing step lose nothing: an odd factor has an inverse, and a shifted exclusive or can be undone.\<close>

lemma odd_factor_inj:
  fixes f g :: u32
  assumes "f * g = 1" and "x * f = y * f"
  shows "x = y"
proof -
  have "x = x * f * g" using assms(1) by (simp add: mult.assoc)
  also have "\<dots> = y" unfolding assms(2) using assms(1) by (simp add: mult.assoc)
  finally show ?thesis .
qed

lemma xorshift_inj:
  fixes x y :: u32
  assumes "0 < k" and "x XOR drop_bit k x = y XOR drop_bit k y"
  shows "x = y"
proof -
  have eq: "(bit x n \<noteq> bit x (k + n)) = (bit y n \<noteq> bit y (k + n))" for n
    using arg_cong [OF assms(2), of "\<lambda>w. bit w n"] by (simp add: bit_xor_iff bit_drop_bit_eq)
  have "bit x n = bit y n" for n
  proof (induction "32 - n" arbitrary: n rule: less_induct)
    case less
    show ?case
    proof (cases "n < 32")
      case True
      then have "bit x (k + n) = bit y (k + n)" using less assms(1) by simp
      then show ?thesis using eq [of n] by blast
    next
      case False
      then show ?thesis using bit_imp_le_length [of x n] bit_imp_le_length [of y n] by auto
    qed
  qed
  then show ?thesis by (intro bit_word_eqI) simp
qed

lemma shift_add: "h + push_bit k h = h * (1 + 2 ^ k)" for h :: u32
  by (simp add: push_bit_eq_mult algebra_simps)

lemma hash_mix_inj:
  assumes "hash_mix h b = hash_mix h' b'"
  shows "h + scast b = h' + scast b'"
proof (rule odd_factor_inj)
  show "(1 + 2 ^ 10 :: u32) * 3222273025 = 1" by simp
  show "(h + scast b) * (1 + 2 ^ 10) = (h' + scast b') * (1 + 2 ^ 10)"
  proof (rule xorshift_inj [of 6])
    show "(h + scast b) * (1 + 2 ^ 10) XOR drop_bit 6 ((h + scast b) * (1 + 2 ^ 10)) =
        (h' + scast b') * (1 + 2 ^ 10) XOR drop_bit 6 ((h' + scast b') * (1 + 2 ^ 10))"
      using assms by (simp only: hash_mix_def Let_def shift_add)
  qed simp
qed

lemma hash_end_inj:
  assumes "hash_end h = hash_end h'"
  shows "h = h'"
proof (rule odd_factor_inj)
  show "(1 + 2 ^ 3 :: u32) * 954437177 = 1" by simp
  show "h * (1 + 2 ^ 3) = h' * (1 + 2 ^ 3)"
  proof (rule xorshift_inj [of 11])
    show "h * (1 + 2 ^ 3) XOR drop_bit 11 (h * (1 + 2 ^ 3)) = h' * (1 + 2 ^ 3) XOR drop_bit 11 (h' * (1 + 2 ^ 3))"
    proof (rule odd_factor_inj)
      show "(1 + 2 ^ 15 :: u32) * 1073709057 = 1" by simp
    qed (use assms in \<open>simp only: hash_end_def Let_def shift_add\<close>)
  qed simp
qed

definition hash_bytes :: "u8 list \<Rightarrow> u32 \<Rightarrow> u32" where
  "hash_bytes key h = fold (\<lambda>b h. hash_mix h b) key h"

lemma hash_bytes_inj: "hash_bytes key x = hash_bytes key y \<Longrightarrow> x = y"
proof (induction key arbitrary: x y)
  case (Cons a key)
  then have "hash_mix x a = hash_mix y a" by (simp add: hash_bytes_def)
  then show ?case using hash_mix_inj [of x a y a] by simp
qed (simp add: hash_bytes_def)

text \<open>
  C40. Keys that differ in one byte are told apart: with the same bytes before and after it, different bytes at one
  place never get the same hash.
\<close>

theorem xml_hash_one_byte:
  assumes "b \<noteq> b'"
  shows "XmlKeyHashBinary (pre @ b # rest) \<noteq> XmlKeyHashBinary (pre @ b' # rest)"
proof
  assume "XmlKeyHashBinary (pre @ b # rest) = XmlKeyHashBinary (pre @ b' # rest)"
  then have "hash_bytes rest (hash_mix (hash_bytes pre 0) b) = hash_bytes rest (hash_mix (hash_bytes pre 0) b')"
    unfolding XmlKeyHashBinary_def hash_bytes_def by (auto dest: hash_end_inj)
  from hash_mix_inj [OF hash_bytes_inj [OF this]] have "scast b = (scast b' :: u32)" by simp
  moreover have "sint (scast x :: u32) = sint x" for x :: u8
  proof -
    have "- (2 ^ 31) \<le> sint x" "sint x < 2 ^ 31" using sint_lt [of x] sint_ge [of x] by simp_all
    then show ?thesis unfolding scast_eq by (rule sint_of_small)
  qed
  ultimately have "sint b = sint b'" by metis
  then show False using assms signed_word_eqI by blast
qed

lemma xml_hash_one_byte_witness: "XmlKeyHashBinary [1, 2, 3] \<noteq> XmlKeyHashBinary [1, 7, 3]"
  using xml_hash_one_byte [of 2 7 "[1]" "[3]"] by simp

section \<open>Bit fields\<close>

lemma BitFieldTst_bit:
  assumes "0 \<le> n" and "nat n div 8 < length p"
  shows "\<exists>w. BitFieldTst p n = Some w \<and> (w \<noteq> 0 \<longleftrightarrow> bit (p ! (nat n div 8)) (nat n mod 8))"
proof -
  have d: "nat (n div 8) = nat n div 8" "nat (n mod 8) = nat n mod 8" "0 \<le> n div 8"
    using assms(1) by (simp_all add: nat_div_distrib nat_mod_distrib)
  have m: "push_bit k 1 = (2 ^ k :: u32)" for k by (simp add: push_bit_eq_mult)
  let ?b = "p ! (nat n div 8)" and ?k = "nat n mod 8"
  have "BitFieldTst p n = Some (2 ^ ?k AND scast ?b)" using assms d by (simp add: BitFieldTst_def Let_def m)
  moreover have "(2 ^ ?k AND scast ?b :: u32) \<noteq> 0 \<longleftrightarrow> bit (scast ?b :: u32) ?k"
    by (metis and.commute and_exp_eq_0_iff_not_bit)
  moreover have "bit (scast ?b :: u32) ?k = bit ?b ?k"
    by (simp add: bit_signed_iff less_trans [OF mod_less_divisor, of 8 32])
  ultimately show ?thesis by blast
qed

end
