(* ===== verification/GeoBits.thy ===== *)
theory GeoBits
  imports Base
begin

text \<open>
  Field accessors of the rebuilt libraries on the bytes of an object: the coordinate classifiers
  (\<open>src/recomp/geometri\<close>, \<open>src/recomp/geometri2\<close>), geometry nodes (\<open>src/recomp/aeplib\<close>), image headers
  (\<open>src/recomp/bmx\<close>), tool types (\<open>src/recomp/bohrcyc\<close>), window handles (\<open>src/recomp/winmgr\<close>), axes
  (\<open>src/recomp/dcsiface\<close>) and contours (\<open>src/recomp/geocontours\<close>).
\<close>

section \<open>Coordinate classes\<close>

text \<open>The flags of a coordinate are read from the bytes of a node in one library and from its words in the other.\<close>

definition geo_coord_field :: "u32 \<Rightarrow> u8 list \<Rightarrow> u32" where
  "geo_coord_field cm g =
     (if get32 g 0x5c AND cm \<noteq> 0 \<or> get32 g 0x58 AND cm = 0 then 0xFFFFFFFF
      else if cm = 0x200000 then get32 g 0xf0 AND 0x126
      else if cm < 0x200001 then
        (if cm = 0x4000 then get32 g 0xd8 AND 0x126
         else if cm = 0x8000 then get32 g 0xdc AND 0x126 else 0xFFFFFFFF)
      else if cm = 0x400000 then get32 g 0xf4 AND 0x126 else 0xFFFFFFFF)"

definition IsPolareLaenge :: "u32 \<Rightarrow> u8 list \<Rightarrow> bool" where "IsPolareLaenge cm g \<longleftrightarrow> geo_coord_field cm g = 4"
definition IsCartInkrement :: "u32 \<Rightarrow> u8 list \<Rightarrow> bool" where "IsCartInkrement cm g \<longleftrightarrow> geo_coord_field cm g = 2"
definition IsPolarerWinkel :: "u32 \<Rightarrow> u8 list \<Rightarrow> bool" where "IsPolarerWinkel cm g \<longleftrightarrow> geo_coord_field cm g = 0x20"

definition coord_class :: "u32 \<Rightarrow> u32 list \<Rightarrow> u32 \<Rightarrow> bool" where
  "coord_class a1 a2 K =
     (if a1 AND a2 ! 23 = 0 \<and> a1 AND a2 ! 22 \<noteq> 0 then
        if a1 = 0x200000 then a2 ! 60 AND 0x126 = K
        else if a1 > 0x200000 then (if a1 \<noteq> 0x400000 then False else a2 ! 61 AND 0x126 = K)
        else if a1 = 0x4000 then a2 ! 54 AND 0x126 = K
        else if a1 = 0x8000 then a2 ! 55 AND 0x126 = K
        else False
      else False)"

definition G2_IsCartInkrement where "G2_IsCartInkrement a1 a2 = coord_class a1 a2 2"
definition G2_IsPolareLaenge where "G2_IsPolareLaenge a1 a2 = coord_class a1 a2 4"
definition IsPolaresLaengenInkrement where "IsPolaresLaengenInkrement a1 a2 = coord_class a1 a2 6"
definition G2_IsPolarerWinkel where "G2_IsPolarerWinkel a1 a2 = coord_class a1 a2 32"
definition IsPolaresWinkelInkrement where "IsPolaresWinkelInkrement a1 a2 = coord_class a1 a2 34"

section \<open>Geometry nodes\<close>

function SchlittenInKanal :: "u8 \<Rightarrow> nat" where
  "SchlittenInKanal a = (if a = 0 then 0 else Suc (SchlittenInKanal (drop_bit 1 a)))"
  by pat_completeness auto

termination
  by (relation "measure unat") (auto simp: drop_bit_eq_div unat_div_distrib unat_gt_0)

declare SchlittenInKanal.simps [simp del]

definition MehrSpindler :: "u8 \<Rightarrow> bool" where
  "MehrSpindler a \<longleftrightarrow> a \<le> 0xA \<and> push_bit (unat a) (1 :: u32) AND 0x646 \<noteq> 0"

definition chk_zustellung :: "u8 list option \<Rightarrow> u32" where
  "chk_zustellung a =
     (case a of None \<Rightarrow> 0 | Some g \<Rightarrow>
        if get32 g 84 = 1 \<and> byte_at g 94 AND 1 \<noteq> 0 then drop_bit 6 (get32 g 220 AND get32 g 216) AND 1 else 0)"

definition AEP_VorschubTyp :: "u8 list option \<Rightarrow> nat" where
  "AEP_VorschubTyp a = (case a of None \<Rightarrow> 0 | Some g \<Rightarrow> if get32 g 84 = 1 then unat (byte_at g 108) mod 10 else 0)"

definition AEP_ElementNichtBearbeiten :: "u8 list option \<Rightarrow> bool" where
  "AEP_ElementNichtBearbeiten a =
     (case a of None \<Rightarrow> False | Some g \<Rightarrow> if get32 g 84 \<noteq> 1 then False else byte_at g 108 - 10 \<le> 9)"

definition AEP_set_ovsi_0 :: "u8 list option \<Rightarrow> u8 \<times> u8 list option" where
  "AEP_set_ovsi_0 a =
     (case a of None \<Rightarrow> (0, None) | Some g \<Rightarrow>
        let g1 = overlay 100 (replicate 8 0) g; r = (byte_at g1 120 AND 0x3F) OR 0x40
        in (r, Some (overlay 120 [r] g1)))"

section \<open>Image headers\<close>

definition get16 :: "u8 list \<Rightarrow> nat \<Rightarrow> u16" where
  "get16 b i = ucast (byte_at b i) OR push_bit 8 (ucast (byte_at b (i + 1)))"

definition bmxBmxInfo :: "u8 list \<Rightarrow> u32" where "bmxBmxInfo h = get32 h 0x10"
definition bmxBmpInfo :: "u8 list \<Rightarrow> u32" where "bmxBmpInfo h = get32 h 0"
definition bmxBmxVersion :: "u8 list \<Rightarrow> u32" where "bmxBmxVersion h = ucast (byte_at h 8)"
definition bmxBmpData :: "u8 list \<Rightarrow> u32" where "bmxBmpData h = get32 h 8"

definition CheckSizeImage :: "u8 list \<Rightarrow> bool \<times> u8 list" where
  "CheckSizeImage h =
     (if get32 h 0x14 \<noteq> 0 then (True, h)
      else if get32 h 0x10 \<noteq> 0 then (False, h)
      else if get16 h 0x0e \<noteq> 0x18 then (False, h)
      else
        let c = get32 h 4 * 3;
            e = (if 0 \<le> sint (c - 1) then c - 1 else c + 2);
            e1 = signed_drop_bit 2 e + 1
        in (True, put32 h 0x14 (push_bit 2 (e1 * get32 h 8))))"

section \<open>Tools, windows, axes, contours\<close>

definition BCYC_Typisiere_Werkzeug :: "i32 \<Rightarrow> i32 \<times> u32" where
  "BCYC_Typisiere_Werkzeug a = (signed_drop_bit 8 a, signed_drop_bit 4 a AND 0xf)"

definition BCYC_Angetr_Werkz :: "u8 list \<Rightarrow> u32" where
  "BCYC_Angetr_Werkz p =
     (let t = byte_at p 0xe0; e = ucast t - 1 :: u32;
          eax = (e AND 0xffffff00) OR (if e AND 0xff \<le> 1 then 1 else 0)
      in eax OR (if t = 5 then 1 else 0))"

definition CheckWindow :: "u8 list \<Rightarrow> u8 list \<Rightarrow> u8 list" where
  "CheckWindow w out =
     (if get32 w 0 = 0 \<and> get32 w 8 = get32 out 0 then put32 out 4 (get32 w 0xc) else out)"

definition WmGetMessageCount :: "u8 list option \<Rightarrow> u32" where
  "WmGetMessageCount p = (case p of Some b \<Rightarrow> get32 b 0x4c | None \<Rightarrow> 0)"

definition WmMustConfirmEvent :: "u8 list \<Rightarrow> u32" where "WmMustConfirmEvent p = get32 p 0x38"

definition AllocWindow :: "u8 list \<Rightarrow> u32 \<times> u8 list" where
  "AllocWindow p = (let c = get32 p 0x44 + 1 in (c, put32 p 0x44 c))"

definition WmGetLastError :: "u8 list \<Rightarrow> u32 \<times> u8 list" where
  "WmGetLastError p = (get32 p 0x3c, put32 p 0x3c 0)"

definition FreeWindow :: "u8 list \<Rightarrow> u8 list" where "FreeWindow p = p"

definition cfgYAxis :: "u8 list \<Rightarrow> u8" where "cfgYAxis th = byte_at th 29828"

text \<open>\<open>None\<close> is an access in front of the object.\<close>

definition isAxisAvailable :: "u8 list \<Rightarrow> int \<Rightarrow> u8 option" where
  "isAxisAvailable th a = (let i = a + 29844 in if 0 \<le> i then Some (byte_at th (nat i)) else None)"

definition isAxisAvailableCh :: "u8 list \<Rightarrow> int \<Rightarrow> int \<Rightarrow> u8 option" where
  "isAxisAvailableCh th a b = (let i = 24 * a + b + 30156 in if 0 \<le> i then Some (byte_at th (nat i)) else None)"

definition KernOpen :: "int \<times> int" where "KernOpen = (1, 200)"

definition disallowFeedAdaption :: "u8 list \<Rightarrow> u8 list" where "disallowFeedAdaption th = overlay 31 [1] th"
definition isFeedAdaptionAllowed :: "u8 list \<Rightarrow> u8" where "isFeedAdaptionAllowed th = byte_at th 31 XOR 1"
definition IsToolCorrPastOrTo :: "u8 list \<Rightarrow> bool" where "IsToolCorrPastOrTo th \<longleftrightarrow> get32 th 8 - 2 \<le> 1"
definition IsCorrFwdBwd :: "u8 list \<Rightarrow> bool" where "IsCorrFwdBwd th \<longleftrightarrow> get32 th 8 - 2 \<le> 2"

definition OffsetResult_isEmpty :: "u8 list \<Rightarrow> bool" where
  "OffsetResult_isEmpty th = (if get32 th 0 = get32 th 4 then get32 th 16 = get32 th 12 else False)"

text \<open>The list head points to itself when the list is empty; \<open>a\<close> is the address of the object.\<close>

definition PocketsDefined :: "u32 \<Rightarrow> u8 list \<Rightarrow> bool" where "PocketsDefined a th \<longleftrightarrow> get32 th 0 \<noteq> a"

section \<open>Properties\<close>

definition dwords :: "u8 list \<Rightarrow> u32 list" where "dwords g = map (\<lambda>i. get32 g (4 * i)) [0..<62]"

lemma dwords_nth: "i < 62 \<Longrightarrow> dwords g ! i = get32 g (4 * i)"
  by (simp add: dwords_def)

lemma coord_class_field:
  assumes "K \<noteq> 0xFFFFFFFF"
  shows "coord_class cm (dwords g) K \<longleftrightarrow> geo_coord_field cm g = K"
proof -
  have lt: "cm < 0x200001 \<longleftrightarrow> \<not> cm > 0x200000" by (simp add: word_less_nat_alt not_less) linarith
  show ?thesis using assms
    by (simp add: coord_class_def geo_coord_field_def dwords_nth lt and.commute)
qed

lemma coord_class_single: "coord_class cm ws K \<Longrightarrow> coord_class cm ws L \<Longrightarrow> K = L"
  by (auto simp: coord_class_def split: if_splits)

lemma list_at_most_one:
  assumes "\<And>K L. P K \<Longrightarrow> P L \<Longrightarrow> K = L" and "distinct Ks"
  shows "length (filter P Ks) \<le> 1"
proof (rule ccontr)
  assume "\<not> length (filter P Ks) \<le> 1"
  then obtain x y zs where f: "filter P Ks = x # y # zs" by (cases "filter P Ks" rule: list.exhaust; cases "tl (filter P Ks)") auto
  then have "x \<in> set (filter P Ks)" "y \<in> set (filter P Ks)" by simp_all
  then have "P x" "P y" by simp_all
  moreover have "distinct (filter P Ks)" using assms(2) by simp
  ultimately show False using assms(1) f by auto
qed

text \<open>
  The two rebuilt classifier families agree: on the words of a node the functions of one library answer what those of the other
  answer on its bytes, and of the five classes a coordinate is in at most one.
\<close>

theorem coord_classes_agree:
  "G2_IsPolareLaenge cm (dwords g) = IsPolareLaenge cm g \<and>
   G2_IsCartInkrement cm (dwords g) = IsCartInkrement cm g \<and>
   G2_IsPolarerWinkel cm (dwords g) = IsPolarerWinkel cm g \<and>
   length (filter (\<lambda>c. c cm ws)
     [G2_IsCartInkrement, G2_IsPolareLaenge, IsPolaresLaengenInkrement, G2_IsPolarerWinkel, IsPolaresWinkelInkrement]) \<le> 1"
proof -
  have five: "[G2_IsCartInkrement, G2_IsPolareLaenge, IsPolaresLaengenInkrement, G2_IsPolarerWinkel, IsPolaresWinkelInkrement] =
      map (\<lambda>K a1 a2. coord_class a1 a2 K) [2, 4, 6, 32, 34]"
    by (simp add: fun_eq_iff G2_IsPolareLaenge_def G2_IsCartInkrement_def G2_IsPolarerWinkel_def
        IsPolaresLaengenInkrement_def IsPolaresWinkelInkrement_def)
  have "length (filter (coord_class cm ws) [2, 4, 6, 32, 34]) \<le> 1"
    by (rule list_at_most_one) (auto dest: coord_class_single)
  then have "length (filter (\<lambda>c. c cm ws) (map (\<lambda>K a1 a2. coord_class a1 a2 K) [2, 4, 6, 32, 34])) \<le> 1"
    by (simp only: filter_map o_def length_map)
  then show ?thesis unfolding five
    by (simp add: G2_IsPolareLaenge_def G2_IsCartInkrement_def G2_IsPolarerWinkel_def
        IsPolareLaenge_def IsCartInkrement_def IsPolarerWinkel_def coord_class_field)
qed

text \<open>The bit length of the channel mask.\<close>

lemma SchlittenInKanal_bound: "unat a < 2 ^ SchlittenInKanal a \<and> (a \<noteq> 0 \<longrightarrow> 2 ^ (SchlittenInKanal a - 1) \<le> unat a)"
proof (induction a rule: SchlittenInKanal.induct)
  case (1 a)
  show ?case
  proof (cases "a = 0")
    case False
    let ?b = "drop_bit 1 a"
    have b: "unat ?b = unat a div 2" by (simp add: drop_bit_eq_div unat_div_distrib)
    have s: "SchlittenInKanal a = Suc (SchlittenInKanal ?b)" using False by (subst SchlittenInKanal.simps) simp
    have a0: "0 < unat a" using False by (simp add: unat_gt_0)
    show ?thesis
    proof (cases "?b = 0")
      case True
      then have "unat a < 2" using b by (simp add: div_eq_0_iff)
      then show ?thesis unfolding s using True a0 by (simp add: SchlittenInKanal.simps [of 0])
    next
      case nz: False
      then obtain k where k: "SchlittenInKanal ?b = Suc k" by (subst (asm) SchlittenInKanal.simps) (auto simp: SchlittenInKanal.simps [of ?b])
      show ?thesis unfolding s using 1 [OF False] nz b k by auto
    qed
  qed (simp add: SchlittenInKanal.simps)
qed

lemma SchlittenInKanal_floor: "a \<noteq> 0 \<Longrightarrow> unat a div 2 ^ (SchlittenInKanal a - 1) = 1"
proof -
  assume a: "a \<noteq> 0"
  then have "SchlittenInKanal a \<noteq> 0" by (subst SchlittenInKanal.simps) simp
  then have "(2 :: nat) ^ SchlittenInKanal a = 2 * 2 ^ (SchlittenInKanal a - 1)" by (cases "SchlittenInKanal a") simp_all
  then show ?thesis using SchlittenInKanal_bound [of a] a by (simp add: div_nat_eqI)
qed

text \<open>
  The image size of an uncompressed bitmap with 24 bits per pixel: rows of three bytes per pixel are padded to a multiple
  of four and counted once per line; nothing but the size field is stored, and a second check keeps it.
\<close>

theorem check_size_image:
  assumes "get32 h 0x14 = 0" and "get32 h 0x10 = 0" and "get16 h 0x0e = 0x18"
    and "get32 h 4 = word_of_int w" and "1 \<le> w" and "3 * w < 2 ^ 31" and "get32 h 8 = word_of_int l"
  defines "row \<equiv> 4 * ((3 * w + 3) div 4)"
  shows "\<exists>h'. CheckSizeImage h = (True, h') \<and> get32 h' 0x14 = word_of_int (row * l) \<and>
    (\<forall>i. i + 4 \<le> 0x14 \<or> 0x18 \<le> i \<longrightarrow> get32 h' i = get32 h i) \<and>
    (row * l mod 2 ^ 32 \<noteq> 0 \<longrightarrow> CheckSizeImage h' = (True, h'))"
proof -
  let ?c = "word_of_int w * 3 :: u32"
  have c: "?c - 1 = word_of_int (3 * w - 1)" by (simp add: algebra_simps)
  have s: "sint (?c - 1) = 3 * w - 1" unfolding c by (rule sint_of_small) (use assms(5,6) in simp_all)
  have d: "sint (signed_drop_bit 2 (?c - 1)) = (3 * w - 1) div 4" by (simp add: sint_signed_drop_bit_eq s drop_bit_eq_div)
  have "word_of_int (sint (signed_drop_bit 2 (?c - 1))) = signed_drop_bit 2 (?c - 1)" by simp
  then have "signed_drop_bit 2 (?c - 1) = word_of_int ((3 * w - 1) div 4)" unfolding d by (rule sym)
  moreover have "(3 * w + 3) div 4 = (3 * w - 1) div 4 + 1" by simp
  ultimately have e: "signed_drop_bit 2 (?c - 1) + 1 = word_of_int ((3 * w + 3) div 4)" by simp
  have size: "push_bit 2 (word_of_int ((3 * w + 3) div 4) * word_of_int l :: u32) = word_of_int (row * l)"
    by (simp add: push_bit_eq_mult row_def algebra_simps)
  let ?h = "put32 h 0x14 (word_of_int (row * l))"
  have "CheckSizeImage h = (True, ?h)"
    using assms(1-5,7) s by (simp add: CheckSizeImage_def Let_def e size del: of_int_mult)
  moreover have "row * l mod 2 ^ 32 \<noteq> 0 \<longrightarrow> CheckSizeImage ?h = (True, ?h)"
    by (simp add: CheckSizeImage_def word_of_int_eq_0_iff dvd_eq_mod_eq_0 del: of_int_mult)
  ultimately show ?thesis by (auto simp: get32_put32_other)
qed

definition bmp_header :: "u8 \<Rightarrow> u8 \<Rightarrow> u8 list" where
  "bmp_header w l = replicate 4 0 @ [w, 0, 0, 0, l, 0, 0, 0, 0, 0, 0x18, 0] @ replicate 12 0"

lemma check_size_image_witness: "\<exists>h'. CheckSizeImage (bmp_header 2 3) = (True, h') \<and> get32 h' 0x14 = 24"
proof -
  have "get32 (bmp_header 2 3) 0x14 = 0" "get32 (bmp_header 2 3) 0x10 = 0" "get16 (bmp_header 2 3) 0x0e = 0x18"
    "get32 (bmp_header 2 3) 4 = word_of_int 2" "get32 (bmp_header 2 3) 8 = word_of_int 3" by code_simp+
  from check_size_image [OF this(1-4) _ _ this(5)] show ?thesis by auto
qed

text \<open>An image of width 0 is given one dword per line.\<close>

lemma check_size_zero_width: "get32 (snd (CheckSizeImage (bmp_header 0 3))) 0x14 = 12"
  by code_simp

text \<open>The tool type is the packed code's upper digits.\<close>

lemma BCYC_Typisiere_digits:
  assumes "BCYC_Typisiere_Werkzeug a = (m, s)"
  shows "sint m = sint a div 256 \<and> uint s = sint a div 16 mod 16"
proof -
  have ms: "m = signed_drop_bit 8 a" "s = signed_drop_bit 4 a AND mask 4"
    using assms by (simp_all add: BCYC_Typisiere_Werkzeug_def mask_eq_exp_minus_1)
  have "sint m = sint a div 256" by (simp add: ms sint_signed_drop_bit_eq drop_bit_eq_div)
  moreover have s: "uint s = sint a div 16 mod 16"
  proof -
    have "uint s = take_bit 4 (uint (signed_drop_bit 4 a))" by (simp add: ms(2) unsigned_take_bit_eq flip: take_bit_eq_mask)
    also have "uint (signed_drop_bit 4 a) = take_bit 32 (sint a div 16)"
      by (simp add: uint_sint sint_signed_drop_bit_eq drop_bit_eq_div)
    finally show ?thesis by (simp add: take_bit_eq_mod mod_mod_cancel)
  qed
  ultimately show ?thesis by blast
qed

end
