(* ===== verification/NodeLists.thy ===== *)
theory NodeLists
  imports Base
begin

text \<open>
  Walks over linked lists of geometry nodes: the mutators of \<open>src/recomp/aeplib2/aeplib2_rebuilt.c\<close>, which cut the list
  behind the last node they shall reach and mend it afterwards, and the counter of
  \<open>src/recomp/aequi/libEp90_Aequi_rebuilt.c\<close>.  Memory is a map per field, address 0 the null pointer; a loop that does not
  end is \<open>None\<close>.
\<close>

section \<open>The code\<close>

record node_mem =
  n_link :: "u32 \<Rightarrow> u32"
  n_bam :: "u32 \<Rightarrow> u32"

partial_function (option) bam_walk :: "(u32 \<Rightarrow> u32) \<Rightarrow> u32 \<Rightarrow> node_mem \<Rightarrow> node_mem option" where
  "bam_walk f r m =
     (if r = 0 then Some m else bam_walk f (n_link m r) (m\<lparr>n_bam := (n_bam m)(r := f (n_bam m r))\<rparr>))"

definition bam_between :: "(u32 \<Rightarrow> u32) \<Rightarrow> u32 \<Rightarrow> u32 \<Rightarrow> node_mem \<Rightarrow> node_mem option" where
  "bam_between f a1 a2 m =
     (if a2 = 0 then None
      else let v4 = n_link m a2 in
        (case bam_walk f a1 (m\<lparr>n_link := (n_link m)(a2 := 0)\<rparr>) of
           None \<Rightarrow> None
         | Some m1 \<Rightarrow> Some (m1\<lparr>n_link := (n_link m1)(a2 := v4)\<rparr>)))"

definition AEP_SetBam :: "u32 \<Rightarrow> u32 \<Rightarrow> u32 \<Rightarrow> node_mem \<Rightarrow> node_mem option" where
  "AEP_SetBam a1 a2 a3 = bam_between (\<lambda>_. a3) a1 a2"

definition AEP_AddBam :: "u32 \<Rightarrow> u32 \<Rightarrow> u32 \<Rightarrow> node_mem \<Rightarrow> node_mem option" where
  "AEP_AddBam a1 a2 a3 = bam_between (\<lambda>b. b OR a3) a1 a2"

definition AEP_DelBam :: "u32 \<Rightarrow> u32 \<Rightarrow> u32 \<Rightarrow> node_mem \<Rightarrow> node_mem option" where
  "AEP_DelBam a1 a2 a3 = bam_between (\<lambda>b. b AND NOT a3) a1 a2"

partial_function (option) count_from :: "i32 \<Rightarrow> u32 \<Rightarrow> (u32 \<Rightarrow> u32) \<Rightarrow> i32 option" where
  "count_from n p nxt = (if p = 0 then Some n else count_from (n + 1) (nxt p) nxt)"

definition anz_same_level :: "u32 \<Rightarrow> (u32 \<Rightarrow> u32) \<Rightarrow> i32 option" where
  "anz_same_level p nxt = count_from 0 p nxt"

section \<open>Chains\<close>

text \<open>\<open>chain l p xs q\<close>: from \<open>p\<close> the links \<open>l\<close> pass the nodes \<open>xs\<close> and then reach \<open>q\<close>.\<close>

fun chain :: "(u32 \<Rightarrow> u32) \<Rightarrow> u32 \<Rightarrow> u32 list \<Rightarrow> u32 \<Rightarrow> bool" where
  "chain l p [] q \<longleftrightarrow> p = q"
| "chain l p (x # xs) q \<longleftrightarrow> p = x \<and> x \<noteq> 0 \<and> chain l (l x) xs q"

lemma chain_append [simp]: "chain l p (xs @ ys) q \<longleftrightarrow> (\<exists>r. chain l p xs r \<and> chain l r ys q)"
  by (induction xs arbitrary: p) auto

lemma chain_upd: "a \<notin> set xs \<Longrightarrow> chain (l(a := b)) p xs q \<longleftrightarrow> chain l p xs q"
  by (induction xs arbitrary: p) auto

definition map_bam :: "(u32 \<Rightarrow> u32) \<Rightarrow> u32 set \<Rightarrow> node_mem \<Rightarrow> node_mem" where
  "map_bam f A m = m\<lparr>n_bam := (\<lambda>p. if p \<in> A then f (n_bam m p) else n_bam m p)\<rparr>"

lemma map_bam_link [simp]:
  "map_bam f A (m\<lparr>n_link := l\<rparr>) = (map_bam f A m)\<lparr>n_link := l\<rparr>" "n_link (map_bam f A m) = n_link m"
  by (simp_all add: map_bam_def cong: if_cong)

lemma bam_walk_chain:
  "chain (n_link m) p xs 0 \<Longrightarrow> distinct xs \<Longrightarrow> bam_walk f p m = Some (map_bam f (set xs) m)"
proof (induction xs arbitrary: p m)
  case Nil
  then show ?case by (simp add: bam_walk.simps map_bam_def)
next
  case (Cons x xs)
  let ?m = "m\<lparr>n_bam := (n_bam m)(x := f (n_bam m x))\<rparr>"
  have "bam_walk f p m = bam_walk f (n_link m x) ?m" using Cons.prems by (subst bam_walk.simps) simp
  also have "\<dots> = Some (map_bam f (set xs) ?m)" using Cons.prems by (intro Cons.IH) simp_all
  also have "map_bam f (set xs) ?m = map_bam f (set (x # xs)) m"
    using Cons.prems(2) by (auto simp: map_bam_def fun_eq_iff)
  finally show ?case .
qed

lemma bam_between_chain:
  assumes "chain (n_link m) a1 (xs @ [a2]) q" and "distinct (xs @ [a2])"
  shows "bam_between f a1 a2 m = Some (map_bam f (set (xs @ [a2])) m)"
proof -
  let ?m = "m\<lparr>n_link := (n_link m)(a2 := 0)\<rparr>"
  have "a2 \<noteq> 0" using assms(1) by auto
  moreover have "chain (n_link ?m) a1 (xs @ [a2]) 0" using assms by (auto simp: chain_upd)
  then have "bam_walk f a1 ?m = Some (map_bam f (set (xs @ [a2])) ?m)" using assms(2) by (rule bam_walk_chain)
  ultimately show ?thesis by (simp add: bam_between_def)
qed

section \<open>Properties\<close>

text \<open>
  C39. The three mutators reach exactly the nodes from the first to the last they are given, whatever comes behind the last
  one (even the first again, as in a ring), return, and leave every link as it was.
\<close>

theorem bam_segment:
  assumes "chain (n_link m) a1 (xs @ [a2]) q" and "distinct (xs @ [a2])"
    and "(op, f) \<in> {(AEP_SetBam, \<lambda>_. v), (AEP_AddBam, \<lambda>b. b OR v), (AEP_DelBam, \<lambda>b. b AND NOT v)}"
  shows "\<exists>m'. op a1 a2 v m = Some m' \<and> n_link m' = n_link m \<and>
    (\<forall>p. n_bam m' p = (if p \<in> set (xs @ [a2]) then f (n_bam m p) else n_bam m p))"
proof -
  have "op a1 a2 v m = bam_between f a1 a2 m"
    using assms(3) by (auto simp: AEP_SetBam_def AEP_AddBam_def AEP_DelBam_def)
  then have "op a1 a2 v m = Some (map_bam f (set (xs @ [a2])) m)"
    using bam_between_chain [OF assms(1,2)] by simp
  then show ?thesis by (simp add: map_bam_def)
qed

definition ring3 :: node_mem where
  "ring3 = \<lparr>n_link = (\<lambda>p. if p = 4 then 8 else if p = 8 then 12 else 4), n_bam = (\<lambda>_. 3)\<rparr>"

lemma bam_segment_witness:
  "\<exists>m'. AEP_AddBam 4 12 8 ring3 = Some m' \<and> n_link m' = n_link ring3 \<and> n_bam m' 8 = 11 \<and> n_bam m' 16 = 3"
proof -
  have "chain (n_link ring3) 4 ([4, 8] @ [12]) 4" by (simp add: ring3_def)
  moreover have "distinct ([4, 8] @ [12 :: u32])" by simp
  ultimately obtain m' where m: "AEP_AddBam 4 12 8 ring3 = Some m'" "n_link m' = n_link ring3"
      "\<And>p. n_bam m' p = (if p \<in> set ([4, 8] @ [12]) then n_bam ring3 p OR 8 else n_bam ring3 p)"
    using bam_segment [of ring3 4 "[4, 8]" 12 4 AEP_AddBam "\<lambda>b. b OR 8" 8] by auto
  then show ?thesis by (auto simp: ring3_def)
qed

text \<open>Adding flags and then deleting the same flags clears them on the whole segment.\<close>

lemma add_del_bam:
  assumes "chain (n_link m) a1 (xs @ [a2]) q" and "distinct (xs @ [a2])"
  shows "\<exists>m1 m2. AEP_AddBam a1 a2 v m = Some m1 \<and> AEP_DelBam a1 a2 v m1 = Some m2 \<and> AEP_DelBam a1 a2 v m = Some m2"
proof -
  let ?m1 = "map_bam (\<lambda>b. b OR v) (set (xs @ [a2])) m"
  have c: "chain (n_link ?m1) a1 (xs @ [a2]) q" using assms(1) by (simp add: map_bam_def)
  have "(b OR v) AND NOT v = b AND NOT v" for b :: u32 by (simp add: bit.conj_disj_distrib2)
  then have "map_bam (\<lambda>b. b AND NOT v) (set (xs @ [a2])) ?m1 = map_bam (\<lambda>b. b AND NOT v) (set (xs @ [a2])) m"
    by (auto simp: map_bam_def fun_eq_iff)
  then show ?thesis
    using bam_between_chain [OF assms, of "\<lambda>b. b OR v"] bam_between_chain [OF assms, of "\<lambda>b. b AND NOT v"]
      bam_between_chain [OF c assms(2), of "\<lambda>b. b AND NOT v"]
    by (simp add: AEP_AddBam_def AEP_DelBam_def)
qed

lemma count_from_chain: "chain nxt p xs 0 \<Longrightarrow> count_from n p nxt = Some (n + of_nat (length xs))"
proof (induction xs arbitrary: p n)
  case (Cons x xs)
  then show ?case by (subst count_from.simps) (simp add: Cons.IH add.assoc)
qed (simp add: count_from.simps)

lemma anz_same_level_length: "chain nxt p xs 0 \<Longrightarrow> anz_same_level p nxt = Some (of_nat (length xs))"
  by (simp add: anz_same_level_def count_from_chain)

text \<open>On a list that never reaches the null pointer the counter does not return.\<close>

lemma count_from_endless:
  assumes "count_from n p nxt = Some y"
  shows "\<exists>k. (nxt ^^ k) p = 0"
proof (rule count_from.raw_induct [of "\<lambda>n p nxt y. \<exists>k. (nxt ^^ k) p = 0", OF _ assms])
  fix f :: "i32 \<Rightarrow> u32 \<Rightarrow> (u32 \<Rightarrow> u32) \<Rightarrow> i32 option" and n p nxt y
  assume h: "\<And>n p nxt y. f n p nxt = Some y \<Longrightarrow> \<exists>k. (nxt ^^ k) p = 0"
    and b: "(if p = 0 then Some n else f (n + 1) (nxt p) nxt) = Some y"
  show "\<exists>k. (nxt ^^ k) p = 0"
  proof (cases "p = 0")
    case True
    then show ?thesis by (intro exI [of _ 0]) simp
  next
    case False
    then obtain k where "(nxt ^^ k) (nxt p) = 0" using h b by fastforce
    then show ?thesis by (intro exI [of _ "Suc k"]) (simp add: funpow_swap1)
  qed
qed

lemma anz_same_level_ring: "(\<And>k. (nxt ^^ k) p \<noteq> 0) \<Longrightarrow> anz_same_level p nxt = None"
  using count_from_endless [of 0 p nxt] by (cases "anz_same_level p nxt") (auto simp: anz_same_level_def)

end
