(* ===== verification/Ieee.thy ===== *)
theory Ieee
  imports Base Complex_Main
begin

text \<open>
  IEEE 754 doubles as the geometry libraries of \<open>src/recomp\<close> use them: a finite number is a rational, every
  operation rounds its exact result to 53 bits, ties to even, with gradual underflow, and overflows to an infinity.
  Zero has one representation here: none of the modelled functions tells the two signs apart.
\<close>

named_theorems dbl_simps \<open>doubles in the range where nothing overflows\<close>

section \<open>Rounding\<close>

function ilog :: "int \<Rightarrow> int" where
  "ilog n = (if n < 2 then 0 else 1 + ilog (n div 2))"
  by pat_completeness auto

termination by (relation "measure nat") (auto simp: nat_less_iff)

declare ilog.simps [simp del]

lemma ilog_nonneg [simp]: "0 \<le> ilog n"
  by (induction n rule: ilog.induct) (subst ilog.simps, simp)

lemma ilog_bounds: "0 < n \<Longrightarrow> 2 ^ nat (ilog n) \<le> n \<and> n < 2 ^ (nat (ilog n) + 1)"
proof (induction n rule: ilog.induct)
  case (1 n)
  show ?case
  proof (cases "n < 2")
    case True
    then show ?thesis using "1.prems" by (subst (1 2) ilog.simps) simp
  next
    case False
    then have "2 ^ nat (ilog (n div 2)) \<le> n div 2" "n div 2 < 2 ^ (nat (ilog (n div 2)) + 1)" using 1 by auto
    moreover have "nat (ilog n) = Suc (nat (ilog (n div 2)))" using False by (subst ilog.simps) (simp add: nat_add_distrib)
    ultimately show ?thesis by simp linarith
  qed
qed

text \<open>The binary exponent of a positive number.\<close>

definition expo :: "rat \<Rightarrow> int" where
  "expo x = (let (p, q) = quotient_of x; k = ilog p - ilog q in if 2 powi k \<le> x then k else k - 1)"

text \<open>To the nearest integer, ties to even.\<close>

definition rne :: "rat \<Rightarrow> int" where
  "rne x = (let n = \<lfloor>x\<rfloor>; r = x - of_int n in
     if r < 1 / 2 then n else if 1 / 2 < r then n + 1 else if even n then n else n + 1)"

definition ulp :: "rat \<Rightarrow> rat" where "ulp x = 2 powi (max (expo \<bar>x\<bar>) (- 1022) - 52)"

definition rnd :: "rat \<Rightarrow> rat" where
  "rnd x = (if x = 0 then 0 else of_int (rne (x / ulp x)) * ulp x)"

section \<open>Doubles\<close>

datatype dbl = Fin rat | Inf bool | NaN

definition fl :: "rat \<Rightarrow> dbl" where
  "fl x = (let r = rnd x in if \<bar>r\<bar> < 2 ^ 1024 then Fin r else Inf (r < 0))"

fun dneg :: "dbl \<Rightarrow> dbl" where
  "dneg (Fin a) = Fin (- a)"
| "dneg (Inf s) = Inf (\<not> s)"
| "dneg NaN = NaN"

fun dabs :: "dbl \<Rightarrow> dbl" where
  "dabs (Fin a) = Fin \<bar>a\<bar>"
| "dabs (Inf s) = Inf False"
| "dabs NaN = NaN"

fun dadd :: "dbl \<Rightarrow> dbl \<Rightarrow> dbl" where
  "dadd (Fin a) (Fin b) = fl (a + b)"
| "dadd (Inf s) (Fin b) = Inf s"
| "dadd (Fin a) (Inf t) = Inf t"
| "dadd (Inf s) (Inf t) = (if s = t then Inf s else NaN)"
| "dadd _ _ = NaN"

definition dsub :: "dbl \<Rightarrow> dbl \<Rightarrow> dbl" where "dsub a b = dadd a (dneg b)"

fun dmul :: "dbl \<Rightarrow> dbl \<Rightarrow> dbl" where
  "dmul (Fin a) (Fin b) = fl (a * b)"
| "dmul (Inf s) (Fin b) = (if b = 0 then NaN else Inf (s \<noteq> (b < 0)))"
| "dmul (Fin a) (Inf t) = (if a = 0 then NaN else Inf (t \<noteq> (a < 0)))"
| "dmul (Inf s) (Inf t) = Inf (s \<noteq> t)"
| "dmul _ _ = NaN"

fun ddiv :: "dbl \<Rightarrow> dbl \<Rightarrow> dbl" where
  "ddiv (Fin a) (Fin b) = (if b = 0 then (if a = 0 then NaN else Inf (a < 0)) else fl (a / b))"
| "ddiv (Inf s) (Fin b) = Inf (s \<noteq> (b < 0))"
| "ddiv (Fin a) (Inf t) = Fin 0"
| "ddiv _ _ = NaN"

text \<open>Comparisons; with NaN all of them are false.\<close>

fun dlt :: "dbl \<Rightarrow> dbl \<Rightarrow> bool" where
  "dlt (Fin a) (Fin b) = (a < b)"
| "dlt (Inf s) (Fin b) = s"
| "dlt (Fin a) (Inf t) = (\<not> t)"
| "dlt (Inf s) (Inf t) = (s \<and> \<not> t)"
| "dlt _ _ = False"

fun dle :: "dbl \<Rightarrow> dbl \<Rightarrow> bool" where
  "dle (Fin a) (Fin b) = (a \<le> b)"
| "dle (Inf s) (Fin b) = s"
| "dle (Fin a) (Inf t) = (\<not> t)"
| "dle (Inf s) (Inf t) = (s \<or> \<not> t)"
| "dle _ _ = False"

fun deq :: "dbl \<Rightarrow> dbl \<Rightarrow> bool" where
  "deq (Fin a) (Fin b) = (a = b)"
| "deq (Inf s) (Inf t) = (s = t)"
| "deq _ _ = False"

text \<open>\<open>modf\<close>: the fraction and the integral part, both with the sign of the argument.\<close>

fun dmodf :: "dbl \<Rightarrow> dbl \<times> dbl" where
  "dmodf (Fin a) = (let i = (if 0 \<le> a then of_int \<lfloor>a\<rfloor> else - of_int \<lfloor>- a\<rfloor>) in (Fin (a - i), Fin i))"
| "dmodf (Inf s) = (Fin 0, Inf s)"
| "dmodf NaN = (NaN, NaN)"

text \<open>A double in a byte buffer, by its two words.\<close>

definition dbl_of_words :: "u32 \<Rightarrow> u32 \<Rightarrow> dbl" where
  "dbl_of_words lo hi =
     (let s = (if bit hi 31 then - 1 else 1 :: rat); e = uint (drop_bit 20 hi AND 0x7ff);
          m = uint (hi AND 0xfffff) * 2 ^ 32 + uint lo
      in if e = 0x7ff then (if m = 0 then Inf (bit hi 31) else NaN)
         else if e = 0 then Fin (s * of_int m * 2 powi (- 1074))
         else Fin (s * of_int (2 ^ 52 + m) * 2 powi (e - 1075)))"

definition get_dbl :: "u8 list \<Rightarrow> nat \<Rightarrow> dbl" where
  "get_dbl b i = dbl_of_words (get32 b i) (get32 b (i + 4))"

section \<open>Facts about rounding\<close>

lemma rne_of_int [simp]: "rne (of_int n) = n"
  by (simp add: rne_def)

lemma rne_mono: "x \<le> y \<Longrightarrow> rne x \<le> rne y"
proof -
  assume xy: "x \<le> y"
  have f: "\<lfloor>x\<rfloor> \<le> \<lfloor>y\<rfloor>" using xy by (rule floor_mono)
  show ?thesis
  proof (cases "\<lfloor>x\<rfloor> = \<lfloor>y\<rfloor>")
    case True
    then show ?thesis using xy by (auto simp: rne_def Let_def)
  next
    case False
    then have "\<lfloor>x\<rfloor> + 1 \<le> \<lfloor>y\<rfloor>" using f by simp
    moreover have "rne x \<le> \<lfloor>x\<rfloor> + 1" "\<lfloor>y\<rfloor> \<le> rne y" by (auto simp: rne_def Let_def)
    ultimately show ?thesis by linarith
  qed
qed

lemma rne_near: "\<bar>of_int (rne x) - x\<bar> \<le> 1 / 2"
proof -
  have "of_int \<lfloor>x\<rfloor> \<le> x" "x < of_int \<lfloor>x\<rfloor> + 1" by linarith+
  then show ?thesis by (auto simp: rne_def Let_def abs_le_iff)
qed

lemma rne_minus: "rne (- x) = - rne x"
proof (cases "x \<in> \<int>")
  case True
  then obtain n where "x = of_int n" by (auto elim: Ints_cases)
  then show ?thesis using rne_of_int [of "- n"] by simp
next
  case False
  then have "\<lfloor>- x\<rfloor> = - \<lfloor>x\<rfloor> - 1" by (simp add: floor_minus ceiling_altdef) (metis Ints_of_int)
  then show ?thesis by (auto simp: rne_def Let_def)
qed

lemma expo_bounds:
  assumes "0 < x"
  shows "2 powi expo x \<le> x \<and> x < 2 powi (expo x + 1)"
proof -
  obtain p q where pq: "quotient_of x = (p, q)" by (cases "quotient_of x")
  have q: "0 < q" using quotient_of_denom_pos [OF pq] .
  have x: "x = of_int p / of_int q" using quotient_of_div [OF pq] .
  then have p: "0 < p" using assms q by (simp add: zero_less_divide_iff)
  let ?a = "ilog p" and ?b = "ilog q"
  have pa: "(2 :: rat) powi ?a \<le> of_int p" "of_int p < (2 :: rat) powi (?a + 1)"
    and qb: "(2 :: rat) powi ?b \<le> of_int q" "of_int q < (2 :: rat) powi (?b + 1)"
  proof -
    have pw: "(2 :: rat) powi (ilog n) = of_int (2 ^ nat (ilog n))" "(2 :: rat) powi (ilog n + 1) = of_int (2 ^ (nat (ilog n) + 1))" for n
      by (simp_all add: power_int_def nat_add_distrib)
    show "(2 :: rat) powi ?a \<le> of_int p" "of_int p < (2 :: rat) powi (?a + 1)"
      "(2 :: rat) powi ?b \<le> of_int q" "of_int q < (2 :: rat) powi (?b + 1)"
      unfolding pw of_int_le_iff of_int_less_iff using ilog_bounds [OF p] ilog_bounds [OF q] by auto
  qed
  have pos: "(0 :: rat) < 2 powi k" for k by simp
  have "x < 2 powi (?a + 1) / 2 powi ?b"
    unfolding x by (rule frac_less) (use pa qb pos p in auto)
  then have up: "x < 2 powi (?a - ?b + 1)" by (simp add: power_int_diff [symmetric] algebra_simps)
  have "2 powi ?a / 2 powi (?b + 1) \<le> x"
    unfolding x by (rule frac_le) (use pa qb q p in auto)
  then have lo: "2 powi (?a - ?b - 1) \<le> x" by (simp add: power_int_diff [symmetric] algebra_simps)
  show ?thesis using up lo by (auto simp: expo_def pq Let_def algebra_simps)
qed

lemma expo_mono: "0 < x \<Longrightarrow> x \<le> y \<Longrightarrow> expo x \<le> expo y"
proof (rule ccontr)
  assume xy: "0 < x" "x \<le> y" and "\<not> expo x \<le> expo y"
  then have "expo y + 1 \<le> expo x" by simp
  then have "(2 :: rat) powi (expo y + 1) \<le> 2 powi expo x" by (rule power_int_increasing) simp
  then show False using expo_bounds [of x] expo_bounds [of y] xy by linarith
qed

lemma ulp_pos [simp]: "0 < ulp x" by (simp add: ulp_def)

lemma ulp_minus [simp]: "ulp (- x) = ulp x" by (simp add: ulp_def)

lemma rnd_0 [simp]: "rnd 0 = 0" by (simp add: rnd_def)

lemma rnd_minus: "rnd (- x) = - rnd x"
  by (simp add: rnd_def rne_minus)

lemma rnd_nonneg: "0 \<le> x \<Longrightarrow> 0 \<le> rnd x"
proof -
  assume "0 \<le> x"
  then have "0 \<le> x / ulp x" by (simp add: less_imp_le)
  then have "0 \<le> rne (x / ulp x)" using rne_mono [of 0 "x / ulp x"] rne_of_int [of 0] by simp
  then show ?thesis by (simp add: rnd_def less_imp_le)
qed

text \<open>A power of two above the grid of a number is on that grid.\<close>

lemma rnd_le_power:
  assumes "0 < x" and "x \<le> 2 powi e" and "max (expo x) (- 1022) - 52 \<le> e"
  shows "rnd x \<le> 2 powi e"
proof -
  let ?u = "max (expo x) (- 1022) - 52"
  have e: "(2 :: rat) powi e / 2 powi ?u = 2 powi (e - ?u)" by (simp add: power_int_diff)
  also have "\<dots> = of_int (2 ^ nat (e - ?u))" using assms(3) by (simp add: power_int_def)
  finally have g: "(2 :: rat) powi e / 2 powi ?u = of_int (2 ^ nat (e - ?u))" .
  have u: "ulp x = 2 powi ?u" using assms(1) by (simp add: ulp_def)
  have "x / ulp x \<le> 2 powi e / 2 powi ?u" unfolding u by (rule divide_right_mono) (use assms(2) in simp_all)
  then have "rne (x / ulp x) \<le> 2 ^ nat (e - ?u)" unfolding g using rne_mono rne_of_int by metis
  then have "of_int (rne (x / ulp x)) \<le> (2 :: rat) powi e / 2 powi ?u" unfolding g of_int_le_iff .
  then show ?thesis using assms(1) u by (simp add: rnd_def pos_le_divide_eq)
qed

lemma power_le_rnd:
  assumes "2 powi e \<le> x" and "max (expo x) (- 1022) - 52 \<le> e"
  shows "2 powi e \<le> rnd x"
proof -
  let ?u = "max (expo x) (- 1022) - 52"
  have x: "0 < x" by (rule less_le_trans [OF _ assms(1)]) simp
  have e: "(2 :: rat) powi e / 2 powi ?u = 2 powi (e - ?u)" by (simp add: power_int_diff)
  also have "\<dots> = of_int (2 ^ nat (e - ?u))" using assms(2) by (simp add: power_int_def)
  finally have g: "(2 :: rat) powi e / 2 powi ?u = of_int (2 ^ nat (e - ?u))" .
  have u: "ulp x = 2 powi ?u" using x by (simp add: ulp_def)
  have "2 powi e / 2 powi ?u \<le> x / ulp x" unfolding u by (rule divide_right_mono) (use assms(1) in simp_all)
  then have "2 ^ nat (e - ?u) \<le> rne (x / ulp x)" unfolding g using rne_mono rne_of_int by metis
  then have "(2 :: rat) powi e / 2 powi ?u \<le> of_int (rne (x / ulp x))" unfolding g of_int_le_iff .
  then show ?thesis using x u by (simp add: rnd_def pos_divide_le_eq)
qed

lemma rnd_mono_pos:
  assumes "0 < x" and "x \<le> y"
  shows "rnd x \<le> rnd y"
proof (cases "max (expo x) (- 1022) = max (expo y) (- 1022)")
  case True
  then have u: "ulp x = ulp y" using assms by (simp add: ulp_def)
  have "x / ulp x \<le> y / ulp x" by (rule divide_right_mono) (use assms(2) in \<open>simp_all add: less_imp_le\<close>)
  then have "rne (x / ulp x) \<le> rne (y / ulp x)" by (rule rne_mono)
  then show ?thesis using assms u by (simp add: rnd_def mult_right_mono less_imp_le)
next
  case False
  then have ey: "expo x < expo y" "- 1022 < expo y" using expo_mono [OF assms] by auto
  have y: "2 powi expo y \<le> y" using expo_bounds [of y] assms by auto
  have "(2 :: rat) powi (expo x + 1) \<le> 2 powi expo y" using ey(1) by (intro power_int_increasing) simp_all
  then have "x \<le> 2 powi expo y" using expo_bounds [OF assms(1)] by linarith
  then have "rnd x \<le> 2 powi expo y" by (rule rnd_le_power [OF assms(1)]) (use ey in auto)
  also have "\<dots> \<le> rnd y" by (rule power_le_rnd [OF y]) (use ey in auto)
  finally show ?thesis .
qed

lemma rnd_mono: "x \<le> y \<Longrightarrow> rnd x \<le> rnd y"
proof -
  assume xy: "x \<le> y"
  consider "0 < x" | "x \<le> 0" "0 \<le> y" | "y < 0" using xy by linarith
  then show ?thesis
  proof cases
    case 1
    then show ?thesis using xy by (rule rnd_mono_pos)
  next
    case 2
    then show ?thesis using rnd_nonneg [of "- x"] rnd_nonneg [of y] by (simp add: rnd_minus)
  next
    case 3
    then show ?thesis using rnd_mono_pos [of "- y" "- x"] xy by (simp add: rnd_minus)
  qed
qed

lemma rnd_mono_abs: "\<bar>x\<bar> \<le> y \<Longrightarrow> \<bar>rnd x\<bar> \<le> rnd y"
  using rnd_mono [of x y] rnd_mono [of "- x" y] by (simp add: rnd_minus abs_le_iff)

text \<open>Comparing a rounded result with a double decides about the exact one.\<close>

lemma rnd_less_D: "rnd x < d \<Longrightarrow> rnd d = d \<Longrightarrow> x < d"
  using rnd_mono [of d x] by (cases "d \<le> x") auto

lemma less_rnd_D: "d < rnd x \<Longrightarrow> rnd d = d \<Longrightarrow> d < x"
  using rnd_mono [of x d] by (cases "x \<le> d") auto

lemma rnd_le_I: "x \<le> d \<Longrightarrow> rnd d = d \<Longrightarrow> rnd x \<le> d"
  using rnd_mono [of x d] by simp

lemma le_rnd_I: "d \<le> x \<Longrightarrow> rnd d = d \<Longrightarrow> d \<le> rnd x"
  using rnd_mono [of d x] by simp

lemma rnd_pow2:
  assumes "- 1074 \<le> e"
  shows "rnd (2 powi e) = 2 powi e"
proof (rule antisym)
  have b: "2 powi expo (2 powi e) \<le> (2 :: rat) powi e" using expo_bounds [of "2 powi e"] by simp
  have "expo (2 powi e) \<le> e"
  proof (rule ccontr)
    assume "\<not> expo (2 powi e) \<le> e"
    then have "(2 :: rat) powi e < 2 powi expo (2 powi e)" by (intro power_int_strict_increasing) simp_all
    then show False using b by simp
  qed
  then have "max (expo (2 powi e)) (- 1022) - 52 \<le> e" using assms by auto
  then show "rnd (2 powi e) \<le> 2 powi e" "2 powi e \<le> rnd (2 powi e)" by (auto intro: rnd_le_power power_le_rnd)
qed

text \<open>Up to 53 bits on a grid that is not too fine are a double; so every rounded number is one.\<close>

lemma rnd_exact_pos:
  assumes "0 < m" and "m < 2 ^ 53" and "- 1074 \<le> k"
  shows "rnd (of_int m * 2 powi k) = of_int m * 2 powi k"
proof -
  let ?x = "of_int m * (2 :: rat) powi k"
  have x: "0 < ?x" using assms(1) by simp
  have "of_int m < (of_int (2 ^ 53) :: rat)" using assms(2) unfolding of_int_less_iff .
  then have "?x < 2 powi 53 * 2 powi k" by simp
  then have "?x < 2 powi (53 + k)" by (simp add: power_int_add)
  then have "2 powi expo ?x < (2 :: rat) powi (53 + k)" using expo_bounds [OF x] by linarith
  have "expo ?x < 53 + k"
  proof (rule ccontr)
    assume "\<not> expo ?x < 53 + k"
    then have "(2 :: rat) powi (53 + k) \<le> 2 powi expo ?x" by (intro power_int_increasing) simp_all
    then show False using \<open>2 powi expo ?x < (2 :: rat) powi (53 + k)\<close> by simp
  qed
  define u where "u = max (expo ?x) (- 1022) - 52"
  have u: "u \<le> k" using \<open>expo ?x < 53 + k\<close> assms(3) by (auto simp: u_def)
  have g: "ulp ?x = 2 powi u" using x by (simp add: ulp_def u_def)
  have "?x / ulp ?x = of_int m * 2 powi (k - u)" by (simp add: g power_int_diff)
  also have "\<dots> = of_int (m * 2 ^ nat (k - u))" using u by (simp add: power_int_def)
  finally have q: "?x / ulp ?x = of_int (m * 2 ^ nat (k - u))" .
  have "?x \<noteq> 0" using x by (metis less_irrefl)
  then have "rnd ?x = of_int (rne (?x / ulp ?x)) * ulp ?x" by (simp only: rnd_def if_False)
  also have "\<dots> = ?x / ulp ?x * ulp ?x" unfolding q rne_of_int ..
  also have "\<dots> = ?x" using less_imp_neq [OF ulp_pos [of ?x]] by simp
  finally show ?thesis .
qed

lemma rnd_exact:
  assumes "\<bar>m\<bar> \<le> 2 ^ 53" and "- 1074 \<le> k"
  shows "rnd (of_int m * 2 powi k) = of_int m * 2 powi k"
proof -
  have pos: "rnd (of_int n * 2 powi k) = of_int n * 2 powi k" if "0 < n" "n \<le> 2 ^ 53" for n
  proof (cases "n = 2 ^ 53")
    case True
    then have "of_int n * (2 :: rat) powi k = 2 powi (53 + k)" by (simp add: power_int_add)
    then show ?thesis using rnd_pow2 [of "53 + k"] assms(2) by simp
  next
    case False
    then show ?thesis using that assms(2) by (intro rnd_exact_pos) simp_all
  qed
  consider "0 < m" | "m = 0" | "m < 0" by linarith
  then show ?thesis
  proof cases
    case 1
    then show ?thesis using pos [of m] assms(1) by simp
  next
    case 3
    then have "rnd (- (of_int (- m) * 2 powi k)) = - (of_int (- m) * 2 powi k)"
      using pos [of "- m"] assms(1) by (simp only: rnd_minus)
    then show ?thesis by simp
  qed simp
qed

lemma rnd_rnd [simp]: "rnd (rnd x) = rnd x"
proof -
  have pos: "rnd (rnd x) = rnd x" if x: "0 < x" for x
  proof -
    define u where "u = max (expo x) (- 1022) - 52"
    have g: "ulp x = 2 powi u" using x by (simp add: ulp_def u_def)
    have "x < 2 powi (expo x + 1)" using expo_bounds [OF x] by simp
    also have "\<dots> \<le> 2 powi (53 + u)" by (rule power_int_increasing) (auto simp: u_def)
    finally have "x / ulp x \<le> of_int (2 ^ 53)" by (simp add: g power_int_add pos_divide_le_eq)
    then have "rne (x / ulp x) \<le> 2 ^ 53" using rne_mono [of "x / ulp x" "of_int (2 ^ 53)"] unfolding rne_of_int by blast
    moreover have "0 \<le> rne (x / ulp x)"
      using rne_mono [of 0 "x / ulp x"] rne_of_int [of 0] x by (simp add: less_imp_le)
    ultimately have "\<bar>rne (x / ulp x)\<bar> \<le> 2 ^ 53" by simp
    then have "rnd (of_int (rne (x / ulp x)) * 2 powi u) = of_int (rne (x / ulp x)) * 2 powi u"
      by (rule rnd_exact) (simp add: u_def)
    then show ?thesis using x g by (simp add: rnd_def)
  qed
  consider "0 < x" | "x = 0" | "x < 0" by linarith
  then show ?thesis
  proof cases
    case 3
    then show ?thesis using pos [of "- x"] by (simp add: rnd_minus)
  qed (use pos in simp_all)
qed

text \<open>Sums with an exact double and with zero.\<close>

lemma rnd_int [simp]: "\<bar>n\<bar> \<le> 2 ^ 53 \<Longrightarrow> rnd (of_int n) = of_int n"
  using rnd_exact [of n 0] by simp

text \<open>The rounding error is half a unit in the last place.\<close>

lemma rnd_error:
  assumes "\<bar>x\<bar> \<le> 2 powi e" and "- 1022 \<le> e"
  shows "\<bar>rnd x - x\<bar> \<le> 2 powi (e - 53)"
proof (cases "x = 0")
  case False
  then have x: "0 < \<bar>x\<bar>" by simp
  have "expo \<bar>x\<bar> \<le> e"
  proof (rule ccontr)
    assume "\<not> expo \<bar>x\<bar> \<le> e"
    then have "(2 :: rat) powi e < 2 powi expo \<bar>x\<bar>" by (intro power_int_strict_increasing) simp_all
    then show False using expo_bounds [OF x] assms(1) by linarith
  qed
  then have "ulp x \<le> 2 powi (e - 52)" unfolding ulp_def by (intro power_int_increasing) (use assms(2) in auto)
  have "rnd x - x = (of_int (rne (x / ulp x)) - x / ulp x) * ulp x"
    using False less_imp_neq [OF ulp_pos [of x]] by (simp add: rnd_def left_diff_distrib)
  then have "\<bar>rnd x - x\<bar> = \<bar>of_int (rne (x / ulp x)) - x / ulp x\<bar> * ulp x" by (simp add: abs_mult less_imp_le)
  also have "\<dots> \<le> 1 / 2 * ulp x" by (rule mult_right_mono [OF rne_near]) (simp add: less_imp_le)
  also have "\<dots> \<le> 1 / 2 * 2 powi (e - 52)" using \<open>ulp x \<le> 2 powi (e - 52)\<close> by simp
  also have "\<dots> = 2 powi (e - 53)"
    using power_int_add [of "2 :: rat" "e - 53" 1] by (simp add: algebra_simps)
  finally show ?thesis .
qed simp

section \<open>Where nothing overflows\<close>

definition moderate :: "rat \<Rightarrow> bool" where "moderate x \<longleftrightarrow> \<bar>x\<bar> \<le> 2 ^ 1023"

lemma rnd_moderate: "moderate x \<Longrightarrow> \<bar>rnd x\<bar> \<le> 2 ^ 1023"
  using rnd_mono_abs [of x "2 powi 1023"] rnd_pow2 [of 1023] by (simp add: moderate_def)

lemma fl_moderate [dbl_simps]: "moderate x \<Longrightarrow> fl x = Fin (rnd x)"
proof -
  assume "moderate x"
  then have "\<bar>rnd x\<bar> \<le> 2 ^ 1023" by (rule rnd_moderate)
  then have "\<bar>rnd x\<bar> < 2 ^ 1024" by (rule le_less_trans) simp
  then show ?thesis by (simp add: fl_def Let_def)
qed

lemma moderate_I: "\<bar>x\<bar> \<le> b \<Longrightarrow> b \<le> 2 ^ 1023 \<Longrightarrow> moderate x"
  by (simp add: moderate_def)

lemma moderate_add: "\<bar>a\<bar> \<le> 2 ^ 1022 \<Longrightarrow> \<bar>b\<bar> \<le> 2 ^ 1022 \<Longrightarrow> moderate (a + b)"
  by (simp add: moderate_def)

lemma dadd_Fin [dbl_simps]: "moderate (a + b) \<Longrightarrow> dadd (Fin a) (Fin b) = Fin (rnd (a + b))"
  by (simp add: dbl_simps)

lemma dsub_Fin [dbl_simps]: "moderate (a - b) \<Longrightarrow> dsub (Fin a) (Fin b) = Fin (rnd (a - b))"
  by (simp add: dsub_def dbl_simps)

lemma dmul_Fin [dbl_simps]: "moderate (a * b) \<Longrightarrow> dmul (Fin a) (Fin b) = Fin (rnd (a * b))"
  by (simp add: dbl_simps)

lemma ddiv_Fin [dbl_simps]: "b \<noteq> 0 \<Longrightarrow> moderate (a / b) \<Longrightarrow> ddiv (Fin a) (Fin b) = Fin (rnd (a / b))"
  by (simp add: dbl_simps)

text \<open>Halves of the exponent range, and sums of two of their members.\<close>

definition small :: "rat \<Rightarrow> bool" where "small x \<longleftrightarrow> \<bar>x\<bar> \<le> 2 ^ 500"

lemma rnd_small: "\<bar>x\<bar> \<le> 2 ^ k \<Longrightarrow> \<bar>rnd x\<bar> \<le> 2 ^ k"
  using rnd_mono_abs [of x "2 powi int k"] rnd_pow2 [of "int k"] by simp

lemma small_moderate [dbl_simps]:
  "small a \<Longrightarrow> small b \<Longrightarrow> moderate (a + b)" "small a \<Longrightarrow> small b \<Longrightarrow> moderate (a - b)"
  by (auto simp: small_def moderate_def)

section \<open>Signs and symmetry, for all doubles\<close>

lemma fl_minus: "fl (- x) = dneg (fl x)"
proof -
  have "rnd x \<noteq> 0" if "\<not> \<bar>rnd x\<bar> < 2 ^ 1024" using that by auto
  then show ?thesis by (auto simp: fl_def Let_def rnd_minus)
qed

lemma dneg_dneg [simp]: "dneg (dneg a) = a" by (cases a) simp_all

lemma dabs_dneg [simp]: "dabs (dneg a) = dabs a" by (cases a) simp_all

lemma dadd_commute: "dadd a b = dadd b a"
  by (cases a; cases b) (simp_all add: add.commute)

lemma dsub_flip: "dsub a b = dneg (dsub b a)"
proof (cases a; cases b)
  fix x y assume "a = Fin x" "b = Fin y"
  then show ?thesis using fl_minus [of "y - x"] by (simp add: dsub_def)
qed (auto simp: dsub_def)

lemma dmul_dneg_dneg [simp]: "dmul (dneg a) (dneg b) = dmul a b"
  by (cases a; cases b) auto

lemma square_flip: "dmul (dsub a b) (dsub a b) = dmul (dsub b a) (dsub b a)"
  using dmul_dneg_dneg [of "dsub b a" "dsub b a"] by (simp flip: dsub_flip)

lemma dabs_dsub_commute: "dabs (dsub a b) = dabs (dsub b a)"
  using dabs_dneg [of "dsub b a"] by (simp flip: dsub_flip)

end
