(* ===== verification/Dmathe.thy ===== *)
theory Dmathe
  imports Ieee
begin

text \<open>
  \<open>src/recomp/dmathe/libEp90_Dm_dmathe_rebuilt.c\<close>: plane geometry on doubles.  Each C operation is one rounded
  operation; \<open>sqrt\<close> and \<open>atan\<close> of the host's mathematics library are arguments (\<open>sq\<close>, \<open>atn\<close>).
\<close>

section \<open>Constants\<close>

definition PI_2 :: rat where "PI_2 = 0x1921fb54442d18 / 2 ^ 52"
definition PI :: rat where "PI = 0x1921fb54442d18 / 2 ^ 51"
definition TWO_PI :: rat where "TWO_PI = 0x1921fb54442d18 / 2 ^ 50"
definition THREE_PI2 :: rat where "THREE_PI2 = 0x12d97c7f3321d2 / 2 ^ 50"
definition SNAP_EPS :: rat where "SNAP_EPS = 0x112e0bea99e73f / 2 ^ 82"
definition EPS3 :: rat where "EPS3 = rnd (1 / 1000)"
definition NEPS3 :: rat where "NEPS3 = - EPS3"
definition EPS8 :: rat where "EPS8 = rnd (1 / 100000000)"

section \<open>Points and vectors\<close>

definition dmathe_TauscheD :: "dbl \<times> dbl \<Rightarrow> dbl \<times> dbl" where
  "dmathe_TauscheD p = (snd p, fst p)"

definition dmathe_RightPerpVect :: "dbl \<Rightarrow> dbl \<Rightarrow> dbl \<times> dbl" where
  "dmathe_RightPerpVect x y = (dneg x, y)"

definition dmathe_LeftPerpVect :: "dbl \<Rightarrow> dbl \<Rightarrow> dbl \<times> dbl" where
  "dmathe_LeftPerpVect x y = (x, dneg y)"

definition dmathe_PunktDrehen :: "dbl \<times> dbl \<Rightarrow> dbl \<Rightarrow> dbl \<Rightarrow> dbl \<Rightarrow> dbl \<Rightarrow> dbl \<times> dbl" where
  "dmathe_PunktDrehen p m2 m3 m4 m5 =
     (case p of (ox, oy) \<Rightarrow>
       (dadd (dadd (dmul m2 (dsub ox m5)) (dmul m3 (dsub oy m4))) m5,
        dsub (dadd (dmul (dsub oy m4) m2) m4) (dmul (dsub ox m5) m3)))"

definition dmathe_roundst :: "dbl \<Rightarrow> int \<Rightarrow> dbl" where
  "dmathe_roundst x n =
     (let xn = dmul x (Fin (of_int n));
          a = (if dle x (Fin 0) then dsub xn (Fin (1 / 2)) else dadd xn (Fin (1 / 2)))
      in ddiv (snd (dmodf a)) (Fin (of_int n)))"

section \<open>Angles\<close>

definition dmathe_NormWinkel :: "dbl \<Rightarrow> dbl" where
  "dmathe_NormWinkel a =
     (let r = dmul (fst (dmodf (ddiv a (Fin TWO_PI)))) (Fin TWO_PI);
          r1 = (if dlt r (Fin 0) then dadd (Fin TWO_PI) r else r)
      in if dlt r1 (Fin SNAP_EPS) \<or> dlt (dsub (Fin TWO_PI) r1) (Fin SNAP_EPS) then Fin 0 else r1)"

definition dmathe_Wirein :: "dbl \<Rightarrow> dbl" where
  "dmathe_Wirein a =
     (let f = fst (dmodf (ddiv a (Fin TWO_PI)));
          f1 = (if dle f (Fin (- 1 / 2)) then dadd f (Fin 1) else f);
          f2 = (if dlt (Fin (1 / 2)) f1 then dsub f1 (Fin 1) else f1)
      in dmul f2 (Fin TWO_PI))"

definition dmathe_VectorWinkel :: "(dbl \<Rightarrow> dbl) \<Rightarrow> dbl \<Rightarrow> dbl \<Rightarrow> dbl" where
  "dmathe_VectorWinkel atn x y =
     (let ax = (if dlt x (Fin 0) then dneg x else x) in
      if dlt ax (Fin EPS3) then (if dlt y (Fin EPS3) then Fin PI else Fin 0)
      else let t = atn (ddiv y x) in
           if dle (Fin EPS3) x then dsub (Fin PI_2) t else dsub (Fin THREE_PI2) t)"

definition dmathe_Distance :: "(dbl \<Rightarrow> dbl) \<Rightarrow> dbl \<Rightarrow> dbl \<Rightarrow> dbl \<Rightarrow> dbl \<Rightarrow> dbl" where
  "dmathe_Distance sq x1 y1 x2 y2 =
     (let ady = (if dle y2 y1 then dsub y1 y2 else dsub y2 y1);
          adx = (if dle x2 x1 then dsub x1 x2 else dsub x2 x1)
      in if dlt ady (Fin EPS3) \<and> dlt adx (Fin EPS3) then Fin 0
         else let dx = dsub x1 x2; dy = dsub y1 y2 in sq (dadd (dmul dx dx) (dmul dy dy)))"

definition dmathe_Turn180Degree :: "dbl \<times> dbl \<Rightarrow> dbl \<Rightarrow> (dbl \<times> dbl) \<times> dbl" where
  "dmathe_Turn180Degree v a =
     (let r = dadd a (Fin PI) in
      ((dneg (fst v), dneg (snd v)), if dlt (Fin TWO_PI) r then dsub r (Fin TWO_PI) else r))"

definition dmathe_CalcOeffWinkel :: "dbl \<Rightarrow> dbl \<Rightarrow> int \<Rightarrow> dbl" where
  "dmathe_CalcOeffWinkel a b flag =
     (if flag = 1 then
        (if dle (Fin EPS3) (dsub a b) then dsub (dadd b (Fin TWO_PI)) a else dsub b a)
      else if dlt (dsub b a) (Fin EPS3) then dsub b a
      else dsub b (dadd a (Fin TWO_PI)))"

definition dmathe_antiparallel :: "dbl \<Rightarrow> dbl \<Rightarrow> bool" where
  "dmathe_antiparallel a b =
     (let n = dmathe_NormWinkel (dadd b (Fin PI)); d = dsub a n;
          ad = (if dlt d (Fin 0) then dneg d else d)
      in if dlt ad (Fin EPS3) then True
         else if dle (Fin TWO_PI) ad then dlt (dsub ad (Fin TWO_PI)) (Fin EPS3)
         else dlt (dsub (Fin TWO_PI) ad) (Fin EPS3))"

definition dmathe_Winkelstrecke :: "(dbl \<Rightarrow> dbl) \<Rightarrow> dbl \<Rightarrow> dbl \<Rightarrow> dbl \<Rightarrow> dbl \<Rightarrow> dbl" where
  "dmathe_Winkelstrecke atn x1 y1 x2 y2 =
     (let dx = dsub x2 x1; adx = (if dlt dx (Fin 0) then dneg dx else dx) in
      if dlt adx (Fin EPS3) then (if dlt (dsub y2 y1) (Fin EPS3) then Fin PI else Fin 0)
      else let t = atn (ddiv (dsub y2 y1) dx) in
           if dle (Fin EPS3) dx then dsub (Fin PI_2) t else dsub (Fin THREE_PI2) t)"

section \<open>Equations and intervals\<close>

text \<open>The number of roots and what is stored to \<open>x1\<close> and \<open>x2\<close>.\<close>

definition dmathe_QuadGl :: "(dbl \<Rightarrow> dbl) \<Rightarrow> dbl \<Rightarrow> dbl \<Rightarrow> dbl \<Rightarrow> int \<times> dbl option \<times> dbl option" where
  "dmathe_QuadGl sq a b c =
     (let aa = (if dlt a (Fin 0) then dneg a else a) in
      if dle (Fin EPS3) aa then
        let b1 = ddiv b a; disc = dsub (dmul (dmul b1 b1) (Fin (1 / 4))) (ddiv c a) in
        if dle (Fin 0) disc then
          if dle (Fin EPS8) disc then
            let s = sq disc in
            (2, Some (dadd s (dmul (dneg b1) (Fin (1 / 2)))), Some (dsub (dmul (dneg b1) (Fin (1 / 2))) s))
          else (1, Some (dneg (dmul b1 (Fin (1 / 2)))), None)
        else (0, None, None)
      else (0, None, None))"

definition dmathe_InIntervall :: "dbl \<Rightarrow> dbl \<Rightarrow> dbl \<Rightarrow> bool" where
  "dmathe_InIntervall a b c =
     (if dlt (dsub c b) (Fin EPS3) then
        (if dlt (Fin NEPS3) (dsub a c) then dlt (Fin NEPS3) (dsub b a) else False)
      else if dlt (Fin NEPS3) (dsub a b) then dlt (Fin NEPS3) (dsub c a)
      else False)"

definition dmathe_wlinks :: "dbl \<Rightarrow> dbl \<Rightarrow> bool" where
  "dmathe_wlinks a b =
     (if dlt (dsub (Fin PI) b) (Fin EPS3) then
        (if dlt (dsub (dsub b (Fin PI)) a) (Fin EPS3) then dle (Fin EPS3) (dsub a b) else True)
      else if dlt (dsub a b) (Fin EPS3) then dle (Fin EPS3) (dsub (dadd b (Fin PI)) a)
      else True)"

definition dmathe_wrechts :: "dbl \<Rightarrow> dbl \<Rightarrow> bool" where
  "dmathe_wrechts a b =
     (if dlt (dsub (Fin PI) b) (Fin EPS3) then
        (if dle (Fin EPS3) (dsub a (dsub b (Fin PI))) then dle (Fin EPS3) (dsub b a) else False)
      else if dle (Fin EPS3) (dsub b a) then dle (Fin EPS3) (dsub a (dadd b (Fin PI)))
      else False)"

definition dmathe_SpGreater0 :: "dbl \<Rightarrow> dbl \<Rightarrow> dbl \<Rightarrow> dbl \<Rightarrow> dbl \<Rightarrow> dbl \<Rightarrow> bool" where
  "dmathe_SpGreater0 a b c d e f =
     (let v = dadd (dmul c a) (dmul d b); av = (if dlt v (Fin 0) then dneg v else v);
          v1 = (if dlt av (Fin EPS3) then dadd (dmul a e) (dmul b f) else v)
      in dlt (Fin EPS3) v1)"

definition dmathe_RadAufBogen :: "dbl \<Rightarrow> dbl \<Rightarrow> int \<Rightarrow> dbl \<Rightarrow> bool" where
  "dmathe_RadAufBogen start0 end0 dir p =
     (let (s, e0) = (if dir = - 1 then (end0, start0) else (start0, end0));
          e = (if dlt e0 s then dadd e0 (Fin TWO_PI) else e0);
          lo = dsub s (Fin EPS3)
      in if dlt p lo \<or> dlt (dadd e (Fin EPS3)) p
         then (if dle lo (dadd p (Fin TWO_PI)) then dle (dadd p (Fin TWO_PI)) (dadd e (Fin EPS3)) else False)
         else True)"

definition dmathe_KreisTangentenWinkel :: "(dbl \<Rightarrow> dbl) \<Rightarrow> int \<Rightarrow> dbl \<Rightarrow> dbl \<Rightarrow> dbl \<Rightarrow> dbl \<Rightarrow> dbl" where
  "dmathe_KreisTangentenWinkel atn flag x1 y1 x2 y2 =
     (let w = dmathe_Winkelstrecke atn x1 y1 x2 y2 in
      if flag = 1 then dmathe_NormWinkel (dadd w (Fin PI_2)) else dmathe_NormWinkel (dsub w (Fin PI_2)))"

definition dmathe_PktAufBogen :: "(dbl \<Rightarrow> dbl) \<Rightarrow> dbl \<Rightarrow> dbl \<Rightarrow> dbl \<Rightarrow> dbl \<Rightarrow> dbl \<Rightarrow> dbl \<Rightarrow> int \<Rightarrow> bool" where
  "dmathe_PktAufBogen atn px py cx cy startA endA dir =
     dmathe_RadAufBogen startA endA dir (dmathe_Winkelstrecke atn cx cy px py)"

definition dmathe_PktAufStrecke :: "dbl \<Rightarrow> dbl \<Rightarrow> dbl \<Rightarrow> dbl \<Rightarrow> dbl \<Rightarrow> dbl \<Rightarrow> bool" where
  "dmathe_PktAufStrecke px py ax ay bx by =
     (if dmathe_InIntervall py ay by \<and> dmathe_InIntervall px ax bx then
        let d1 = dmul (dsub py ay) (dsub bx ax); d2 = dmul (dsub by ay) (dsub px ax) in
        if dlt d1 d2 then dlt (dsub d2 d1) (Fin EPS8) else dlt (dsub d1 d2) (Fin EPS8)
      else False)"

end
