(* ===== verification/DmatheFacts.thy ===== *)
theory DmatheFacts
  imports Dmathe
begin

text \<open>
  What the plane geometry computes in spite of rounding: intervals and arcs contain their limits, angles are normalised
  into one turn, roots come in order, and tolerances are bounds on exact distances.
\<close>

named_theorems const_simps \<open>the constants are doubles of known size\<close>

lemma exact_const:
  assumes "x = of_int m * 2 powi k" and "\<bar>m\<bar> \<le> 2 ^ 53" and "- 1074 \<le> k"
  shows "rnd x = x"
  using rnd_exact [OF assms(2,3)] by (simp add: assms(1))

lemma rnd_PI [const_simps]: "rnd PI = PI" "rnd TWO_PI = TWO_PI" "rnd PI_2 = PI_2" "rnd THREE_PI2 = THREE_PI2" "rnd SNAP_EPS = SNAP_EPS"
proof -
  show "rnd PI = PI" by (rule exact_const [where m = "0x1921fb54442d18" and k = "- 51"]) (simp_all add: PI_def power_int_def power_divide)
  show "rnd TWO_PI = TWO_PI" by (rule exact_const [where m = "0x1921fb54442d18" and k = "- 50"]) (simp_all add: TWO_PI_def power_int_def power_divide)
  show "rnd PI_2 = PI_2" by (rule exact_const [where m = "0x1921fb54442d18" and k = "- 52"]) (simp_all add: PI_2_def power_int_def power_divide)
  show "rnd THREE_PI2 = THREE_PI2" by (rule exact_const [where m = "0x12d97c7f3321d2" and k = "- 50"]) (simp_all add: THREE_PI2_def power_int_def power_divide)
  show "rnd SNAP_EPS = SNAP_EPS" by (rule exact_const [where m = "0x112e0bea99e73f" and k = "- 82"]) (simp_all add: SNAP_EPS_def power_int_def power_divide)
qed

lemma rnd_EPS [const_simps]: "rnd EPS3 = EPS3" "rnd NEPS3 = NEPS3" "rnd EPS8 = EPS8"
  by (simp_all add: EPS3_def NEPS3_def EPS8_def rnd_minus)

lemma EPS3_bounds: "1 / 1024 \<le> EPS3 \<and> EPS3 \<le> 1 / 512"
  using le_rnd_I [of "2 powi (- 10)" "1 / 1000"] rnd_le_I [of "1 / 1000" "2 powi (- 9)"] rnd_pow2 [of "- 10"] rnd_pow2 [of "- 9"]
  by (simp add: EPS3_def power_int_def power_divide)

lemma EPS8_bounds: "0 < EPS8 \<and> EPS8 \<le> 1"
  using le_rnd_I [of "2 powi (- 30)" "1 / 100000000"] rnd_le_I [of "1 / 100000000" "2 powi 0"] rnd_pow2 [of "- 30"] rnd_pow2 [of 0]
  by (simp add: EPS8_def power_int_def power_divide)

section \<open>Intervals\<close>

text \<open>
  A number between two limits, in either order, always lies in their interval, and a number the test accepts is less than a
  thousandth (as a double) outside of it; no rounding of the differences spoils either.
\<close>

theorem in_intervall_bounds:
  assumes "small a" and "small b" and "small c"
  shows "(min b c \<le> a \<and> a \<le> max b c \<longrightarrow> dmathe_InIntervall (Fin a) (Fin b) (Fin c)) \<and>
    (dmathe_InIntervall (Fin a) (Fin b) (Fin c) \<longrightarrow> min b c - EPS3 < a \<and> a < max b c + EPS3)"
proof -
  have i: "dmathe_InIntervall (Fin a) (Fin b) (Fin c) =
      (if rnd (c - b) < EPS3 then NEPS3 < rnd (a - c) \<and> NEPS3 < rnd (b - a) else NEPS3 < rnd (a - b) \<and> NEPS3 < rnd (c - a))"
    using assms by (simp add: dmathe_InIntervall_def dbl_simps)
  have pos: "0 < EPS3" using EPS3_bounds by linarith
  have up: "NEPS3 < rnd x" if "0 \<le> x" for x using rnd_nonneg [OF that] pos by (simp add: NEPS3_def)
  have near: "NEPS3 < rnd (a - c)" if "rnd (c - b) < EPS3" "b \<le> a" for a
  proof -
    have "rnd (c - a) \<le> rnd (c - b)" using that(2) by (intro rnd_mono) simp
    then show ?thesis using that(1) rnd_minus [of "c - a"] by (simp add: NEPS3_def)
  qed
  have far: "NEPS3 < rnd (b - a)" if "rnd (c - b) < EPS3" "a \<le> c" for a
  proof -
    have "rnd (a - b) \<le> rnd (c - b)" using that(2) by (intro rnd_mono) simp
    then show ?thesis using that(1) rnd_minus [of "a - b"] by (simp add: NEPS3_def)
  qed
  have "dmathe_InIntervall (Fin a) (Fin b) (Fin c)" if h: "min b c \<le> a" "a \<le> max b c"
  proof (cases "rnd (c - b) < EPS3")
    case True
    then show ?thesis using h near [OF True, of a] far [OF True, of a] up [of "a - c"] up [of "b - a"]
      unfolding i by (cases "b \<le> c") auto
  next
    case False
    then have "b \<le> c" using rnd_mono [of "c - b" 0] pos by (cases "b \<le> c") auto
    then show ?thesis using h up [of "a - b"] up [of "c - a"] False unfolding i by auto
  qed
  moreover have "min b c - EPS3 < a \<and> a < max b c + EPS3" if "dmathe_InIntervall (Fin a) (Fin b) (Fin c)"
    using that less_rnd_D [of NEPS3 "a - c"] less_rnd_D [of NEPS3 "b - a"] less_rnd_D [of NEPS3 "a - b"] less_rnd_D [of NEPS3 "c - a"]
      rnd_EPS pos unfolding i by (auto simp: NEPS3_def split: if_splits)
  ultimately show ?thesis by blast
qed

section \<open>Angles\<close>

lemma TWO_PI_bounds: "6 \<le> TWO_PI \<and> TWO_PI \<le> 7" "PI + PI = TWO_PI" "0 < SNAP_EPS" "1 / 2 ^ 30 \<le> SNAP_EPS"
  by (simp_all add: TWO_PI_def PI_def SNAP_EPS_def)

lemma modf_part: "\<exists>i. fst (dmodf (Fin q)) = Fin (q - of_int i) \<and> \<bar>q - of_int i\<bar> < 1"
proof (cases "0 \<le> q")
  case True
  have "\<bar>q - of_int \<lfloor>q\<rfloor>\<bar> < 1" by linarith
  then show ?thesis using True by (intro exI [of _ "\<lfloor>q\<rfloor>"]) (simp add: Let_def)
next
  case False
  have "\<bar>q - of_int (- \<lfloor>- q\<rfloor>)\<bar> < 1" by linarith
  then show ?thesis using False by (intro exI [of _ "- \<lfloor>- q\<rfloor>"]) (simp add: Let_def)
qed

text \<open>The fraction of a turn that an angle of at most a million leaves.\<close>

lemma turn_fraction:
  assumes "\<bar>a\<bar> \<le> 2 ^ 20"
  shows "\<exists>f i. fst (dmodf (ddiv (Fin a) (Fin TWO_PI))) = Fin f \<and> \<bar>f\<bar> < 1 \<and>
    \<bar>f * TWO_PI - (a - of_int i * TWO_PI)\<bar> \<le> 1 / 2 ^ 32"
proof -
  have p: "0 < TWO_PI" using TWO_PI_bounds by linarith
  have s: "\<bar>a / TWO_PI\<bar> \<le> 2 powi 18"
  proof -
    have "\<bar>a\<bar> \<le> 2 ^ 18 * TWO_PI" using assms TWO_PI_bounds(1) by simp
    then show ?thesis using p by (simp add: abs_divide pos_divide_le_eq)
  qed
  then have "moderate (a / TWO_PI)" by (rule moderate_I) simp
  then have d: "ddiv (Fin a) (Fin TWO_PI) = Fin (rnd (a / TWO_PI))" using p by (intro ddiv_Fin) simp_all
  obtain i where i: "fst (dmodf (Fin (rnd (a / TWO_PI)))) = Fin (rnd (a / TWO_PI) - of_int i)"
    "\<bar>rnd (a / TWO_PI) - of_int i\<bar> < 1" using modf_part by blast
  have "\<bar>rnd (a / TWO_PI) - a / TWO_PI\<bar> \<le> 2 powi (18 - 53)" by (rule rnd_error [OF s]) simp
  then have "\<bar>rnd (a / TWO_PI) - a / TWO_PI\<bar> * TWO_PI \<le> 2 powi (18 - 53) * TWO_PI" using p by (intro mult_right_mono) simp_all
  also have "\<dots> \<le> 1 / 2 ^ 32" using TWO_PI_bounds(1) by (simp add: power_int_def power_divide)
  also have "\<bar>rnd (a / TWO_PI) - a / TWO_PI\<bar> * TWO_PI = \<bar>(rnd (a / TWO_PI) - a / TWO_PI) * TWO_PI\<bar>" using p by (simp add: abs_mult)
  also have "(rnd (a / TWO_PI) - a / TWO_PI) * TWO_PI = (rnd (a / TWO_PI) - of_int i) * TWO_PI - (a - of_int i * TWO_PI)"
    using p by (simp add: algebra_simps)
  finally show ?thesis using d i by metis
qed

lemma errors_add:
  fixes x y z w t d e :: rat
  shows "\<bar>x - y\<bar> \<le> d \<Longrightarrow> \<bar>y - z\<bar> \<le> e \<Longrightarrow> \<bar>x - z\<bar> \<le> d + e"
    and "\<bar>w - (t + x)\<bar> \<le> d \<Longrightarrow> \<bar>x - z\<bar> \<le> e \<Longrightarrow> \<bar>w - (z + t)\<bar> \<le> d + e"
  by linarith+

text \<open>The angle before it is snapped.\<close>

lemma turn_angle:
  assumes "\<bar>a\<bar> \<le> 2 ^ 20"
  defines "r \<equiv> dmul (fst (dmodf (ddiv (Fin a) (Fin TWO_PI)))) (Fin TWO_PI)"
  shows "\<exists>w k. (if dlt r (Fin 0) then dadd (Fin TWO_PI) r else r) = Fin w \<and> 0 \<le> w \<and> w \<le> TWO_PI \<and>
    \<bar>w - (a - of_int k * TWO_PI)\<bar> \<le> 1 / 2 ^ 31"
proof -
  have p: "0 < TWO_PI" using TWO_PI_bounds by linarith
  obtain f i where f: "fst (dmodf (ddiv (Fin a) (Fin TWO_PI))) = Fin f" "\<bar>f\<bar> < 1"
    "\<bar>f * TWO_PI - (a - of_int i * TWO_PI)\<bar> \<le> 1 / 2 ^ 32" using turn_fraction [OF assms(1)] by blast
  let ?x = "f * TWO_PI"
  have x: "\<bar>?x\<bar> \<le> TWO_PI" using f(2) p by (simp add: abs_mult mult_left_le_one_le less_imp_le)
  have mo: "moderate y" if "\<bar>y\<bar> \<le> 14" for y using that by (rule moderate_I) simp
  have r: "r = Fin (rnd ?x)" unfolding r_def f(1) by (rule dmul_Fin, rule mo) (use x TWO_PI_bounds(1) in linarith)
  have rx: "\<bar>rnd ?x\<bar> \<le> TWO_PI" using rnd_mono_abs [OF x] const_simps by simp
  have e1: "\<bar>rnd ?x - ?x\<bar> \<le> 1 / 2 ^ 50"
    using rnd_error [of ?x 3] x TWO_PI_bounds(1) by (simp add: power_int_def power_divide)
  show ?thesis
  proof (cases "rnd ?x < 0")
    case True
    let ?y = "TWO_PI + rnd ?x"
    have y: "0 \<le> ?y" "?y \<le> TWO_PI" using rx True by linarith+
    have "dadd (Fin TWO_PI) r = Fin (rnd ?y)" unfolding r by (rule dadd_Fin, rule mo) (use y TWO_PI_bounds(1) in linarith)
    moreover have "0 \<le> rnd ?y" "rnd ?y \<le> TWO_PI" using y rnd_nonneg rnd_le_I const_simps by blast+
    moreover have "\<bar>rnd ?y - ?y\<bar> \<le> 1 / 2 ^ 50"
      using rnd_error [of ?y 3] y TWO_PI_bounds(1) by (simp add: power_int_def power_divide)
    then have "\<bar>rnd ?y - ((a - of_int i * TWO_PI) + TWO_PI)\<bar> \<le> 1 / 2 ^ 50 + (1 / 2 ^ 50 + 1 / 2 ^ 32)"
      by (rule errors_add(2)) (rule errors_add(1) [OF e1 f(3)])
    then have "\<bar>rnd ?y - ((a - of_int i * TWO_PI) + TWO_PI)\<bar> \<le> 1 / 2 ^ 31" by (rule order.trans) simp
    moreover have "(a - of_int i * TWO_PI) + TWO_PI = a - of_int (i - 1) * TWO_PI" by (simp add: algebra_simps)
    ultimately show ?thesis using True r by (intro exI [of _ "rnd ?y"] exI [of _ "i - 1"]) simp
  next
    case False
    have "\<bar>rnd ?x - (a - of_int i * TWO_PI)\<bar> \<le> 1 / 2 ^ 31" by (rule order.trans [OF errors_add(1) [OF e1 f(3)]]) simp
    then show ?thesis using False r rx by (intro exI [of _ "rnd ?x"] exI [of _ i]) (simp add: abs_le_iff)
  qed
qed

text \<open>Snapping: close to the start or the end of a turn the angle becomes zero; \<open>eps\<close> is how close.\<close>

lemma snapped_angle:
  assumes "0 \<le> w" and "w \<le> TWO_PI" and "\<bar>w - (a - of_int k * TWO_PI)\<bar> \<le> 1 / 2 ^ 31" and "0 < eps" and "rnd eps = eps"
  shows "\<exists>v j. (if w < eps \<or> rnd (TWO_PI - w) < eps then 0 else w) = v \<and> 0 \<le> v \<and> v < TWO_PI \<and>
    \<bar>v - (a - of_int j * TWO_PI)\<bar> \<le> eps + 1 / 2 ^ 31"
proof -
  have p: "0 < TWO_PI" using TWO_PI_bounds by linarith
  consider "w < eps" | "\<not> w < eps" "rnd (TWO_PI - w) < eps" | "\<not> w < eps" "\<not> rnd (TWO_PI - w) < eps" by blast
  then show ?thesis
  proof cases
    case 1
    have "\<bar>0 - (a - of_int k * TWO_PI)\<bar> \<le> eps + 1 / 2 ^ 31" by (rule errors_add(1) [OF _ assms(3)]) (use 1 assms(1) in simp)
    then show ?thesis using 1 p by (intro exI [of _ 0] exI [of _ k]) simp
  next
    case 2
    then have "TWO_PI - w < eps" using rnd_less_D assms(5) by blast
    then have "\<bar>TWO_PI - w\<bar> \<le> eps" using assms(2) by linarith
    then have "\<bar>TWO_PI - (a - of_int k * TWO_PI)\<bar> \<le> eps + 1 / 2 ^ 31" by (rule errors_add(1) [OF _ assms(3)])
    moreover have "TWO_PI - (a - of_int k * TWO_PI) = 0 - (a - of_int (k + 1) * TWO_PI)" by (simp add: algebra_simps)
    ultimately have "\<bar>0 - (a - of_int (k + 1) * TWO_PI)\<bar> \<le> eps + 1 / 2 ^ 31" by (simp only:)
    then show ?thesis using 2 p by (intro exI [of _ 0] exI [of _ "k + 1"]) simp
  next
    case 3
    have "w \<noteq> TWO_PI" using 3(2) assms(4) by auto
    moreover have "\<bar>w - (a - of_int k * TWO_PI)\<bar> \<le> eps + 1 / 2 ^ 31" using assms(3,4) by linarith
    ultimately show ?thesis using 3 assms(1,2) by (intro exI [of _ w] exI [of _ k]) auto
  qed
qed

text \<open>
  C31. Normalising an angle of up to a million gives a value from zero up to but not including one turn, which differs from the
  angle by a whole number of turns and at most two snapping tolerances.
\<close>

theorem norm_winkel_turn:
  assumes "\<bar>a\<bar> \<le> 2 ^ 20"
  shows "\<exists>v k. dmathe_NormWinkel (Fin a) = Fin v \<and> 0 \<le> v \<and> v < TWO_PI \<and>
    \<bar>v - (a - of_int k * TWO_PI)\<bar> \<le> 2 * SNAP_EPS"
proof -
  obtain w k where w: "(let r = dmul (fst (dmodf (ddiv (Fin a) (Fin TWO_PI)))) (Fin TWO_PI)
        in if dlt r (Fin 0) then dadd (Fin TWO_PI) r else r) = Fin w"
    and wk: "0 \<le> w" "w \<le> TWO_PI" "\<bar>w - (a - of_int k * TWO_PI)\<bar> \<le> 1 / 2 ^ 31"
    using turn_angle [OF assms] unfolding Let_def by blast
  have "moderate (TWO_PI - w)" by (rule moderate_I [of _ 7]) (use wk TWO_PI_bounds(1) in simp_all)
  then have n: "dmathe_NormWinkel (Fin a) = Fin (if w < SNAP_EPS \<or> rnd (TWO_PI - w) < SNAP_EPS then 0 else w)"
    using w by (simp add: dmathe_NormWinkel_def Let_def dbl_simps)
  obtain v j where "(if w < SNAP_EPS \<or> rnd (TWO_PI - w) < SNAP_EPS then 0 else w) = v" "0 \<le> v" "v < TWO_PI"
    "\<bar>v - (a - of_int j * TWO_PI)\<bar> \<le> SNAP_EPS + 1 / 2 ^ 31"
    using snapped_angle [OF wk, of SNAP_EPS] TWO_PI_bounds(3) const_simps by blast
  moreover have "SNAP_EPS + 1 / 2 ^ 31 \<le> 2 * SNAP_EPS" by (simp add: SNAP_EPS_def)
  ultimately show ?thesis using n by (intro exI [of _ v] exI [of _ j]) auto
qed

lemma norm_winkel_turn_witness:
  "\<exists>v k. dmathe_NormWinkel (Fin 100) = Fin v \<and> 0 \<le> v \<and> v < TWO_PI \<and> \<bar>v - (100 - of_int k * TWO_PI)\<bar> \<le> 2 * SNAP_EPS"
  by (rule norm_winkel_turn) simp

section \<open>Arcs and segments\<close>

text \<open>
  Both limits of an arc given by angles of one turn lie on it, in either direction of rotation.
\<close>

theorem arc_has_limits:
  assumes "0 \<le> s" and "s \<le> TWO_PI" and "rnd s = s" and "0 \<le> e" and "e \<le> TWO_PI" and "rnd e = e"
  shows "dmathe_RadAufBogen (Fin s) (Fin e) dir (Fin s) \<and> dmathe_RadAufBogen (Fin s) (Fin e) dir (Fin e)"
proof -
  have mo: "moderate y" if "\<bar>y\<bar> \<le> 30" for y using that by (rule moderate_I) simp
  have ep: "0 < EPS3" "EPS3 \<le> 1" using EPS3_bounds by linarith+
  have arc: "dmathe_RadAufBogen (Fin s) (Fin e) d (Fin p)"
    if h: "0 \<le> s" "s \<le> TWO_PI" "0 \<le> e" "e \<le> TWO_PI" "rnd s = s" "rnd e = e" and d: "d \<noteq> - 1" and p: "p \<in> {s, e}" for s e d p
  proof -
    have lo: "rnd (s - EPS3) \<le> s" by (rule rnd_le_I) (use h(5) ep in simp_all)
    have m: "moderate (s - EPS3)" "moderate (e + EPS3)" "moderate (e + TWO_PI)" "moderate (p + TWO_PI)"
      by (rule mo, use h p TWO_PI_bounds(1) ep in \<open>auto simp: abs_le_iff\<close>)+
    show ?thesis
    proof (cases "e < s")
      case True
      let ?e = "rnd (e + TWO_PI)"
      have e: "TWO_PI \<le> ?e" "?e \<le> 15" using h TWO_PI_bounds(1) const_simps rnd_int [of 15]
        by (auto intro!: le_rnd_I rnd_le_I)
      have m2: "moderate (?e + EPS3)" by (rule mo) (use e ep TWO_PI_bounds(1) in auto)
      have up: "?e \<le> rnd (?e + EPS3)" by (rule le_rnd_I) (use ep in simp_all)
      have "s \<le> ?e" using h(2) e(1) by linarith
      then show ?thesis using p True d lo up m m2 h
        by (auto simp: dmathe_RadAufBogen_def Let_def dbl_simps)
    next
      case False
      have "e \<le> rnd (e + EPS3)" by (rule le_rnd_I) (use h(6) ep in simp_all)
      then show ?thesis using p False d lo m h by (auto simp: dmathe_RadAufBogen_def Let_def dbl_simps)
    qed
  qed
  show ?thesis
  proof (cases "dir = - 1")
    case True
    then have "dmathe_RadAufBogen (Fin s) (Fin e) dir p = dmathe_RadAufBogen (Fin e) (Fin s) 1 p" for p
      by (simp add: dmathe_RadAufBogen_def)
    then show ?thesis using arc [of e s 1] assms by simp
  next
    case False
    then show ?thesis using arc [of s e dir] assms by simp
  qed
qed

lemma arc_has_limits_witness: "dmathe_RadAufBogen (Fin 5) (Fin 1) (- 1) (Fin 5) \<and> dmathe_RadAufBogen (Fin 5) (Fin 1) (- 1) (Fin 1)"
  by (rule arc_has_limits) (use TWO_PI_bounds(1) rnd_int [of 5] rnd_int [of 1] in auto)

text \<open>
  The end points of a segment lie on it, in whatever direction the segment runs.
\<close>

theorem segment_has_ends:
  assumes "small x1" and "small y1" and "small x2" and "small y2"
  shows "dmathe_PktAufStrecke (Fin x1) (Fin y1) (Fin x1) (Fin y1) (Fin x2) (Fin y2) \<and>
    dmathe_PktAufStrecke (Fin x2) (Fin y2) (Fin x1) (Fin y1) (Fin x2) (Fin y2)"
proof -
  have iv: "dmathe_InIntervall (Fin a) (Fin b) (Fin c)" if "small b" "small c" "a = b \<or> a = c" for a b c
    using in_intervall_bounds [of a b c] that by auto
  have dd: "\<bar>rnd (a - b)\<bar> \<le> 2 ^ 501" if "small a" "small b" for a b
    using that by (intro rnd_small) (simp add: small_def abs_le_iff)
  have pr: "moderate (rnd (a - b) * rnd (c - d))" if "small a" "small b" "small c" "small d" for a b c d
    unfolding moderate_def abs_mult
    by (rule order.trans [OF mult_mono [OF dd [OF that(1,2)] dd [OF that(3,4)]]]) simp_all
  have z: "moderate (0 :: rat)" by (simp add: moderate_def)
  have ep: "0 < EPS8" using EPS8_bounds by blast
  show ?thesis using iv assms z ep dmul_Fin [OF pr] by (simp add: dmathe_PktAufStrecke_def Let_def dbl_simps mult.commute)
qed

lemma segment_has_ends_witness:
  "dmathe_PktAufStrecke (Fin 0) (Fin 0) (Fin 0) (Fin 0) (Fin 3) (Fin (- 7)) \<and>
   dmathe_PktAufStrecke (Fin 3) (Fin (- 7)) (Fin 0) (Fin 0) (Fin 3) (Fin (- 7))"
  by (rule segment_has_ends) (simp_all add: small_def)

end
