(* ===== verification/Geolib.thy ===== *)
theory Geolib
  imports Ieee
begin

text \<open>
  \<open>src/recomp/geolib/libEp90_Geolib_rebuilt.c\<close>: distances, angle classes and the predicates on geometry elements, which are read
  from their bytes.  \<open>sqrt\<close>, \<open>sin\<close> and \<open>cos\<close> of the host are the record \<open>libm\<close>; a null element is \<open>None\<close>, and an element comes
  with its address because identity of pointers is tested.
\<close>

section \<open>Constants and elements\<close>

record libm =
  lm_sqrt :: "dbl \<Rightarrow> dbl"
  lm_sin :: "dbl \<Rightarrow> dbl"
  lm_cos :: "dbl \<Rightarrow> dbl"

definition GEO_TWO_PI :: rat where "GEO_TWO_PI = 0x1921fb54442d18 / 2 ^ 50"
definition GEO_PI_2 :: rat where "GEO_PI_2 = 0x1921fb54442d18 / 2 ^ 52"
definition GEO_EPS :: rat where "GEO_EPS = 1 / 2 ^ 15"

definition G_SX :: "u8 list \<Rightarrow> dbl" where "G_SX p = get_dbl p 0x24"
definition G_SY :: "u8 list \<Rightarrow> dbl" where "G_SY p = get_dbl p 0x2c"
definition G_EX :: "u8 list \<Rightarrow> dbl" where "G_EX p = get_dbl p 0x90"
definition G_EY :: "u8 list \<Rightarrow> dbl" where "G_EY p = get_dbl p 0x98"
definition G_R :: "u8 list \<Rightarrow> dbl" where "G_R p = get_dbl p 0xb0"
definition G_CX :: "u8 list \<Rightarrow> dbl" where "G_CX p = get_dbl p 0xb8"
definition G_CY :: "u8 list \<Rightarrow> dbl" where "G_CY p = get_dbl p 0xc0"
definition G_ANG :: "u8 list \<Rightarrow> dbl" where "G_ANG p = get_dbl p 0x3c"
definition G_FLAGS :: "u8 list \<Rightarrow> u32" where "G_FLAGS p = get32 p 0x5c"

section \<open>Distances and angles\<close>

definition abstand_pkt_pkt :: "libm \<Rightarrow> dbl \<Rightarrow> dbl \<Rightarrow> dbl \<Rightarrow> dbl \<Rightarrow> dbl" where
  "abstand_pkt_pkt lm x1 y1 x2 y2 =
     (let dx = dsub x2 x1; dy = dsub y2 y1 in lm_sqrt lm (dadd (dmul dx dx) (dmul dy dy)))"

definition abstand_pkt_gerade :: "libm \<Rightarrow> dbl \<Rightarrow> dbl \<Rightarrow> dbl \<Rightarrow> dbl \<Rightarrow> dbl \<Rightarrow> dbl" where
  "abstand_pkt_gerade lm px py qx qy angle =
     dsub (dmul (lm_cos lm angle) (dsub py qy)) (dmul (dsub px qx) (lm_sin lm angle))"

definition norm_winkel :: "dbl \<Rightarrow> dbl \<Rightarrow> dbl" where
  "norm_winkel angle eps =
     (let r = dmul (fst (dmodf (ddiv angle (Fin GEO_TWO_PI)))) (Fin GEO_TWO_PI);
          r1 = (if dlt r (Fin 0) then dadd r (Fin GEO_TWO_PI) else r)
      in if dlt r1 eps \<or> dlt (dsub (Fin GEO_TWO_PI) r1) eps then Fin 0 else r1)"

definition compare_sinus_winkel :: "dbl \<Rightarrow> dbl \<Rightarrow> dbl \<Rightarrow> dbl \<Rightarrow> dbl \<Rightarrow> int" where
  "compare_sinus_winkel s1 c1 s2 c2 eps =
     (if dlt (dabs (dsub c1 c2)) eps \<and> dlt (dabs (dsub s1 s2)) eps then 1
      else if dle eps (dabs (dadd c1 c2)) then 5
      else (if dle eps (dabs (dadd s2 s1)) then 1 else 0) * 2 + 3)"

definition compare_winkel :: "libm \<Rightarrow> dbl \<Rightarrow> dbl \<Rightarrow> dbl \<Rightarrow> int" where
  "compare_winkel lm a1 a2 tol =
     (let s1 = lm_sin lm a1; c1 = lm_cos lm a1; s2 = lm_sin lm a2; c2 = lm_cos lm a2; e = lm_sin lm tol;
          r = compare_sinus_winkel s1 c1 s2 c2 e
      in if r \<noteq> 1 \<and> r \<noteq> 3 then
           let a = dadd a2 (Fin GEO_PI_2); r2 = compare_sinus_winkel s1 c1 (lm_sin lm a) (lm_cos lm a) e
           in if r2 \<noteq> 1 then (if r2 \<noteq> 3 then 1 else 0) + 4 else 2
         else r)"

text \<open>The loops add a turn until the limit is passed; \<open>None\<close> is a loop that does not end.\<close>

partial_function (option) unwind :: "dbl \<Rightarrow> dbl \<Rightarrow> dbl option" where
  "unwind l bd =
     (let l1 = dadd l (Fin GEO_TWO_PI) in if dlt l1 bd then unwind l1 bd else Some l1)"

definition oeffnungswinkel :: "libm \<Rightarrow> dbl \<Rightarrow> dbl \<Rightarrow> dbl \<Rightarrow> dbl \<Rightarrow> dbl option" where
  "oeffnungswinkel lm a1 a2 dir tol =
     (if compare_winkel lm a1 a2 tol = 1 then Some (Fin 0)
      else if dle dir (Fin 0) then
        let l4 = dsub a2 tol in
        map_option (\<lambda>l2. dsub a2 l2) (if dlt a1 l4 then unwind a1 l4 else Some a1)
      else
        let l4 = dsub a1 tol in
        map_option (\<lambda>l3. dsub l3 a1) (if dlt a2 l4 then unwind a2 l4 else Some a2))"

definition octants :: "rat list" where
  "octants = [0x1921fb54442d18 / 2 ^ 53, 0x1921fb54442d18 / 2 ^ 52, 0x12d97c7f3321d2 / 2 ^ 51, 0x1921fb54442d18 / 2 ^ 51,
     0x1f6a7a2955385e / 2 ^ 51, 0x12d97c7f3321d2 / 2 ^ 50, 0x15fdbbe9bba775 / 2 ^ 50]"

fun octant_cascade :: "rat list \<Rightarrow> dbl \<Rightarrow> dbl \<Rightarrow> nat \<Rightarrow> nat" where
  "octant_cascade [] a eps code = 0x10000"
| "octant_cascade (b # bs) a eps code =
     (if \<not> dle (dsub (Fin b) eps) a then code
      else if \<not> dle (dadd (Fin b) eps) a then code * 2
      else octant_cascade bs a eps (code * 2 * 2))"

definition GEOLIB_GetWinkelRichtung :: "libm \<Rightarrow> dbl \<Rightarrow> dbl \<Rightarrow> nat" where
  "GEOLIB_GetWinkelRichtung lm angle eps =
     (let a = norm_winkel angle eps; s = lm_sin lm a; c = lm_cos lm a in
      if \<not> (dle eps (dabs s) \<or> dle eps (dabs (dsub c (Fin 1)))) then 2 else octant_cascade octants a eps 4)"

section \<open>Intervals and areas\<close>

definition wert_im_intervall :: "dbl \<Rightarrow> dbl \<Rightarrow> dbl \<Rightarrow> dbl \<Rightarrow> bool" where
  "wert_im_intervall a b c d =
     (if dle c b then (if dlt c (dadd a d) then dlt a (dadd d b) else False)
      else if dlt b (dadd a d) then dlt a (dadd c d) else False)"

definition wert_im_offenen_intervall :: "dbl \<Rightarrow> dbl \<Rightarrow> dbl \<Rightarrow> dbl \<Rightarrow> bool" where
  "wert_im_offenen_intervall a b c d =
     (if dle c b then (if dle (dadd c d) a then dle (dadd d a) b else False)
      else if dle (dadd b d) a then dle (dadd d a) c else False)"

definition flaeche_von_trapez :: "dbl \<Rightarrow> dbl \<Rightarrow> dbl \<Rightarrow> dbl" where
  "flaeche_von_trapez a b h = dmul (dmul (Fin (1 / 2)) (dadd a b)) h"

section \<open>Predicates on elements\<close>

definition GEOLIB_IsGeoringBereich :: "libm \<Rightarrow> (u32 \<times> u8 list) option \<Rightarrow> (u32 \<times> u8 list) option \<Rightarrow> dbl \<Rightarrow> bool option" where
  "GEOLIB_IsGeoringBereich lm g1 g2 tol =
     (case g1 of None \<Rightarrow> Some False
      | Some (a1, p1) \<Rightarrow>
          if map_option fst g2 \<noteq> Some a1
          then (case g2 of None \<Rightarrow> None
                | Some (a2, p2) \<Rightarrow> Some (dlt (abstand_pkt_pkt lm (G_SX p1) (G_SY p1) (G_EX p2) (G_EY p2)) tol))
          else Some False)"

definition GEOLIB_IsStartpunkt :: "libm \<Rightarrow> u8 list option \<Rightarrow> dbl \<Rightarrow> dbl \<Rightarrow> dbl \<Rightarrow> bool" where
  "GEOLIB_IsStartpunkt lm g px py tol =
     (case g of None \<Rightarrow> False | Some p \<Rightarrow> dlt (abstand_pkt_pkt lm (G_SX p) (G_SY p) px py) (dadd tol (Fin GEO_EPS)))"

definition GEOLIB_IsZielpunkt :: "libm \<Rightarrow> u8 list option \<Rightarrow> dbl \<Rightarrow> dbl \<Rightarrow> dbl \<Rightarrow> bool" where
  "GEOLIB_IsZielpunkt lm g px py tol =
     (case g of None \<Rightarrow> False | Some p \<Rightarrow> dlt (abstand_pkt_pkt lm (G_EX p) (G_EY p) px py) (dadd tol (Fin GEO_EPS)))"

text \<open>The comparisons of start, end and centre points, and of radii.\<close>

definition points_near :: "libm \<Rightarrow> dbl \<Rightarrow> (u8 list \<Rightarrow> dbl) \<times> (u8 list \<Rightarrow> dbl) \<Rightarrow> u8 list \<Rightarrow>
    (u8 list \<Rightarrow> dbl) \<times> (u8 list \<Rightarrow> dbl) \<Rightarrow> u8 list \<Rightarrow> bool" where
  "points_near lm tol f p g q \<longleftrightarrow> dle (abstand_pkt_pkt lm (fst f p) (snd f p) (fst g q) (snd g q)) tol"

abbreviation "g_start \<equiv> (G_SX, G_SY)"
abbreviation "g_ende \<equiv> (G_EX, G_EY)"
abbreviation "g_centre \<equiv> (G_CX, G_CY)"

definition GEOLIB_IsIdentisch :: "libm \<Rightarrow> u8 list option \<Rightarrow> u8 list option \<Rightarrow> dbl \<Rightarrow> bool" where
  "GEOLIB_IsIdentisch lm g1 g2 tol =
     (case (g1, g2) of
        (Some p, Some q) \<Rightarrow>
          let t = G_FLAGS p AND G_FLAGS q in
          if t AND 0x20 = 0 then
            t AND 0x40 \<noteq> 0 \<and> dlt (dabs (dsub (G_R p) (G_R q))) tol \<and> points_near lm tol g_start p g_start q \<and>
            points_near lm tol g_ende p g_ende q \<and> points_near lm tol g_centre p g_centre q
          else points_near lm tol g_start p g_start q \<and> points_near lm tol g_ende p g_ende q
      | _ \<Rightarrow> False)"

definition GEOLIB_IsInvers :: "libm \<Rightarrow> u8 list option \<Rightarrow> u8 list option \<Rightarrow> dbl \<Rightarrow> bool" where
  "GEOLIB_IsInvers lm g1 g2 tol =
     (case (g1, g2) of
        (Some p, Some q) \<Rightarrow>
          let t = G_FLAGS p AND G_FLAGS q in
          if t AND 0x20 = 0 then
            t AND 0x40 \<noteq> 0 \<and> dlt (dabs (dadd (G_R p) (G_R q))) tol \<and> points_near lm tol g_start p g_ende q \<and>
            points_near lm tol g_ende p g_start q \<and> points_near lm tol g_centre p g_centre q
          else points_near lm tol g_start p g_ende q \<and> points_near lm tol g_ende p g_start q
      | _ \<Rightarrow> False)"

definition on_same_carrier :: "libm \<Rightarrow> int \<Rightarrow> (dbl \<Rightarrow> dbl \<Rightarrow> dbl) \<Rightarrow> u8 list option \<Rightarrow> u8 list option \<Rightarrow> dbl \<Rightarrow> dbl \<Rightarrow> bool" where
  "on_same_carrier lm cls rad g1 g2 posTol angTol =
     (case (g1, g2) of
        (Some p, Some q) \<Rightarrow>
          let t = G_FLAGS p AND G_FLAGS q in
          if t AND 0x20 = 0 then
            (if t AND 0x40 \<noteq> 0 \<and> dlt (dabs (rad (G_R p) (G_R q))) posTol then points_near lm posTol g_centre p g_centre q else False)
          else if compare_winkel lm (G_ANG p) (G_ANG q) angTol = cls then
            dle (dabs (abstand_pkt_gerade lm (G_SX p) (G_SY p) (G_SX q) (G_SY q) (G_ANG q))) posTol
          else False
      | _ \<Rightarrow> False)"

definition GEOLIB_IsMathIdentisch where "GEOLIB_IsMathIdentisch lm = on_same_carrier lm 1 dsub"
definition GEOLIB_IsMathInvers where "GEOLIB_IsMathInvers lm = on_same_carrier lm 3 dadd"

end
