(* ===== verification/GeolibFacts.thy ===== *)
theory GeolibFacts
  imports DmatheFacts Geolib
begin

text \<open>
  What the predicates on geometry elements and the angle classes guarantee: symmetry, sectors that are counted, and when
  the unwinding loops end.
\<close>

lemma GEO_TWO_PI [simp]: "GEO_TWO_PI = TWO_PI"
  by (simp add: GEO_TWO_PI_def TWO_PI_def)

section \<open>Symmetry\<close>

lemma abstand_commute: "abstand_pkt_pkt lm x1 y1 x2 y2 = abstand_pkt_pkt lm x2 y2 x1 y1"
  unfolding abstand_pkt_pkt_def Let_def square_flip [of x2 x1] square_flip [of y2 y1] ..

lemma points_near_commute: "points_near lm tol f p g q = points_near lm tol g q f p"
  unfolding points_near_def using abstand_commute by metis

text \<open>
  Identity and reversal of geometry elements are symmetric, whatever bytes the elements hold and whatever the host's square
  root is.
\<close>

theorem element_relations_symmetric:
  "GEOLIB_IsIdentisch lm g1 g2 tol = GEOLIB_IsIdentisch lm g2 g1 tol \<and>
   GEOLIB_IsInvers lm g1 g2 tol = GEOLIB_IsInvers lm g2 g1 tol"
proof -
  have fl: "G_FLAGS p AND G_FLAGS q = G_FLAGS q AND G_FLAGS p" for p q by (rule and.commute)
  have id: "GEOLIB_IsIdentisch lm (Some p) (Some q) tol \<longrightarrow> GEOLIB_IsIdentisch lm (Some q) (Some p) tol" for p q
    unfolding GEOLIB_IsIdentisch_def option.case prod.case Let_def fl [of q p] dabs_dsub_commute [of "G_R q" "G_R p"]
      points_near_commute [of lm tol _ q _ p] by (auto split: if_splits)
  have inv: "GEOLIB_IsInvers lm (Some p) (Some q) tol \<longrightarrow> GEOLIB_IsInvers lm (Some q) (Some p) tol" for p q
    unfolding GEOLIB_IsInvers_def option.case prod.case Let_def fl [of q p] dadd_commute [of "G_R q" "G_R p"]
      points_near_commute [of lm tol _ q _ p] by (auto split: if_splits)
  show ?thesis
  proof (cases g1; cases g2)
    fix p q assume "g1 = Some p" "g2 = Some q"
    then show ?thesis using id [of p q] id [of q p] inv [of p q] inv [of q p] by blast
  qed (simp_all add: GEOLIB_IsIdentisch_def GEOLIB_IsInvers_def)
qed

section \<open>Angle classes\<close>

lemma compare_sinus_winkel_class: "compare_sinus_winkel s1 c1 s2 c2 eps \<in> {1, 3, 5}"
  by (simp add: compare_sinus_winkel_def)

lemma compare_winkel_class: "compare_winkel lm a1 a2 tol \<in> {1, 2, 3, 4, 5}"
  using compare_sinus_winkel_class by (auto simp: compare_winkel_def Let_def)

text \<open>The limits of the sectors: each boundary minus and plus the tolerance.\<close>

fun sector_limits :: "rat list \<Rightarrow> rat \<Rightarrow> rat list" where
  "sector_limits [] eps = []"
| "sector_limits (b # bs) eps = rnd (b - eps) # rnd (b + eps) # sector_limits bs eps"

lemma cascade_counts:
  assumes "\<forall>b\<in>set bs. \<bar>b\<bar> \<le> 10" and "\<bar>eps\<bar> \<le> 1" and "code * 2 ^ (2 * length bs) = 0x10000"
  shows "octant_cascade bs (Fin a) (Fin eps) code = code * 2 ^ length (takeWhile (\<lambda>l. l \<le> a) (sector_limits bs eps))"
  using assms
proof (induction bs arbitrary: code)
  case (Cons b bs)
  have m: "moderate (b - eps)" "moderate (b + eps)"
    by (rule moderate_I [of _ 11], use Cons.prems(1,2) in \<open>auto simp: abs_le_iff\<close>)+
  have "code * 2 * 2 * 2 ^ (2 * length bs) = 0x10000" using Cons.prems(3) by simp
  then have "octant_cascade bs (Fin a) (Fin eps) (code * 2 * 2) =
      code * 2 * 2 * 2 ^ length (takeWhile (\<lambda>l. l \<le> a) (sector_limits bs eps))"
    using Cons.prems by (intro Cons.IH) simp_all
  then show ?case using m by (simp add: dbl_simps)
qed simp

lemma takeWhile_filter_sorted: "sorted ls \<Longrightarrow> takeWhile (\<lambda>l. l \<le> (a :: rat)) ls = filter (\<lambda>l. l \<le> a) ls"
proof (induction ls)
  case (Cons l ls)
  have "filter (\<lambda>l. l \<le> a) ls = []" if "\<not> l \<le> a"
    unfolding filter_empty_conv using Cons.prems that by auto
  then show ?case using Cons by simp
qed simp

lemma octant_limits_sorted:
  assumes "0 \<le> eps" and "eps \<le> 1 / 4"
  shows "sorted (sector_limits octants eps)"
proof -
  have "sorted (sector_limits bs eps)" if "sorted_wrt (\<lambda>x y. x + 1 / 2 \<le> y) bs" for bs
    using that
  proof (induction bs)
    case (Cons b bs)
    have ge: "rnd (b + eps) \<le> l" if "l \<in> set (sector_limits bs' eps)" "\<forall>c\<in>set bs'. b + 1 / 2 \<le> c" for l bs'
      using that by (induction bs') (auto intro!: rnd_mono, use assms in linarith)+
    have "rnd (b - eps) \<le> rnd (b + eps)" using assms(1) by (intro rnd_mono) simp
    then show ?case using Cons ge [of _ bs] by fastforce
  qed simp
  moreover have "sorted_wrt (\<lambda>x y. x + 1 / 2 \<le> y) octants" by (simp add: octants_def)
  ultimately show ?thesis by blast
qed

lemma norm_winkel_range:
  assumes "\<bar>a\<bar> \<le> 2 ^ 20" and "0 < eps" and "rnd eps = eps"
  shows "\<exists>v k. norm_winkel (Fin a) (Fin eps) = Fin v \<and> 0 \<le> v \<and> v < TWO_PI \<and>
    \<bar>v - (a - of_int k * TWO_PI)\<bar> \<le> eps + 1 / 2 ^ 31"
proof -
  define q where "q = dmul (fst (dmodf (ddiv (Fin a) (Fin TWO_PI)))) (Fin TWO_PI)"
  obtain w k where w: "(if dlt q (Fin 0) then dadd (Fin TWO_PI) q else q) = Fin w"
    and wk: "0 \<le> w" "w \<le> TWO_PI" "\<bar>w - (a - of_int k * TWO_PI)\<bar> \<le> 1 / 2 ^ 31"
    using turn_angle [OF assms(1)] unfolding q_def by blast
  have m: "moderate (TWO_PI - w)" by (rule moderate_I [of _ 7]) (use wk TWO_PI_bounds(1) in simp_all)
  have "norm_winkel (Fin a) (Fin eps) = (if dlt (Fin w) (Fin eps) \<or> dlt (dsub (Fin TWO_PI) (Fin w)) (Fin eps) then Fin 0 else Fin w)"
    unfolding norm_winkel_def Let_def GEO_TWO_PI q_def [symmetric] dadd_commute [of q] w ..
  then have "norm_winkel (Fin a) (Fin eps) = Fin (if w < eps \<or> rnd (TWO_PI - w) < eps then 0 else w)"
    using m by (simp add: dbl_simps)
  then show ?thesis using snapped_angle [OF wk assms(2,3)] by auto
qed


definition flat_libm :: libm where
  "flat_libm = \<lparr>lm_sqrt = (\<lambda>x. x), lm_sin = (\<lambda>_. Fin 1), lm_cos = (\<lambda>_. Fin 0)\<rparr>"


section \<open>Unwinding\<close>

lemma unwind_ends:
  assumes "- (2 ^ 21) \<le> l" and "l < bd" and "bd \<le> 2 ^ 21"
  shows "\<exists>v. unwind (Fin l) (Fin bd) = Some (Fin v) \<and> bd \<le> v \<and> v \<le> bd + 7"
  using assms
proof (induction "nat \<lceil>bd - l\<rceil>" arbitrary: l rule: less_induct)
  case less
  let ?l = "rnd (l + TWO_PI)"
  have s: "\<bar>l + TWO_PI\<bar> \<le> 2 powi 22" using less.prems TWO_PI_bounds(1) by (simp add: abs_le_iff)
  have "\<bar>?l - (l + TWO_PI)\<bar> \<le> 2 powi (22 - 53)" by (rule rnd_error [OF s]) simp
  then have e: "\<bar>?l - (l + TWO_PI)\<bar> \<le> 1 / 2" by (rule order.trans) (simp add: power_int_def power_divide)
  moreover have "TWO_PI \<le> 13 / 2" by (simp add: TWO_PI_def)
  ultimately have up: "l + 5 \<le> ?l" "?l \<le> l + 7" using TWO_PI_bounds(1) by linarith+
  have "moderate (l + TWO_PI)" using s by (rule moderate_I) simp
  then have step: "unwind (Fin l) (Fin bd) = (if ?l < bd then unwind (Fin ?l) (Fin bd) else Some (Fin ?l))"
    by (subst unwind.simps) (simp add: dbl_simps)
  show ?case
  proof (cases "?l < bd")
    case True
    have "nat \<lceil>bd - ?l\<rceil> < nat \<lceil>bd - l\<rceil>" using up(1) less.prems(2) by linarith
    then show ?thesis using less.hyps [of ?l] True up less.prems step by auto
  next
    case False
    then show ?thesis using step up less.prems by auto
  qed
qed

lemma far_turn_lost: "rnd (TWO_PI - 2 ^ 60) = - (2 ^ 60)"
  unfolding TWO_PI_def by code_simp

lemma unwind_stuck: "unwind (Fin (- (2 ^ 60))) (Fin 0) = None"
proof (rule ccontr)
  have m: "moderate (TWO_PI - 2 ^ 60)" by (rule moderate_I [of _ "2 ^ 60"]) (simp_all add: TWO_PI_def)
  have "dadd (Fin (- (2 ^ 60))) (Fin GEO_TWO_PI) = Fin (- (2 ^ 60))"
    using m far_turn_lost by (simp add: dbl_simps)
  note stuck = this
  assume "unwind (Fin (- (2 ^ 60))) (Fin 0) \<noteq> None"
  then obtain v where "unwind (Fin (- (2 ^ 60))) (Fin 0) = Some v" by blast
  then have "\<not> (Fin (- (2 ^ 60)) = Fin (- (2 ^ 60)) \<and> Fin 0 = Fin 0)"
  proof (rule unwind.raw_induct [of "\<lambda>l bd v. \<not> (l = Fin (- (2 ^ 60)) \<and> bd = Fin 0)", rotated])
    fix u :: "dbl \<Rightarrow> dbl \<Rightarrow> dbl option" and l bd v
    assume h: "\<And>l bd v. u l bd = Some v \<Longrightarrow> \<not> (l = Fin (- (2 ^ 60)) \<and> bd = Fin 0)"
      and b: "(let l1 = dadd l (Fin GEO_TWO_PI) in if dlt l1 bd then u l1 bd else Some l1) = Some v"
    show "\<not> (l = Fin (- (2 ^ 60)) \<and> bd = Fin 0)"
    proof
      assume e: "l = Fin (- (2 ^ 60)) \<and> bd = Fin 0"
      then have "u (Fin (- (2 ^ 60))) (Fin 0) = Some v" using b stuck by (simp add: Let_def)
      then show False using h by blast
    qed
  qed
  then show False by simp
qed

lemma unwind_gap:
  assumes b: "\<bar>x\<bar> \<le> 2 ^ 20" "\<bar>y\<bar> \<le> 2 ^ 20" and tol: "1 / 2 ^ 20 \<le> tol" "tol \<le> 1"
  shows "\<exists>w. (if dlt (Fin x) (dsub (Fin y) (Fin tol)) then unwind (Fin x) (dsub (Fin y) (Fin tol)) else Some (Fin x)) = Some (Fin w) \<and>
      y - w \<le> tol + 1 / 2 ^ 30 \<and> \<bar>w\<bar> \<le> 2 ^ 21 + 8"
proof -
  have s: "\<bar>y - tol\<bar> \<le> 2 powi 21" using b tol by (simp add: abs_le_iff)
  have m: "moderate (y - tol)" using s by (rule moderate_I) simp
  have "\<bar>rnd (y - tol) - (y - tol)\<bar> \<le> 2 powi (21 - 53)" by (rule rnd_error [OF s]) simp
  then have e: "\<bar>rnd (y - tol) - (y - tol)\<bar> \<le> 1 / 2 ^ 30" by (rule order.trans) (simp add: power_int_def power_divide)
  have r: "\<bar>rnd (y - tol)\<bar> \<le> 2 ^ 21" using rnd_mono_abs [OF s] rnd_pow2 [of 21] by simp
  show ?thesis
  proof (cases "x < rnd (y - tol)")
    case True
    then obtain w where "unwind (Fin x) (Fin (rnd (y - tol))) = Some (Fin w)" "rnd (y - tol) \<le> w" "w \<le> rnd (y - tol) + 7"
      using unwind_ends [of x "rnd (y - tol)"] b r by (auto simp: abs_le_iff)
    moreover have "y - w \<le> tol + 1 / 2 ^ 30" using e calculation(2) by linarith
    ultimately show ?thesis using True m r by (intro exI [of _ w]) (simp add: dbl_simps abs_le_iff)
  next
    case False
    then have "y - x \<le> tol + 1 / 2 ^ 30" using e by linarith
    then show ?thesis using False m b by (intro exI [of _ x]) (simp add: dbl_simps abs_le_iff)
  qed
qed

lemma rnd_gap:
  assumes tol: "1 / 2 ^ 20 \<le> tol" "tol \<le> 1" and z: "z \<le> tol + 1 / 2 ^ 30"
  shows "rnd z \<le> 2 * tol"
proof -
  let ?t = "tol + 1 / 2 ^ 30"
  have s: "\<bar>?t\<bar> \<le> 2 powi 1" using tol by (simp add: abs_le_iff)
  have "\<bar>rnd ?t - ?t\<bar> \<le> 2 powi (1 - 53)" by (rule rnd_error [OF s]) simp
  then have "\<bar>rnd ?t - ?t\<bar> \<le> 1 / 2 ^ 30" by (rule order.trans) (simp add: power_int_def power_divide)
  then have "rnd ?t \<le> ?t + 1 / 2 ^ 30" by linarith
  also have "\<dots> \<le> 2 * tol" using tol by simp
  finally show ?thesis using rnd_mono [OF z] by linarith
qed

text \<open>
  C32. The opening angle of two directions of at most a million is found in finitely many turns, and its sign follows the
  direction asked for up to the tolerance: no more than two tolerances above zero clockwise, none below it counter-clockwise.
\<close>

theorem oeffnungswinkel_ends:
  assumes "\<bar>a1\<bar> \<le> 2 ^ 20" and "\<bar>a2\<bar> \<le> 2 ^ 20" and "1 / 2 ^ 20 \<le> tol" and "tol \<le> 1"
  shows "\<exists>v. oeffnungswinkel lm (Fin a1) (Fin a2) (Fin dir) (Fin tol) = Some (Fin v) \<and>
    (dir \<le> 0 \<longrightarrow> v \<le> 2 * tol) \<and> (0 < dir \<longrightarrow> - (2 * tol) \<le> v)"
proof -
  note one = unwind_gap [OF _ _ assms(3,4)] and close = rnd_gap [OF assms(3,4)]
  have mo: "moderate (x - w)" if "\<bar>x\<bar> \<le> 2 ^ 20" "\<bar>w\<bar> \<le> 2 ^ 21 + 8" for x w
    by (rule moderate_I [of _ "2 ^ 23"]) (use that in \<open>auto simp: abs_le_iff\<close>)
  obtain l where l: "(if dlt (Fin a1) (dsub (Fin a2) (Fin tol)) then unwind (Fin a1) (dsub (Fin a2) (Fin tol)) else Some (Fin a1)) = Some (Fin l)"
    "a2 - l \<le> tol + 1 / 2 ^ 30" "\<bar>l\<bar> \<le> 2 ^ 21 + 8" using one [OF assms(1,2)] by blast
  obtain k where k: "(if dlt (Fin a2) (dsub (Fin a1) (Fin tol)) then unwind (Fin a2) (dsub (Fin a1) (Fin tol)) else Some (Fin a2)) = Some (Fin k)"
    "a1 - k \<le> tol + 1 / 2 ^ 30" "\<bar>k\<bar> \<le> 2 ^ 21 + 8" using one [OF assms(2,1)] by blast
  have lv: "dsub (Fin a2) (Fin l) = Fin (rnd (a2 - l))" by (rule dsub_Fin, rule mo [OF assms(2) l(3)])
  have "moderate (k - a1)" using mo [OF assms(1) k(3)] by (simp add: moderate_def abs_minus_commute)
  then have kv: "dsub (Fin k) (Fin a1) = Fin (- rnd (a1 - k))" using rnd_minus [of "a1 - k"] by (simp add: dsub_Fin)
  have "0 < tol" using assms(3) by (rule less_le_trans [rotated]) simp
  then show ?thesis using close [OF l(2)] close [OF k(2)]
    unfolding oeffnungswinkel_def Let_def l(1) k(1) by (auto simp: lv kv)
qed

lemma oeffnungswinkel_ends_witness:
  "\<exists>v. oeffnungswinkel flat_libm (Fin (- 9)) (Fin 1) (Fin (- 1)) (Fin (1 / 8)) = Some (Fin v) \<and> v \<le> 1 / 4"
  using oeffnungswinkel_ends [of "- 9" 1 "1 / 8" flat_libm "- 1"] by auto

text \<open>For angles far beyond a turn adding one turn is lost in rounding, and the loop does not end.\<close>

lemma oeffnungswinkel_stuck:
  assumes "compare_winkel lm (Fin (- (2 ^ 60))) (Fin 0) (Fin 0) \<noteq> 1"
  shows "oeffnungswinkel lm (Fin (- (2 ^ 60))) (Fin 0) (Fin 0) (Fin 0) = None"
proof -
  have "dsub (Fin 0) (Fin 0) = Fin 0" by (simp add: dsub_def fl_def)
  then show ?thesis using assms unwind_stuck by (simp add: oeffnungswinkel_def Let_def)
qed

end
