(* ===== verification/Dintabs.thy ===== *)
theory Dintabs
  imports Ieee
begin

text \<open>
  \<open>src/recomp/dintabs/libEp90_Dintabs_rebuilt.c\<close> with the tables of \<open>src/recomp/dintabs/dintabs_tables.h\<close>: nominal thread
  diameters and thread reliefs.  The tables are the bytes of the header, those of the reliefs written with one entry of
  0x30 bytes per row; a double is read from them by offset.  \<open>None\<close> is a
  read behind a table, or an entry that is not found.
\<close>

section \<open>Tables\<close>

definition frei_g_werte :: "u8 list" where
  "frei_g_werte = concat [
     [0, 0, 0, 0, 0, 0, 0, 0, 0x66, 0x66, 0x66, 0x66, 0x66, 0x66, 0xe6, 0x3f, 0x33, 0x33, 0x33, 0x33, 0x33, 0x33, 0xd3, 0xbf,
      0x33, 0x33, 0x33, 0x33, 0x33, 0x33, 0xf3, 0x3f, 0x9a, 0x99, 0x99, 0x99, 0x99, 0x99, 0xb9, 0x3f, 0x9a, 0x99, 0x99, 0x99, 0x99, 0x99, 0xb9, 0x3f],
     [0x9a, 0x99, 0x99, 0x99, 0x99, 0x99, 0xc9, 0x3f, 0x66, 0x66, 0x66, 0x66, 0x66, 0x66, 0xe6, 0x3f, 0x33, 0x33, 0x33, 0x33, 0x33, 0x33, 0xd3, 0xbf,
      0x33, 0x33, 0x33, 0x33, 0x33, 0x33, 0xf3, 0x3f, 0x9a, 0x99, 0x99, 0x99, 0x99, 0x99, 0xb9, 0x3f, 0x9a, 0x99, 0x99, 0x99, 0x99, 0x99, 0xb9, 0x3f],
     [0, 0, 0, 0, 0, 0, 0xd0, 0x3f, 0xcd, 0xcc, 0xcc, 0xcc, 0xcc, 0xcc, 0xec, 0x3f, 0x9a, 0x99, 0x99, 0x99, 0x99, 0x99, 0xd9, 0xbf,
      0x66, 0x66, 0x66, 0x66, 0x66, 0x66, 0xf6, 0x3f, 0xb8, 0x1e, 0x85, 0xeb, 0x51, 0xb8, 0xbe, 0x3f, 0x9a, 0x99, 0x99, 0x99, 0x99, 0x99, 0xb9, 0x3f],
     [0x33, 0x33, 0x33, 0x33, 0x33, 0x33, 0xd3, 0x3f, 0xcd, 0xcc, 0xcc, 0xcc, 0xcc, 0xcc, 0xf0, 0x3f, 0, 0, 0, 0, 0, 0, 0xe0, 0xbf,
      0x9a, 0x99, 0x99, 0x99, 0x99, 0x99, 0xf9, 0x3f, 0x7b, 0x14, 0xae, 0x47, 0xe1, 0x7a, 0xc4, 0x3f, 0x9a, 0x99, 0x99, 0x99, 0x99, 0x99, 0xb9, 0x3f],
     [0x66, 0x66, 0x66, 0x66, 0x66, 0x66, 0xd6, 0x3f, 0x33, 0x33, 0x33, 0x33, 0x33, 0x33, 0xf3, 0x3f, 0x33, 0x33, 0x33, 0x33, 0x33, 0x33, 0xe3, 0xbf,
      0x66, 0x66, 0x66, 0x66, 0x66, 0x66, 0xfe, 0x3f, 0x7b, 0x14, 0xae, 0x47, 0xe1, 0x7a, 0xc4, 0x3f, 0x9a, 0x99, 0x99, 0x99, 0x99, 0x99, 0xc9, 0x3f],
     [0x9a, 0x99, 0x99, 0x99, 0x99, 0x99, 0xd9, 0x3f, 0x66, 0x66, 0x66, 0x66, 0x66, 0x66, 0xf6, 0x3f, 0x66, 0x66, 0x66, 0x66, 0x66, 0x66, 0xe6, 0xbf,
      0x9a, 0x99, 0x99, 0x99, 0x99, 0x99, 1, 0x40, 0x9a, 0x99, 0x99, 0x99, 0x99, 0x99, 0xc9, 0x3f, 0x9a, 0x99, 0x99, 0x99, 0x99, 0x99, 0xc9, 0x3f],
     [0xcd, 0xcc, 0xcc, 0xcc, 0xcc, 0xcc, 0xdc, 0x3f, 0x9a, 0x99, 0x99, 0x99, 0x99, 0x99, 0xf9, 0x3f, 0x66, 0x66, 0x66, 0x66, 0x66, 0x66, 0xe6, 0xbf,
      0x33, 0x33, 0x33, 0x33, 0x33, 0x33, 3, 0x40, 0x9a, 0x99, 0x99, 0x99, 0x99, 0x99, 0xc9, 0x3f, 0x9a, 0x99, 0x99, 0x99, 0x99, 0x99, 0xc9, 0x3f],
     [0, 0, 0, 0, 0, 0, 0xe0, 0x3f, 0, 0, 0, 0, 0, 0, 0xfc, 0x3f, 0x9a, 0x99, 0x99, 0x99, 0x99, 0x99, 0xe9, 0xbf,
      0x9a, 0x99, 0x99, 0x99, 0x99, 0x99, 5, 0x40, 0x9a, 0x99, 0x99, 0x99, 0x99, 0x99, 0xc9, 0x3f, 0x33, 0x33, 0x33, 0x33, 0x33, 0x33, 0xd3, 0x3f],
     [0x33, 0x33, 0x33, 0x33, 0x33, 0x33, 0xe3, 0x3f, 0xcd, 0xcc, 0xcc, 0xcc, 0xcc, 0xcc, 0, 0x40, 0, 0, 0, 0, 0, 0, 0xf0, 0xbf,
      0x66, 0x66, 0x66, 0x66, 0x66, 0x66, 0x0a, 0x40, 0x9a, 0x99, 0x99, 0x99, 0x99, 0x99, 0xd9, 0x3f, 0x33, 0x33, 0x33, 0x33, 0x33, 0x33, 0xd3, 0x3f],
     [0x66, 0x66, 0x66, 0x66, 0x66, 0x66, 0xe6, 0x3f, 0x9a, 0x99, 0x99, 0x99, 0x99, 0x99, 3, 0x40, 0x9a, 0x99, 0x99, 0x99, 0x99, 0x99, 0xf1, 0xbf,
      0x66, 0x66, 0x66, 0x66, 0x66, 0x66, 0x0e, 0x40, 0x9a, 0x99, 0x99, 0x99, 0x99, 0x99, 0xd9, 0x3f, 0x33, 0x33, 0x33, 0x33, 0x33, 0x33, 0xd3, 0x3f],
     [0, 0, 0, 0, 0, 0, 0xe8, 0x3f, 0xcd, 0xcc, 0xcc, 0xcc, 0xcc, 0xcc, 4, 0x40, 0x33, 0x33, 0x33, 0x33, 0x33, 0x33, 0xf3, 0xbf,
      0, 0, 0, 0, 0, 0, 0x10, 0x40, 0x9a, 0x99, 0x99, 0x99, 0x99, 0x99, 0xd9, 0x3f, 0x33, 0x33, 0x33, 0x33, 0x33, 0x33, 0xd3, 0x3f],
     [0x9a, 0x99, 0x99, 0x99, 0x99, 0x99, 0xe9, 0x3f, 0x66, 0x66, 0x66, 0x66, 0x66, 0x66, 6, 0x40, 0xcd, 0xcc, 0xcc, 0xcc, 0xcc, 0xcc, 0xf4, 0xbf,
      0xcd, 0xcc, 0xcc, 0xcc, 0xcc, 0xcc, 0x10, 0x40, 0x9a, 0x99, 0x99, 0x99, 0x99, 0x99, 0xd9, 0x3f, 0x33, 0x33, 0x33, 0x33, 0x33, 0x33, 0xd3, 0x3f],
     [0, 0, 0, 0, 0, 0, 0xf0, 0x3f, 0, 0, 0, 0, 0, 0, 0x0c, 0x40, 0x9a, 0x99, 0x99, 0x99, 0x99, 0x99, 0xf9, 0xbf,
      0xcd, 0xcc, 0xcc, 0xcc, 0xcc, 0xcc, 0x14, 0x40, 0x33, 0x33, 0x33, 0x33, 0x33, 0x33, 0xe3, 0x3f, 0, 0, 0, 0, 0, 0, 0xe0, 0x3f],
     [0, 0, 0, 0, 0, 0, 0xf4, 0x3f, 0x9a, 0x99, 0x99, 0x99, 0x99, 0x99, 0x11, 0x40, 0, 0, 0, 0, 0, 0, 0, 0xc0,
      0xcd, 0xcc, 0xcc, 0xcc, 0xcc, 0xcc, 0x1a, 0x40, 0x33, 0x33, 0x33, 0x33, 0x33, 0x33, 0xe3, 0x3f, 0, 0, 0, 0, 0, 0, 0xe0, 0x3f],
     [0, 0, 0, 0, 0, 0, 0xf8, 0x3f, 0xcd, 0xcc, 0xcc, 0xcc, 0xcc, 0xcc, 0x14, 0x40, 0x66, 0x66, 0x66, 0x66, 0x66, 0x66, 2, 0xc0,
      0x33, 0x33, 0x33, 0x33, 0x33, 0x33, 0x1f, 0x40, 0x9a, 0x99, 0x99, 0x99, 0x99, 0x99, 0xe9, 0x3f, 0, 0, 0, 0, 0, 0, 0xe0, 0x3f],
     [0, 0, 0, 0, 0, 0, 0xfc, 0x3f, 0x66, 0x66, 0x66, 0x66, 0x66, 0x66, 0x18, 0x40, 0xcd, 0xcc, 0xcc, 0xcc, 0xcc, 0xcc, 4, 0xc0,
      0x33, 0x33, 0x33, 0x33, 0x33, 0x33, 0x22, 0x40, 0, 0, 0, 0, 0, 0, 0xf0, 0x3f, 0, 0, 0, 0, 0, 0, 0xe0, 0x3f],
     [0, 0, 0, 0, 0, 0, 0, 0x40, 0, 0, 0, 0, 0, 0, 0x1c, 0x40, 0, 0, 0, 0, 0, 0, 8, 0xc0,
      0x9a, 0x99, 0x99, 0x99, 0x99, 0x99, 0x24, 0x40, 0, 0, 0, 0, 0, 0, 0xf0, 0x3f, 0, 0, 0, 0, 0, 0, 0xe0, 0x3f],
     [0, 0, 0, 0, 0, 0, 4, 0x40, 0x66, 0x66, 0x66, 0x66, 0x66, 0x66, 0x21, 0x40, 0xcd, 0xcc, 0xcc, 0xcc, 0xcc, 0xcc, 0x0c, 0xc0,
      0, 0, 0, 0, 0, 0, 0x2a, 0x40, 0x33, 0x33, 0x33, 0x33, 0x33, 0x33, 0xf3, 0x3f, 0, 0, 0, 0, 0, 0, 0xe0, 0x3f],
     [0, 0, 0, 0, 0, 0, 8, 0x40, 0, 0, 0, 0, 0, 0, 0x25, 0x40, 0x9a, 0x99, 0x99, 0x99, 0x99, 0x99, 0x11, 0xc0,
      0x66, 0x66, 0x66, 0x66, 0x66, 0x66, 0x2e, 0x40, 0x9a, 0x99, 0x99, 0x99, 0x99, 0x99, 0xf9, 0x3f, 0, 0, 0, 0, 0, 0, 0xe0, 0x3f],
     [0, 0, 0, 0, 0, 0, 0x0c, 0x40, 0, 0, 0, 0, 0, 0, 0x28, 0x40, 0, 0, 0, 0, 0, 0, 0x14, 0xc0,
      0x33, 0x33, 0x33, 0x33, 0x33, 0xb3, 0x31, 0x40, 0x9a, 0x99, 0x99, 0x99, 0x99, 0x99, 0xf9, 0x3f, 0, 0, 0, 0, 0, 0, 0xe0, 0x3f],
     [0, 0, 0, 0, 0, 0, 0x10, 0x40, 0, 0, 0, 0, 0, 0, 0x2c, 0x40, 0xcd, 0xcc, 0xcc, 0xcc, 0xcc, 0xcc, 0x16, 0xc0,
      0, 0, 0, 0, 0, 0, 0x34, 0x40, 0, 0, 0, 0, 0, 0, 0, 0x40, 0, 0, 0, 0, 0, 0, 0xe0, 0x3f],
     [0, 0, 0, 0, 0, 0, 0x12, 0x40, 0, 0, 0, 0, 0, 0, 0x30, 0x40, 0x9a, 0x99, 0x99, 0x99, 0x99, 0x99, 0x19, 0xc0,
      0, 0, 0, 0, 0, 0, 0x37, 0x40, 0, 0, 0, 0, 0, 0, 0, 0x40, 0, 0, 0, 0, 0, 0, 0xe0, 0x3f],
     [0, 0, 0, 0, 0, 0, 0x14, 0x40, 0, 0, 0, 0, 0, 0x80, 0x31, 0x40, 0, 0, 0, 0, 0, 0, 0x1c, 0xc0,
      0, 0, 0, 0, 0, 0, 0x3a, 0x40, 0, 0, 0, 0, 0, 0, 4, 0x40, 0, 0, 0, 0, 0, 0, 0xe0, 0x3f],
     [0, 0, 0, 0, 0, 0, 0x16, 0x40, 0, 0, 0, 0, 0, 0, 0x33, 0x40, 0xcd, 0xcc, 0xcc, 0xcc, 0xcc, 0xcc, 0x1e, 0xc0,
      0, 0, 0, 0, 0, 0, 0x3c, 0x40, 0x9a, 0x99, 0x99, 0x99, 0x99, 0x99, 9, 0x40, 0, 0, 0, 0, 0, 0, 0xe0, 0x3f],
     [0, 0, 0, 0, 0, 0, 0x18, 0x40, 0, 0, 0, 0, 0, 0, 0x35, 0x40, 0x9a, 0x99, 0x99, 0x99, 0x99, 0x99, 0x20, 0xc0,
      0, 0, 0, 0, 0, 0, 0x3e, 0x40, 0x9a, 0x99, 0x99, 0x99, 0x99, 0x99, 9, 0x40, 0, 0, 0, 0, 0, 0, 0xe0, 0x3f]]"

definition frei_ef_werte :: "u8 list" where
  "frei_ef_werte = concat [
     [0, 0, 0, 0, 0, 0, 0, 0, 0, 0, 0, 0, 0, 0, 0xe0, 0x3f, 0x9a, 0x99, 0x99, 0x99, 0x99, 0x99, 0xb9, 0x3f,
      0x9a, 0x99, 0x99, 0x99, 0x99, 0x99, 0xb9, 0x3f, 0x9a, 0x99, 0x99, 0x99, 0x99, 0x99, 0xb9, 0x3f, 0, 0, 0, 0, 0, 0, 0x2e, 0x40],
     [0x9a, 0x99, 0x99, 0x99, 0x99, 0x99, 0xf9, 0x3f, 0, 0, 0, 0, 0, 0, 0xf0, 0x3f, 0x9a, 0x99, 0x99, 0x99, 0x99, 0x99, 0xb9, 0x3f,
      0x9a, 0x99, 0x99, 0x99, 0x99, 0x99, 0xb9, 0x3f, 0x9a, 0x99, 0x99, 0x99, 0x99, 0x99, 0xc9, 0x3f, 0, 0, 0, 0, 0, 0, 0x2e, 0x40],
     [0, 0, 0, 0, 0, 0, 8, 0x40, 0, 0, 0, 0, 0, 0, 0, 0x40, 0x9a, 0x99, 0x99, 0x99, 0x99, 0x99, 0xc9, 0x3f,
      0x9a, 0x99, 0x99, 0x99, 0x99, 0x99, 0xb9, 0x3f, 0x9a, 0x99, 0x99, 0x99, 0x99, 0x99, 0xd9, 0x3f, 0, 0, 0, 0, 0, 0, 0x2e, 0x40],
     [0, 0, 0, 0, 0, 0, 0x24, 0x40, 0, 0, 0, 0, 0, 0, 0, 0x40, 0x9a, 0x99, 0x99, 0x99, 0x99, 0x99, 0xc9, 0x3f,
      0x9a, 0x99, 0x99, 0x99, 0x99, 0x99, 0xb9, 0x3f, 0x33, 0x33, 0x33, 0x33, 0x33, 0x33, 0xe3, 0x3f, 0, 0, 0, 0, 0, 0, 0x2e, 0x40],
     [0, 0, 0, 0, 0, 0, 0x32, 0x40, 0, 0, 0, 0, 0, 0, 4, 0x40, 0x33, 0x33, 0x33, 0x33, 0x33, 0x33, 0xd3, 0x3f,
      0x9a, 0x99, 0x99, 0x99, 0x99, 0x99, 0xc9, 0x3f, 0x33, 0x33, 0x33, 0x33, 0x33, 0x33, 0xe3, 0x3f, 0, 0, 0, 0, 0, 0, 0x2e, 0x40],
     [0, 0, 0, 0, 0, 0, 0x54, 0x40, 0, 0, 0, 0, 0, 0, 0x10, 0x40, 0x9a, 0x99, 0x99, 0x99, 0x99, 0x99, 0xd9, 0x3f,
      0x33, 0x33, 0x33, 0x33, 0x33, 0x33, 0xd3, 0x3f, 0, 0, 0, 0, 0, 0, 0xf0, 0x3f, 0, 0, 0, 0, 0, 0, 0x2e, 0x40]]"

definition frei_cd_werte :: "u8 list" where
  "frei_cd_werte = concat [
     [0, 0, 0, 0, 0, 0, 0, 0, 0, 0, 0, 0, 0, 0, 0, 0, 0x9a, 0x99, 0x99, 0x99, 0x99, 0x99, 0xc9, 0x3f,
      0, 0, 0, 0, 0, 0, 0, 0, 0, 0, 0, 0, 0, 0, 0xf0, 0x3f, 0, 0, 0, 0, 0, 0, 0, 0],
     [0, 0, 0, 0, 0, 0, 0, 0, 0, 0, 0, 0, 0, 0, 0, 0, 0x33, 0x33, 0x33, 0x33, 0x33, 0x33, 0xd3, 0x3f,
      0, 0, 0, 0, 0, 0, 0, 0, 0x9a, 0x99, 0x99, 0x99, 0x99, 0x99, 0xf9, 0x3f, 0, 0, 0, 0, 0, 0, 0, 0],
     [0, 0, 0, 0, 0, 0, 0, 0, 0, 0, 0, 0, 0, 0, 0, 0, 0x33, 0x33, 0x33, 0x33, 0x33, 0x33, 0xd3, 0x3f,
      0, 0, 0, 0, 0, 0, 0, 0, 0, 0, 0, 0, 0, 0, 4, 0x40, 0, 0, 0, 0, 0, 0, 0, 0]]"

definition frei_ab_werte :: "u8 list" where
  "frei_ab_werte = concat [
     [0, 0, 0, 0, 0, 0, 0, 0, 0, 0, 0, 0, 0, 0, 0xf0, 0x3f, 0x9a, 0x99, 0x99, 0x99, 0x99, 0x99, 0xb9, 0x3f,
      0, 0, 0, 0, 0, 0, 0, 0, 0x9a, 0x99, 0x99, 0x99, 0x99, 0x99, 0xc9, 0x3f, 0, 0, 0, 0, 0, 0, 0x3e, 0x40],
     [0, 0, 0, 0, 0, 0, 0, 0, 0, 0, 0, 0, 0, 0, 0, 0x40, 0x9a, 0x99, 0x99, 0x99, 0x99, 0x99, 0xc9, 0x3f,
      0, 0, 0, 0, 0, 0, 0, 0, 0x9a, 0x99, 0x99, 0x99, 0x99, 0x99, 0xd9, 0x3f, 0, 0, 0, 0, 0, 0, 0x3e, 0x40],
     [0, 0, 0, 0, 0, 0, 0, 0, 0, 0, 0, 0, 0, 0, 0x10, 0x40, 0x33, 0x33, 0x33, 0x33, 0x33, 0x33, 0xd3, 0x3f,
      0, 0, 0, 0, 0, 0, 0, 0, 0x33, 0x33, 0x33, 0x33, 0x33, 0x33, 0xe3, 0x3f, 0, 0, 0, 0, 0, 0, 0x3e, 0x40],
     [0, 0, 0, 0, 0, 0, 0, 0, 0, 0, 0, 0, 0, 0, 0x18, 0x40, 0x9a, 0x99, 0x99, 0x99, 0x99, 0x99, 0xd9, 0x3f,
      0, 0, 0, 0, 0, 0, 0, 0, 0, 0, 0, 0, 0, 0, 0xf0, 0x3f, 0, 0, 0, 0, 0, 0, 0x3e, 0x40]]"

definition NennDIN259 :: "u8 list" where
  "NennDIN259 = [
     0xdb, 0xf9, 0x7e, 0x6a, 0xbc, 0x74, 0x23, 0x40, 0xaa, 0xf1, 0xd2, 0x4d, 0x62, 0x50, 0x2a, 0x40, 0xb6, 0xf3, 0xfd, 0xd4, 0x78, 0xa9, 0x30, 0x40,
     0x14, 0xae, 0x47, 0xe1, 0x7a, 0xf4, 0x34, 0x40, 0xf0, 0xa7, 0xc6, 0x4b, 0x37, 0xe9, 0x36, 0x40, 0x37, 0x89, 0x41, 0x60, 0xe5, 0x70, 0x3a, 0x40,
     0xfa, 0x7e, 0x6a, 0xbc, 0x74, 0x33, 0x3e, 0x40, 0x1d, 0x5a, 0x64, 0x3b, 0xdf, 0x9f, 0x40, 0x40, 0x89, 0x41, 0x60, 0xe5, 0xd0, 0xf2, 0x42, 0x40,
     0x14, 0xae, 0x47, 0xe1, 0x7a, 0xf4, 0x44, 0x40, 0xd3, 0x4d, 0x62, 0x10, 0x58, 0x29, 0x46, 0x40, 0x10, 0x58, 0x39, 0xb4, 0xc8, 0xe6, 0x47, 0x40,
     0x73, 0x68, 0x91, 0xed, 0x7c, 0xdf, 0x4a, 0x40, 0x3b, 0xdf, 0x4f, 0x8d, 0x97, 0xce, 0x4d, 0x40, 0x3d, 0x0a, 0xd7, 0xa3, 0x70, 0x6d, 0x50, 0x40,
     0xb2, 0x9d, 0xef, 0xa7, 0xc6, 0xcb, 0x52, 0x40, 0x19, 4, 0x56, 0x0e, 0x2d, 0x62, 0x54, 0x40, 0x7f, 0x6a, 0xbc, 0x74, 0x93, 0xf8, 0x55, 0x40,
     0x1f, 0x85, 0xeb, 0x51, 0xb8, 0x7e, 0x57, 0x40, 0x85, 0xeb, 0x51, 0xb8, 0x1e, 0x15, 0x59, 0x40, 0xec, 0x51, 0xb8, 0x1e, 0x85, 0xab, 0x5a, 0x40,
     0x52, 0xb8, 0x1e, 0x85, 0xeb, 0x41, 0x5c, 0x40, 0x1f, 0x85, 0xeb, 0x51, 0xb8, 0x6e, 0x5f, 0x40, 0xf6, 0x28, 0x5c, 0x8f, 0xc2, 0x4d, 0x61, 0x40,
     0x5c, 0x8f, 0xc2, 0xf5, 0x28, 0xe4, 0x62, 0x40, 0xc3, 0xf5, 0x28, 0x5c, 0x8f, 0x7a, 0x64, 0x40]"

definition NennNPSF :: "u8 list" where
  "NennNPSF = [
     0x8d, 0x97, 0x6e, 0x12, 0x83, 0xc0, 0x1f, 0x40, 0x6d, 0xe7, 0xfb, 0xa9, 0xf1, 0x92, 0x24, 0x40, 0x3b, 0xdf, 0x4f, 0x8d, 0x97, 0x6e, 0x2b, 0x40,
     0x85, 0xeb, 0x51, 0xb8, 0x1e, 0x25, 0x31, 0x40, 0xbc, 0x74, 0x93, 0x18, 4, 0x56, 0x35, 0x40, 0xec, 0x51, 0xb8, 0x1e, 0x85, 0xab, 0x3a, 0x40,
     0x17, 0xd9, 0xce, 0xf7, 0x53, 0xb3, 0x40, 0x40]"

definition NennNPSC :: "u8 list" where
  "NennNPSC = [
     0x6d, 0xe7, 0xfb, 0xa9, 0xf1, 0x92, 0x24, 0x40, 0x3b, 0xdf, 0x4f, 0x8d, 0x97, 0x6e, 0x2b, 0x40, 0x85, 0xeb, 0x51, 0xb8, 0x1e, 0x25, 0x31, 0x40,
     0xbc, 0x74, 0x93, 0x18, 4, 0x56, 0x35, 0x40, 0xec, 0x51, 0xb8, 0x1e, 0x85, 0xab, 0x3a, 0x40, 0x17, 0xd9, 0xce, 0xf7, 0x53, 0xb3, 0x40, 0x40,
     0xa2, 0x45, 0xb6, 0xf3, 0xfd, 0x14, 0x45, 0x40, 0xe1, 0x7a, 0x14, 0xae, 0x47, 0x21, 0x48, 0x40, 0x9a, 0x99, 0x99, 0x99, 0x99, 0x29, 0x4e, 0x40,
     0x9a, 0x99, 0x99, 0x99, 0x99, 0x41, 0x52, 0x40, 0x9a, 0x99, 0x99, 0x99, 0x99, 0x39, 0x56, 0x40, 0, 0, 0, 0, 0, 0x40, 0x59, 0x40,
     0, 0, 0, 0, 0, 0xc0, 0x82, 0x40, 0x33, 0x33, 0x33, 0x33, 0x33, 0x93, 0x5c, 0x40]"

definition NennNPTF :: "u8 list" where
  "NennNPTF = [
     0x8d, 0x97, 0x6e, 0x12, 0x83, 0xc0, 0x1f, 0x40, 0x6d, 0xe7, 0xfb, 0xa9, 0xf1, 0x92, 0x24, 0x40, 0x3b, 0xdf, 0x4f, 0x8d, 0x97, 0x6e, 0x2b, 0x40,
     0x85, 0xeb, 0x51, 0xb8, 0x1e, 0x25, 0x31, 0x40, 0xbc, 0x74, 0x93, 0x18, 4, 0x56, 0x35, 0x40, 0xec, 0x51, 0xb8, 0x1e, 0x85, 0xab, 0x3a, 0x40,
     0x17, 0xd9, 0xce, 0xf7, 0x53, 0xb3, 0x40, 0x40, 0xa2, 0x45, 0xb6, 0xf3, 0xfd, 0x14, 0x45, 0x40, 0xe1, 0x7a, 0x14, 0xae, 0x47, 0x21, 0x48, 0x40,
     0x9a, 0x99, 0x99, 0x99, 0x99, 0x29, 0x4e, 0x40, 0x9a, 0x99, 0x99, 0x99, 0x99, 0x41, 0x52, 0x40, 0x9a, 0x99, 0x99, 0x99, 0x99, 0x39, 0x56, 0x40]"

definition NennNPT :: "u8 list" where
  "NennNPT = [
     0x8d, 0x97, 0x6e, 0x12, 0x83, 0xc0, 0x1f, 0x40, 0x6d, 0xe7, 0xfb, 0xa9, 0xf1, 0x92, 0x24, 0x40, 0x3b, 0xdf, 0x4f, 0x8d, 0x97, 0x6e, 0x2b, 0x40,
     0x85, 0xeb, 0x51, 0xb8, 0x1e, 0x25, 0x31, 0x40, 0xbc, 0x74, 0x93, 0x18, 4, 0x56, 0x35, 0x40, 0xec, 0x51, 0xb8, 0x1e, 0x85, 0xab, 0x3a, 0x40,
     0x17, 0xd9, 0xce, 0xf7, 0x53, 0xb3, 0x40, 0x40, 0xa2, 0x45, 0xb6, 0xf3, 0xfd, 0x14, 0x45, 0x40, 0xe1, 0x7a, 0x14, 0xae, 0x47, 0x21, 0x48, 0x40,
     0x9a, 0x99, 0x99, 0x99, 0x99, 0x29, 0x4e, 0x40, 0x9a, 0x99, 0x99, 0x99, 0x99, 0x41, 0x52, 0x40, 0x9a, 0x99, 0x99, 0x99, 0x99, 0x39, 0x56, 0x40,
     0x66, 0x66, 0x66, 0x66, 0x66, 0x66, 0x59, 0x40, 0x33, 0x33, 0x33, 0x33, 0x33, 0x93, 0x5c, 0x40, 0x9a, 0x99, 0x99, 0x99, 0x99, 0xa9, 0x61, 0x40,
     0xcd, 0xcc, 0xcc, 0xcc, 0xcc, 8, 0x65, 0x40, 0x66, 0x66, 0x66, 0x66, 0x66, 0x62, 0x6b, 0x40, 0xcd, 0xcc, 0xcc, 0xcc, 0xcc, 0x10, 0x71, 0x40,
     0x9a, 0x99, 0x99, 0x99, 0x99, 0x3d, 0x74, 0x40, 0x9a, 0x99, 0x99, 0x99, 0x99, 0x39, 0x76, 0x40, 0x66, 0x66, 0x66, 0x66, 0x66, 0x66, 0x79, 0x40,
     0x33, 0x33, 0x33, 0x33, 0x33, 0x93, 0x7c, 0x40, 0, 0, 0, 0, 0, 0xc0, 0x7f, 0x40, 0xcd, 0xcc, 0xcc, 0xcc, 0xcc, 0x0c, 0x83, 0x40]"

definition NennUNEF :: "u8 list" where
  "NennUNEF = [
     0xfc, 0x18, 0x73, 0xd7, 0x12, 0xf2, 0x15, 0x40, 0x66, 0x66, 0x66, 0x66, 0x66, 0x66, 0x19, 0x40, 0, 0, 0, 0, 0, 0xc0, 0x1f, 0x40,
     0xcd, 0xcc, 0xcc, 0xcc, 0xcc, 0x0c, 0x23, 0x40, 0x9a, 0x99, 0x99, 0x99, 0x99, 0x39, 0x26, 0x40, 0x66, 0x66, 0x66, 0x66, 0x66, 0x66, 0x29, 0x40,
     0x33, 0x33, 0x33, 0x33, 0x33, 0x93, 0x2c, 0x40, 0, 0, 0, 0, 0, 0xc0, 0x2f, 0x40, 0x66, 0x66, 0x66, 0x66, 0x66, 0x76, 0x31, 0x40,
     0xcd, 0xcc, 0xcc, 0xcc, 0xcc, 0x0c, 0x33, 0x40, 0x33, 0x33, 0x33, 0x33, 0x33, 0xa3, 0x34, 0x40, 0x9a, 0x99, 0x99, 0x99, 0x99, 0x39, 0x36, 0x40,
     0, 0, 0, 0, 0, 0xd0, 0x37, 0x40, 0x66, 0x66, 0x66, 0x66, 0x66, 0x66, 0x39, 0x40, 0xcd, 0xcc, 0xcc, 0xcc, 0xcc, 0xfc, 0x3a, 0x40,
     0x33, 0x33, 0x33, 0x33, 0x33, 0x93, 0x3c, 0x40, 0x9a, 0x99, 0x99, 0x99, 0x99, 0x29, 0x3e, 0x40, 0, 0, 0, 0, 0, 0xc0, 0x3f, 0x40,
     0x33, 0x33, 0x33, 0x33, 0x33, 0xab, 0x40, 0x40, 0x66, 0x66, 0x66, 0x66, 0x66, 0x76, 0x41, 0x40, 0x9a, 0x99, 0x99, 0x99, 0x99, 0x41, 0x42, 0x40,
     0xcd, 0xcc, 0xcc, 0xcc, 0xcc, 0x0c, 0x43, 0x40, 0, 0, 0, 0, 0, 0xd8, 0x43, 0x40, 0x33, 0x33, 0x33, 0x33, 0x33, 0xa3, 0x44, 0x40,
     0x66, 0x66, 0x66, 0x66, 0x66, 0x6e, 0x45, 0x40, 0x9a, 0x99, 0x99, 0x99, 0x99, 0x39, 0x46, 0x40, 0x66, 0x66, 0x66, 0x66, 0x66, 0x66, 0x49, 0x40]"

definition NennUNF :: "u8 list" where
  "NennUNF = [
     0xfc, 0xa9, 0xf1, 0xd2, 0x4d, 0x62, 0xf8, 0x3f, 0x26, 0xe4, 0x83, 0x9e, 0xcd, 0xaa, 0xfd, 0x3f, 0x28, 0x0f, 0x0b, 0xb5, 0xa6, 0x79, 1, 0x40,
     0x3d, 0x2c, 0xd4, 0x9a, 0xe6, 0x1d, 4, 0x40, 0x52, 0x49, 0x9d, 0x80, 0x26, 0xc2, 6, 0x40, 0x66, 0x66, 0x66, 0x66, 0x66, 0x66, 9, 0x40,
     0x7b, 0x83, 0x2f, 0x4c, 0xa6, 0x0a, 0x0c, 0x40, 0xd3, 0xde, 0xe0, 0x0b, 0x93, 0xa9, 0x10, 0x40, 0xe7, 0xfb, 0xa9, 0xf1, 0xd2, 0x4d, 0x13, 0x40,
     0xfc, 0x18, 0x73, 0xd7, 0x12, 0xf2, 0x15, 0x40, 0x66, 0x66, 0x66, 0x66, 0x66, 0x66, 0x19, 0x40, 0, 0, 0, 0, 0, 0xc0, 0x1f, 0x40,
     0xcd, 0xcc, 0xcc, 0xcc, 0xcc, 0x0c, 0x23, 0x40, 0x9a, 0x99, 0x99, 0x99, 0x99, 0x39, 0x26, 0x40, 0x66, 0x66, 0x66, 0x66, 0x66, 0x66, 0x29, 0x40,
     0x33, 0x33, 0x33, 0x33, 0x33, 0x93, 0x2c, 0x40, 0, 0, 0, 0, 0, 0xc0, 0x2f, 0x40, 0xcd, 0xcc, 0xcc, 0xcc, 0xcc, 0x0c, 0x33, 0x40,
     0x9a, 0x99, 0x99, 0x99, 0x99, 0x39, 0x36, 0x40, 0x66, 0x66, 0x66, 0x66, 0x66, 0x66, 0x39, 0x40, 0x66, 0x66, 0x66, 0x66, 0x66, 0x66, 0x39, 0x40,
     0x33, 0x33, 0x33, 0x33, 0x33, 0x93, 0x3c, 0x40, 0, 0, 0, 0, 0, 0xc0, 0x3f, 0x40, 0x66, 0x66, 0x66, 0x66, 0x66, 0x76, 0x41, 0x40,
     0xcd, 0xcc, 0xcc, 0xcc, 0xcc, 0x0c, 0x43, 0x40]"

definition NennUNC :: "u8 list" where
  "NennUNC = [
     0x26, 0xe4, 0x83, 0x9e, 0xcd, 0xaa, 0xfd, 0x3f, 0x28, 0x0f, 0x0b, 0xb5, 0xa6, 0x79, 1, 0x40, 0x3d, 0x2c, 0xd4, 0x9a, 0xe6, 0x1d, 4, 0x40,
     0x52, 0x49, 0x9d, 0x80, 0x26, 0xc2, 6, 0x40, 0x66, 0x66, 0x66, 0x66, 0x66, 0x66, 9, 0x40, 0x7b, 0x83, 0x2f, 0x4c, 0xa6, 0x0a, 0x0c, 0x40,
     0xd3, 0xde, 0xe0, 0x0b, 0x93, 0xa9, 0x10, 0x40, 0xe7, 0xfb, 0xa9, 0xf1, 0xd2, 0x4d, 0x13, 0x40, 0xfc, 0x18, 0x73, 0xd7, 0x12, 0xf2, 0x15, 0x40,
     0x66, 0x66, 0x66, 0x66, 0x66, 0x66, 0x19, 0x40, 0, 0, 0, 0, 0, 0xc0, 0x1f, 0x40, 0xcd, 0xcc, 0xcc, 0xcc, 0xcc, 0x0c, 0x23, 0x40,
     0x9a, 0x99, 0x99, 0x99, 0x99, 0x39, 0x26, 0x40, 0x66, 0x66, 0x66, 0x66, 0x66, 0x66, 0x29, 0x40, 0x33, 0x33, 0x33, 0x33, 0x33, 0x93, 0x2c, 0x40,
     0, 0, 0, 0, 0, 0xc0, 0x2f, 0x40, 0xcd, 0xcc, 0xcc, 0xcc, 0xcc, 0x0c, 0x33, 0x40, 0x9a, 0x99, 0x99, 0x99, 0x99, 0x39, 0x36, 0x40,
     0x66, 0x66, 0x66, 0x66, 0x66, 0x66, 0x39, 0x40, 0x33, 0x33, 0x33, 0x33, 0x33, 0x93, 0x3c, 0x40, 0, 0, 0, 0, 0, 0xc0, 0x3f, 0x40,
     0x66, 0x66, 0x66, 0x66, 0x66, 0x76, 0x41, 0x40, 0xcd, 0xcc, 0xcc, 0xcc, 0xcc, 0x0c, 0x43, 0x40, 0x9a, 0x99, 0x99, 0x99, 0x99, 0x39, 0x46, 0x40,
     0x66, 0x66, 0x66, 0x66, 0x66, 0x66, 0x49, 0x40, 0x33, 0x33, 0x33, 0x33, 0x33, 0x93, 0x4c, 0x40, 0, 0, 0, 0, 0, 0xc0, 0x4f, 0x40,
     0x66, 0x66, 0x66, 0x66, 0x66, 0x76, 0x51, 0x40, 0xcd, 0xcc, 0xcc, 0xcc, 0xcc, 0x0c, 0x53, 0x40, 0x33, 0x33, 0x33, 0x33, 0x33, 0xa3, 0x54, 0x40,
     0x9a, 0x99, 0x99, 0x99, 0x99, 0x39, 0x56, 0x40, 0, 0, 0, 0, 0, 0xd0, 0x57, 0x40, 0x66, 0x66, 0x66, 0x66, 0x66, 0x66, 0x59, 0x40]"

definition NennDIN11 :: "u8 list" where
  "NennDIN11 = [
     0x66, 0x66, 0x66, 0x66, 0x66, 0x66, 0x19, 0x40, 0x8d, 0x97, 0x6e, 0x12, 0x83, 0xc0, 0x1f, 0x40, 0xcd, 0xcc, 0xcc, 0xcc, 0xcc, 0x0c, 0x23, 0x40,
     0x60, 0xe5, 0xd0, 0x22, 0xdb, 0x39, 0x26, 0x40, 0x66, 0x66, 0x66, 0x66, 0x66, 0x66, 0x29, 0x40, 0x8d, 0x97, 0x6e, 0x12, 0x83, 0xc0, 0x2f, 0x40,
     0x93, 0x18, 4, 0x56, 0x0e, 0x0d, 0x33, 0x40, 0x60, 0xe5, 0xd0, 0x22, 0xdb, 0x39, 0x36, 0x40, 0x2d, 0xb2, 0x9d, 0xef, 0xa7, 0x66, 0x39, 0x40,
     0xfa, 0x7e, 0x6a, 0xbc, 0x74, 0x93, 0x3c, 0x40, 0xc7, 0x4b, 0x37, 0x89, 0x41, 0xc0, 0x3f, 0x40, 0x4a, 0x0c, 2, 0x2b, 0x87, 0x76, 0x41, 0x40,
     0xb0, 0x72, 0x68, 0x91, 0xed, 0x0c, 0x43, 0x40, 0xfa, 0x7e, 0x6a, 0xbc, 0x74, 0xa3, 0x44, 0x40, 0x60, 0xe5, 0xd0, 0x22, 0xdb, 0x39, 0x46, 0x40,
     0xc7, 0x4b, 0x37, 0x89, 0x41, 0xd0, 0x47, 0x40, 0x2d, 0xb2, 0x9d, 0xef, 0xa7, 0x66, 0x49, 0x40, 0xfa, 0x7e, 0x6a, 0xbc, 0x74, 0x93, 0x4c, 0x40,
     0xc7, 0x4b, 0x37, 0x89, 0x41, 0xc0, 0x4f, 0x40, 0x3b, 0xdf, 0x4f, 0x8d, 0x97, 0x76, 0x51, 0x40]"

definition NennDIN2999 :: "u8 list" where
  "NennDIN2999 = [
     0x31, 8, 0xac, 0x1c, 0x5a, 0xe4, 0x1e, 0x40, 0xdb, 0xf9, 0x7e, 0x6a, 0xbc, 0x74, 0x23, 0x40, 0xaa, 0xf1, 0xd2, 0x4d, 0x62, 0x50, 0x2a, 0x40,
     0xb6, 0xf3, 0xfd, 0xd4, 0x78, 0xa9, 0x30, 0x40, 0x14, 0xae, 0x47, 0xe1, 0x7a, 0xf4, 0x34, 0x40, 0x37, 0x89, 0x41, 0x60, 0xe5, 0x70, 0x3a, 0x40,
     0x1d, 0x5a, 0x64, 0x3b, 0xdf, 0x9f, 0x40, 0x40, 0x14, 0xae, 0x47, 0xe1, 0x7a, 0xf4, 0x44, 0x40, 0x10, 0x58, 0x39, 0xb4, 0xc8, 0xe6, 0x47, 0x40,
     0x3b, 0xdf, 0x4f, 0x8d, 0x97, 0xce, 0x4d, 0x40, 0xb2, 0x9d, 0xef, 0xa7, 0xc6, 0xcb, 0x52, 0x40, 0x7f, 0x6a, 0xbc, 0x74, 0x93, 0xf8, 0x55, 0x40,
     0x52, 0xb8, 0x1e, 0x85, 0xeb, 0x41, 0x5c, 0x40, 0xf6, 0x28, 0x5c, 0x8f, 0xc2, 0x4d, 0x61, 0x40, 0xc3, 0xf5, 0x28, 0x5c, 0x8f, 0x7a, 0x64, 0x40]"

definition DAT_freistich_tol_b :: "u8 list" where
  "DAT_freistich_tol_b = [
     0xfc, 0xa9, 0xf1, 0xd2, 0x4d, 0x62, 0x50, 0x3f]"

definition DAT_nenndtbl_eps_b :: "u8 list" where
  "DAT_nenndtbl_eps_b = [
     0x9a, 0x99, 0x99, 0x99, 0x99, 0x99, 0xa9, 0x3f]"

section \<open>Nominal diameters\<close>

definition table_dbl :: "u8 list \<Rightarrow> nat \<Rightarrow> dbl option" where
  "table_dbl tb i = (if 8 * i + 8 \<le> length tb then Some (get_dbl tb (8 * i)) else None)"

definition GetNennd :: "u8 \<Rightarrow> u16 \<Rightarrow> dbl option" where
  "GetNennd type idx =
     (let i = unat idx in
      if type = 0x09 then table_dbl NennDIN11 i
      else if type = 0x0a then table_dbl NennDIN2999 i
      else if type = 0x0b then table_dbl NennDIN259 i
      else if type = 0x0d then table_dbl NennUNC i
      else if type = 0x0e then table_dbl NennUNF i
      else if type = 0x0f then table_dbl NennUNEF i
      else if type = 0x10 then table_dbl NennNPT i
      else if type = 0x11 then table_dbl NennNPTF i
      else if type = 0x12 then table_dbl NennNPSC i
      else if type = 0x13 then table_dbl NennNPSF i
      else Some (Fin 0))"

section \<open>Thread reliefs\<close>

text \<open>The entry found is given by its number; an entry has 0x30 bytes.\<close>

definition freistich_tol :: dbl where "freistich_tol = get_dbl DAT_freistich_tol_b 0"

definition hole_din_werte_freistich_ab :: "dbl \<Rightarrow> nat option" where
  "hole_din_werte_freistich_ab x =
     find (\<lambda>i. dlt (dabs (dsub x (get_dbl frei_ab_werte (i * 0x30 + 8)))) freistich_tol) [0..<4]"

definition hole_din_werte_freistich_cd :: "dbl \<Rightarrow> nat option" where
  "hole_din_werte_freistich_cd x =
     find (\<lambda>i. dlt (dabs (dsub x (get_dbl frei_cd_werte (i * 0x30 + 0x20)))) freistich_tol) [0..<3]"

definition hole_din_werte_freistich_ef :: "dbl \<Rightarrow> nat option" where
  "hole_din_werte_freistich_ef x = find (\<lambda>i. dle (get_dbl frei_ef_werte (i * 0x30)) x) (rev [0..<6])"

definition hole_din_werte_freistich_g :: "dbl \<Rightarrow> nat option" where
  "hole_din_werte_freistich_g x = find (\<lambda>i. dle (get_dbl frei_g_werte (i * 0x30)) x) (rev [0..<25])"

section \<open>Comparison with a nominal table\<close>

definition nenndtbl_eps :: dbl where "nenndtbl_eps = get_dbl DAT_nenndtbl_eps_b 0"

text \<open>The loop from entry \<open>i\<close>: the number of the first entry that is too large, \<open>n\<close> if there is none.\<close>

function nennd_loop :: "dbl \<Rightarrow> dbl \<Rightarrow> dbl \<Rightarrow> nat \<Rightarrow> dbl list \<Rightarrow> dbl list \<Rightarrow> nat \<Rightarrow> nat" where
  "nennd_loop tol p factor n tbl cmp i =
     (let delta = dmul (ddiv (cmp ! i) p) factor in
      if \<not> dlt (dsub (tbl ! i) (dadd delta delta)) (dadd tol nenndtbl_eps) then i
      else if n \<le> Suc i then n
      else nennd_loop tol p factor n tbl cmp (Suc i))"
  by pat_completeness auto

termination by (relation "measure (\<lambda>(tol, p, factor, n, tbl, cmp, i). n - i)") auto

declare nennd_loop.simps [simp del]

definition NenndTblVgl :: "dbl \<Rightarrow> dbl \<Rightarrow> dbl \<Rightarrow> int \<Rightarrow> dbl list \<Rightarrow> dbl list \<Rightarrow> dbl option" where
  "NenndTblVgl tol pitch factor n tbl cmp =
     (let p = (if deq pitch (Fin 0) then Fin 1 else pitch) in
      if tbl = [] \<or> length tbl < nat n \<or> length cmp < nat n then None
      else if n > 0 then
        let i = nennd_loop tol p factor (nat n) tbl cmp 0 in
        Some (if i = nat n then tbl ! (nat n - 1) else if i \<noteq> 0 then tbl ! (i - 1) else tbl ! 0)
      else Some (tbl ! 0))"

end
