(* ===== verification/DintabsFacts.thy ===== *)
theory DintabsFacts
  imports Dintabs
begin

text \<open>
  The thread tables spelled out: the inch series are the doubles nearest to what their rule gives, the pipe
  tables are parts of one another, the scans find the entry they should, and one table holds a damaged
  entry.
\<close>

section \<open>Certificates\<close>

text \<open>A certificate for the rounding of a concrete number.\<close>

lemma near_less: "x - y \<le> d \<Longrightarrow> 0 \<le> d \<Longrightarrow> 2 * d < p \<Longrightarrow> x < y + p" for x y p d :: rat
  by linarith

lemma half_near: "2 * \<bar>x - y\<bar> < p \<Longrightarrow> x < y + p" for x y p :: rat
  by (rule near_less [OF abs_ge_self abs_ge_zero])

lemma abs_twice: "\<bar>2 * x - 2 * y\<bar> = 2 * \<bar>x - y\<bar>" for x y :: rat
  using abs_mult [of 2 "x - y"] by (simp add: right_diff_distrib)

lemma rne_unique: "2 * y - 2 * of_int m < 1 \<Longrightarrow> 2 * of_int m - 2 * y < 1 \<Longrightarrow> rne y = m"
proof (cases "of_int m \<le> y")
  case True
  assume "2 * y - 2 * of_int m < 1"
  moreover have "\<lfloor>y\<rfloor> = m" using calculation True by (intro floor_unique) linarith+
  ultimately show ?thesis by (simp add: rne_def Let_def)
next
  case False
  assume "2 * of_int m - 2 * y < 1"
  moreover have "\<lfloor>y\<rfloor> = m - 1" using calculation False by (intro floor_unique) simp_all
  ultimately show ?thesis by (simp add: rne_def Let_def)
qed

lemma rnd_unique:
  assumes "2 ^ 52 \<le> m" and "m < 2 ^ 53" and "- 1074 \<le> k"
    and "of_int (2 ^ 52) * 2 powi k \<le> x" and "2 * \<bar>x - of_int m * 2 powi k\<bar> < 2 powi k"
  shows "rnd x = of_int m * 2 powi k"
proof -
  let ?p = "(2 :: rat) powi k"
  have p: "0 < ?p" by simp
  have m1: "of_int m + 1 \<le> (2 :: rat) ^ 53"
  proof -
    have "of_int (m + 1) \<le> (of_int (2 ^ 53) :: rat)" unfolding of_int_le_iff using assms(2) by simp
    then show ?thesis by simp
  qed
  have lo: "2 powi (52 + k) \<le> x" using assms(4) by (simp add: power_int_add)
  then have x: "0 < x" by (rule less_le_trans [rotated]) simp
  have "x < of_int m * ?p + ?p" by (rule half_near [OF assms(5)])
  then have "x < (of_int m + 1) * ?p" by (simp add: distrib_right)
  also have "\<dots> \<le> 2 ^ 53 * ?p" using m1 p by (intro mult_right_mono) simp_all
  finally have up: "x < 2 powi (53 + k)" by (simp add: power_int_add)
  have "expo x = 52 + k"
  proof (rule antisym)
    show "expo x \<le> 52 + k"
    proof (rule ccontr)
      assume "\<not> expo x \<le> 52 + k"
      then have "(2 :: rat) powi (53 + k) \<le> 2 powi expo x" by (intro power_int_increasing) simp_all
      then show False using expo_bounds [OF x] up by linarith
    qed
    show "52 + k \<le> expo x"
    proof (rule ccontr)
      assume "\<not> 52 + k \<le> expo x"
      then have "(2 :: rat) powi (expo x + 1) \<le> 2 powi (52 + k)" by (intro power_int_increasing) simp_all
      then show False using expo_bounds [OF x] lo by linarith
    qed
  qed
  moreover have "max (52 + k) (- 1022) = 52 + k" using assms(3) by (simp add: max_def)
  ultimately have u: "ulp x = ?p" using x by (simp add: ulp_def)
  have "2 * (x / ?p) - 2 * of_int m = 2 * (x - of_int m * ?p) / ?p" using p by (simp add: field_simps)
  also have "\<bar>\<dots>\<bar> < 1" using assms(5) p by (simp add: abs_mult pos_divide_less_eq abs_twice)
  finally have near: "\<bar>2 * (x / ?p) - 2 * of_int m\<bar> < 1" .
  have "rne (x / ?p) = m" by (rule rne_unique) (use near in \<open>auto simp: abs_less_iff\<close>)
  then show ?thesis using x u by (simp add: rnd_def)
qed

definition fle :: "int \<Rightarrow> int \<Rightarrow> dbl" where "fle m e = Fin (of_int m * 2 powi e)"

lemma fle_nearest:
  "2 ^ 52 \<le> m \<Longrightarrow> m < 2 ^ 53 \<Longrightarrow> - 1074 \<le> e \<Longrightarrow> of_int (2 ^ 52) * 2 powi e \<le> x \<Longrightarrow>
     2 * \<bar>x - of_int m * 2 powi e\<bar> < 2 powi e \<Longrightarrow> fle m e = Fin (rnd x)"
  by (simp add: fle_def rnd_unique)

section \<open>The tables as decimals\<close>

fun dbls :: "u8 list \<Rightarrow> dbl list" where
  "dbls (a # b # c # d # e # f # g # h # bs) =
     dbl_of_words (get32 [a, b, c, d] 0) (get32 [e, f, g, h] 0) # dbls bs"
| "dbls bs = []"

lemma byte_at_drop: "byte_at (drop k bs) i = byte_at bs (k + i)"
  by (simp add: byte_at_def less_diff_conv add.commute)

lemma get32_drop: "get32 bs (k + j) = get32 (drop k bs) j"
  by (simp only: get32_def byte_at_drop add.assoc)

lemma get_dbl_drop: "get_dbl bs (k + j) = get_dbl (drop k bs) j"
  by (simp only: get_dbl_def get32_drop [symmetric] add.assoc)

lemma get_dbl_dbls: "i < length (dbls bs) \<Longrightarrow> get_dbl bs (8 * i) = dbls bs ! i"
proof (induction bs arbitrary: i rule: dbls.induct)
  case (1 a b c d e f g h bs)
  show ?case
  proof (cases i)
    case 0
    then show ?thesis by (simp add: get_dbl_def get32_def byte_at_def)
  next
    case (Suc k)
    then have "get_dbl (a # b # c # d # e # f # g # h # bs) (8 * i) = get_dbl bs (8 * k)"
      using get_dbl_drop [of "a # b # c # d # e # f # g # h # bs" 8 "8 * k"] by (simp add: numeral_eq_Suc)
    then show ?thesis using 1 Suc by simp
  qed
qed simp_all

lemma dbls_NennDIN259:
  "dbls NennDIN259 = map (\<lambda>(m, e). fle m e)
    [(5476377146882523, -49), (7406732537164202, -49), (4689936061952950, -48), (5898308136971796, -48),
     (6448873191417840, -48), (7442479859206455, -48), (8500825771638522, -48), (4679380750326301, -47),
     (5333528596201865, -47), (5898308136971796, -47), (6237907696373203, -47), (6727674155849744, -47),
     (7564077049145459, -47), (8389924630814523, -47), (4623930179914301, -46), (5290603662253490, -46),
     (5737445187781657, -46), (6184286713309823, -46), (6613254577816863, -46), (7060096103345029, -46),
     (7506937628873196, -46), (7953779154401362, -46), (8847462205457695, -46), (4870572628257014, -45),
     (5317414153785180, -45), (5764255679313347, -45)]"
  by (simp add: NennDIN259_def dbl_of_words_def get32_def byte_at_def Let_def fle_def)

lemma dbls_NennNPSF:
  "dbls NennNPSF = map (\<lambda>(m, e). fle m e)
    [(8937393460516749, -50), (5791066170845037, -49), (7721421561126715, -49), (4825888475704197, -48),
     (6005550103098556, -48), (7506937628873196, -48), (4700772848556311, -47)]"
  by (simp add: NennNPSF_def dbl_of_words_def get32_def byte_at_def Let_def fle_def)

lemma dbls_NennNPSC:
  "dbls NennNPSC = map (\<lambda>(m, e). fle m e)
    [(5791066170845037, -49), (7721421561126715, -49), (4825888475704197, -48), (6005550103098556, -48),
     (7506937628873196, -48), (4700772848556311, -47), (5934055459014050, -47), (6791991188028129, -47),
     (8489988985035162, -47), (5138677543573914, -46), (6255781357394330, -46), (7107243161944064, -46),
     (5277655813324800, -43), (8043147459506995, -46)]"
  by (simp add: NennNPSC_def dbl_of_words_def get32_def byte_at_def Let_def fle_def)

lemma dbls_NennNPTF:
  "dbls NennNPTF = map (\<lambda>(m, e). fle m e)
    [(8937393460516749, -50), (5791066170845037, -49), (7721421561126715, -49), (4825888475704197, -48),
     (6005550103098556, -48), (7506937628873196, -48), (4700772848556311, -47), (5934055459014050, -47),
     (6791991188028129, -47), (8489988985035162, -47), (5138677543573914, -46), (6255781357394330, -46)]"
  by (simp add: NennNPTF_def dbl_of_words_def get32_def byte_at_def Let_def fle_def)

lemma dbls_NennNPT:
  "dbls NennNPT = map (\<lambda>(m, e). fle m e)
    [(8937393460516749, -50), (5791066170845037, -49), (7721421561126715, -49), (4825888475704197, -48),
     (6005550103098556, -48), (7506937628873196, -48), (4700772848556311, -47), (5934055459014050, -47),
     (6791991188028129, -47), (8489988985035162, -47), (5138677543573914, -46), (6255781357394330, -46),
     (7149464408450662, -46), (8043147459506995, -46), (4971551776151962, -45), (5920650213248205, -45),
     (7708016315360870, -45), (4803546399427789, -44), (5697229450484122, -44), (6255781357394330, -44),
     (7149464408450662, -44), (8043147459506995, -44), (8936830510563328, -44), (5362098306337997, -43)]"
  by (simp add: NennNPT_def dbl_of_words_def get32_def byte_at_def Let_def fle_def)

lemma dbls_NennUNEF:
  "dbls NennUNEF = map (\<lambda>(m, e). fle m e)
    [(6177137248901372, -50), (7149464408450662, -50), (8936830510563328, -50), (5362098306337997, -49),
     (6255781357394330, -49), (7149464408450662, -49), (8043147459506995, -49), (8936830510563328, -49),
     (4915256780809830, -48), (5362098306337997, -48), (5808939831866163, -48), (6255781357394330, -48),
     (6702622882922496, -48), (7149464408450662, -48), (7596305933978829, -48), (8043147459506995, -48),
     (8489988985035162, -48), (8936830510563328, -48), (4691836018045747, -47), (4915256780809830, -47),
     (5138677543573914, -47), (5362098306337997, -47), (5585519069102080, -47), (5808939831866163, -47),
     (6032360594630246, -47), (6255781357394330, -47), (7149464408450662, -47)]"
  by (simp add: NennUNEF_def dbl_of_words_def get32_def byte_at_def Let_def fle_def)

lemma dbls_NennUNF:
  "dbls NennUNF = map (\<lambda>(m, e). fle m e)
    [(6863485832112636, -52), (8350574429070374, -52), (4918831513014056, -51), (5662375811492925, -51),
     (6405920109971794, -51), (7149464408450662, -51), (7893008706929531, -51), (4690048651943635, -50),
     (5433592950422503, -50), (6177137248901372, -50), (7149464408450662, -50), (8936830510563328, -50),
     (5362098306337997, -49), (6255781357394330, -49), (7149464408450662, -49), (8043147459506995, -49),
     (8936830510563328, -49), (5362098306337997, -48), (6255781357394330, -48), (7149464408450662, -48),
     (7149464408450662, -48), (8043147459506995, -48), (8936830510563328, -48), (4915256780809830, -47),
     (5362098306337997, -47)]"
  by (simp add: NennUNF_def dbl_of_words_def get32_def byte_at_def Let_def fle_def)

lemma dbls_NennUNC:
  "dbls NennUNC = map (\<lambda>(m, e). fle m e)
    [(8350574429070374, -52), (4918831513014056, -51), (5662375811492925, -51), (6405920109971794, -51),
     (7149464408450662, -51), (7893008706929531, -51), (4690048651943635, -50), (5433592950422503, -50),
     (6177137248901372, -50), (7149464408450662, -50), (8936830510563328, -50), (5362098306337997, -49),
     (6255781357394330, -49), (7149464408450662, -49), (8043147459506995, -49), (8936830510563328, -49),
     (5362098306337997, -48), (6255781357394330, -48), (7149464408450662, -48), (8043147459506995, -48),
     (8936830510563328, -48), (4915256780809830, -47), (5362098306337997, -47), (6255781357394330, -47),
     (7149464408450662, -47), (8043147459506995, -47), (8936830510563328, -47), (4915256780809830, -46),
     (5362098306337997, -46), (5808939831866163, -46), (6255781357394330, -46), (6702622882922496, -46),
     (7149464408450662, -46)]"
  by (simp add: NennUNC_def dbl_of_words_def get32_def byte_at_def Let_def fle_def)

lemma dbls_NennDIN11:
  "dbls NennDIN11 = map (\<lambda>(m, e). fle m e)
    [(7149464408450662, -50), (8937393460516749, -50), (5362098306337997, -49), (6256062832371040, -49),
     (7149464408450662, -49), (8937393460516749, -49), (5362379781314707, -48), (6256062832371040, -48),
     (7149745883427373, -48), (8043428934483706, -48), (8937111985540039, -48), (4915397518298186, -47),
     (5362239043826352, -47), (5809221306842874, -47), (6256062832371040, -47), (6702904357899207, -47),
     (7149745883427373, -47), (8043428934483706, -47), (8937111985540039, -47), (4915467887042363, -46)]"
  by (simp add: NennDIN11_def dbl_of_words_def get32_def byte_at_def Let_def fle_def)

lemma dbls_NennDIN2999:
  "dbls NennDIN2999 = map (\<lambda>(m, e). fle m e)
    [(8695324980545585, -50), (5476377146882523, -49), (7406732537164202, -49), (4689936061952950, -48),
     (5898308136971796, -48), (7442479859206455, -48), (4679380750326301, -47), (5898308136971796, -47),
     (6727674155849744, -47), (8389924630814523, -47), (5290603662253490, -46), (6184286713309823, -46),
     (7953779154401362, -46), (4870572628257014, -45), (5764255679313347, -45)]"
  by (simp add: NennDIN2999_def dbl_of_words_def get32_def byte_at_def Let_def fle_def)

section \<open>The series\<close>

text \<open>
  Inch threads come in series.  A numbered size \<open>n\<close> is \<open>0.060 + 0.013 n\<close> inches wide, a larger one is a
  multiple of a sixteenth, an eighth or a quarter of an inch.
\<close>

definition numbered :: "nat \<Rightarrow> rat" where "numbered n = (60 + 13 * of_nat n) / 1000"

definition unc_inches :: "rat list" where
  "unc_inches = map numbered [1, 2, 3, 4, 5, 6, 8, 10, 12] @ map (\<lambda>k. of_nat k / 16) [4..<11] @
     map (\<lambda>k. of_nat k / 8) [6..<13] @ map (\<lambda>k. of_nat k / 4) [7..<17]"

definition unf_inches :: "rat list" where
  "unf_inches = map numbered [0, 1, 2, 3, 4, 5, 6, 8, 10, 12] @ map (\<lambda>k. of_nat k / 16) [4..<11] @
     map (\<lambda>k. of_nat k / 8) ([6..<9] @ [8..<13])"

definition unef_inches :: "rat list" where
  "unef_inches = numbered 12 # map (\<lambda>k. of_nat k / 16) [4..<29] @ [2]"

text \<open>The pipe threads of table 0x09 are cut on sixteenths of an older inch, and rounded to a micrometre.\<close>

definition micrometre :: "rat \<Rightarrow> rat" where "micrometre x = of_int \<lfloor>1000 * x + 1 / 2\<rfloor> / 1000"

definition din11_sixteenths :: "nat list" where
  "din11_sixteenths = [4..<9] @ map ((*) 2) [5..<17] @ map ((*) 4) [9..<12]"

lemma nearest_UNC: "dbls NennUNC = map (\<lambda>x. Fin (rnd (127 / 5 * x))) unc_inches"
  unfolding dbls_NennUNC by (simp add: unc_inches_def numbered_def upt_rec fle_nearest power_int_def power_divide)

lemma nearest_UNF: "dbls NennUNF = map (\<lambda>x. Fin (rnd (127 / 5 * x))) unf_inches"
  unfolding dbls_NennUNF by (simp add: unf_inches_def numbered_def upt_rec fle_nearest power_int_def power_divide)

lemma nearest_UNEF: "dbls NennUNEF = map (\<lambda>x. Fin (rnd (127 / 5 * x))) unef_inches"
  unfolding dbls_NennUNEF by (simp add: unef_inches_def numbered_def upt_rec fle_nearest power_int_def power_divide)

lemma floor_quotient: "\<lfloor>numeral a / numeral b :: rat\<rfloor> = numeral a div numeral b"
  using floor_divide_of_int_eq [of "numeral a" "numeral b", where 'a = rat] by simp

lemma nearest_DIN11:
  "dbls NennDIN11 = map (\<lambda>k. Fin (rnd (micrometre (2540095 / 100000 * of_nat k / 16)))) din11_sixteenths"
  unfolding dbls_NennDIN11 by (simp add: din11_sixteenths_def upt_rec micrometre_def floor_quotient fle_nearest power_int_def power_divide)

section \<open>What the lookups give\<close>

lemma table_dbl_dbls:
  "length tb = 8 * length (dbls tb) \<Longrightarrow> table_dbl tb i = (if i < length (dbls tb) then Some (dbls tb ! i) else None)"
  using get_dbl_dbls [of i tb] by (auto simp: table_dbl_def)

lemma table_dbl_map:
  "dbls tb = map (\<lambda>x. Fin (f x)) c \<Longrightarrow> length tb = 8 * length c \<Longrightarrow>
     table_dbl tb i = (if i < length c then Some (Fin (f (c ! i))) else None)"
  using table_dbl_dbls [of tb i] by simp

text \<open>The tables by thread type.\<close>

definition thread_table :: "u8 \<Rightarrow> u8 list option" where
  "thread_table t = map_of [(0x09, NennDIN11), (0x0a, NennDIN2999), (0x0b, NennDIN259), (0x0d, NennUNC),
     (0x0e, NennUNF), (0x0f, NennUNEF), (0x10, NennNPT), (0x11, NennNPTF), (0x12, NennNPSC), (0x13, NennNPSF)] t"

lemma GetNennd_table: "GetNennd t i = (case thread_table t of None \<Rightarrow> Some (Fin 0) | Some tb \<Rightarrow> table_dbl tb (unat i))"
  by (simp add: GetNennd_def thread_table_def)

lemma table_lengths:
  "length NennDIN259 = 208" "length NennNPSF = 56" "length NennNPSC = 112" "length NennNPTF = 96" "length NennNPT = 192"
  "length NennUNEF = 216" "length NennUNF = 200" "length NennUNC = 264" "length NennDIN11 = 160" "length NennDIN2999 = 120"
  by (simp_all only: NennDIN259_def NennNPSF_def NennNPSC_def NennNPTF_def NennNPT_def NennUNEF_def NennUNF_def NennUNC_def
      NennDIN11_def NennDIN2999_def list.size)

lemmas dbls_tables = dbls_NennDIN259 dbls_NennNPSF dbls_NennNPSC dbls_NennNPTF dbls_NennNPT dbls_NennUNEF dbls_NennUNF
  dbls_NennUNC dbls_NennDIN11 dbls_NennDIN2999

lemma series_lengths: "length unc_inches = 33" "length unf_inches = 25" "length unef_inches = 27" "length din11_sixteenths = 20"
  by (simp_all add: unc_inches_def unf_inches_def unef_inches_def din11_sixteenths_def)

text \<open>A table that ascends strictly.\<close>

fun ascends :: "(int \<times> int) list \<Rightarrow> bool" where
  "ascends ((m, e) # (m', e') # ms) = ((of_int m * 2 powi e :: rat) < of_int m' * 2 powi e' \<and> ascends ((m', e') # ms))"
| "ascends _ = True"

lemma ascends_sorted: "ascends ms \<Longrightarrow> sorted_wrt (\<lambda>p q. (of_int (fst p) * 2 powi snd p :: rat) < of_int (fst q) * 2 powi snd q) ms"
proof (induction ms rule: ascends.induct)
  case (1 m e m' e' ms)
  then show ?case by (auto intro: less_trans)
qed simp_all

lemma ascends_table:
  assumes d: "dbls tb = map (\<lambda>(m, e). fle m e) ms" and l: "length tb = 8 * length ms" and a: "ascends ms"
    and "table_dbl tb i = Some x" and "table_dbl tb j = Some y" and "i < j"
  shows "\<exists>p q. x = Fin p \<and> y = Fin q \<and> p < q"
proof -
  have b: "i < length ms" "j < length ms" "x = dbls tb ! i" "y = dbls tb ! j"
    using assms(4,5) table_dbl_dbls [of tb] l by (auto simp: d split: if_splits)
  then show ?thesis using sorted_wrt_nth_less [OF ascends_sorted [OF a] \<open>i < j\<close>] by (simp add: d fle_def split_beta)
qed

lemma tables_ascend:
  assumes "thread_table t = Some tb" and "t \<notin> {0x0e, 0x12}"
  shows "\<exists>ms. dbls tb = map (\<lambda>(m, e). fle m e) ms \<and> length tb = 8 * length ms \<and> ascends ms"
proof -
  have "tb \<in> {NennDIN11, NennDIN2999, NennDIN259, NennUNC, NennUNEF, NennNPT, NennNPTF, NennNPSF}"
    using assms by (simp add: thread_table_def split: if_splits)
  then show ?thesis
    by (simp only: insert_iff empty_iff simp_thms, elim disjE; hypsubst)
      (rule exI, rule conjI, rule dbls_tables, simp add: table_lengths power_int_def power_divide)+
qed

lemma dbls_parts:
  "dbls NennNPTF = take 12 (dbls NennNPT)" "dbls NennNPSF = take 7 (dbls NennNPT)"
  "dbls NennNPSC = take 11 (drop 1 (dbls NennNPT)) @ [Fin 101, Fin 600, dbls NennNPT ! 13]"
  "drop 1 (dbls NennDIN2999) = map (\<lambda>i. dbls NennDIN259 ! i) [0, 1, 2, 3, 5, 7, 9, 11, 13, 15, 17, 21, 23, 25]"
  by (simp_all add: dbls_tables) (simp_all add: fle_def power_int_def power_divide)

lemma dbls_lengths:
  "length (dbls NennNPT) = 24" "length (dbls NennNPTF) = 12" "length (dbls NennNPSF) = 7" "length (dbls NennNPSC) = 14"
  "length (dbls NennDIN259) = 26" "length (dbls NennDIN2999) = 15"
  by (simp_all add: dbls_tables)

lemma unat_suc16: "unat i < 11 \<Longrightarrow> unat (i + 1 :: u16) = Suc (unat i)"
  by (simp add: unat_word_ariths)

lemmas part_lookup = table_dbl_dbls table_lengths dbls_lengths

lemma pipe_parts:
  "table_dbl NennNPTF n = (if n < 12 then table_dbl NennNPT n else None)"
  "table_dbl NennNPSF n = (if n < 7 then table_dbl NennNPT n else None)"
  "table_dbl NennNPSC n = (if n < 11 then table_dbl NennNPT (Suc n) else if n = 11 then Some (Fin 101)
     else if n = 12 then Some (Fin 600) else if n = 13 then table_dbl NennNPT n else None)"
  using dbls_parts(1-3) by (auto simp: part_lookup nth_append nth_Cons' numeral_eq_Suc)

lemma din2999_part:
  assumes "n < 14"
  shows "table_dbl NennDIN2999 (Suc n) = table_dbl NennDIN259 ([0, 1, 2, 3, 5, 7, 9, 11, 13, 15, 17, 21, 23, 25] ! n)"
proof -
  let ?ks = "[0, 1, 2, 3, 5, 7, 9, 11, 13, 15, 17, 21, 23, 25 :: nat]"
  have "?ks ! n \<in> set ?ks" using assms by (intro nth_mem) simp
  then have "?ks ! n < 26" by auto
  moreover have "dbls NennDIN2999 ! Suc n = drop 1 (dbls NennDIN2999) ! n" using assms by (simp add: dbls_lengths)
  moreover have "drop 1 (dbls NennDIN2999) ! n = map (\<lambda>i. dbls NennDIN259 ! i) ?ks ! n" by (simp only: dbls_parts(4))
  moreover have "map (\<lambda>i. dbls NennDIN259 ! i) ?ks ! n = dbls NennDIN259 ! (?ks ! n)"
    using assms by (intro nth_map) simp
  ultimately show ?thesis using assms by (simp only: part_lookup) simp
qed

lemma GetNennd_ascends:
  assumes "t \<in> {0x09, 0x0a, 0x0b, 0x0d, 0x0f, 0x10, 0x11, 0x13}" and "GetNennd t i = Some x" and "GetNennd t j = Some y" and "i < j"
  shows "\<exists>p q. x = Fin p \<and> y = Fin q \<and> p < q"
proof -
  obtain tb where tb: "thread_table t = Some tb" using assms(1) by (auto simp: thread_table_def)
  obtain ms where "dbls tb = map (\<lambda>(m, e). fle m e) ms" "length tb = 8 * length ms" "ascends ms"
    using tables_ascend [OF tb] assms(1) by auto
  then show ?thesis using assms(2-4) tb ascends_table [of tb ms "unat i" x "unat j" y]
    by (simp add: GetNennd_table word_less_nat_alt)
qed

lemma GetNennd_types:
  "GetNennd 0x09 i = table_dbl NennDIN11 (unat i)" "GetNennd 0x0a i = table_dbl NennDIN2999 (unat i)"
  "GetNennd 0x0b i = table_dbl NennDIN259 (unat i)" "GetNennd 0x0d i = table_dbl NennUNC (unat i)"
  "GetNennd 0x0e i = table_dbl NennUNF (unat i)" "GetNennd 0x0f i = table_dbl NennUNEF (unat i)"
  "GetNennd 0x10 i = table_dbl NennNPT (unat i)" "GetNennd 0x11 i = table_dbl NennNPTF (unat i)"
  "GetNennd 0x12 i = table_dbl NennNPSC (unat i)" "GetNennd 0x13 i = table_dbl NennNPSF (unat i)"
  by (simp_all add: GetNennd_def)

text \<open>
  C34. The diameters \<open>GetNennd\<close> gives obey the thread standards.  The coarse, fine and extra-fine inch
  series are the numbered sizes and the inch fractions, the pipe series of type 0x09 is its sixteenths of
  an inch, each the double nearest to that diameter.  The National Pipe types are parts of type 0x10, but for
  entries 11 and 12 of type 0x12, which hold 101 and 600; type 0x0a behind its first size is a selection of
  type 0x0b.  Apart from type 0x12, and from the fine series, which holds one inch twice, the sizes ascend
  strictly.  An index behind the table reads behind it, and a type without a table has the diameter zero.
\<close>

theorem nennd_series:
  "GetNennd 0x0d i = (if unat i < 33 then Some (Fin (rnd (127 / 5 * unc_inches ! unat i))) else None) \<and>
   GetNennd 0x0e i = (if unat i < 25 then Some (Fin (rnd (127 / 5 * unf_inches ! unat i))) else None) \<and>
   GetNennd 0x0f i = (if unat i < 27 then Some (Fin (rnd (127 / 5 * unef_inches ! unat i))) else None) \<and>
   GetNennd 0x09 i = (if unat i < 20
      then Some (Fin (rnd (micrometre (2540095 / 100000 * of_nat (din11_sixteenths ! unat i) / 16)))) else None) \<and>
   GetNennd 0x11 i = (if unat i < 12 then GetNennd 0x10 i else None) \<and>
   GetNennd 0x13 i = (if unat i < 7 then GetNennd 0x10 i else None) \<and>
   GetNennd 0x12 i = (if unat i < 11 then GetNennd 0x10 (i + 1) else if unat i = 11 then Some (Fin 101)
      else if unat i = 12 then Some (Fin 600) else if unat i = 13 then GetNennd 0x10 i else None) \<and>
   (unat i < 14 \<longrightarrow> GetNennd 0x0a (i + 1) = GetNennd 0x0b ([0, 1, 2, 3, 5, 7, 9, 11, 13, 15, 17, 21, 23, 25] ! unat i)) \<and>
   (GetNennd 0x0a i = None \<longleftrightarrow> 15 \<le> unat i) \<and> (GetNennd 0x0b i = None \<longleftrightarrow> 26 \<le> unat i) \<and>
   (GetNennd 0x10 i = None \<longleftrightarrow> 24 \<le> unat i) \<and>
   (t \<in> {0x09, 0x0a, 0x0b, 0x0d, 0x0f, 0x10, 0x11, 0x13} \<longrightarrow> GetNennd t i = Some x \<longrightarrow> GetNennd t j = Some y \<longrightarrow> i < j \<longrightarrow>
      (\<exists>p q. x = Fin p \<and> y = Fin q \<and> p < q)) \<and>
   (t \<notin> {0x09, 0x0a, 0x0b, 0x0d, 0x0e, 0x0f, 0x10, 0x11, 0x12, 0x13} \<longrightarrow> GetNennd t i = Some (Fin 0))"
proof (intro conjI impI)
  note s = GetNennd_types table_lengths series_lengths
  show "GetNennd 0x0d i = (if unat i < 33 then Some (Fin (rnd (127 / 5 * unc_inches ! unat i))) else None)"
    using table_dbl_map [OF nearest_UNC] by (simp add: s)
  show "GetNennd 0x0e i = (if unat i < 25 then Some (Fin (rnd (127 / 5 * unf_inches ! unat i))) else None)"
    using table_dbl_map [OF nearest_UNF] by (simp add: s)
  show "GetNennd 0x0f i = (if unat i < 27 then Some (Fin (rnd (127 / 5 * unef_inches ! unat i))) else None)"
    using table_dbl_map [OF nearest_UNEF] by (simp add: s)
  show "GetNennd 0x09 i = (if unat i < 20
      then Some (Fin (rnd (micrometre (2540095 / 100000 * of_nat (din11_sixteenths ! unat i) / 16)))) else None)"
    using table_dbl_map [OF nearest_DIN11] by (simp add: s)
  show "GetNennd 0x12 i = (if unat i < 11 then GetNennd 0x10 (i + 1) else if unat i = 11 then Some (Fin 101)
      else if unat i = 12 then Some (Fin 600) else if unat i = 13 then GetNennd 0x10 i else None)"
    by (simp add: GetNennd_types pipe_parts unat_suc16)
  let ?ks = "[0, 1, 2, 3, 5, 7, 9, 11, 13, 15, 17, 21, 23, 25 :: u16]"
  assume n: "unat i < 14"
  have "unat (?ks ! unat i) = map unat ?ks ! unat i" using n by (intro nth_map [symmetric]) simp
  moreover have "map unat ?ks = [0, 1, 2, 3, 5, 7, 9, 11, 13, 15, 17, 21, 23, 25]" by simp
  moreover have "unat (i + 1) = Suc (unat i)" using n by (simp add: unat_word_ariths)
  ultimately show "GetNennd 0x0a (i + 1) = GetNennd 0x0b (?ks ! unat i)"
    using din2999_part [OF n] by (simp only: GetNennd_types)
next
  assume "t \<in> {0x09, 0x0a, 0x0b, 0x0d, 0x0f, 0x10, 0x11, 0x13}" "GetNennd t i = Some x" "GetNennd t j = Some y" "i < j"
  then show "\<exists>p q. x = Fin p \<and> y = Fin q \<and> p < q" by (rule GetNennd_ascends)
next
  assume "t \<notin> {0x09, 0x0a, 0x0b, 0x0d, 0x0e, 0x0f, 0x10, 0x11, 0x12, 0x13}"
  then show "GetNennd t i = Some (Fin 0)" by (simp add: GetNennd_def Let_def)
qed (auto simp: GetNennd_types pipe_parts part_lookup)

theorem nennd_series_witness:
  "GetNennd 0x0d 12 = Some (Fin (rnd (127 / 5 * (7 / 16)))) \<and> GetNennd 0x0a 5 = GetNennd 0x0b 5 \<and>
   GetNennd 0x10 24 = None \<and> GetNennd 0x0c 12 = Some (Fin 0)"
proof -
  have u: "unc_inches ! 12 = 7 / 16" by (simp add: unc_inches_def upt_rec)
  show ?thesis
    using nennd_series [of 12 "0x0c" "Fin 0" 0 "Fin 0"] nennd_series [of 4 "0x0c" "Fin 0" 0 "Fin 0"]
      nennd_series [of 24 "0x0c" "Fin 0" 0 "Fin 0"] by (simp add: u)
qed

text \<open>
  Entries 11 and 12 of type 0x12 are the two halves of the \<open>101,6\<close> that type 0x10 holds there, and the
  entry behind them sits one place too far.
\<close>

lemma npsc_split_entry:
  "GetNennd 0x12 11 = Some (Fin 101) \<and> GetNennd 0x12 12 = Some (Fin 600) \<and>
   GetNennd 0x10 12 = Some (Fin (rnd (1016 / 10))) \<and> GetNennd 0x12 13 = GetNennd 0x10 13"
proof -
  have "fle 7149464408450662 (- 46) = Fin (rnd (1016 / 10))" by (simp add: fle_nearest power_int_def power_divide)
  then show ?thesis by (simp add: GetNennd_types pipe_parts) (simp add: part_lookup dbls_NennNPT)
qed

section \<open>Thread reliefs\<close>

lemma find_rev_upt:
  "find P (rev [0..<n]) = Some i \<longleftrightarrow> i < n \<and> P i \<and> (\<forall>j. i < j \<and> j < n \<longrightarrow> \<not> P j)"
proof (induction n)
  case (Suc n)
  then show ?case by (auto simp: less_Suc_eq)
qed simp

lemma find_rev_upt_None: "find P (rev [0..<n]) = None \<longleftrightarrow> (\<forall>j < n. \<not> P j)"
  by (auto simp: find_None_iff)

text \<open>A table of 0x30-byte entries: the first double of entry \<open>i\<close>.\<close>

lemma get_dbl_row:
  assumes "i < length rs" and "\<forall>r \<in> set rs. length r = 48"
  shows "get_dbl (concat rs) (i * 48) = get_dbl (rs ! i) 0"
  using assms
proof (induction rs arbitrary: i)
  case (Cons r rs)
  show ?case
  proof (cases i)
    case 0
    have "get_dbl (r @ ys) 0 = get_dbl r 0" for ys using Cons.prems by (simp add: get_dbl_def get32_def byte_at_def nth_append)
    then show ?thesis using 0 by simp
  next
    case (Suc k)
    then show ?thesis using Cons get_dbl_drop [of "r @ concat rs" 48 "k * 48"] by (simp add: add.commute)
  qed
qed simp

text \<open>The thread pitches of table g, as ISO 261 lists them, in millimetres.\<close>

definition pitches_g :: "rat list" where
  "pitches_g = [
     0, 1 / 5, 1 / 4, 3 / 10, 7 / 20, 2 / 5, 9 / 20, 1 / 2, 3 / 5, 7 / 10, 3 / 4, 4 / 5, 1, 5 / 4, 3 / 2, 7 / 4, 2, 5 / 2, 3, 7 / 2, 4, 9 / 2, 5, 11 / 2, 6]"

lemma get_dbl_column:
  assumes "length rs = n" and "\<forall>r \<in> set rs. length r = 48" and "map (\<lambda>r. get_dbl r 0) rs = ys"
  shows "map (\<lambda>i. get_dbl (concat rs) (i * 48)) [0..<n] = ys"
proof (rule nth_equalityI)
  show "length (map (\<lambda>i. get_dbl (concat rs) (i * 48)) [0..<n]) = length ys" using assms(1,3) by auto
  fix i assume "i < length (map (\<lambda>i. get_dbl (concat rs) (i * 48)) [0..<n])"
  then have "i < length rs" using assms(1) by simp
  then show "map (\<lambda>i. get_dbl (concat rs) (i * 48)) [0..<n] ! i = ys ! i"
    using get_dbl_row [OF _ assms(2)] assms(1,3) by auto
qed

lemma frei_g_column:
  "map (\<lambda>i. get_dbl frei_g_werte (i * 48)) [0..<25] = map (\<lambda>(m, e). fle m e)
    [(0, 0), (7205759403792794, -55), (4503599627370496, -54), (5404319552844595, -54), (6305039478318694, -54),
     (7205759403792794, -54), (8106479329266893, -54), (4503599627370496, -53), (5404319552844595, -53), (6305039478318694, -53),
     (6755399441055744, -53), (7205759403792794, -53), (4503599627370496, -52), (5629499534213120, -52), (6755399441055744, -52),
     (7881299347898368, -52), (4503599627370496, -51), (5629499534213120, -51), (6755399441055744, -51), (7881299347898368, -51),
     (4503599627370496, -50), (5066549580791808, -50), (5629499534213120, -50), (6192449487634432, -50), (6755399441055744, -50)]"
  unfolding frei_g_werte_def
proof (rule get_dbl_column, goal_cases)
  case 1
  show ?case by (simp only: list.size)
next
  case 2
  show ?case by (simp only: list.set ball_simps list.size) simp
next
  case 3
  show ?case
    by (simp only: list.map prod.case list.inject, intro conjI refl TrueI)
      (simp_all add: get_dbl_def dbl_of_words_def get32_def byte_at_def Let_def fle_def)
qed

lemma frei_g_nearest: "map (\<lambda>i. get_dbl frei_g_werte (i * 48)) [0..<25] = map (\<lambda>x. Fin (rnd x)) pitches_g"
proof -
  have "rnd 0 = 0" by (simp add: rnd_def)
  moreover have "fle 0 0 = Fin 0" by (simp add: fle_def)
  ultimately show ?thesis unfolding frei_g_column pitches_g_def by (simp add: fle_nearest power_int_def power_divide)
qed

lemma frei_g_entry: "i < 25 \<Longrightarrow> get_dbl frei_g_werte (i * 0x30) = Fin (rnd (pitches_g ! i))"
proof -
  assume i: "i < 25"
  then have "get_dbl frei_g_werte (i * 0x30) = map (\<lambda>x. Fin (rnd x)) pitches_g ! i"
    using arg_cong [OF frei_g_nearest, of "\<lambda>ys. ys ! i"] by simp
  also have "\<dots> = Fin (rnd (pitches_g ! i))" using i by (intro nth_map) (simp add: pitches_g_def)
  finally show ?thesis .
qed

lemma pitches_g_sorted: "sorted pitches_g"
  by (simp add: pitches_g_def)

text \<open>
  C35. The relief for a thread that table g gives is the one whose pitch range holds the pitch asked for: the entry's own
  pitch is not above it, the pitch of the next entry is.
\<close>

theorem freistich_g_bracket:
  "hole_din_werte_freistich_g (Fin x) = Some i \<longleftrightarrow>
     i < 25 \<and> rnd (pitches_g ! i) \<le> x \<and> (i < 24 \<longrightarrow> x < rnd (pitches_g ! Suc i))"
proof -
  have up: "rnd (pitches_g ! j) \<le> rnd (pitches_g ! k)" if "j \<le> k" "k < 25" for j k
    using that pitches_g_sorted by (intro rnd_mono sorted_nth_mono) (simp_all add: pitches_g_def)
  have e: "hole_din_werte_freistich_g (Fin x) = find (\<lambda>i. rnd (pitches_g ! i) \<le> x) (rev [0..<25])"
    unfolding hole_din_werte_freistich_g_def by (intro find_cong refl) (simp add: frei_g_entry)
  show ?thesis unfolding e find_rev_upt
  proof (intro conj_cong refl)
    assume "i < 25"
    then show "(\<forall>j. i < j \<and> j < 25 \<longrightarrow> \<not> rnd (pitches_g ! j) \<le> x) = (i < 24 \<longrightarrow> x < rnd (pitches_g ! Suc i))"
      using up [of "Suc i"] by (auto simp: not_le intro: less_le_trans)
  qed
qed

theorem freistich_g_bracket_witness: "hole_din_werte_freistich_g (Fin 1) = Some 12"
proof -
  have "rnd (5 / 4) = 5 / 4" using rnd_exact [of 5 "- 2"] by (simp add: power_int_def power2_eq_square)
  then show ?thesis using freistich_g_bracket [of 1 12] rnd_int [of 1] by (simp add: pitches_g_def)
qed

section \<open>Comparison with a nominal table\<close>

definition nennd_passes :: "dbl \<Rightarrow> dbl \<Rightarrow> dbl \<Rightarrow> dbl list \<Rightarrow> dbl list \<Rightarrow> nat \<Rightarrow> bool" where
  "nennd_passes tol p factor tbl cmp i =
     (let delta = dmul (ddiv (cmp ! i) p) factor in dlt (dsub (tbl ! i) (dadd delta delta)) (dadd tol nenndtbl_eps))"

lemma nennd_loop_step:
  "nennd_loop tol p factor n tbl cmp i =
     (if \<not> nennd_passes tol p factor tbl cmp i then i else if n \<le> Suc i then n
      else nennd_loop tol p factor n tbl cmp (Suc i))"
  by (subst nennd_loop.simps) (simp add: nennd_passes_def Let_def)

lemma nennd_loop_takeWhile:
  "i < n \<Longrightarrow> nennd_loop tol p factor n tbl cmp i = i + length (takeWhile (nennd_passes tol p factor tbl cmp) [i..<n])"
proof (induction "n - i" arbitrary: i)
  case (Suc k)
  then have u: "[i..<n] = i # [Suc i..<n]" by (simp add: upt_conv_Cons)
  show ?case
  proof (cases "n \<le> Suc i")
    case True
    then show ?thesis using Suc.prems by (subst nennd_loop_step) (simp add: u)
  next
    case False
    then show ?thesis using Suc.prems Suc.hyps(1) [of "Suc i"] Suc.hyps(2) by (subst nennd_loop_step) (simp add: u)
  qed
qed simp

text \<open>
   The table walk gives the same entry as taking the leading entries that pass the test and keeping the last of them,
  or entry 0 when none passes.
\<close>

theorem nennd_walk_prefix:
  assumes "0 < n" and "nat n \<le> length tbl" and "nat n \<le> length cmp"
  shows "NenndTblVgl tol pitch factor n tbl cmp =
     Some (tbl ! (length (takeWhile (nennd_passes tol (if deq pitch (Fin 0) then Fin 1 else pitch) factor tbl cmp) [0..<nat n]) - 1))"
proof -
  have t: "tbl \<noteq> []" "0 < nat n" using assms by auto
  show ?thesis using assms t nennd_loop_takeWhile [OF t(2)] by (auto simp: NenndTblVgl_def Let_def)
qed

theorem nennd_walk_prefix_witness:
  "NenndTblVgl (Fin 0) (Fin 0) (Fin 1) 2 [Fin 5, Fin 9] [Fin 4, Fin 1] = Some (Fin 5)"
proof -
  have "nenndtbl_eps = fle 7205759403792794 (- 57)"
    by (simp add: nenndtbl_eps_def DAT_nenndtbl_eps_b_def get_dbl_def dbl_of_words_def get32_def byte_at_def Let_def fle_def)
  then have e: "nenndtbl_eps = Fin (3602879701896397 / 72057594037927936)" by (simp add: fle_def power_int_def power_divide)
  have "rnd (3602879701896397 / 72057594037927936) \<le> rnd 1" by (rule rnd_mono) simp
  then have "\<not> nennd_passes (Fin 0) (Fin 1) (Fin 1) [Fin 5, Fin 9] [Fin 4, Fin 1] 1"
    using rnd_int [of 1] rnd_int [of 2] rnd_int [of 7] by (simp add: nennd_passes_def e dbl_simps moderate_def Let_def)
  then have "takeWhile (nennd_passes (Fin 0) (Fin 1) (Fin 1) [Fin 5, Fin 9] [Fin 4, Fin 1]) [0..<2] \<in> {[], [0]}"
    by (simp add: upt_rec)
  then show ?thesis using nennd_walk_prefix [of 2 "[Fin 5, Fin 9]" "[Fin 4, Fin 1]" "Fin 0" "Fin 0" "Fin 1"] by auto
qed

end
