(* ===== verification/Cycles.thy ===== *)
theory Cycles
  imports Ieee
begin

text \<open>
  The leaves of the machining-cycle libraries that compute with doubles: thread cycles (\<open>src/recomp/gewcyc\<close>), drilling
  (\<open>src/recomp/bohrcyc_fp\<close>), approach (\<open>src/recomp/anfahr\<close>), milling (\<open>src/recomp/fraescyc\<close>), cycle corrections
  (\<open>src/recomp/cyckkorr\<close>), turning (\<open>src/recomp/drehcyc\<close>), tolerances (\<open>src/recomp/aequi\<close>) and bounding boxes
  (\<open>src/recomp/spurgen\<close>).  A pointer that the code follows without a test is an option, its null the value \<open>None\<close>.
\<close>

section \<open>Thread cycles\<close>

record gc_sub2 =
  d58 :: dbl
  d60 :: dbl
  d80 :: dbl
  gc_flags :: u16

record gc_geotec =
  g_sub2 :: "gc_sub2 option"
  g_sub :: "u8 option"
  gc_sx :: dbl
  gc_sy :: dbl
  gc_ex :: dbl
  gc_ey :: dbl

definition GCYC_Geostart :: "gc_geotec \<Rightarrow> (dbl \<times> dbl) option" where
  "GCYC_Geostart e = map_option (\<lambda>f. if f = 1 then (gc_ex e, gc_ey e) else (gc_sx e, gc_sy e)) (g_sub e)"

definition GCYC_Geoziel :: "gc_geotec \<Rightarrow> (dbl \<times> dbl) option" where
  "GCYC_Geoziel e = map_option (\<lambda>f. if f = 1 then (gc_sx e, gc_sy e) else (gc_ex e, gc_ey e)) (g_sub e)"

definition GCYC_SetInkSteigung :: "gc_geotec \<Rightarrow> u16 \<Rightarrow> dbl \<Rightarrow> (dbl \<times> u16) option" where
  "GCYC_SetInkSteigung e flags eps =
     map_option (\<lambda>s. (d60 s, if dle (dabs (d60 s)) eps then flags AND 0xfdff else flags OR 0x200)) (g_sub2 e)"

definition GCYC_LeseAltko :: "gc_geotec \<Rightarrow> dbl \<times> dbl \<times> dbl" where
  "GCYC_LeseAltko e =
     (case g_sub2 e of None \<Rightarrow> (Fin 0, Fin 0, Fin 0)
      | Some s \<Rightarrow>
          (if gc_flags s AND 2 \<noteq> 0 then d58 s else Fin 0,
           if gc_flags s AND 4 \<noteq> 0 then d60 s else Fin 0,
           if gc_flags s AND 0x40 \<noteq> 0 then d80 s else Fin 0))"

record span =
  sp_next :: u32
  sp_8 :: dbl
  sp_10 :: dbl
  sp_18 :: dbl
  sp_20 :: dbl
  sp_38 :: dbl

lemma u16_down: "x \<noteq> 0 \<Longrightarrow> unat (x - 1) < unat x" for x :: u16
  by (simp add: unat_minus_one unat_gt_0)

text \<open>
  The list stands in a memory of nodes by address; the loop counter \<open>i\<close> is the code's, its distance to the index the
  measure.
\<close>

function span_walk :: "(u32 \<Rightarrow> span option) \<Rightarrow> u16 \<Rightarrow> u16 \<Rightarrow> u32 \<Rightarrow> u32 option" where
  "span_walk mem idx i p =
     (case mem p of None \<Rightarrow> None
      | Some n \<Rightarrow> if idx \<noteq> i + 1 then span_walk mem idx (i + 1) (sp_next n) else Some (sp_next n))"
  by pat_completeness auto

termination
proof (relation "measure (\<lambda>(mem, idx, i, p). unat (idx - i - 1))")
  fix mem p n and idx i :: u16
  assume "idx \<noteq> i + 1"
  then have "idx - i - 1 \<noteq> 0" by (simp add: algebra_simps)
  then show "((mem, idx, i + 1, sp_next n), mem, idx, i, p) \<in> measure (\<lambda>(mem :: u32 \<Rightarrow> span option, idx :: u16, i, p :: u32). unat (idx - i - 1))"
    using u16_down [of "idx - i - 1"] by (simp add: algebra_simps)
qed simp

declare span_walk.simps [simp del]

definition GCYC_Hole_Spandaten :: "(u32 \<Rightarrow> span option) \<Rightarrow> u32 \<Rightarrow> u16 \<Rightarrow> (dbl \<times> dbl \<times> dbl \<times> dbl \<times> dbl) option" where
  "GCYC_Hole_Spandaten mem l idx =
     Option.bind (if idx > 1 then span_walk mem idx 1 l else Some l)
       (\<lambda>p. map_option (\<lambda>n. (sp_18 n, sp_20 n, sp_8 n, sp_10 n, sp_38 n)) (mem p))"

definition G_PI_2 :: rat where "G_PI_2 = 0x1921fb54442d18 / 2 ^ 52"
definition G_PI :: rat where "G_PI = 0x1921fb54442d18 / 2 ^ 51"
definition G_3PI_2 :: rat where "G_3PI_2 = 0x12d97c7f3321d2 / 2 ^ 50"

definition GCYC_SimpelAbhebeWinkel :: "u32 \<Rightarrow> dbl" where
  "GCYC_SimpelAbhebeWinkel flag =
     (if flag = 0x20 then Fin G_3PI_2
      else if flag < 0x21 then (if flag = 1 then Fin G_PI else if flag \<noteq> 4 then Fin G_PI_2 else Fin 0)
      else if flag \<noteq> 0x100000 then Fin G_PI_2 else Fin 0)"

section \<open>Drilling cycles\<close>

definition BCYC_PI :: rat where "BCYC_PI = 0x1921fb54442d18 / 2 ^ 51"
definition BCYC_TWO_PI :: rat where "BCYC_TWO_PI = 0x1921fb54442d18 / 2 ^ 50"

definition BCYC_EntnormiereWinkel :: "dbl \<Rightarrow> dbl \<Rightarrow> dbl \<Rightarrow> int \<times> dbl" where
  "BCYC_EntnormiereWinkel v ref hb =
     (if dle (dadd hb (Fin BCYC_PI)) (dabs (dsub v ref)) then
        if dle v ref then (1, dadd v (Fin BCYC_TWO_PI)) else (1, dsub v (Fin BCYC_TWO_PI))
      else (0, v))"

definition BCYC_WinkelGleich :: "(dbl \<Rightarrow> dbl) \<Rightarrow> (dbl \<Rightarrow> dbl) \<Rightarrow> dbl \<Rightarrow> dbl \<Rightarrow> dbl \<Rightarrow> bool" where
  "BCYC_WinkelGleich sn cs a b tol \<longleftrightarrow>
     dlt (dabs (dsub (sn a) (sn b))) tol \<and> dlt (dabs (dsub (cs a) (cs b))) tol"

section \<open>Approach\<close>

definition ANF_PI :: rat where "ANF_PI = 0x1921fb54442d18 / 2 ^ 51"
definition ANF_2PI :: rat where "ANF_2PI = 0x1921fb54442d18 / 2 ^ 50"

definition EckenWinkel :: "dbl \<Rightarrow> dbl \<Rightarrow> int \<Rightarrow> dbl" where
  "EckenWinkel a1 a2 ecke =
     (if ecke = 0x20 then Fin ANF_PI
      else let diff = dabs (dsub a1 a2) in
        if ecke < 0x20 then (if dlt (Fin ANF_PI) diff then dsub (Fin ANF_2PI) diff else diff)
        else (if dlt diff (Fin ANF_PI) then dsub (Fin ANF_2PI) diff else diff))"

definition anf_min :: "dbl \<Rightarrow> dbl \<Rightarrow> dbl" where "anf_min a b = (if dlt b a then b else a)"

definition get_einfahr_radius :: "dbl \<Rightarrow> dbl \<Rightarrow> dbl \<Rightarrow> dbl" where
  "get_einfahr_radius p1 p2 p3 =
     (let Cp2 = dmul (Fin 3) p2 in
      if dle p1 p3 then anf_min (Fin 5) Cp2
      else if dlt p1 (dadd p3 Cp2) then anf_min (dadd p1 p1) Cp2
      else p1)"

section \<open>Milling cycles\<close>

definition FC_BIG :: rat where "FC_BIG = rnd (5 * 10 ^ 37)"

definition FCYC_FraesTiefe :: "u8 list option \<Rightarrow> dbl" where
  "FCYC_FraesTiefe p =
     (case p of None \<Rightarrow> Fin 0 | Some b \<Rightarrow> if get32 b 0x10 \<noteq> 0 then get_dbl b 0x74 else Fin 0)"

definition FCYC_AbhebeLaenge :: "u8 list \<Rightarrow> dbl \<Rightarrow> dbl" where
  "FCYC_AbhebeLaenge p v =
     (let a = get_dbl p 0x148 in
      if dlt (dabs a) (Fin FC_BIG) then
        let l = dabs (dsub a v) in if dle (get_dbl p 0x94) l then l else Fin 0
      else Fin 0)"

definition FCYC_VorschubArt :: "u8 list \<Rightarrow> int \<Rightarrow> int \<Rightarrow> int" where
  "FCYC_VorschubArt p a b =
     (if get32 p 0x16c = 0 then (if byte_at p 0x192 = 0 then 2 else 0)
      else if dle (get_dbl p 0x94) (dabs (get_dbl p 0x170)) then 0
      else if byte_at p 0x192 \<noteq> 0 \<and> (b < 2 \<or> a = 1) then 0
      else 2)"

section \<open>Cycle corrections\<close>

definition CK_S180 :: rat where "CK_S180 = rnd (12246467991473532 / 10 ^ 32)"
definition CK_C90 :: rat where "CK_C90 = rnd (6123233995736766 / 10 ^ 32)"
definition CK_S270 :: rat where "CK_S270 = rnd (- 18369701987210297 / 10 ^ 32)"

definition renormiere_punkt :: "dbl \<times> dbl \<Rightarrow> int \<Rightarrow> int \<Rightarrow> dbl \<times> dbl" where
  "renormiere_punkt pt quad flag =
     (let x = fst pt; y = snd pt in
      if quad < 1 \<or> 4 < quad then pt
      else if flag \<noteq> 1 then
        if quad \<noteq> 3 \<and> quad \<noteq> 4 \<and> quad \<noteq> 2 then
          (dsub x (dmul y (Fin 0)), dadd (dmul x (Fin 0)) y)
        else
          let (s, c) = (if quad = 3 then (Fin CK_S180, Fin (- 1)) else if quad = 4 then (Fin (- 1), Fin CK_S270) else (Fin 1, Fin CK_C90))
          in (dsub (dmul c x) (dmul s y), dadd (dmul c y) (dmul s x))
      else
        let (s, c) = (if quad = 1 then (Fin CK_S180, Fin (- 1)) else if quad = 4 then (Fin (- 1), Fin CK_S270)
                      else if quad = 2 then (Fin 1, Fin CK_C90) else (Fin 0, Fin 1))
        in (dneg (dsub (dmul c x) (dmul s y)), dadd (dmul s x) (dmul c y)))"

text \<open>Objects as byte lists long enough for the fields; both pointers may name the same object.\<close>

definition ck_cp :: "u8 list \<Rightarrow> nat \<Rightarrow> nat \<Rightarrow> u8 list \<Rightarrow> u8 list" where
  "ck_cp src off n dst = overlay off (take n (drop off src)) dst"

definition ckk_uebertrage_attribute :: "u8 list \<Rightarrow> u8 list \<Rightarrow> u8 list" where
  "ckk_uebertrage_attribute src dst =
     ck_cp src 0x88 8 (ck_cp src 0x84 4 (ck_cp src 0x7c 1 (ck_cp src 0x78 4
       (ck_cp src 0x70 8 (ck_cp src 0x6d 1 (ck_cp src 0x6c 1 (ck_cp src 0x64 8 dst)))))))"

section \<open>Turning cycles, tolerances, boxes\<close>

record aufmass_rt =
  am_flag :: u8
  am_m1 :: dbl
  am_m2 :: dbl

definition is_aufmass_aktiv :: "aufmass_rt \<Rightarrow> dbl \<Rightarrow> bool" where
  "is_aufmass_aktiv am tol =
     (if am_flag am AND 0x30 = 0 then False
      else if dlt (dabs (am_m1 am)) tol then dle tol (dabs (am_m2 am)) else True)"

definition get_laengentoleranz :: "dbl \<Rightarrow> dbl \<Rightarrow> dbl" where "get_laengentoleranz d1 d2 = d2"
definition AEQ_GetLaengentoleranz :: "dbl \<Rightarrow> dbl \<Rightarrow> dbl" where "AEQ_GetLaengentoleranz d1 d2 = d2"

type_synonym box = "dbl \<times> dbl \<times> dbl \<times> dbl"

fun Box_erweitern :: "box \<Rightarrow> box \<Rightarrow> box" where
  "Box_erweitern (a0, a1, a2, a3) (b0, b1, b2, b3) =
     (if dlt b0 a0 then b0 else a0, if dlt b1 a1 then b1 else a1,
      if dlt a2 b2 then b2 else a2, if dlt a3 b3 then b3 else a3)"

end
