(* ===== verification/CyclesFacts.thy ===== *)
theory CyclesFacts
  imports Cycles
begin

text \<open>
  The cycle leaves: bounding boxes as a least upper bound, the range of corner angles, the chip list by index and the
  attributes a correction copies.
\<close>

section \<open>Bounding boxes\<close>

definition box_within :: "box \<Rightarrow> box \<Rightarrow> bool" where
  "box_within a c \<longleftrightarrow>
     (case (a, c) of ((a0, a1, a2, a3), (c0, c1, c2, c3)) \<Rightarrow> dle c0 a0 \<and> dle c1 a1 \<and> dle a2 c2 \<and> dle a3 c3)"

definition no_nan :: "box \<Rightarrow> bool" where
  "no_nan b \<longleftrightarrow> (case b of (b0, b1, b2, b3) \<Rightarrow> b0 \<noteq> NaN \<and> b1 \<noteq> NaN \<and> b2 \<noteq> NaN \<and> b3 \<noteq> NaN)"

lemma dle_min: "a \<noteq> NaN \<Longrightarrow> b \<noteq> NaN \<Longrightarrow> dle c (if dlt b a then b else a) \<longleftrightarrow> dle c a \<and> dle c b"
  by (cases a; cases b; cases c) auto

lemma dle_max: "a \<noteq> NaN \<Longrightarrow> b \<noteq> NaN \<Longrightarrow> dle (if dlt a b then b else a) c \<longleftrightarrow> dle a c \<and> dle b c"
  by (cases a; cases b; cases c) auto

text \<open>
  Extending a box by another gives the smallest box that holds both: a box holds the result exactly if it holds the two.
\<close>

theorem box_least:
  "no_nan a \<Longrightarrow> no_nan b \<Longrightarrow> box_within (Box_erweitern a b) c \<longleftrightarrow> box_within a c \<and> box_within b c"
  by (cases a; cases b; cases c) (simp add: box_within_def no_nan_def dle_min dle_max conj_ac)

theorem box_least_witness:
  "box_within (Box_erweitern (Fin 0, Fin 0, Fin 1, Fin 1) (Fin (- 1), Fin 2, Fin 0, Fin 3)) (Fin (- 1), Fin 0, Fin 1, Fin 3)"
  using box_least [of "(Fin 0, Fin 0, Fin 1, Fin 1)" "(Fin (- 1), Fin 2, Fin 0, Fin 3)" "(Fin (- 1), Fin 0, Fin 1, Fin 3)"]
  by (simp add: no_nan_def box_within_def)

section \<open>Corner angles\<close>

lemma anf_pi_facts:
  "rnd ANF_PI = ANF_PI" "rnd ANF_2PI = ANF_2PI" "ANF_2PI = 2 * ANF_PI" "3 < ANF_PI" "ANF_PI < 4"
proof -
  have "rnd (of_int 0x1921fb54442d18 * 2 powi - 51) = of_int 0x1921fb54442d18 * 2 powi - 51"
    "rnd (of_int 0x1921fb54442d18 * 2 powi - 50) = of_int 0x1921fb54442d18 * 2 powi - 50"
    by (rule rnd_exact; simp)+
  then show "rnd ANF_PI = ANF_PI" "rnd ANF_2PI = ANF_2PI" by (simp_all add: ANF_PI_def ANF_2PI_def power_int_def power_divide)
  show "ANF_2PI = 2 * ANF_PI" "3 < ANF_PI" "ANF_PI < 4" by (simp_all add: ANF_PI_def ANF_2PI_def)
qed

lemma dsub_near:
  "\<bar>x - y\<bar> \<le> 8 \<Longrightarrow> dsub (Fin x) (Fin y) = Fin (rnd (x - y))"
  by (rule dsub_Fin, erule moderate_I) (rule order.trans [of _ "2 ^ 3"], simp, rule power_increasing, simp_all)

lemma ecken_diff:
  assumes "\<bar>x - y\<bar> \<le> ANF_2PI"
  shows "dabs (dsub (Fin x) (Fin y)) = Fin \<bar>rnd (x - y)\<bar>" and "\<bar>rnd (x - y)\<bar> \<le> ANF_2PI"
proof -
  have "\<bar>x - y\<bar> \<le> 8" using assms anf_pi_facts(3,5) by linarith
  then show "dabs (dsub (Fin x) (Fin y)) = Fin \<bar>rnd (x - y)\<bar>" by (simp add: dsub_near)
  show "\<bar>rnd (x - y)\<bar> \<le> ANF_2PI" using rnd_mono_abs [OF assms] anf_pi_facts(2) by simp
qed

lemma ecken_fold:
  assumes "0 \<le> d" and "d \<le> ANF_2PI"
  shows "dsub (Fin ANF_2PI) (Fin d) = Fin (rnd (ANF_2PI - d))"
  using assms anf_pi_facts(3,5) by (intro dsub_near) (simp add: abs_le_iff)

lemma rnd_between: "a \<le> x \<Longrightarrow> x \<le> b \<Longrightarrow> rnd a = a \<Longrightarrow> rnd b = b \<Longrightarrow> a \<le> rnd x \<and> rnd x \<le> b"
  using rnd_mono [of a x] rnd_mono [of x b] by simp

text \<open>
  C36. For two directions at most a turn apart, the inner corner angle lies between 0 and half a turn and the outer one
  between half a turn and a turn, exactly, whatever the rounding of the differences.
\<close>

theorem ecken_winkel_range:
  assumes "\<bar>x - y\<bar> \<le> ANF_2PI"
  shows "\<exists>w. EckenWinkel (Fin x) (Fin y) ecke = Fin w \<and>
     (if ecke < 0x20 then 0 \<le> w \<and> w \<le> ANF_PI else ANF_PI \<le> w \<and> w \<le> ANF_2PI)"
proof -
  define d where "d = \<bar>rnd (x - y)\<bar>"
  have d: "dabs (dsub (Fin x) (Fin y)) = Fin d" "0 \<le> d" "d \<le> ANF_2PI" unfolding d_def using ecken_diff [OF assms] by simp_all
  have f: "dsub (Fin ANF_2PI) (Fin d) = Fin (rnd (ANF_2PI - d))" by (rule ecken_fold [OF d(2,3)])
  have in_: "0 \<le> rnd (ANF_2PI - d) \<and> rnd (ANF_2PI - d) \<le> ANF_PI" if "ANF_PI < d"
    by (rule rnd_between) (use that d(3) anf_pi_facts in auto)
  have out: "ANF_PI \<le> rnd (ANF_2PI - d) \<and> rnd (ANF_2PI - d) \<le> ANF_2PI" if "d < ANF_PI"
    by (rule rnd_between) (use that d(2) anf_pi_facts in auto)
  show ?thesis using in_ out d anf_pi_facts(3,4) by (auto simp: EckenWinkel_def Let_def f)
qed

theorem ecken_winkel_range_witness:
  "\<exists>w. EckenWinkel (Fin 6) (Fin 1) 0x10 = Fin w \<and> 0 \<le> w \<and> w \<le> ANF_PI"
  using ecken_winkel_range [of 6 1 "0x10"] by (simp add: ANF_2PI_def)

section \<open>Thread cycles\<close>

lemma start_ziel_swap:
  "g_sub e = Some f \<Longrightarrow> GCYC_Geoziel e = GCYC_Geostart (e\<lparr>g_sub := Some (if f = 1 then 0 else 1)\<rparr>)"
  by (simp add: GCYC_Geostart_def GCYC_Geoziel_def)

fun span_list :: "(u32 \<Rightarrow> span option) \<Rightarrow> u32 \<Rightarrow> span list \<Rightarrow> bool" where
  "span_list mem p [] = True"
| "span_list mem p (n # ns) \<longleftrightarrow> mem p = Some n \<and> span_list mem (sp_next n) ns"

lemma span_walk_list:
  assumes "span_list mem p ns" and "unat idx = unat i + Suc k" and "Suc k < length ns"
  shows "Option.bind (span_walk mem idx i p) mem = Some (ns ! Suc k)"
  using assms
proof (induction k arbitrary: i p ns)
  case 0
  then obtain n m ns' where ns: "ns = n # m # ns'" by (cases ns; cases "tl ns") auto
  have "idx = i + 1" using 0 unsigned_less [of idx, where ?'a = nat] by (intro word_unat_eq_iff [THEN iffD2]) (simp add: unat_word_ariths)
  then show ?case using 0 ns by (subst span_walk.simps) simp
next
  case (Suc k)
  then obtain n ns' where ns: "ns = n # ns'" by (cases ns) auto
  have b: "unat i + 1 < 2 ^ 16" using Suc.prems(2) unsigned_less [of idx, where ?'a = nat] by simp
  then have i: "unat (i + 1) = unat i + 1" by (simp add: unat_word_ariths)
  then have "idx \<noteq> i + 1" using Suc.prems(2) by auto
  then show ?case using Suc ns i by (subst span_walk.simps) simp
qed

text \<open>
   The chip data for index \<open>i\<close> are those of the \<open>i\<close>-th node of the list, counted from 1; index 0 means the first node too.
\<close>

theorem spandaten_nth:
  assumes "span_list mem l ns" and "unat idx \<le> length ns" and "ns \<noteq> []"
  shows "GCYC_Hole_Spandaten mem l idx =
     (let n = ns ! (unat idx - 1) in Some (sp_18 n, sp_20 n, sp_8 n, sp_10 n, sp_38 n))"
proof (cases "idx > 1")
  case True
  then have u: "1 < unat idx" by (simp add: word_less_nat_alt)
  then have "Option.bind (span_walk mem idx 1 l) mem = Some (ns ! Suc (unat idx - 2))"
    using assms by (intro span_walk_list) simp_all
  then show ?thesis using True u
    by (cases "span_walk mem idx 1 l") (simp_all add: GCYC_Hole_Spandaten_def Let_def numeral_2_eq_2 Suc_diff_Suc)
next
  case False
  then have "unat idx - 1 = 0" by (simp add: word_less_nat_alt)
  moreover have "mem l = Some (ns ! 0)" using assms(1,3) by (cases ns) simp_all
  ultimately show ?thesis using False by (simp add: GCYC_Hole_Spandaten_def Let_def)
qed

definition span_of :: "u32 \<Rightarrow> rat \<Rightarrow> span" where
  "span_of nx x = \<lparr>sp_next = nx, sp_8 = Fin x, sp_10 = Fin 0, sp_18 = Fin 1, sp_20 = Fin 2, sp_38 = Fin 3\<rparr>"

theorem spandaten_nth_witness:
  "GCYC_Hole_Spandaten [0x100 \<mapsto> span_of 0x200 7, 0x200 \<mapsto> span_of 0 8] 0x100 2 = Some (Fin 1, Fin 2, Fin 8, Fin 0, Fin 3)"
  using spandaten_nth [of "[0x100 \<mapsto> span_of 0x200 7, 0x200 \<mapsto> span_of 0 8]" "0x100" "[span_of 0x200 7, span_of 0 8]" 2]
  by (simp add: span_of_def)

section \<open>Cycle corrections\<close>

lemma overlay_nth:
  assumes "off + length new \<le> length old"
  shows "length (overlay off new old) = length old"
    and "i < length old \<Longrightarrow> overlay off new old ! i = (if off \<le> i \<and> i < off + length new then new ! (i - off) else old ! i)"
  using assms by (auto simp: overlay_def nth_append min_def)

lemma ck_cp_nth:
  assumes "length src = length dst" and "off + n \<le> length dst"
  shows "length (ck_cp src off n dst) = length dst"
    and "i < length dst \<Longrightarrow> ck_cp src off n dst ! i = (if off \<le> i \<and> i < off + n then src ! i else dst ! i)"
  using assms by (auto simp: ck_cp_def overlay_nth)

lemma fold_cp_nth:
  assumes "length src = length dst" and "\<forall>(off, n) \<in> set fs. off + n \<le> length dst" and "i < length dst"
  shows "fold (\<lambda>(off, n). ck_cp src off n) fs dst ! i =
     (if \<exists>(off, n) \<in> set fs. off \<le> i \<and> i < off + n then src ! i else dst ! i)"
  using assms
proof (induction fs arbitrary: dst)
  case (Cons f fs)
  obtain off n where f: "f = (off, n)" by (cases f)
  then have "off + n \<le> length dst" using Cons.prems by simp
  then have "length (ck_cp src off n dst) = length dst"
    "ck_cp src off n dst ! i = (if off \<le> i \<and> i < off + n then src ! i else dst ! i)"
    using Cons.prems by (simp_all add: ck_cp_nth)
  then show ?case using Cons.IH [of "ck_cp src off n dst"] Cons.prems f by (auto split: if_splits)
qed simp

definition attribute_bytes :: "nat set" where
  "attribute_bytes = {0x64..0x6d} \<union> {0x70..0x7c} \<union> {0x84..0x8f}"

text \<open>
   Transferring the attributes makes the attribute bytes of the target those of the source and leaves every other byte
  as it was.
\<close>

theorem attributes_copied:
  assumes "length src = length dst" and "0x90 \<le> length dst" and "i < length dst"
  shows "ckk_uebertrage_attribute src dst ! i = (if i \<in> attribute_bytes then src ! i else dst ! i)"
proof -
  let ?fs = "[(0x64, 8), (0x6c, 1), (0x6d, 1), (0x70, 8), (0x78, 4), (0x7c, 1), (0x84, 4), (0x88, 8)]"
  have "ckk_uebertrage_attribute src dst ! i = fold (\<lambda>(off, n). ck_cp src off n) ?fs dst ! i"
    by (simp add: ckk_uebertrage_attribute_def)
  also have "\<dots> = (if \<exists>(off, n) \<in> set ?fs. off \<le> i \<and> i < off + n then src ! i else dst ! i)"
    using assms by (intro fold_cp_nth) simp_all
  also have "\<dots> = (if i \<in> attribute_bytes then src ! i else dst ! i)"
    by (rule if_cong) (auto simp: attribute_bytes_def)
  finally show ?thesis .
qed

theorem attributes_copied_witness:
  "ckk_uebertrage_attribute (replicate 0xa0 1) (replicate 0xa0 0) ! 0x6e = 0"
  using attributes_copied [of "replicate 0xa0 1" "replicate 0xa0 0" "0x6e"] by (simp add: attribute_bytes_def)

text \<open>The quadrants 1 (plain) and those outside 1 to 4 leave a finite point alone.\<close>

lemma renormiere_identity:
  assumes "rnd x = x" and "rnd y = y" and "\<bar>x\<bar> < 2 ^ 1024" and "\<bar>y\<bar> < 2 ^ 1024"
  shows "renormiere_punkt (Fin x, Fin y) 1 0 = (Fin x, Fin y)"
  using assms by (simp add: renormiere_punkt_def Let_def fl_def dsub_def)

end
