(* ===== verification/Contours.thy ===== *)
theory Contours
  imports Ieee
begin

text \<open>
  Contour tools (\<open>src/recomp/geoxcontour\<close> to \<open>geoxcontour5\<close>, \<open>src/recomp/geocontours2\<close>), unit factors and value descriptors
  (\<open>src/recomp/metaval\<close>) and the safety state of an axis (\<open>src/recomp/qsipo\<close>).  Objects are byte lists long enough for the
  fields read; the setters give the changed object.
\<close>

section \<open>Value ranges\<close>

definition put_dbl_bytes :: "nat \<Rightarrow> u8 list \<Rightarrow> u8 list \<Rightarrow> u8 list" where
  "put_dbl_bytes off enc t = overlay off (take 8 enc) t"

definition range_u_min :: "u8 list \<Rightarrow> u32" where "range_u_min t = get32 t 0"
definition range_u_max :: "u8 list \<Rightarrow> u32" where "range_u_max t = get32 t 4"
definition range_u_span :: "u8 list \<Rightarrow> u32" where "range_u_span t = get32 t 4 - get32 t 0"
definition range_u_empty :: "u8 list \<Rightarrow> bool" where
  "range_u_empty t \<longleftrightarrow> get32 t 0 = 0xFFFFFFFF \<and> get32 t 4 = 0xFFFFFFFF"
definition range_u_valid :: "u8 list \<Rightarrow> bool" where "range_u_valid t \<longleftrightarrow> get32 t 0 \<le> get32 t 4"
definition range_u_set_min :: "u8 list \<Rightarrow> u32 \<Rightarrow> u8 list" where "range_u_set_min t a = put32 t 0 a"
definition range_u_set_max :: "u8 list \<Rightarrow> u32 \<Rightarrow> u8 list" where "range_u_set_max t a = put32 t 4 a"

definition DBL_MAX :: dbl where "DBL_MAX = Fin ((2 ^ 53 - 1) * 2 ^ 971)"

definition range_d_min :: "u8 list \<Rightarrow> dbl" where "range_d_min t = get_dbl t 0"
definition range_d_max :: "u8 list \<Rightarrow> dbl" where "range_d_max t = get_dbl t 8"
definition range_d_span :: "u8 list \<Rightarrow> dbl" where "range_d_span t = dsub (get_dbl t 8) (get_dbl t 0)"
definition range_d_empty :: "u8 list \<Rightarrow> bool" where
  "range_d_empty t \<longleftrightarrow> deq (get_dbl t 0) DBL_MAX \<and> deq (get_dbl t 8) DBL_MAX"
definition range_d_valid :: "u8 list \<Rightarrow> bool" where "range_d_valid t \<longleftrightarrow> dle (get_dbl t 0) (get_dbl t 8)"

text \<open>A double argument of a setter is given by its eight bytes.\<close>

definition range_d_set_min :: "u8 list \<Rightarrow> u8 list \<Rightarrow> u8 list" where "range_d_set_min t a = put_dbl_bytes 0 a t"
definition range_d_set_max :: "u8 list \<Rightarrow> u8 list \<Rightarrow> u8 list" where "range_d_set_max t a = put_dbl_bytes 8 a t"

definition get_range_start :: "u8 list \<Rightarrow> dbl" where "get_range_start t = get_dbl t 0"
definition get_range_end :: "u8 list \<Rightarrow> dbl" where "get_range_end t = get_dbl t 8"
definition get_sample_step_size :: "u8 list \<Rightarrow> dbl" where "get_sample_step_size t = get_dbl t 16"
definition get_number_of_samples :: "u8 list \<Rightarrow> u32" where "get_number_of_samples t = get32 t 24"
definition cell_size :: "u8 list \<Rightarrow> dbl" where "cell_size t = get_dbl t 28"
definition cell_count :: "u8 list \<Rightarrow> u32" where "cell_count t = get32 t 0"

section \<open>Cleaning groups\<close>

definition min_element_length :: "u8 list \<Rightarrow> u8 list \<Rightarrow> u8 list" where "min_element_length t a = put_dbl_bytes 8 a t"
definition min_gap_length :: "u8 list \<Rightarrow> u8 list \<Rightarrow> u8 list" where "min_gap_length t a = put_dbl_bytes 16 a t"
definition max_stretch_length_change :: "u8 list \<Rightarrow> u8 list \<Rightarrow> u8 list" where
  "max_stretch_length_change t a = put_dbl_bytes 24 a t"
definition bridge_gap_with_stretch_if_greater :: "u8 list \<Rightarrow> u8 list \<Rightarrow> u8 list" where
  "bridge_gap_with_stretch_if_greater t a = put_dbl_bytes 32 a t"
definition colinear_angle :: "u8 list \<Rightarrow> u8 list \<Rightarrow> u8 list" where "colinear_angle t a = put_dbl_bytes 40 a t"
definition colinear_max_point_dist :: "u8 list \<Rightarrow> u8 list \<Rightarrow> u8 list" where
  "colinear_max_point_dist t a = put_dbl_bytes 48 a t"
definition cocircular_max_circle_difference :: "u8 list \<Rightarrow> u8 list \<Rightarrow> u8 list" where
  "cocircular_max_circle_difference t a = put_dbl_bytes 56 a t"
definition join_respect_tags :: "u8 list \<Rightarrow> bool \<Rightarrow> u8 list" where
  "join_respect_tags t a = overlay 64 [if a then 1 else 0] t"

section \<open>Angles\<close>

definition is_value_inside_range :: "dbl \<Rightarrow> dbl \<Rightarrow> dbl \<Rightarrow> bool" where
  "is_value_inside_range v lo hi \<longleftrightarrow> dlt v hi \<and> dlt lo v"

fun dfloor :: "dbl \<Rightarrow> dbl" where
  "dfloor (Fin a) = Fin (of_int \<lfloor>a\<rfloor>)"
| "dfloor d = d"

definition normalize_angle :: "dbl \<Rightarrow> bool \<Rightarrow> dbl" where
  "normalize_angle angle deg =
     (let half = (if deg then Fin 180 else Fin (0x1921fb54442d18 / 2 ^ 51));
          period = (if deg then Fin 360 else Fin (0x1921fb54442d18 / 2 ^ 50));
          q = dfloor (ddiv angle period);
          v8 = dsub angle (dmul q period)
      in if dlt half v8 then dsub v8 period else v8)"

definition isAngleBetween :: "dbl \<Rightarrow> dbl \<Rightarrow> dbl \<Rightarrow> dbl \<Rightarrow> bool" where
  "isAngleBetween a b c d =
     (let v4 = dsub a d; v5 = c; v6 = dadd d b in
      if dlt v4 v5 = dlt v5 v6 \<and> dlt v4 v6 then True
      else if dle v5 v4 \<and> dlt v5 v6 then dle v6 v4
      else let result = dlt v4 c \<and> dle v6 c in
        if result then dle v6 v4 else result)"

section \<open>Contours\<close>

definition Contour_AssumePropertiesOf :: "u8 list \<Rightarrow> u8 list \<Rightarrow> u8 list" where
  "Contour_AssumePropertiesOf t a2 =
     (let t1 = overlay 4 [byte_at a2 4] t; t2 = overlay 12 [byte_at a2 12] t1 in put32 t2 8 (get32 a2 8))"

definition PocketContour_AssumePropertiesOf :: "u8 list \<Rightarrow> u8 list \<Rightarrow> u8 \<times> u8 list" where
  "PocketContour_AssumePropertiesOf t a2 =
     (let t1 = Contour_AssumePropertiesOf t a2; was_zero = (byte_at t1 60 = 0);
          t2 = overlay 64 [byte_at a2 64] t1;
          t3 = foldl (\<lambda>u off. put32 u off (get32 a2 off)) t2 [68, 72, 76, 80, 84];
          result = byte_at a2 88; t4 = overlay 88 [result] t3
      in (result, if \<not> was_zero then overlay 60 [0] t4 else t4))"

section \<open>Unit factors and value descriptors\<close>

definition MV_MM_PER_FEED :: rat where "MV_MM_PER_FEED = rnd (254 / 100)"
definition MV_MM_PER_POS :: rat where "MV_MM_PER_POS = rnd (254 / 10)"

definition InchPrecision :: "bool \<Rightarrow> dbl \<Rightarrow> bool" where "InchPrecision b d \<longleftrightarrow> b \<and> dlt (Fin 1) d"
definition ToMetricFeedValue :: "bool \<Rightarrow> dbl" where "ToMetricFeedValue m = (if m then Fin MV_MM_PER_FEED else Fin 1)"
definition ToMetricPosValue :: "bool \<Rightarrow> dbl" where "ToMetricPosValue m = (if m then Fin MV_MM_PER_POS else Fin 1)"
definition ToNonMetricFeedValue :: "bool \<Rightarrow> dbl" where
  "ToNonMetricFeedValue m = ddiv (Fin 1) (if m then Fin MV_MM_PER_FEED else Fin 1)"
definition ToNonMetricPosValue :: "bool \<Rightarrow> dbl" where
  "ToNonMetricPosValue m = ddiv (Fin 1) (if m then Fin MV_MM_PER_POS else Fin 1)"

definition CycIsCardinal :: "u8 list \<Rightarrow> bool" where "CycIsCardinal t = False"
definition CycIsInteger :: "u8 list \<Rightarrow> bool" where "CycIsInteger t = False"
definition CycIsReal :: "u8 list \<Rightarrow> bool" where "CycIsReal t = True"
definition CycGetArraySize :: "u8 list \<Rightarrow> nat" where "CycGetArraySize t = 1"
definition CycIsSigned :: "u8 list \<Rightarrow> bool" where "CycIsSigned t = dlt (get_dbl t 0x0c) (Fin 0)"
definition CycGetTextLength :: "u8 list \<Rightarrow> u32" where "CycGetTextLength t = get32 t 0x24"

record TncFmt =
  tf_textlen :: u16
  tf_type :: u8
  tf_flags :: u8

record TncObj =
  to_fmt :: "TncFmt option"
  to_impl :: bool

text \<open>The format is followed without a test, so a null format gives \<open>None\<close>.\<close>

definition TncIsSigned :: "TncObj \<Rightarrow> u8 option" where
  "TncIsSigned ob = (if to_impl ob then map_option (\<lambda>f. drop_bit 5 (tf_flags f) AND 1) (to_fmt ob) else Some 0)"

definition TncGetTextLength :: "TncObj \<Rightarrow> u16 option" where "TncGetTextLength ob = map_option tf_textlen (to_fmt ob)"

definition TncGetArraySize :: "TncObj \<Rightarrow> nat" where "TncGetArraySize ob = (if to_impl ob then 1 else 0)"

definition TncIsSignedQ :: "TncObj \<Rightarrow> u8 option" where
  "TncIsSignedQ ob =
     (if to_impl ob then map_option (\<lambda>f. if tf_type f = 6 then drop_bit 5 (tf_flags f) AND 1 else 0) (to_fmt ob) else Some 0)"

section \<open>Axis safety\<close>

definition isAxisWithSafety :: "u8 list \<Rightarrow> u32" where "isAxisWithSafety t = drop_bit 31 (get32 t 0)"
definition isAxisSgReferenced :: "u8 list \<Rightarrow> u32" where "isAxisSgReferenced t = drop_bit 28 (get32 t 0) AND 1"
definition isAxisSgPositionTested :: "u8 list \<Rightarrow> u32" where "isAxisSgPositionTested t = drop_bit 29 (get32 t 0) AND 1"
definition axisHasSgSafeAbsPos :: "u8 list \<Rightarrow> u32" where "axisHasSgSafeAbsPos t = drop_bit 27 (get32 t 4) AND 1"

definition doesAxisRequireChecking :: "u8 list \<Rightarrow> u32" where
  "doesAxisRequireChecking t =
     (if (ucast (isAxisWithSafety t) :: u8) \<noteq> 0 \<and> (ucast (isAxisSgReferenced t) :: u8) \<noteq> 0
         \<and> get32 t 0 AND 0x40000000 \<noteq> 0 \<and> (ucast (isAxisSgPositionTested t) :: u8) = 0
      then axisHasSgSafeAbsPos t else 0)"

definition hasAxisBeenChecked :: "u8 list \<Rightarrow> u32" where
  "hasAxisBeenChecked t =
     (if (ucast (isAxisWithSafety t) :: u8) \<noteq> 0 \<and> (ucast (isAxisSgReferenced t) :: u8) \<noteq> 0
         \<and> (ucast (isAxisSgPositionTested t) :: u8) \<noteq> 0
      then axisHasSgSafeAbsPos t else 0)"

definition IpoServerReplyObject_id :: "u8 list \<Rightarrow> u32" where "IpoServerReplyObject_id t = get32 t 12"

end
