(* ===== verification/ContoursFacts.thy ===== *)
theory ContoursFacts
  imports Contours
begin

text \<open>
  The angle tests as interval tests, whole degrees without rounding, and the safety state of an axis as bits.
\<close>

section \<open>Angles\<close>

lemma fl_not_nan: "fl x \<noteq> NaN" by (simp add: fl_def Let_def)

lemma dle_not_dlt: "a \<noteq> NaN \<Longrightarrow> b \<noteq> NaN \<Longrightarrow> dle a b \<longleftrightarrow> \<not> dlt b a"
  by (cases a; cases b) auto

lemma dlt_linear: "a \<noteq> NaN \<Longrightarrow> b \<noteq> NaN \<Longrightarrow> c \<noteq> NaN \<Longrightarrow> dlt a b \<Longrightarrow> dlt a c \<or> dlt c b"
  by (cases a; cases b; cases c) (auto split: if_splits)

lemma dlt_chain: "dlt a b \<Longrightarrow> dlt b c \<Longrightarrow> dlt a c"
  by (cases a; cases b; cases c) auto

lemma between_branches:
  assumes "lo \<noteq> NaN" and "hi \<noteq> NaN" and "x \<noteq> NaN"
  shows "(if dlt lo x = dlt x hi \<and> dlt lo hi then True
      else if dle x lo \<and> dlt x hi then dle hi lo
      else if dlt lo x \<and> dle hi x then dle hi lo else dlt lo x \<and> dle hi x) \<longleftrightarrow>
    (if dlt lo hi then dlt lo x \<and> dlt x hi else dlt lo x \<or> dlt x hi)"
  using dlt_linear [OF assms] dlt_chain [of lo x hi] assms by (auto simp: dle_not_dlt)

text \<open>
  C37. The test for an angle between two others is membership in the open interval widened by the tolerance at both ends;
  when the widened bounds are in the wrong order the interval runs through zero.
\<close>

theorem angle_between_interval:
  "isAngleBetween (Fin a) (Fin b) (Fin c) (Fin d) \<longleftrightarrow>
     (let lo = dsub (Fin a) (Fin d); hi = dadd (Fin d) (Fin b) in
      if dlt lo hi then dlt lo (Fin c) \<and> dlt (Fin c) hi else dlt lo (Fin c) \<or> dlt (Fin c) hi)"
  unfolding isAngleBetween_def Let_def by (rule between_branches) (simp_all add: dsub_def fl_not_nan)

lemma int_range: "- (2 ^ 40) \<le> q \<Longrightarrow> q < 2 ^ 40 + 1 \<Longrightarrow> \<bar>q\<bar> \<le> 2 ^ 41" for q :: int
  by simp

lemma whole_turns: "\<bar>n\<bar> \<le> 2 ^ 40 \<Longrightarrow> \<bar>n div 360 * 360\<bar> \<le> 2 ^ 53" for n :: int
proof -
  assume a: "\<bar>n\<bar> \<le> 2 ^ 40"
  have "n div 360 * 360 = n - n mod 360" "0 \<le> n mod 360" "n mod 360 < 360" by (simp_all add: minus_mod_eq_div_mult)
  then show ?thesis using a by simp
qed

lemma floor_rnd:
  assumes "\<bar>x\<bar> \<le> 2 ^ 40" and "x \<le> of_int \<lfloor>x\<rfloor> + 1 - 1 / 2 ^ 9"
  shows "\<lfloor>rnd x\<rfloor> = \<lfloor>x\<rfloor>"
proof -
  let ?q = "\<lfloor>x\<rfloor>"
  have b: "\<bar>?q\<bar> \<le> 2 ^ 41"
  proof -
    have "- (2 ^ 40) \<le> x" "x \<le> 2 ^ 40" using assms(1) by (auto simp: abs_le_iff)
    then have "of_int (- (2 ^ 40)) \<le> x" "x < of_int (2 ^ 40 + 1)" by simp_all
    then have "- (2 ^ 40) \<le> ?q" "?q < 2 ^ 40 + 1" by (simp_all only: le_floor_iff floor_less_iff)
    then show ?thesis by (rule int_range)
  qed
  have lo: "of_int ?q \<le> rnd x" using rnd_mono [of "of_int ?q" x] rnd_int [of ?q] b by simp
  have "rnd (of_int ((?q + 1) * 2 ^ 9 - 1) * 2 powi - 9) = of_int ((?q + 1) * 2 ^ 9 - 1) * 2 powi - 9"
    using b by (intro rnd_exact) auto
  moreover have "of_int ((?q + 1) * 2 ^ 9 - 1) * 2 powi - 9 = (of_int ?q + 1 - 1 / 2 ^ 9 :: rat)"
    by (simp add: power_int_def field_simps)
  ultimately have "rnd (of_int ?q + 1 - 1 / 2 ^ 9) = of_int ?q + 1 - 1 / 2 ^ 9" by (simp only:)
  then have "rnd x \<le> of_int ?q + 1 - 1 / 2 ^ 9" by (rule rnd_le_I [OF assms(2)])
  then have "rnd x < of_int ?q + 1" by simp
  then show ?thesis using lo by (intro floor_unique) simp_all
qed

lemma whole_moderate: "\<bar>n\<bar> \<le> 2 ^ 53 \<Longrightarrow> moderate (of_int n)"
proof -
  assume "\<bar>n\<bar> \<le> 2 ^ 53"
  then have "of_int \<bar>n\<bar> \<le> (of_int (2 ^ 53) :: rat)" unfolding of_int_le_iff .
  then have "\<bar>of_int n\<bar> \<le> (2 :: rat) ^ 53" by simp
  then show ?thesis by (rule moderate_I) (rule power_increasing; simp)
qed

lemma whole_ops:
  "\<bar>m - n\<bar> \<le> 2 ^ 53 \<Longrightarrow> dsub (Fin (of_int m)) (Fin (of_int n)) = Fin (of_int (m - n))"
  "\<bar>m * n\<bar> \<le> 2 ^ 53 \<Longrightarrow> dmul (Fin (of_int m)) (Fin (of_int n)) = Fin (of_int (m * n))"
  using whole_moderate [of "m - n"] rnd_int [of "m - n"] whole_moderate [of "m * n"] rnd_int [of "m * n"]
  by (simp_all add: dsub_Fin dmul_Fin del: dmul.simps)

text \<open>
   On whole degrees up to \<open>2 ^ 40\<close> the normalisation is exact: the result is the remainder of the angle modulo 360, moved
  into the range above -180 and up to 180.
\<close>

theorem normalize_degrees:
  assumes "\<bar>n\<bar> \<le> 2 ^ 40"
  shows "normalize_angle (Fin (of_int n)) True = Fin (of_int (if 180 < n mod 360 then n mod 360 - 360 else n mod 360))"
proof -
  let ?x = "(of_int n :: rat) / 360"
  have fl: "\<lfloor>?x\<rfloor> = n div 360" using floor_divide_of_int_eq [of n 360] by simp
  have e: "?x = of_int (n div 360) + of_int (n mod 360) / 360"
  proof -
    have "(of_int n :: rat) = of_int (n div 360 * 360 + n mod 360)" by (simp only: div_mult_mod_eq)
    also have "\<dots> = of_int (n div 360) * 360 + of_int (n mod 360)" by (simp only: of_int_add of_int_mult of_int_numeral)
    finally show ?thesis by (simp add: add_divide_distrib)
  qed
  have "of_int (n mod 360) \<le> (of_int 359 :: rat)" unfolding of_int_le_iff by simp
  then have up: "?x \<le> of_int \<lfloor>?x\<rfloor> + 1 - 1 / 2 ^ 9" unfolding fl unfolding e by simp
  have nb: "\<bar>of_int n\<bar> \<le> (2 :: rat) ^ 40"
  proof -
    have "of_int \<bar>n\<bar> \<le> (of_int (2 ^ 40) :: rat)" unfolding of_int_le_iff using assms .
    then show ?thesis by simp
  qed
  then have xb: "\<bar>?x\<bar> \<le> 2 ^ 40" by simp
  have "moderate ?x" using xb by (rule moderate_I) (rule power_increasing; simp)
  then have q: "dfloor (ddiv (Fin (of_int n)) (Fin 360)) = Fin (of_int (n div 360))"
    using floor_rnd [OF xb up] fl by (simp add: ddiv_Fin del: ddiv.simps)
  have db: "\<bar>n div 360 * 360\<bar> \<le> 2 ^ 53" by (rule whole_turns [OF assms])
  have p: "dmul (Fin (of_int (n div 360))) (Fin 360) = Fin (of_int (n div 360 * 360))"
    using whole_ops(2) [OF db] by simp
  have r: "dsub (Fin (of_int n)) (Fin (of_int (n div 360 * 360))) = Fin (of_int (n mod 360))"
    using whole_ops(1) [of n "n div 360 * 360"] by (simp add: minus_div_mult_eq_mod)
  have s: "dsub (Fin (of_int (n mod 360))) (Fin 360) = Fin (of_int (n mod 360 - 360))"
    using whole_ops(1) [of "n mod 360" 360] by simp
  have g: "dlt (Fin 180) (Fin (of_int (n mod 360))) \<longleftrightarrow> 180 < n mod 360"
    using of_int_less_iff [of 180 "n mod 360", where ?'a = rat] by simp
  show ?thesis unfolding normalize_angle_def Let_def if_True q p r g s by simp
qed

theorem normalize_degrees_witness: "normalize_angle (Fin (of_int (- 450))) True = Fin (of_int (- 90))"
  using normalize_degrees [of "- 450"] by simp

section \<open>Axis safety\<close>

lemma bit_one: "drop_bit n w AND 1 = of_bool (bit w n)" for w :: u32
  by (simp add: and_one_eq bit_iff_odd_drop_bit mod_2_eq_odd)

lemma top_bit: "drop_bit 31 w = (of_bool (bit w 31) :: u32)" for w :: u32
proof (rule bit_word_eqI)
  fix n assume "n < LENGTH(32)"
  have "\<not> bit w (31 + n)" if "n \<noteq> 0" using that bit_imp_le_length [of w "31 + n"] by auto
  then show "bit (drop_bit 31 w) n = bit (of_bool (bit w 31) :: u32) n" by (cases "n = 0") (auto simp: bit_drop_bit_eq bit_1_iff)
qed

lemma mask_bit: "w AND 0x40000000 \<noteq> 0 \<longleftrightarrow> bit w 30" for w :: u32
  using and_exp_eq_0_iff_not_bit [of w 30] by simp

text \<open>
  C38. An axis counts as checked, or as still to be checked, exactly by its safety bits: both need the safety option (31), the
  reference (28) and a safe absolute position (bit 27 of the second word); the tested bit (29) separates the two, so no
  axis is ever in both states, and bit 30 asks for the check.
\<close>

theorem axis_check_bits:
  "doesAxisRequireChecking t = of_bool (bit (get32 t 0) 31 \<and> bit (get32 t 0) 28 \<and> bit (get32 t 4) 27 \<and> \<not> bit (get32 t 0) 29 \<and> bit (get32 t 0) 30)
   \<and> hasAxisBeenChecked t = of_bool (bit (get32 t 0) 31 \<and> bit (get32 t 0) 28 \<and> bit (get32 t 4) 27 \<and> bit (get32 t 0) 29)"
  by (auto simp: doesAxisRequireChecking_def hasAxisBeenChecked_def isAxisWithSafety_def isAxisSgReferenced_def
      isAxisSgPositionTested_def axisHasSgSafeAbsPos_def bit_one top_bit mask_bit)

lemma axis_check_exclusive: "doesAxisRequireChecking t = 0 \<or> hasAxisBeenChecked t = 0"
  by (simp add: doesAxisRequireChecking_def hasAxisBeenChecked_def)

end
