(* ===== verification/Spec2Isabelle.thy ===== *)
theory Spec2Isabelle
  imports WmActivate Typed SpinLock ShimFacts HdhInput PlcInfo CfgFix DkompFacts Wznorm PlcCond Classify TextNumFacts GeoBits NodeLists GeolibFacts DintabsFacts CyclesFacts ContoursFacts
begin

text \<open>
  A verification development for the HeROS runtime of TNC640unix: the preloaded library
  \<open>src/emulator/heros_rtos.c\<close>, which answers the real-time system calls (number 222) of the control's
  i386 programs on a plain Linux host, the device shim \<open>src/emulator/herosapi_shim.c\<close> beside it, the older
  single-process emulator, the configuration fix, and the libraries that \<open>src/recomp\<close> rebuilds.

  The runtime.  All processes map one control segment (\<open>struct ctl\<close>), guarded by a futex lock: tasks,
  semaphores, queues with their message rings, regions.  A call comes in through \<open>syscall()\<close>, is decoded and
  served by one operation; operations store into the segment and wake threads that sleep on a futex word
  of it.  The window manager's and configuration server's peers that do not run on the host are replaced
  by messages the runtime posts itself, from hooks of \<open>q_send\<close> and from two threads.

  Conventions.  \<open>Segment\<close> holds the record \<open>st\<close>: the shared segment \<open>sh\<close>, the process-local state \<open>lo\<close>
  and \<open>injs\<close>, the switches read from the environment (\<open>ecf\<close>, \<open>qcf\<close>, \<open>icf\<close>), and the list \<open>fx\<close> of what was
  asked of the kernel (futex wakes, signals, pipe writes).  An operation maps \<open>st\<close> to its result and the new
  \<open>st\<close>.  Where the code sleeps, a pass or a turn of its loop is a definition that answers what it waits
  for; what another process does meanwhile is a step of the environment.  32-bit integers are words, read
  with \<open>sint\<close> or \<open>unat\<close> as the C code does; buffers are byte lists that read as zero behind their end, as the
  zero-filled mapping does.  What the kernel answers (thread ids, the clock, \<open>mmap\<close>, \<open>fork\<close>, files, the
  guest's memory) is an argument.

  Doubles.  \<open>Ieee\<close> computes with them: a finite double is a rational, each operation rounds its exact result to
  53 bits, ties to even, with gradual underflow and overflow to an infinity; NaN fails every comparison.  The two
  zeros are one value.  The C is taken as written: one rounding per operation, no 80-bit intermediates and no
  contraction to fused operations.  \<open>sqrt\<close>, \<open>sin\<close>, \<open>cos\<close> and \<open>atan\<close> are arguments; no theorem assumes more of
  them than it states.

  Theories and sources.
    \<^item> \<open>Base\<close>: words, byte buffers, C strings, scans of fixed tables; \<open>Registry\<close>: the locale of a table
      with unique keys, interpreted on tasks, semaphores, queues; \<open>Fifo\<close>: the locale of a bounded
      drop-oldest FIFO, interpreted on the message ring in \<open>QueueTable\<close>.
    \<^item> \<open>Segment\<close>: \<open>struct ctl\<close> and \<open>ctl_init\<close>; \<open>SpinLock\<close>: \<open>lock\<close> and \<open>unlock\<close> as steps of any number of
      threads, mutual exclusion and no lost wake-up by rule induction.
    \<^item> \<open>Tasks\<close> (\<open>task_self\<close>, \<open>task_slot\<close>, process names), \<open>Events\<close> (\<open>ev_send\<close>, the pipes behind
      \<open>/dev/events\<close>), \<open>EvReceive\<close>, \<open>Signals\<close> (\<open>as_send\<close>, \<open>as_mask_op\<close>, \<open>as_read\<close>), \<open>Semaphores\<close>.
    \<^item> \<open>QueueTable\<close> (ring, \<open>q_delete\<close>), \<open>QueueIdent\<close> (\<open>q_create\<close>, \<open>q_ident\<close>), \<open>QSend\<close>, \<open>QSendFacts\<close>,
      \<open>QSendDepth\<close> (\<open>q_send\<close> and its hooks), \<open>Inject\<close> (the posted replies), \<open>Wire\<close> (the marshalling of the
      FmLoad messages), \<open>WmTimer\<close>, \<open>QRead\<close>, \<open>QReadFacts\<close>, \<open>QReadMore\<close> (\<open>q_read\<close>).
    \<^item> \<open>Regions\<close>, \<open>Environ\<close> (\<open>ensure_init\<close> and its switches), \<open>Heroscall\<close>, \<open>HeroscallFacts\<close> (the
      dispatcher), \<open>Typed\<close> (the type invariant of the segment and its processes, and the steps of the whole
      runtime that preserve it), \<open>Posters\<close>, \<open>SkFlow\<close>, \<open>WmActivate\<close> (the posting threads).
    \<^item> \<open>Shim\<close>, \<open>ShimFacts\<close>: \<open>herosapi_shim.c\<close>.
    \<^item> \<open>EmuV1\<close>: the older single-process emulator \<open>heroscall_emu.c\<close> and its agreement with \<open>heros_rtos.c\<close>;
      \<open>CfgFix\<close>: \<open>cfgfix.c\<close>, the path classifiers and the guarded patch of the loaded library.
    \<^item> \<open>Dkomp\<close>, \<open>DkompFacts\<close>: the list navigators of \<open>src/recomp/dkomp\<close>, with the locales of a list cursor
      and of the path to a list head; \<open>PlcCond\<close>: character tests and the bounded stack of
      \<open>src/recomp/plccond\<close>; \<open>Wznorm\<close>: tool type codes of \<open>src/recomp/wznorm\<close>; \<open>Classify\<close>: the integer
      classifiers of \<open>gtlib\<close>, \<open>gtlib2\<close>, \<open>errplib\<close> and \<open>productid\<close>.
    \<^item> \<open>TextNum\<close>, \<open>TextNumFacts\<close>: binary texts, byte swaps, number widths, file types and the key hash
      (\<open>cfxutil\<close>, \<open>plcmap\<close>, \<open>file\<close>, \<open>spurgen\<close>, \<open>xmlhash\<close>); \<open>GeoBits\<close>: fields of geometry nodes, image
      headers, windows and axes (\<open>geometri\<close>, \<open>geometri2\<close>, \<open>aeplib\<close>, \<open>bmx\<close>, \<open>bohrcyc\<close>, \<open>winmgr\<close>, \<open>dcsiface\<close>,
      \<open>geocontours\<close>); \<open>NodeLists\<close>: the list mutators of \<open>aeplib2\<close> and the count of \<open>aequi\<close>.
    \<^item> \<open>Ieee\<close>: doubles and their rounding; \<open>Dmathe\<close>, \<open>DmatheFacts\<close>: \<open>src/recomp/dmathe\<close>, angles, intervals,
      arcs and segments; \<open>Geolib\<close>, \<open>GeolibFacts\<close>: \<open>src/recomp/geolib\<close>, distances, directions, opening angles
      and element relations; \<open>Dintabs\<close>, \<open>DintabsFacts\<close>: \<open>src/recomp/dintabs\<close>, the thread tables byte by byte.
    \<^item> \<open>Cycles\<close>, \<open>CyclesFacts\<close>: \<open>gewcyc\<close>, \<open>bohrcyc_fp\<close>, \<open>anfahr\<close>, \<open>fraescyc\<close>, \<open>cyckkorr\<close>, \<open>drehcyc\<close> and the
      boxes of \<open>spurgen\<close>; \<open>Contours\<close>, \<open>ContoursFacts\<close>: \<open>geoxcontour\<close> to \<open>geoxcontour5\<close>, \<open>geocontours2\<close>,
      \<open>metaval\<close> and the axis safety state of \<open>qsipo\<close>.
    \<^item> \<open>HdhInput\<close>: \<open>src/recomp/libhdhinput_rebuilt.c\<close>; \<open>PlcBin\<close>, \<open>PlcBinFacts\<close>, \<open>PlcInfo\<close>:
      \<open>src/recomp/plcbin/libplcbin_rebuilt.c\<close>.

  What the lemmas show.  Every table keeps distinct live keys and every operation preserves that, with the sizes
  of all fixed arrays, in every reachable state of any number of processes (\<open>runtime_typed\<close>); the ring
  refines a bounded FIFO; a send appends the message and notifies the owner, and a read gives it back
  unchanged, also through two system calls; a release of \<open>n\<close> units admits exactly \<open>n\<close> waiters; a sleeping
  receiver is woken by a send that meets its condition; the parsers take apart what the writers build;
  the loops end.  For the geometry, the theorems bound what rounding can do: angles are normalised into one
  turn, classified and subtracted within stated errors, the thread tables follow
  the rules of their series.  Some theorems state where the code does not do what it means to (ring numbers that
  wrap, names that are cut, signed timeouts, a loop that never ends on huge angles); the manifest lists them as findings.

  Bounds.  \<open>q_send\<close> calls itself through its hooks; \<open>SEND_DEPTH\<close> is 13 and \<open>q_send_returns\<close> proves that it is
  never used up.  \<open>ev_run\<close> runs 4 turns; without the timer thread the loop decides within three.  C strings are
  read up to \<open>CSTR_MAX\<close> = 4096 bytes, the page a name has to lie in.  The activation thread ends within 606
  turns and its hold time; a posting thread waits 90 turns at most.

  Not modelled.  Logging and tracing (\<open>LOG\<close>, \<open>HST\<close>), the crash handler with its \<open>sigaction\<close> guard, and the
  throttling sleeps have no effect on the emulated state.  Probes and loggers only print and forward.  The
  heap guards, X11 helpers and daemon shims wrap foreign binaries or kernel calls whose behaviour is not in
  the repository.  Of the rebuilt C++ accessors only those that compute or decide are modelled; the generated
  one-line getters (\<open>src/recomp/auto_*\<close>, \<open>src/recomp/qs_*\<close>) each read one field.  Stubs are empty, harnesses
  and scripts are not the program.
\<close>

end
